(* ===== verification/DPI_Prelude.thy ===== *)
theory DPI_Prelude
  imports "HOL-Library.Word" "HOL-Library.Monad_Syntax"
begin

text \<open>
  Shared vocabulary of the development: machine integers, little-endian byte
  encodings, byte-addressed memory over 64-bit addresses, and C strings held in
  fixed-size buffers. Undefined behaviour of the C code (an access outside a
  buffer) is the value \<^term>\<open>None\<close> of an option type throughout.

  The collections: \<open>le_simps\<close> (encoding round trips), \<open>mem_simps\<close>
  (reads over writes), \<open>cstr_simps\<close> (C strings and buffer updates).
\<close>

named_theorems le_simps \<open>little-endian encodings\<close>
named_theorems mem_simps \<open>reads over writes of byte memory\<close>
named_theorems cstr_simps \<open>C strings in buffers\<close>

unbundle bit_operations_syntax

type_synonym u8 = "8 word"
type_synonym u16 = "16 word"
type_synonym u32 = "32 word"
type_synonym u64 = "64 word"

section \<open>Counting in lists\<close>

lemma filter_update:
  "i < length xs \<Longrightarrow> length (filter P (xs[i := y])) + (if P (xs ! i) then 1 else 0)
     = length (filter P xs) + (if P y then 1 else 0)"
proof -
  assume i: "i < length xs"
  then have "length (filter P xs) = length (filter P (take i xs @ xs ! i # drop (Suc i) xs))"
    by (simp flip: id_take_nth_drop)
  then show ?thesis using i by (simp add: upd_conv_take_nth_drop)
qed

lemma filter_remove:
  "i < length xs \<Longrightarrow> length (filter P xs)
     = length (filter P (take i xs @ drop (Suc i) xs)) + (if P (xs ! i) then 1 else 0)"
  by (subst id_take_nth_drop [of i xs]) auto

section \<open>Little-endian encodings\<close>

definition le_bytes :: "nat \<Rightarrow> 'a::len word \<Rightarrow> u8 list" where
  "le_bytes n w = map (\<lambda>i. ucast (drop_bit (8 * i) w)) [0..<n]"

primrec le_word :: "u8 list \<Rightarrow> 'a::len word" where
  "le_word [] = 0"
| "le_word (b # bs) = ucast b OR push_bit 8 (le_word bs)"

lemma length_le_bytes [simp]: "length (le_bytes n w) = n"
  by (simp add: le_bytes_def)

lemma le_bytes_Nil_iff [simp]: "le_bytes n w = [] \<longleftrightarrow> n = 0"
  by (simp add: le_bytes_def)

lemma nth_le_bytes: "i < n \<Longrightarrow> le_bytes n w ! i = ucast (drop_bit (8 * i) w)"
  by (simp add: le_bytes_def)

lemma bit_le_word:
  "bit (le_word bs :: 'a::len word) k \<longleftrightarrow>
     k < LENGTH('a) \<and> k div 8 < length bs \<and> bit (bs ! (k div 8)) (k mod 8)"
proof (induction bs arbitrary: k)
  case Nil
  then show ?case by simp
next
  case (Cons b bs)
  show ?case
  proof (cases "k < 8")
    case True
    then show ?thesis
      by (auto simp: bit_or_iff bit_push_bit_iff bit_ucast_iff)
  next
    case False
    then obtain j where k: "k = j + 8" by (metis add.commute le_Suc_ex not_less)
    have "(j + 8) div 8 = Suc (j div 8)" by simp
    moreover have "\<not> bit b (j + 8)" using bit_imp_le_length [of b "j + 8"] by auto
    ultimately show ?thesis
      by (simp add: k bit_or_iff bit_push_bit_iff bit_ucast_iff Cons.IH del: div_add_self2) auto
  qed
qed

lemma le_word_le_bytes [le_simps, simp]:
  fixes w :: "'a::len word"
  assumes "LENGTH('a) \<le> 8 * n"
  shows "(le_word (le_bytes n w) :: 'a word) = w"
proof (rule bit_word_eqI)
  fix k assume k: "k < LENGTH('a)"
  then have "k div 8 < n" using assms by auto
  moreover have "8 * (k div 8) + k mod 8 = k" by simp
  ultimately show "bit (le_word (le_bytes n w) :: 'a word) k = bit w k"
    using k by (auto simp: bit_le_word nth_le_bytes bit_ucast_iff bit_drop_bit_eq)
qed

lemma le_bytes_le_word [le_simps, simp]:
  assumes "length bs = n" and "8 * n \<le> LENGTH('a::len)"
  shows "le_bytes n (le_word bs :: 'a word) = bs"
proof (rule nth_equalityI)
  show "length (le_bytes n (le_word bs :: 'a word)) = length bs" using assms by simp
next
  fix i assume i: "i < length (le_bytes n (le_word bs :: 'a word))"
  then have i': "i < n" by simp
  have "ucast (drop_bit (8 * i) (le_word bs :: 'a word)) = bs ! i"
  proof (rule bit_word_eqI)
    fix k assume "k < LENGTH(8)"
    then have k: "k < 8" by simp
    have "8 * i + k < LENGTH('a)" using i' k assms by linarith
    then show "bit (ucast (drop_bit (8 * i) (le_word bs :: 'a word)) :: u8) k = bit (bs ! i) k"
      using k i' assms by (simp add: bit_ucast_iff bit_drop_bit_eq bit_le_word)
  qed
  then show "le_bytes n (le_word bs :: 'a word) ! i = bs ! i"
    using i' by (simp add: nth_le_bytes)
qed

lemma unat_less_32: "unat (w :: u32) < 2 ^ 32"
  using unsigned_less [where 'a = nat, of w] by simp

section \<open>Byte-addressed memory\<close>

type_synonym memory = "u64 \<Rightarrow> u8"

definition load :: "memory \<Rightarrow> u64 \<Rightarrow> nat \<Rightarrow> u8 list" where
  "load m a n = map (\<lambda>i. m (a + of_nat i)) [0..<n]"

definition store :: "memory \<Rightarrow> u64 \<Rightarrow> u8 list \<Rightarrow> memory" where
  "store m a bs = (\<lambda>x. if unat (x - a) < length bs then bs ! unat (x - a) else m x)"

text \<open>\<open>inside a n x\<close>: address \<open>x\<close> is one of the \<open>n\<close> bytes from \<open>a\<close> on.\<close>

definition inside :: "u64 \<Rightarrow> nat \<Rightarrow> u64 \<Rightarrow> bool" where
  "inside a n x \<longleftrightarrow> unat (x - a) < n"

definition apart :: "u64 \<Rightarrow> nat \<Rightarrow> u64 \<Rightarrow> nat \<Rightarrow> bool" where
  "apart a n b k \<longleftrightarrow> (\<forall>x. \<not> (inside a n x \<and> inside b k x))"

abbreviation load32 :: "memory \<Rightarrow> u64 \<Rightarrow> u32" where
  "load32 m a \<equiv> le_word (load m a 4)"

abbreviation load64 :: "memory \<Rightarrow> u64 \<Rightarrow> u64" where
  "load64 m a \<equiv> le_word (load m a 8)"

lemma length_load [simp]: "length (load m a n) = n"
  by (simp add: load_def)

lemma nth_load [simp]: "i < n \<Longrightarrow> load m a n ! i = m (a + of_nat i)"
  by (simp add: load_def)

lemma unat_of_nat_small [simp]: "i < 2 ^ 64 \<Longrightarrow> unat (of_nat i :: u64) = i"
  by (simp add: unsigned_of_nat take_bit_nat_eq_self)

lemma inside_offset: "i < n \<Longrightarrow> n \<le> 2 ^ 64 \<Longrightarrow> inside a n (a + of_nat i)"
  by (simp add: inside_def)

lemma load_store_same [mem_simps, simp]:
  "length bs = n \<Longrightarrow> n \<le> 2 ^ 64 \<Longrightarrow> load (store m a bs) a n = bs"
  by (rule nth_equalityI) (simp_all add: store_def)

lemma load_store_apart [mem_simps]:
  assumes "apart a (length bs) b n" and "n \<le> 2 ^ 64"
  shows "load (store m a bs) b n = load m b n"
proof (rule nth_equalityI)
  fix i assume "i < length (load (store m a bs) b n)"
  then have "i < n" by simp
  then have "inside b n (b + of_nat i)" using assms(2) by (rule inside_offset)
  then have "\<not> inside a (length bs) (b + of_nat i)" using assms(1) by (auto simp: apart_def)
  then show "load (store m a bs) b n ! i = load m b n ! i"
    using \<open>i < n\<close> by (simp add: store_def inside_def)
qed simp

lemma store_outside [mem_simps]: "\<not> inside a (length bs) x \<Longrightarrow> store m a bs x = m x"
  by (simp add: store_def inside_def)

lemma apart_sym: "apart a n b k \<longleftrightarrow> apart b k a n"
  by (auto simp: apart_def)

lemma load_append: "load m a (n + k) = load m a n @ load m (a + of_nat n) k"
  by (rule nth_equalityI) (auto simp: nth_append add.assoc simp flip: of_nat_add)

lemma load_cong: "(\<And>x. inside a n x \<Longrightarrow> m x = m' x) \<Longrightarrow> n \<le> 2 ^ 64 \<Longrightarrow> load m a n = load m' a n"
  by (rule nth_equalityI) (simp_all add: inside_offset)

lemma store_store_append:
  assumes "length bs + length cs < 2 ^ 64"
  shows "store (store m a bs) (a + of_nat (length bs)) cs = store m a (bs @ cs)"
proof
  fix x
  define d where "d = unat (x - a)"
  have x: "x = a + of_nat d" by (simp add: d_def)
  have d: "d < 2 ^ 64" using unsigned_less [of "x - a"] by (simp add: d_def)
  show "store (store m a bs) (a + of_nat (length bs)) cs x = store m a (bs @ cs) x"
  proof (cases "d < length bs")
    case True
    then have w: "unat (of_nat d - of_nat (length bs) :: u64) = 2 ^ 64 + d - length bs"
      using assms by (simp add: unat_sub_if' d)
    moreover have "\<not> 2 ^ 64 + d - length bs < length cs" using assms by simp
    ultimately show ?thesis
      using True d by (simp add: store_def x nth_append)
  next
    case False
    then have "unat (of_nat d - of_nat (length bs) :: u64) = d - length bs"
      using assms d by (simp add: unat_sub_if')
    then show ?thesis
      using False d by (auto simp: store_def x nth_append)
  qed
qed

lemma unat_less_64: "unat (w :: u64) < 2 ^ 64"
  using unsigned_less [where 'a = nat, of w] by simp

lemma inside_unat: "unat a + n \<le> 2 ^ 64 \<Longrightarrow> inside a n x \<longleftrightarrow> unat a \<le> unat x \<and> unat x < unat a + n"
  using unat_less_64 [of a] unat_less_64 [of x] by (auto simp: inside_def unat_sub_if_size word_size)

lemma load_store_num:
  "unat a + length bs \<le> unat b \<or> unat b + n \<le> unat a \<Longrightarrow> unat a + length bs \<le> 2 ^ 64 \<Longrightarrow> unat b + n \<le> 2 ^ 64
     \<Longrightarrow> load (store m a bs) b n = load m b n"
  by (rule load_store_apart) (auto simp: apart_def inside_unat)

lemma load_zero: "le_word (load (\<lambda>_. 0) a n) = 0"
  by (rule bit_word_eqI) (auto simp: bit_le_word)

end
