(* ===== verification/C_Strings.thy ===== *)
theory C_Strings
  imports DPI_Prelude
begin

text \<open>
  C strings in fixed-size buffers, and the string routines of the payload that work on
  them: \<open>strlen\<close> and \<open>append_string\<close> of Payload/info.c, \<open>int32ToHex\<close>
  and \<open>concat\<close> of Payload/main.c. A buffer is the list of its bytes; an access
  outside it is \<^term>\<open>None\<close>.
\<close>

section \<open>Buffers\<close>

definition buf_get :: "u8 list \<Rightarrow> nat \<Rightarrow> u8 option" where
  "buf_get b i = (if i < length b then Some (b ! i) else None)"

definition buf_put :: "u8 list \<Rightarrow> nat \<Rightarrow> u8 \<Rightarrow> u8 list option" where
  "buf_put b i c = (if i < length b then Some (b[i := c]) else None)"

text \<open>The bytes a system call stores at the start of a buffer.\<close>

definition buf_fill :: "u8 list \<Rightarrow> u8 list \<Rightarrow> u8 list option" where
  "buf_fill b bs = (if length bs \<le> length b then Some (bs @ drop (length bs) b) else None)"

definition bytes_of :: "string \<Rightarrow> u8 list" where
  "bytes_of s = map (\<lambda>c. of_nat (of_char c)) s"

text \<open>A string constant of the source: its bytes and the terminator.\<close>

definition lit :: "string \<Rightarrow> u8 list" where
  "lit s = bytes_of s @ [0]"

definition c_str :: "u8 list \<Rightarrow> u8 list" where
  "c_str b = takeWhile (\<lambda>c. c \<noteq> 0) b"

abbreviation terminated :: "u8 list \<Rightarrow> bool" where
  "terminated b \<equiv> 0 \<in> set b"

text \<open>A buffer that holds a string and is zero from its terminator on, as a fresh
  zero-initialised local is.\<close>

definition zero_tailed :: "u8 list \<Rightarrow> u8 list \<Rightarrow> bool" where
  "zero_tailed s b \<longleftrightarrow> 0 \<notin> set s \<and> (\<exists>n. b = s @ replicate (Suc n) 0)"

section \<open>strlen and append\_string\<close>

function strlen_loop :: "u8 list \<Rightarrow> nat \<Rightarrow> nat option" where
  "strlen_loop buffer Len =
     (case buf_get buffer Len of
        None \<Rightarrow> None
      | Some c \<Rightarrow> if c \<noteq> 0 then strlen_loop buffer (Suc Len) else Some Len)"
  by pat_completeness auto
termination
  by (relation "measure (\<lambda>(b, n). length b - n)") (auto simp: buf_get_def split: if_splits)

declare strlen_loop.simps [simp del]

definition strlen :: "u8 list \<Rightarrow> nat option" where
  "strlen buffer = strlen_loop buffer 0"

function append_loop :: "u8 list \<Rightarrow> nat \<Rightarrow> u8 list \<Rightarrow> nat \<Rightarrow> nat \<Rightarrow> u8 list option" where
  "append_loop buffer pNew new_content i nLen =
     (if i < nLen
      then do {
        c \<leftarrow> buf_get new_content i;
        buffer' \<leftarrow> buf_put buffer (pNew + i) c;
        append_loop buffer' pNew new_content (Suc i) nLen
      }
      else Some buffer)"
  by pat_completeness auto
termination
  by (relation "measure (\<lambda>(b, p, c, i, n). n - i)") auto

declare append_loop.simps [simp del]

definition append_string :: "u8 list \<Rightarrow> u8 list \<Rightarrow> u8 list option" where
  "append_string buffer new_content = do {
     ori_len \<leftarrow> strlen buffer;
     nLen \<leftarrow> strlen new_content;
     append_loop buffer ori_len new_content 0 nLen
   }"

section \<open>int32ToHex and concat\<close>

definition hex_digit :: "u32 \<Rightarrow> u8" where
  "hex_digit BytePart =
     (if sint BytePart < 10 then 0x30 + ucast BytePart else 0x41 + (ucast BytePart - 10))"

text \<open>\<open>Value >> (4 * i)\<close> is an arithmetic shift, \<open>Value\<close> being signed.\<close>

definition BytePart :: "u32 \<Rightarrow> nat \<Rightarrow> u32" where
  "BytePart Value i = signed_drop_bit (4 * i) Value AND 0x0F"

fun hex_loop :: "u32 \<Rightarrow> u8 list \<Rightarrow> nat \<Rightarrow> nat \<Rightarrow> u8 list option" where
  \<comment> \<open>the loop counter \<open>i\<close> runs from 7 down to 0: \<open>n\<close> is \<open>i + 1\<close>\<close>
  "hex_loop Value Hex 0 x = Some Hex"
| "hex_loop Value Hex (Suc i) x = do {
     Hex' \<leftarrow> buf_put Hex x (hex_digit (BytePart Value i));
     hex_loop Value Hex' i (Suc x)
   }"

definition int32ToHex :: "u32 \<Rightarrow> u8 list \<Rightarrow> u8 list option" where
  "int32ToHex Value Hex = do {
     Hex \<leftarrow> buf_put Hex 0 0x30;
     Hex \<leftarrow> buf_put Hex 1 0x78;
     Hex \<leftarrow> hex_loop Value Hex 8 2;
     buf_put Hex 10 0
   }"

text \<open>One of the two copy loops of \<open>concat\<close>: it yields the output buffer and the
  offset reached.\<close>

function concat_loop :: "u8 list \<Rightarrow> nat \<Rightarrow> u8 list \<Rightarrow> nat \<Rightarrow> (u8 list \<times> nat) option" where
  "concat_loop Str i Output Offset =
     (case buf_get Str i of
        None \<Rightarrow> None
      | Some c \<Rightarrow>
          if c \<noteq> 0
          then do {
            Output' \<leftarrow> buf_put Output Offset c;
            concat_loop Str (Suc i) Output' (Suc Offset)
          }
          else Some (Output, Offset))"
  by pat_completeness auto
termination
  by (relation "measure (\<lambda>(s, i, b, n). length s - i)") (auto simp: buf_get_def split: if_splits)

declare concat_loop.simps [simp del]

definition concat_str :: "u8 list \<Rightarrow> u8 list \<Rightarrow> u8 list \<Rightarrow> u8 list option" where
  "concat_str StringA StringB Output = do {
     (Output, Offset) \<leftarrow> concat_loop StringA 0 Output 0;
     (Output, Offset) \<leftarrow> concat_loop StringB 0 Output Offset;
     buf_put Output Offset 0
   }"

text \<open>The digits \<open>int32ToHex\<close> prints, and the value of a digit read back.\<close>

definition hex_digits :: "u32 \<Rightarrow> u8 list" where
  "hex_digits Value = map (\<lambda>i. hex_digit (BytePart Value i)) (rev [0..<8])"

definition hex_value :: "u8 \<Rightarrow> nat" where
  "hex_value c = (if c \<le> 0x39 then unat c - 0x30 else unat c - 0x37)"

section \<open>Lemmas on buffers\<close>

lemma buf_get_Some [cstr_simps]: "i < length b \<Longrightarrow> buf_get b i = Some (b ! i)"
  by (simp add: buf_get_def)

lemma buf_put_Some [cstr_simps]: "i < length b \<Longrightarrow> buf_put b i c = Some (b[i := c])"
  by (simp add: buf_put_def)

lemma c_str_eq: "0 \<notin> set s \<Longrightarrow> c_str (s @ 0 # r) = s"
  by (induction s) (simp_all add: c_str_def)

lemma terminated_split: "terminated b \<Longrightarrow> \<exists>r. b = c_str b @ 0 # r"
proof (induction b)
  case (Cons c b)
  then show ?case by (cases "c = 0") (auto simp: c_str_def)
qed simp

lemma c_str_no_zero [simp]: "0 \<notin> set (c_str b)"
  by (auto simp: c_str_def dest: set_takeWhileD)

lemma c_str_append_zero: "0 \<in> set b \<Longrightarrow> c_str (b @ r) = c_str b"
  by (simp add: c_str_def takeWhile_append1)

lemma zero_tailed_c_str: "zero_tailed s b \<Longrightarrow> c_str b = s"
  by (auto simp: zero_tailed_def c_str_eq)

lemma zero_tailed_terminated: "zero_tailed s b \<Longrightarrow> terminated b"
  by (auto simp: zero_tailed_def)

lemma zero_tailed_replicate: "0 < n \<Longrightarrow> zero_tailed [] (replicate n 0)"
  by (auto simp: zero_tailed_def gr0_conv_Suc)

lemma zero_tailed_fill:
  assumes "0 \<notin> set s" and "length s < n"
  shows "zero_tailed s (s @ replicate (n - length s) 0)"
  using assms
  by (auto simp: zero_tailed_def Suc_diff_Suc simp del: replicate_Suc
      intro!: exI [of _ "n - Suc (length s)"])

lemma buf_fill_zero:
  "length s \<le> n \<Longrightarrow> buf_fill (replicate n 0) s = Some (s @ replicate (n - length s) 0)"
  by (simp add: buf_fill_def)

lemma replicate_update_zero [simp]: "(replicate n 0)[i := 0] = replicate n (0 :: u8)"
  by (induction n arbitrary: i) (auto split: nat.split)

section \<open>strlen and append\_string compute on C strings\<close>

lemma strlen_loop_string:
  "0 \<notin> set s \<Longrightarrow> k \<le> length s \<Longrightarrow> strlen_loop (s @ 0 # r) k = Some (length s)"
proof (induction "length s - k" arbitrary: k)
  case 0
  then show ?case
    by (subst strlen_loop.simps) (simp add: buf_get_def nth_append)
next
  case (Suc n)
  then have "k < length s" by simp
  moreover from this have "s ! k \<noteq> 0" using Suc.prems(1) by (metis nth_mem)
  ultimately show ?case using Suc
    by (subst strlen_loop.simps) (simp add: buf_get_def nth_append)
qed

lemma strlen_loop_unterminated:
  "0 \<notin> set b \<Longrightarrow> strlen_loop b k = None"
proof (induction b k rule: strlen_loop.induct)
  case (1 b k)
  then show ?case
    by (subst strlen_loop.simps) (auto simp: buf_get_def dest: nth_mem)
qed

lemma strlen_string [cstr_simps]: "0 \<notin> set s \<Longrightarrow> strlen (s @ 0 # r) = Some (length s)"
  by (simp add: strlen_def strlen_loop_string)

lemma strlen_unterminated [cstr_simps]: "\<not> terminated b \<Longrightarrow> strlen b = None"
  by (simp add: strlen_def strlen_loop_unterminated)

lemma strlen_zero_tailed [cstr_simps]: "zero_tailed s b \<Longrightarrow> strlen b = Some (length s)"
  by (auto simp: zero_tailed_def strlen_string)

lemma append_loop_copies:
  assumes "length pre + length s \<le> length b" and "take (length pre) b = pre"
    and "k \<le> length s" and "take (length pre + k) b = pre @ take k s"
  shows "append_loop b (length pre) (s @ r) k (length s)
       = Some (pre @ s @ drop (length pre + length s) b)"
  using assms
proof (induction "length s - k" arbitrary: k b)
  case 0
  then have "k = length s" by simp
  with 0 show ?case
    by (subst append_loop.simps) (simp, metis append_assoc append_take_drop_id)
next
  case (Suc n)
  then have k: "k < length s" by simp
  let ?b = "b[length pre + k := s ! k]"
  have t: "take (length pre + Suc k) ?b = pre @ take (Suc k) s"
    using k Suc.prems by (simp add: take_Suc_conv_app_nth)
  have "append_loop ?b (length pre) (s @ r) (Suc k) (length s)
      = Some (pre @ s @ drop (length pre + length s) ?b)"
    by (rule Suc.hyps(1)) (use k Suc.prems Suc.hyps(2) t in auto)
  moreover have "drop (length pre + length s) ?b = drop (length pre + length s) b"
    using k by (simp add: drop_update_cancel)
  ultimately show ?case
    using k Suc.prems
    by (subst append_loop.simps) (simp add: buf_get_def buf_put_def nth_append)
qed

lemma append_string_zero_tailed [cstr_simps]:
  assumes b: "zero_tailed s b" and t: "terminated t"
    and room: "length s + length (c_str t) < length b"
  shows "\<exists>b'. append_string b t = Some b' \<and> zero_tailed (s @ c_str t) b' \<and> length b' = length b"
proof -
  obtain n where bn: "b = s @ replicate (Suc n) 0" and s0: "0 \<notin> set s"
    using b by (auto simp: zero_tailed_def)
  obtain r where tr: "t = c_str t @ 0 # r" using terminated_split [OF t] by blast
  have lt: "strlen t = Some (length (c_str t))"
    by (subst tr) (simp add: strlen_string)
  have "append_loop b (length s) (c_str t @ 0 # r) 0 (length (c_str t))
      = Some (s @ c_str t @ drop (length s + length (c_str t)) b)"
    by (rule append_loop_copies) (use room bn in auto)
  then have "append_string b t = Some (s @ c_str t @ drop (length s + length (c_str t)) b)"
    using tr lt by (simp add: append_string_def strlen_zero_tailed [OF b])
  moreover have "drop (length s + length (c_str t)) b
      = replicate (Suc (n - length (c_str t))) 0"
    using room by (simp add: bn Suc_diff_le del: replicate_Suc)
  ultimately show ?thesis
    using s0 room bn
    by (auto simp: zero_tailed_def simp del: replicate_Suc intro!: exI [of _ "n - length (c_str t)"])
qed

section \<open>The notification texts\<close>

lemma concat_loop_string:
  assumes "0 \<notin> set s" and "i \<le> length s" and "k \<le> length Output"
  shows "concat_loop (s @ 0 # r) i Output k =
     (if k + (length s - i) \<le> length Output
      then Some (take k Output @ drop i s @ drop (k + (length s - i)) Output, k + (length s - i))
      else None)"
  using assms
proof (induction "length s - i" arbitrary: i Output k)
  case 0
  then show ?case
    by (subst concat_loop.simps) (simp add: buf_get_def nth_append)
next
  case (Suc n)
  then have i: "i < length s" by simp
  then have si: "s ! i \<noteq> 0" using Suc.prems(1) by (metis nth_mem)
  show ?case
  proof (cases "k < length Output")
    case False
    then show ?thesis using i si
      by (subst concat_loop.simps) (simp add: buf_get_def buf_put_def nth_append)
  next
    case True
    let ?O = "Output[k := s ! i]"
    have IH: "concat_loop (s @ 0 # r) (Suc i) ?O (Suc k) =
     (if Suc k + (length s - Suc i) \<le> length ?O
      then Some (take (Suc k) ?O @ drop (Suc i) s @ drop (Suc k + (length s - Suc i)) ?O,
             Suc k + (length s - Suc i))
      else None)"
      by (rule Suc.hyps(1)) (use Suc i True in auto)
    have "Suc k + (length s - Suc i) = k + (length s - i)" using i by simp
    moreover have "take (Suc k) ?O @ drop (Suc i) s = take k Output @ drop i s"
      using i True by (simp add: take_Suc_conv_app_nth Cons_nth_drop_Suc)
    moreover have "drop (k + (length s - i)) ?O = drop (k + (length s - i)) Output"
      using i by (simp add: drop_update_cancel)
    ultimately have "concat_loop (s @ 0 # r) (Suc i) ?O (Suc k) =
     (if k + (length s - i) \<le> length Output
      then Some (take k Output @ drop i s @ drop (k + (length s - i)) Output, k + (length s - i))
      else None)"
      using IH by (metis append_assoc length_list_update)
    then show ?thesis using i si True
      by (subst concat_loop.simps) (simp add: buf_get_def buf_put_def nth_append)
  qed
qed

lemma concat_str_terminated:
  assumes "terminated A" and "terminated B"
  shows "concat_str A B Output =
    (if length (c_str A) + length (c_str B) < length Output
     then Some (c_str A @ c_str B @ 0 # drop (Suc (length (c_str A) + length (c_str B))) Output)
     else None)"
proof -
  obtain ra where A: "A = c_str A @ 0 # ra" using terminated_split assms(1) by blast
  obtain rb where B: "B = c_str B @ 0 # rb" using terminated_split assms(2) by blast
  let ?a = "c_str A" and ?b = "c_str B"
  have la: "concat_loop A 0 Output 0 =
     (if length ?a \<le> length Output then Some (?a @ drop (length ?a) Output, length ?a) else None)"
    by (subst A) (simp add: concat_loop_string)
  show ?thesis
  proof (cases "length ?a \<le> length Output")
    case True
    let ?O = "?a @ drop (length ?a) Output"
    have "concat_loop B 0 ?O (length ?a) =
     (if length ?a + length ?b \<le> length Output
      then Some (?a @ ?b @ drop (length ?a + length ?b) Output, length ?a + length ?b) else None)"
      by (subst B) (simp add: concat_loop_string True add.commute)
    moreover have "buf_put (?a @ ?b @ drop (length ?a + length ?b) Output) (length ?a + length ?b) 0
       = Some (?a @ ?b @ 0 # drop (Suc (length ?a + length ?b)) Output)"
      if "length ?a + length ?b < length Output"
      using that by (simp add: buf_put_def list_update_append Cons_nth_drop_Suc [symmetric])
    ultimately show ?thesis using True
      by (auto simp: concat_str_def la buf_put_def)
  qed (simp add: concat_str_def la)
qed

lemma BytePart_unat: "i < 8 \<Longrightarrow> unat (BytePart Value i) = (unat Value div 16 ^ i) mod 16"
proof -
  assume i: "i < 8"
  have "BytePart Value i = take_bit 4 (drop_bit (4 * i) Value)"
  proof (rule bit_word_eqI)
    fix k assume "k < LENGTH(32)"
    have m: "(0x0F :: u32) = mask 4" by (simp add: mask_eq_exp_minus_1)
    show "bit (BytePart Value i) k = bit (take_bit 4 (drop_bit (4 * i) Value)) k"
      unfolding BytePart_def m using i
      by (auto simp: bit_and_iff bit_mask_iff bit_take_bit_iff bit_signed_drop_bit_iff bit_drop_bit_eq)
  qed
  moreover have "take_bit 32 (unat Value) = unat Value"
    using unat_less_32 [of Value] by (simp add: take_bit_nat_eq_self)
  ultimately have "unat (BytePart Value i) = take_bit 4 (drop_bit (4 * i) (unat Value))"
    by (simp add: unsigned_take_bit_eq unsigned_drop_bit_eq)
  then show ?thesis
    by (simp add: take_bit_eq_mod drop_bit_eq_div power_mult)
qed

lemma hex_digit_value:
  assumes "unat b < 16"
  shows "hex_value (hex_digit b) = unat b"
proof -
  obtain n where n: "b = of_nat n" "n < 16" using assms by (metis of_nat_unat ucast_id)
  then have "n \<in> {0, 1, 2, 3, 4, 5, 6, 7, 8, 9, 10, 11, 12, 13, 14, 15}" by simp arith
  then show ?thesis
    by (auto simp: n(1) hex_value_def hex_digit_def)
qed

lemma hex_loop_writes:
  "x + n \<le> length Hex \<Longrightarrow> hex_loop Value Hex n x =
     Some (take x Hex @ map (\<lambda>i. hex_digit (BytePart Value i)) (rev [0..<n]) @ drop (x + n) Hex)"
proof (induction n arbitrary: Hex x)
  case (Suc n)
  then show ?case
    by (simp add: buf_put_def take_Suc_conv_app_nth drop_update_cancel)
qed simp

lemma int32ToHex_eq:
  assumes "11 \<le> length Hex"
  shows "int32ToHex Value Hex = Some (0x30 # 0x78 # hex_digits Value @ 0 # drop 11 Hex)"
proof -
  obtain a b t where H: "Hex = a # b # t" "9 \<le> length t"
    using assms by (cases Hex; cases "tl Hex") auto
  have d: "drop 8 t = t ! 8 # drop 9 t"
    using Cons_nth_drop_Suc [of 8 t] H(2) by simp
  show ?thesis
    using assms H by (simp add: int32ToHex_def buf_put_def hex_loop_writes hex_digits_def d list_update_append)
qed

lemma foldl_base16:
  "foldl (\<lambda>a i. 16 * a + (v div 16 ^ i) mod 16) acc (rev [0..<n]) = acc * 16 ^ n + (v :: nat) mod 16 ^ n"
proof (induction n arbitrary: acc)
  case (Suc n)
  have "v mod (16 * 16 ^ n) = 16 ^ n * (v div 16 ^ n mod 16) + v mod 16 ^ n"
    using mod_mult2_eq [of v "16 ^ n" 16] by (simp add: mult.commute)
  then show ?case by (simp add: Suc.IH) (simp add: algebra_simps)
qed simp

lemma hex_digits_value:
  "foldl (\<lambda>a c. 16 * a + hex_value c) 0 (hex_digits Value) = unat Value"
proof -
  have "foldl (\<lambda>a c. 16 * a + hex_value c) 0 (hex_digits Value)
      = foldl (\<lambda>a i. 16 * a + (unat Value div 16 ^ i) mod 16) 0 (rev [0..<8])"
    unfolding hex_digits_def foldl_map
    by (rule foldl_cong) (simp_all add: hex_digit_value BytePart_unat)
  also have "\<dots> = unat Value mod 16 ^ 8" by (simp only: foldl_base16)
  also have "\<dots> = unat Value" using unat_less_32 [of Value] by simp
  finally show ?thesis .
qed

end
