(* ===== verification/Posix_Stream.thy ===== *)
theory Posix_Stream
  imports C_Strings
begin

text \<open>
  What the payload uses of the operating system's sockets and files. The behaviour of the
  environment is data of the state, over which the theorems quantify: the segments that
  arrive on the socket (\<open>rx\<close>), the results of \<open>socket\<close> and \<open>connect\<close>, how
  much each \<open>write\<close> accepts (\<open>wr\<close>), whether \<open>open\<close> succeeds, and the bytes
  uninitialised locals happen to hold (\<open>junk\<close>). \<open>read\<close> returns at most what one
  segment holds, so short reads are part of the model.

  The locale \<open>byte_sink\<close> is the contract of a descriptor that takes bytes in pieces;
  the inner loop of \<open>get_file\<close> is proved against it once and the file descriptors of
  the model interpret it.
\<close>

section \<open>State\<close>

datatype rx_event = Data "u8 list" | RxError

record net =
  rx :: "rx_event list"
  junk :: "nat \<Rightarrow> nat \<Rightarrow> u8"
  uninit :: nat
  socket_ret :: int
  connect_ret :: int
  sock_open :: bool
  peer :: "(u32 \<times> u16) option"
  open_ok :: bool
  wr :: "int list"
  files :: "u8 list \<Rightarrow> u8 list option"
  open_fds :: nat

section \<open>System calls\<close>

text \<open>\<open>read\<close> on the socket: the value returned and the bytes stored. An error is \<open>-1\<close>,
  the end of the stream 0.\<close>

fun rx_read :: "nat \<Rightarrow> rx_event list \<Rightarrow> int \<times> u8 list \<times> rx_event list" where
  "rx_read n [] = (0, [], [])"
| "rx_read n (RxError # es) = (-1, [], es)"
| "rx_read n (Data bs # es) =
     (if bs = [] then rx_read n es
      else if n = 0 then (0, [], Data bs # es)
      else if length bs \<le> n then (int (length bs), bs, es)
      else (int n, take n bs, Data (drop n bs) # es))"

definition sys_read :: "nat \<Rightarrow> net \<Rightarrow> int \<times> u8 list \<times> net" where
  "sys_read n s = (case rx_read n (rx s) of (r, bs, es) \<Rightarrow> (r, bs, s\<lparr>rx := es\<rparr>))"

text \<open>A local array of \<open>n\<close> bytes with no initialiser, after \<open>bs\<close> was stored at its start.\<close>

definition uninit_buf :: "nat \<Rightarrow> u8 list \<Rightarrow> net \<Rightarrow> u8 list \<times> net" where
  "uninit_buf n bs s =
     (take n (bs @ drop (length bs) (map (junk s (uninit s)) [0..<n])), s\<lparr>uninit := Suc (uninit s)\<rparr>)"

definition sys_socket :: "net \<Rightarrow> int \<times> net" where
  "sys_socket s = (socket_ret s, s\<lparr>sock_open := 0 \<le> socket_ret s\<rparr>)"

definition sys_connect :: "u32 \<Rightarrow> u16 \<Rightarrow> net \<Rightarrow> int \<times> net" where
  "sys_connect a p s = (connect_ret s, s\<lparr>peer := if 0 \<le> connect_ret s then Some (a, p) else None\<rparr>)"

definition sys_close_sock :: "net \<Rightarrow> net" where
  "sys_close_sock s = s\<lparr>sock_open := False\<rparr>"

text \<open>A file descriptor is the path it was opened on; \<open>None\<close> stands for \<open>-1\<close>.
  The flags are O\_WRONLY, O\_CREAT and O\_TRUNC.\<close>

definition sys_open_trunc :: "u8 list \<Rightarrow> net \<Rightarrow> u8 list option \<times> net" where
  "sys_open_trunc path s =
     (if open_ok s
      then (Some path, s\<lparr>files := (files s)(path \<mapsto> []), open_fds := Suc (open_fds s)\<rparr>)
      else (None, s))"

definition sys_write :: "u8 list option \<Rightarrow> u8 list \<Rightarrow> net \<Rightarrow> int \<times> net" where
  "sys_write h data s =
     (case h of
        None \<Rightarrow> (-1, s)
      | Some path \<Rightarrow>
          let r = (case wr s of [] \<Rightarrow> int (length data) | r # _ \<Rightarrow> min r (int (length data)));
              s' = s\<lparr>wr := tl (wr s)\<rparr>
          in if r \<le> 0 then (r, s')
             else (r, s'\<lparr>files := (files s)(path \<mapsto>
                     (case files s path of None \<Rightarrow> [] | Some c \<Rightarrow> c) @ take (nat r) data)\<rparr>))"

definition sys_close :: "u8 list option \<Rightarrow> net \<Rightarrow> net" where
  "sys_close h s = (case h of None \<Rightarrow> s | Some _ \<Rightarrow> s\<lparr>open_fds := open_fds s - 1\<rparr>)"

section \<open>What arrives on the socket\<close>

fun rx_bytes :: "rx_event list \<Rightarrow> u8 list" where
  "rx_bytes [] = []"
| "rx_bytes (RxError # es) = rx_bytes es"
| "rx_bytes (Data bs # es) = bs @ rx_bytes es"

fun rx_clean :: "rx_event list \<Rightarrow> bool" where
  "rx_clean [] = True"
| "rx_clean (RxError # es) = False"
| "rx_clean (Data bs # es) = rx_clean es"

lemma rx_read_bytes: "rx_read n es = (r, bs, es') \<Longrightarrow> rx_bytes es = bs @ rx_bytes es'"
proof (induction n es rule: rx_read.induct)
  case (3 n bs' es)
  then show ?case by (cases "bs' = []") (auto split: if_splits)
qed auto

lemma rx_read_ret: "rx_read n es = (r, bs, es') \<Longrightarrow> r = int (length bs) \<or> (r = -1 \<and> bs = [])"
  by (induction n es rule: rx_read.induct) (auto split: if_splits)

lemma rx_read_bound: "rx_read n es = (r, bs, es') \<Longrightarrow> length bs \<le> n"
  by (induction n es rule: rx_read.induct) (auto split: if_splits)

lemma rx_read_clean: "rx_clean es \<Longrightarrow> rx_read n es = (r, bs, es') \<Longrightarrow> rx_clean es' \<and> r = int (length bs)"
  by (induction n es rule: rx_read.induct) (auto split: if_splits)

lemma rx_read_progress:
  "rx_clean es \<Longrightarrow> 0 < n \<Longrightarrow> rx_bytes es \<noteq> [] \<Longrightarrow> rx_read n es = (r, bs, es') \<Longrightarrow> bs \<noteq> []"
  by (induction n es rule: rx_read.induct) (auto split: if_splits)

lemma rx_read_segment [simp]:
  "0 < length bs \<Longrightarrow> rx_read (length bs) (Data (bs @ cs) # es)
     = (int (length bs), bs, if cs = [] then es else Data cs # es)"
  by auto

lemma uninit_buf_full: "length bs = n \<Longrightarrow> uninit_buf n bs s = (bs, s\<lparr>uninit := Suc (uninit s)\<rparr>)"
  by (simp add: uninit_buf_def)

section \<open>A descriptor that takes bytes in pieces\<close>

locale byte_sink =
  fixes put :: "'h \<Rightarrow> u8 list \<Rightarrow> 's \<Rightarrow> int \<times> 's"
    and content :: "'h \<Rightarrow> 's \<Rightarrow> u8 list"
    and usable :: "'h \<Rightarrow> 's \<Rightarrow> bool"
  assumes put_bound: "put h d s = (r, s') \<Longrightarrow> r \<le> int (length d)"
    and put_some: "usable h s \<Longrightarrow> put h d s = (r, s') \<Longrightarrow> 0 < r \<Longrightarrow>
      content h s' = content h s @ take (nat r) d \<and> usable h s'"
    and put_none: "usable h s \<Longrightarrow> put h d s = (r, s') \<Longrightarrow> r \<le> 0 \<Longrightarrow>
      content h s' = content h s \<and> usable h s'"
begin

lemma put_prefix:
  assumes "usable h s" and "put h d s = (r, s')"
  shows "\<exists>k. k \<le> length d \<and> content h s' = content h s @ take k d"
proof (cases "0 < r")
  case True
  with assms put_some put_bound [OF assms(2)] show ?thesis
    by (intro exI [of _ "nat r"]) auto
next
  case False
  with assms put_none show ?thesis by (intro exI [of _ 0]) auto
qed

lemma put_twice:
  assumes u: "usable h s" and p: "put h d s = (r, s')" "0 < r"
    and q: "put h (drop (nat r) d) s' = (r', s'')" "0 < r'"
  shows "content h s'' = content h s @ take (nat (r + r')) d \<and> usable h s''"
proof -
  from put_some [OF u p] have c: "content h s' = content h s @ take (nat r) d" and u': "usable h s'"
    by auto
  from put_some [OF u' q] have "content h s'' = content h s' @ take (nat r') (drop (nat r) d)"
    and "usable h s''" by auto
  then show ?thesis using c p(2) q(2) by (simp add: nat_add_distrib take_add)
qed

end

definition fd_content :: "u8 list option \<Rightarrow> net \<Rightarrow> u8 list" where
  "fd_content h s = (case h of None \<Rightarrow> [] | Some p \<Rightarrow> (case files s p of None \<Rightarrow> [] | Some c \<Rightarrow> c))"

interpretation fd: byte_sink sys_write fd_content "\<lambda>h s. h \<noteq> None"
  by unfold_locales
    (auto simp: sys_write_def fd_content_def Let_def split: option.splits list.splits if_splits)

lemma sys_write_frame:
  "sys_write h d s = (r, s') \<Longrightarrow> rx s' = rx s \<and> open_fds s' = open_fds s
     \<and> sock_open s' = sock_open s \<and> uninit s' = uninit s \<and> peer s' = peer s"
  by (auto simp: sys_write_def Let_def split: option.splits list.splits if_splits)

lemma sys_read_frame:
  "sys_read n s = (r, bs, s') \<Longrightarrow> files s' = files s \<and> open_fds s' = open_fds s
     \<and> wr s' = wr s \<and> sock_open s' = sock_open s \<and> uninit s' = uninit s \<and> peer s' = peer s
     \<and> open_ok s' = open_ok s"
  by (auto simp: sys_read_def split: prod.splits)

end
