(* ===== verification/Pkg_Info.thy ===== *)
theory Pkg_Info
  imports Posix_Stream
begin

text \<open>
  Payload/info.c and the structures of Payload/struct.h: the payload's side of the
  connection to the host application. Each operation takes the state of
  \<open>Posix_Stream\<close> and returns it updated; \<^term>\<open>None\<close> is undefined behaviour (an
  access outside a buffer).
\<close>

section \<open>Structures\<close>

text \<open>The locals of \<open>get_pkg_info\<close> that the parameters point to when it returns.\<close>

datatype frame_slot = L_url | L_name | L_id | L_icon_path | L_pkg_type

text \<open>A \<open>const char*\<close>: null, a string constant, or the address of one of those locals.\<close>

datatype cptr = NULL_ptr | Static string | Frame frame_slot

text \<open>\<open>enum bgft_task_option_t\<close>.\<close>

definition BGFT_TASK_OPTION_NONE :: u32 where "BGFT_TASK_OPTION_NONE = 0x0"
definition BGFT_TASK_OPTION_DELETE_AFTER_UPLOAD :: u32 where "BGFT_TASK_OPTION_DELETE_AFTER_UPLOAD = 0x1"
definition BGFT_TASK_OPTION_INVISIBLE :: u32 where "BGFT_TASK_OPTION_INVISIBLE = 0x2"
definition BGFT_TASK_OPTION_ENABLE_PLAYGO :: u32 where "BGFT_TASK_OPTION_ENABLE_PLAYGO = 0x4"
definition BGFT_TASK_OPTION_FORCE_UPDATE :: u32 where "BGFT_TASK_OPTION_FORCE_UPDATE = 0x8"
definition BGFT_TASK_OPTION_REMOTE :: u32 where "BGFT_TASK_OPTION_REMOTE = 0x10"
definition BGFT_TASK_OPTION_COPY_CRASH_REPORT_FILES :: u32 where "BGFT_TASK_OPTION_COPY_CRASH_REPORT_FILES = 0x20"
definition BGFT_TASK_OPTION_DISABLE_INSERT_POPUP :: u32 where "BGFT_TASK_OPTION_DISABLE_INSERT_POPUP = 0x40"
definition BGFT_TASK_OPTION_DISABLE_CDN_QUERY_PARAM :: u32 where "BGFT_TASK_OPTION_DISABLE_CDN_QUERY_PARAM = 0x10000"

record bgft_download_param =
  user_id :: u32
  entitlement_type :: u32
  param_id :: cptr
  content_url :: cptr
  content_ex_url :: cptr
  content_name :: cptr
  param_icon_path :: cptr
  sku_id :: cptr
  option_flags :: u32
  playgo_scenario_id :: cptr
  release_date :: cptr
  package_type :: cptr
  package_sub_type :: cptr
  package_size :: u64

text \<open>The host's address, patched into the image before the payload is sent.\<close>

record connection =
  addr :: u32
  port :: u16

definition Connection_unpatched :: connection where
  "Connection_unpatched = \<lparr>addr = 0xb4b4b4b4, port = 0xb4b4\<rparr>"

record pkg_frame =
  url :: "u8 list"
  name :: "u8 list"
  pkg_id :: "u8 list"
  icon_name :: "u8 list"
  icon_path :: "u8 list"
  pkg_type :: "u8 list"

definition fresh_frame :: pkg_frame where
  "fresh_frame = \<lparr>url = replicate 0x800 0, name = replicate 0x259 0, pkg_id = replicate 0x30 0,
     icon_name = replicate 100 0, icon_path = replicate 0x800 0, pkg_type = replicate 0x10 0\<rparr>"

section \<open>Reading integers and strings\<close>

definition get_uint32 :: "net \<Rightarrow> u32 \<times> net" where
  "get_uint32 s =
     (case sys_read 4 s of (_, bs, s) \<Rightarrow>
      case uninit_buf 4 bs s of (dword, s) \<Rightarrow> (le_word dword, s))"

definition get_uint64 :: "net \<Rightarrow> u64 \<times> net" where
  "get_uint64 s =
     (case sys_read 8 s of (_, bs, s) \<Rightarrow>
      case uninit_buf 8 bs s of (qword, s) \<Rightarrow> (le_word qword, s))"

definition get_string :: "u8 list \<Rightarrow> nat \<Rightarrow> net \<Rightarrow> (int \<times> u8 list \<times> net) option" where
  "get_string Buffer MAX_SIZE s =
     (case get_uint32 s of (str_len, s) \<Rightarrow> do {
        Buffer \<leftarrow> buf_put Buffer 0 0;
        if str_len > of_nat MAX_SIZE then Some (-1, Buffer, s)
        else (case sys_read (unat str_len) s of (_, bs, s) \<Rightarrow> do {
          Buffer \<leftarrow> buf_fill Buffer bs;
          Some (0, Buffer, s)
        })
      })"

section \<open>Receiving the icon\<close>

definition get_file_path :: "u8 list \<Rightarrow> u8 list \<Rightarrow> u8 list option" where
  "get_file_path path fname = do {
     path \<leftarrow> buf_put path 0 0;
     path \<leftarrow> append_string path (lit ''/user/data/tmp_'');
     append_string path fname
   }"

text \<open>The inner loop: false when a \<open>write\<close> failed.\<close>

function write_loop :: "u8 list option \<Rightarrow> u8 list \<Rightarrow> net \<Rightarrow> bool \<times> net" where
  "write_loop hFile data s =
     (if data = [] then (True, s)
      else (case sys_write hFile data s of (written, s') \<Rightarrow>
        if written \<le> 0 then (False, s') else write_loop hFile (drop (nat written) data) s'))"
  by pat_completeness auto
termination
  by (relation "measure (\<lambda>(h, d, s). length d)") auto

declare write_loop.simps [simp del]

text \<open>The outer loop, for a length field of value \<open>len\<close> (a signed int, so possibly
  negative: \<open>read\<close> then gets the size converted to an unsigned 64-bit count). The result
  tells whether the loop was left normally, in which case the descriptor is closed.\<close>

definition read_count :: "int \<Rightarrow> nat" where
  "read_count len = unat (word_of_int (if len < 4096 then len else 4096) :: u64)"

definition int_sub :: "int \<Rightarrow> int \<Rightarrow> int" where
  "int_sub len readed = sint (word_of_int (len - readed) :: u32)"

function file_loop :: "u8 list option \<Rightarrow> int \<Rightarrow> net \<Rightarrow> (bool \<times> net) option" where
  "file_loop hFile len s =
     (case sys_read (read_count len) s of (readed, bs, s1) \<Rightarrow>
        if readed > 0
        then if length bs > 4096 then None
          else (case write_loop hFile bs s1 of (ok, s2) \<Rightarrow>
            if \<not> ok then Some (False, s2)
            else if int_sub len readed \<le> 0 then Some (True, s2)
            else file_loop hFile (int_sub len readed) s2)
        else Some (True, s1))"
  by pat_completeness auto

lemma write_loop_rx: "write_loop h d s = (ok, s') \<Longrightarrow>
    rx s' = rx s \<and> open_fds s' = open_fds s \<and> sock_open s' = sock_open s \<and> peer s' = peer s"
proof (induction h d s arbitrary: ok s' rule: write_loop.induct)
  case (1 h d s)
  show ?case
  proof (cases "d = []")
    case True
    then show ?thesis using "1.prems" by (simp add: write_loop.simps [of h "[]" s])
  next
    case False
    obtain r s1 where w: "sys_write h d s = (r, s1)" by fastforce
    have f: "rx s1 = rx s \<and> open_fds s1 = open_fds s \<and> sock_open s1 = sock_open s \<and> peer s1 = peer s"
      using sys_write_frame [OF w] by simp
    show ?thesis
    proof (cases "r \<le> 0")
      case True
      then show ?thesis using "1.prems" f w False by (simp add: write_loop.simps [of h d s])
    next
      case r: False
      then have "write_loop h (drop (nat r) d) s1 = (ok, s')"
        using "1.prems" w False by (simp add: write_loop.simps [of h d s])
      then show ?thesis using "1.IH" [OF False w [symmetric] r] f by simp
    qed
  qed
qed

lemma read_shrinks:
  assumes "sys_read n s = (r, bs, s')" and "0 < r"
  shows "length (rx_bytes (rx s')) < length (rx_bytes (rx s))"
proof -
  obtain es where e: "rx_read n (rx s) = (r, bs, es)" and s': "s' = s\<lparr>rx := es\<rparr>"
    using assms(1) by (auto simp: sys_read_def split: prod.splits)
  have "bs \<noteq> []" using rx_read_ret [OF e] assms(2) by auto
  then show ?thesis using rx_read_bytes [OF e] by (simp add: s')
qed

termination file_loop
  by (relation "measure (\<lambda>(h, len, s). length (rx_bytes (rx s)))")
    (auto dest!: read_shrinks [OF sym] write_loop_rx [OF sym])

declare file_loop.simps [simp del]

definition get_file :: "u8 list \<Rightarrow> u8 list \<Rightarrow> net \<Rightarrow> (int \<times> u8 list \<times> net) option" where
  "get_file out_path fname s = do {
     out_path \<leftarrow> buf_put out_path 0 0;
     (case get_uint32 s of (len, s) \<Rightarrow>
       if sint len = 0 then Some (0, out_path, s)
       else do {
         out_path \<leftarrow> get_file_path out_path fname;
         (case sys_open_trunc (c_str out_path) s of (hFile, s) \<Rightarrow> do {
           (finished, s) \<leftarrow> file_loop hFile (sint len) s;
           Some (1, out_path, if finished then sys_close hFile s else s)
         })
       })
   }"

section \<open>get\_pkg\_info\<close>

text \<open>The fields in order: each \<open>get_string\<close> that fails ends the function with \<open>-1\<close>. The
  socket is closed on the paths where the source closes it. \<open>icon_path[0] == 0x00\<close>, executed
  when there is no icon, compares and has no effect.\<close>

definition get_pkg_info ::
  "connection \<Rightarrow> bgft_download_param \<Rightarrow> net \<Rightarrow> (int \<times> bgft_download_param \<times> pkg_frame \<times> net) option" where
  "get_pkg_info Connection params s =
     (let fr = fresh_frame in
      case sys_socket s of (sock, s) \<Rightarrow>
      if sock < 0 then Some (-1, params, fr, s)
      else (case sys_connect (addr Connection) (port Connection) s of (c, s) \<Rightarrow>
      if c < 0 then Some (-1, params, fr, sys_close_sock s)
      else (case get_uint32 s of (command, s) \<Rightarrow>
      if command = 0 then Some (1, params, fr, sys_close_sock s)
      else do {
        (r, b, s) \<leftarrow> get_string (url fr) 0x800 s;
        let fr = fr\<lparr>url := b\<rparr>;
        if r = -1 then Some (-1, params, fr, s) else do {
        (r, b, s) \<leftarrow> get_string (name fr) 0x259 s;
        let fr = fr\<lparr>name := b\<rparr>;
        if r = -1 then Some (-1, params, fr, s) else do {
        (r, b, s) \<leftarrow> get_string (pkg_id fr) 0x30 s;
        let fr = fr\<lparr>pkg_id := b\<rparr>;
        if r = -1 then Some (-1, params, fr, s) else do {
        (r, b, s) \<leftarrow> get_string (pkg_type fr) 0x10 s;
        let fr = fr\<lparr>pkg_type := b\<rparr>;
        if r = -1 then Some (-1, params, fr, s) else
        (case get_uint64 s of (pkg_size, s) \<Rightarrow> do {
          nm \<leftarrow> append_string (icon_name fr) (pkg_id fr);
          nm \<leftarrow> append_string nm (lit ''.png'');
          let fr = fr\<lparr>icon_name := nm\<rparr>;
          (r, p, s) \<leftarrow> get_file (icon_path fr) (icon_name fr) s;
          let fr = fr\<lparr>icon_path := p\<rparr>;
          Some (0, params\<lparr>param_id := Frame L_id, content_url := Frame L_url,
                     content_name := Frame L_name, package_size := pkg_size,
                     param_icon_path := Frame L_icon_path, package_type := Frame L_pkg_type\<rparr>,
                fr, sys_close_sock s)
        })}}}})))"

section \<open>Reading from a segment\<close>

text \<open>What is left of a segment, and the segments behind it.\<close>

definition rx_push :: "u8 list \<Rightarrow> rx_event list \<Rightarrow> rx_event list" where
  "rx_push cs es = (if cs = [] then es else Data cs # es)"

lemma rx_push_bytes [simp]: "rx_bytes (rx_push cs es) = cs @ rx_bytes es"
  by (simp add: rx_push_def)

lemma rx_push_clean [simp]: "rx_clean (rx_push cs es) = rx_clean es"
  by (simp add: rx_push_def)

lemma rx_read_push:
  "0 < length bs \<Longrightarrow> n = length bs \<Longrightarrow>
     rx_read n (rx_push (bs @ cs) es) = (int n, bs, rx_push cs es)"
  by (auto simp: rx_push_def)

lemma get_uint32_push:
  "rx s = rx_push (le_bytes 4 w @ cs) es \<Longrightarrow>
     get_uint32 s = (w, s\<lparr>rx := rx_push cs es, uninit := Suc (uninit s)\<rparr>)"
  by (simp add: get_uint32_def sys_read_def rx_read_push uninit_buf_full)

lemma get_uint64_push:
  "rx s = rx_push (le_bytes 8 w @ cs) es \<Longrightarrow>
     get_uint64 s = (w, s\<lparr>rx := rx_push cs es, uninit := Suc (uninit s)\<rparr>)"
  by (simp add: get_uint64_def sys_read_def rx_read_push uninit_buf_full)

definition str_field :: "u8 list \<Rightarrow> u8 list" where
  "str_field x = le_bytes 4 (of_nat (length x) :: u32) @ x"

lemma get_string_push:
  assumes "rx s = rx_push (str_field x @ cs) es" and "cs \<noteq> []"
    and "length x \<le> n" and "n < 2 ^ 32" and "0 < n"
  shows "get_string (replicate n 0) n s =
     Some (0, x @ replicate (n - length x) 0, s\<lparr>rx := rx_push cs es, uninit := Suc (uninit s)\<rparr>)"
proof -
  have l: "unat (of_nat (length x) :: u32) = length x"
    using assms(3,4) by (simp add: unsigned_of_nat take_bit_nat_eq_self)
  have c: "\<not> of_nat (length x) > (of_nat n :: u32)"
    using assms(3,4) l by (simp add: word_less_nat_alt unsigned_of_nat take_bit_nat_eq_self)
  have r: "rx_read (length x) (rx_push (x @ cs) es) = (int (length x), x, rx_push cs es)"
    using assms(2) by (cases "x = []") (simp_all add: rx_read_push, simp add: rx_push_def)
  show ?thesis
    using assms c
    by (simp add: get_string_def get_uint32_push [where w = "of_nat (length x)" and cs = "x @ cs" and es = es]
        str_field_def buf_put_def sys_read_def l r buf_fill_zero)
qed

lemma get_string_too_long:
  fixes w :: u32
  assumes "rx s = rx_push (le_bytes 4 w @ cs) es" and "MAX_SIZE < 2 ^ 32"
    and "MAX_SIZE < unat w" and "Buffer \<noteq> []"
  shows "get_string Buffer MAX_SIZE s = Some (-1, Buffer[0 := 0], s\<lparr>rx := rx_push cs es, uninit := Suc (uninit s)\<rparr>)"
proof -
  have "w > of_nat MAX_SIZE"
    using assms(2,3) by (simp add: word_less_nat_alt unsigned_of_nat take_bit_nat_eq_self)
  then show ?thesis
    using assms(4) by (simp add: get_string_def get_uint32_push [OF assms(1)] buf_put_def)
qed

lemma get_string_in_bounds:
  assumes "0 < length Buffer" and "MAX_SIZE \<le> length Buffer" and "MAX_SIZE < 2 ^ 32"
  shows "\<exists>r b s'. get_string Buffer MAX_SIZE s = Some (r, b, s') \<and> length b = length Buffer \<and> (r = 0 \<or> r = -1)"
proof -
  obtain w s1 where g: "get_uint32 s = (w, s1)" by fastforce
  obtain r bs s2 where d: "sys_read (unat w) s1 = (r, bs, s2)" by (metis prod_cases3)
  have b: "length bs \<le> unat w"
    using d rx_read_bound by (fastforce simp: sys_read_def split: prod.splits)
  show ?thesis
  proof (cases "w > of_nat MAX_SIZE")
    case True
    then show ?thesis using assms(1) g by (simp add: get_string_def buf_put_def)
  next
    case False
    then have "unat w \<le> MAX_SIZE"
      using assms(3) by (simp add: word_less_nat_alt not_less unsigned_of_nat take_bit_nat_eq_self)
    then show ?thesis using assms b g d False by (simp add: get_string_def buf_put_def buf_fill_def)
  qed
qed

section \<open>Receiving a file\<close>

abbreviation wr_ok :: "net \<Rightarrow> bool" where
  "wr_ok s \<equiv> \<forall>r\<in>set (wr s). 0 < r"

lemma sys_write_ok:
  assumes "wr_ok s" and "d \<noteq> []" and "sys_write (Some p) d s = (r, s')"
  shows "0 < r" and "wr_ok s'" and "s' = s\<lparr>wr := wr s', files := files s'\<rparr>"
    and "\<And>q. q \<noteq> p \<Longrightarrow> files s' q = files s q" and "files s' p \<noteq> None"
  using assms by (auto simp: sys_write_def Let_def min_def split: list.splits if_splits)

lemma write_loop_writes:
  assumes "wr_ok s"
  shows "\<exists>s'. write_loop (Some p) d s = (True, s') \<and> wr_ok s'
     \<and> fd_content (Some p) s' = fd_content (Some p) s @ d
     \<and> (\<forall>q. q \<noteq> p \<longrightarrow> files s' q = files s q) \<and> (files s p \<noteq> None \<longrightarrow> files s' p \<noteq> None)
     \<and> s' = s\<lparr>wr := wr s', files := files s'\<rparr>"
  using assms
proof (induction "length d" arbitrary: d s rule: less_induct)
  case less
  show ?case
  proof (cases "d = []")
    case True
    then show ?thesis using less.prems by (simp add: write_loop.simps)
  next
    case False
    obtain r s1 where w: "sys_write (Some p) d s = (r, s1)" by fastforce
    note ok = sys_write_ok [OF less.prems False w]
    have "length (drop (nat r) d) < length d" using ok(1) False by simp
    from less.hyps [OF this ok(2)] obtain s2 where
      w2: "write_loop (Some p) (drop (nat r) d) s1 = (True, s2)" "wr_ok s2"
        "fd_content (Some p) s2 = fd_content (Some p) s1 @ drop (nat r) d"
        "\<forall>q. q \<noteq> p \<longrightarrow> files s2 q = files s1 q" "files s1 p \<noteq> None \<longrightarrow> files s2 p \<noteq> None"
        "s2 = s1\<lparr>wr := wr s2, files := files s2\<rparr>" by blast
    have "fd_content (Some p) s1 = fd_content (Some p) s @ take (nat r) d"
      using fd.put_some [OF _ w ok(1)] by simp
    moreover have "write_loop (Some p) d s = (True, s2)"
      using w w2(1) ok(1) False by (simp add: write_loop.simps [of _ d])
    moreover have "s2 = s\<lparr>wr := wr s2, files := files s2\<rparr>"
      by (subst w2(6), subst ok(3)) simp
    ultimately show ?thesis using w2 ok(4,5) by simp
  qed
qed

lemma read_count_pos: "0 < len \<Longrightarrow> len < 2 ^ 31 \<Longrightarrow> read_count len = min (nat len) 4096"
proof -
  assume a: "0 < len" "len < 2 ^ 31"
  have "take_bit 64 (if len < 4096 then len else 4096) = (if len < 4096 then len else 4096)"
    by (rule take_bit_int_eq_self) (use a in auto)
  then show ?thesis using a
    by (simp add: read_count_def unsigned_of_int split: if_splits)
qed

lemma int_sub_small: "0 \<le> len - r \<Longrightarrow> len - r < 2 ^ 31 \<Longrightarrow> int_sub len r = len - r"
  unfolding int_sub_def signed_of_int by (simp add: signed_take_bit_int_eq_self)

lemma file_loop_receives:
  assumes "rx_clean (rx s)" and "rx_bytes (rx s) = d @ rest" and "wr_ok s"
    and "d \<noteq> []" and "length d < 2 ^ 31"
  shows "\<exists>s'. file_loop (Some p) (int (length d)) s = Some (True, s')
     \<and> fd_content (Some p) s' = fd_content (Some p) s @ d
     \<and> rx_bytes (rx s') = rest
     \<and> (\<forall>q. q \<noteq> p \<longrightarrow> files s' q = files s q) \<and> (files s p \<noteq> None \<longrightarrow> files s' p \<noteq> None)
     \<and> s' = s\<lparr>rx := rx s', wr := wr s', files := files s'\<rparr>"
  using assms
proof (induction "length d" arbitrary: d s rule: less_induct)
  case less
  let ?len = "int (length d)"
  have n: "read_count ?len = min (length d) 4096"
    using read_count_pos [of ?len] less.prems(4,5) by simp
  obtain r bs s1 where rd: "sys_read (read_count ?len) s = (r, bs, s1)" by (metis prod_cases3)
  then obtain es where e: "rx_read (read_count ?len) (rx s) = (r, bs, es)" and s1: "s1 = s\<lparr>rx := es\<rparr>"
    by (auto simp: sys_read_def split: prod.splits)
  have clean: "rx_clean es" "r = int (length bs)"
    using rx_read_clean [OF less.prems(1) e] by auto
  have nonempty: "bs \<noteq> []"
    by (rule rx_read_progress [OF less.prems(1) _ _ e]) (use n less.prems in auto)
  have bound: "length bs \<le> length d" "length bs \<le> 4096"
    using rx_read_bound [OF e] n by auto
  have "bs @ rx_bytes es = d @ rest" using rx_read_bytes [OF e] less.prems(2) by simp
  then obtain d' where d: "d = bs @ d'" and es: "rx_bytes es = d' @ rest"
    using bound(1) by (auto simp: append_eq_append_conv2 append_eq_append_conv)
  have "wr_ok s1" using less.prems(3) s1 by simp
  from write_loop_writes [OF this, of p bs] obtain s2 where w:
      "write_loop (Some p) bs s1 = (True, s2)" "wr_ok s2"
      "fd_content (Some p) s2 = fd_content (Some p) s1 @ bs"
      "\<forall>q. q \<noteq> p \<longrightarrow> files s2 q = files s1 q" "files s1 p \<noteq> None \<longrightarrow> files s2 p \<noteq> None"
      "s2 = s1\<lparr>wr := wr s2, files := files s2\<rparr>" by blast
  have rx2: "rx s2 = es" by (subst w(6)) (simp add: s1)
  have sub: "int_sub ?len r = int (length d')"
    using int_sub_small [of ?len r] clean(2) d less.prems(5) by simp
  have c1: "fd_content (Some p) s1 = fd_content (Some p) s" by (simp add: s1 fd_content_def)
  have step: "file_loop (Some p) ?len s =
      (if d' = [] then Some (True, s2) else file_loop (Some p) (int (length d')) s2)"
    using rd clean(2) nonempty bound(2) w(1) sub
    by (subst file_loop.simps) simp
  have fr: "s2 = s\<lparr>rx := es, wr := wr s2, files := files s2\<rparr>" using w(6) s1 by simp
  show ?case
  proof (cases "d' = []")
    case True
    then show ?thesis using step w c1 d es rx2 fr s1 by auto
  next
    case False
    have "length d' < length d" using d nonempty by simp
    from less.hyps [OF this _ _ w(2) False] rx2 clean(1) es d less.prems(5)
    obtain s3 where r3: "file_loop (Some p) (int (length d')) s2 = Some (True, s3)"
      "fd_content (Some p) s3 = fd_content (Some p) s2 @ d'" "rx_bytes (rx s3) = rest"
      "\<forall>q. q \<noteq> p \<longrightarrow> files s3 q = files s2 q" "files s2 p \<noteq> None \<longrightarrow> files s3 p \<noteq> None"
      "s3 = s2\<lparr>rx := rx s3, wr := wr s3, files := files s3\<rparr>" by auto
    have "s3 = s\<lparr>rx := rx s3, wr := wr s3, files := files s3\<rparr>"
      by (subst r3(6), subst fr) simp
    then show ?thesis using step False r3 w c1 d s1 by auto
  qed
qed

lemma get_file_path_eq:
  assumes "zero_tailed nm fname" and "length nm + 15 < n"
  shows "\<exists>p. get_file_path (replicate n 0) fname = Some p
     \<and> zero_tailed (bytes_of ''/user/data/tmp_'' @ nm) p \<and> length p = n"
proof -
  have z: "0 \<notin> set (bytes_of ''/user/data/tmp_'')" and l: "length (bytes_of ''/user/data/tmp_'') = 15"
    by (simp_all add: bytes_of_def)
  have c: "c_str (lit ''/user/data/tmp_'') = bytes_of ''/user/data/tmp_''"
    using z by (simp add: lit_def c_str_eq)
  have "zero_tailed [] (replicate n 0)" using assms(2) by (simp add: zero_tailed_replicate)
  moreover have "terminated (lit ''/user/data/tmp_'')" by (simp add: lit_def)
  ultimately obtain p1 where p1: "append_string (replicate n 0) (lit ''/user/data/tmp_'') = Some p1"
    "zero_tailed (bytes_of ''/user/data/tmp_'') p1" "length p1 = n"
    using append_string_zero_tailed [of "[]" "replicate n 0" "lit ''/user/data/tmp_''"] assms(2) c l by auto
  have "c_str fname = nm" "terminated fname"
    using assms(1) by (simp_all add: zero_tailed_c_str zero_tailed_terminated)
  then obtain p2 where "append_string p1 fname = Some p2"
    "zero_tailed (bytes_of ''/user/data/tmp_'' @ nm) p2" "length p2 = n"
    using append_string_zero_tailed [OF p1(2), of fname] assms(2) p1(3) l by auto
  then show ?thesis using assms(2) p1(1) by (simp add: get_file_path_def buf_put_def)
qed

lemma sint_of_nat_small: "n < 2 ^ 31 \<Longrightarrow> sint (of_nat n :: u32) = int n"
  by (simp add: signed_of_nat signed_take_bit_int_eq_self)

lemma get_file_none:
  assumes "rx s = rx_push (le_bytes 4 (0 :: u32) @ cs) es"
  shows "get_file (replicate 0x800 0) fname s =
     Some (0, replicate 0x800 0, s\<lparr>rx := rx_push cs es, uninit := Suc (uninit s)\<rparr>)"
  by (simp add: get_file_def buf_put_def get_uint32_push [OF assms])

lemma get_file_receives:
  assumes "rx s = rx_push (le_bytes 4 (of_nat (length icon) :: u32) @ a) es"
    and icon: "icon = a @ rx_bytes es" "icon \<noteq> []" "length icon < 2 ^ 31" and "rx_clean es"
    and "wr_ok s" and "open_ok s"
    and nm: "zero_tailed nm fname" "length nm + 15 < 0x800"
  shows "\<exists>p s'. get_file (replicate 0x800 0) fname s = Some (1, p, s')
     \<and> zero_tailed (bytes_of ''/user/data/tmp_'' @ nm) p \<and> length p = 0x800
     \<and> files s' = (files s)(bytes_of ''/user/data/tmp_'' @ nm \<mapsto> icon)
     \<and> open_fds s' = open_fds s \<and> rx_bytes (rx s') = []
     \<and> sock_open s' = sock_open s \<and> peer s' = peer s"
proof -
  let ?dst = "bytes_of ''/user/data/tmp_'' @ nm"
  let ?s1 = "s\<lparr>rx := rx_push a es, uninit := Suc (uninit s)\<rparr>"
  let ?s2 = "?s1\<lparr>files := (files s)(?dst \<mapsto> []), open_fds := Suc (open_fds s)\<rparr>"
  obtain p where p: "get_file_path (replicate 0x800 0) fname = Some p" "zero_tailed ?dst p" "length p = 0x800"
    using get_file_path_eq [OF nm] by blast
  have o: "sys_open_trunc (c_str p) ?s1 = (Some ?dst, ?s2)"
    using assms(7) by (simp add: sys_open_trunc_def zero_tailed_c_str [OF p(2)])
  have n: "sint (of_nat (length icon) :: u32) = int (length icon)"
    using icon(3) by (rule sint_of_nat_small)
  have "rx_clean (rx ?s2)" "rx_bytes (rx ?s2) = icon @ []" "wr_ok ?s2" "icon \<noteq> []"
    using assms by simp_all
  from file_loop_receives [OF this icon(3), of ?dst] obtain s3 where
    f: "file_loop (Some ?dst) (int (length icon)) ?s2 = Some (True, s3)"
      "fd_content (Some ?dst) s3 = fd_content (Some ?dst) ?s2 @ icon" "rx_bytes (rx s3) = []"
      "\<forall>q. q \<noteq> ?dst \<longrightarrow> files s3 q = files ?s2 q" "files s3 ?dst \<noteq> None"
      "s3 = ?s2\<lparr>rx := rx s3, wr := wr s3, files := files s3\<rparr>" by auto
  have "files s3 = (files s)(?dst \<mapsto> icon)"
  proof
    fix q show "files s3 q = ((files s)(?dst \<mapsto> icon)) q"
      using f(2,4,5) by (cases "q = ?dst") (auto simp: fd_content_def split: option.splits)
  qed
  moreover have "open_fds s3 = Suc (open_fds s)" "sock_open s3 = sock_open s" "peer s3 = peer s"
    by (subst f(6), simp)+
  moreover have "get_file (replicate 0x800 0) fname s = Some (1, p, sys_close (Some ?dst) s3)"
    using p(1) o f(1) n icon(2)
    by (simp add: get_file_def buf_put_def get_uint32_push [OF assms(1)])
  ultimately show ?thesis using p f(3) by (auto simp: sys_close_def)
qed

lemma icon_name_eq:
  assumes "zero_tailed x b" and "length x + 4 < 100"
  shows "\<exists>n1 n2. append_string (replicate 100 0) b = Some n1 \<and> append_string n1 (lit ''.png'') = Some n2
     \<and> zero_tailed (x @ bytes_of ''.png'') n2"
proof -
  have z: "c_str (lit ''.png'') = bytes_of ''.png''" "length (bytes_of ''.png'') = 4"
    by (simp_all add: lit_def c_str_def bytes_of_def)
  have "terminated (lit ''.png'')" by (simp add: lit_def)
  have b: "c_str b = x" "terminated b"
    using assms(1) by (simp_all add: zero_tailed_c_str zero_tailed_terminated)
  then obtain n1 where n1: "append_string (replicate 100 0) b = Some n1" "zero_tailed x n1" "length n1 = 100"
    using append_string_zero_tailed [of "[]" "replicate 100 0" b] assms(2)
    by (auto simp: zero_tailed_replicate)
  obtain n2 where "append_string n1 (lit ''.png'') = Some n2" "zero_tailed (x @ bytes_of ''.png'') n2"
    using append_string_zero_tailed [OF n1(2) \<open>terminated (lit ''.png'')\<close>] n1(3) assms(2) z by auto
  then show ?thesis using n1(1) by blast
qed

end
