(* ===== verification/Byte_Order.thy ===== *)
theory Byte_Order
  imports DPI_Prelude
begin

text \<open>
  Byte order: the swapping macros of \<^verbatim>\<open>machine/endian.h\<close>, on which \<^verbatim>\<open>htonl\<close> and its kin
  rest, and the conversions and the encoders and decoders of \<^verbatim>\<open>sys/endian.h\<close>. A macro
  that asks the compiler whether its argument is a constant
  (\<^verbatim>\<open>__builtin_constant_p\<close>) takes the answer as an argument \<open>c\<close>; the \<^verbatim>\<open>bswap\<close>
  instruction reverses the bytes of its operand. Encoders write bytes of a memory.
\<close>

named_theorems swap_defs \<open>byte swapping\<close>
named_theorems codec_defs \<open>encoders and decoders\<close>

section \<open>Swapping\<close>

definition bswap64_const :: "u64 \<Rightarrow> u64" where [swap_defs]:
  "bswap64_const x =
     drop_bit 56 x OR
     (drop_bit 40 x AND push_bit 8 0xff) OR
     (drop_bit 24 x AND push_bit 16 0xff) OR
     (drop_bit 8 x AND push_bit 24 0xff) OR
     (push_bit 8 x AND push_bit 32 0xff) OR
     (push_bit 24 x AND push_bit 40 0xff) OR
     (push_bit 40 x AND push_bit 48 0xff) OR
     push_bit 56 x"

definition bswap32_const :: "u32 \<Rightarrow> u32" where [swap_defs]:
  "bswap32_const x =
     drop_bit 24 x OR
     drop_bit 8 (x AND push_bit 16 0xff) OR
     push_bit 8 (x AND push_bit 8 0xff) OR
     push_bit 24 x"

text \<open>The operand of 16 bits is promoted to \<^verbatim>\<open>int\<close>, the result cut to 16 bits.\<close>

definition bswap16_const :: "u16 \<Rightarrow> u16" where [swap_defs]:
  "bswap16_const x = ucast (push_bit 8 (ucast x :: u32) OR drop_bit 8 (ucast x :: u32))"

definition bswap64_var :: "u64 \<Rightarrow> u64" where [swap_defs]:
  "bswap64_var x = le_word (rev (le_bytes 8 x))"

definition bswap32_var :: "u32 \<Rightarrow> u32" where [swap_defs]:
  "bswap32_var x = le_word (rev (le_bytes 4 x))"

definition bswap16_var :: "u16 \<Rightarrow> u16" where [swap_defs]:
  "bswap16_var x = bswap16_const x"

definition bswap64 :: "bool \<Rightarrow> u64 \<Rightarrow> u64" where
  "bswap64 c x = (if c then bswap64_const x else bswap64_var x)"

definition bswap32 :: "bool \<Rightarrow> u32 \<Rightarrow> u32" where
  "bswap32 c x = (if c then bswap32_const x else bswap32_var x)"

definition bswap16 :: "bool \<Rightarrow> u16 \<Rightarrow> u16" where
  "bswap16 c x = (if c then bswap16_const x else bswap16_var x)"

lemma below_list_all: "(\<forall>k < n. P k) \<longleftrightarrow> list_all P [0..<n]" for n :: nat
  by (auto simp: list_all_iff)

lemma word_eq_bits: "x = y \<longleftrightarrow> list_all (\<lambda>k. bit x k \<longleftrightarrow> bit y k) [0..<LENGTH('a)]"
  for x y :: "'a::len word"
  unfolding below_list_all [symmetric] by (metis bit_word_eqI)

lemma bit_beyond: "LENGTH('a) \<le> n \<Longrightarrow> \<not> bit (w :: 'a::len word) n"
  using bit_imp_le_length by fastforce

lemma upt_16: "[0..<16] = [0, 1, 2, 3, 4, 5, 6, 7, 8, 9, 10, 11, 12, 13, 14, 15]"
  by code_simp

lemma upt_32: "[0..<32] = [0..<16] @ map ((+) 16) [0..<16]"
  by code_simp

lemma upt_64: "[0..<64] = [0..<32] @ map ((+) 32) [0..<32]"
  by code_simp

lemmas upt_bits = upt_64 upt_32 upt_16

lemma ff_mask: "(0xff :: 'a::len word) = mask 8"
  by (simp add: mask_eq_exp_minus_1)

lemmas bit_bytes = bit_or_iff bit_and_iff bit_push_bit_iff bit_drop_bit_eq bit_ucast_iff bit_mask_iff
  bit_le_word nth_le_bytes rev_nth

lemma bswap64_agree: "bswap64_const x = bswap64_var x"
  unfolding word_eq_bits swap_defs ff_mask by (simp add: upt_bits) (simp add: bit_bytes bit_beyond)

lemma bswap32_agree: "bswap32_const x = bswap32_var x"
  unfolding word_eq_bits swap_defs ff_mask by (simp add: upt_bits) (simp add: bit_bytes bit_beyond)

lemma bswap16_bytes: "bswap16_const x = le_word (rev (le_bytes 2 x))"
  unfolding word_eq_bits swap_defs ff_mask by (simp add: upt_bits) (simp add: bit_bytes bit_beyond)

lemma bswap64_bytes: "bswap64 c x = le_word (rev (le_bytes 8 x))"
  by (simp add: bswap64_def bswap64_agree) (simp add: bswap64_var_def)

lemma bswap32_bytes: "bswap32 c x = le_word (rev (le_bytes 4 x))"
  by (simp add: bswap32_def bswap32_agree) (simp add: bswap32_var_def)

lemma bswap16_eq: "bswap16 c x = le_word (rev (le_bytes 2 x))"
  by (simp add: bswap16_def bswap16_var_def bswap16_bytes)

lemmas bswap_bytes = bswap64_bytes bswap32_bytes bswap16_eq

text \<open>Network order, on this little-endian machine.\<close>

definition htonl :: "bool \<Rightarrow> u32 \<Rightarrow> u32" where "htonl c x = bswap32 c x"
definition htons :: "bool \<Rightarrow> u16 \<Rightarrow> u16" where "htons c x = bswap16 c x"
definition ntohl :: "bool \<Rightarrow> u32 \<Rightarrow> u32" where "ntohl c x = bswap32 c x"
definition ntohs :: "bool \<Rightarrow> u16 \<Rightarrow> u16" where "ntohs c x = bswap16 c x"

definition htobe16 :: "bool \<Rightarrow> u16 \<Rightarrow> u16" where "htobe16 c x = bswap16 c x"
definition htobe32 :: "bool \<Rightarrow> u32 \<Rightarrow> u32" where "htobe32 c x = bswap32 c x"
definition htobe64 :: "bool \<Rightarrow> u64 \<Rightarrow> u64" where "htobe64 c x = bswap64 c x"
definition htole16 :: "u16 \<Rightarrow> u16" where "htole16 x = x"
definition htole32 :: "u32 \<Rightarrow> u32" where "htole32 x = x"
definition htole64 :: "u64 \<Rightarrow> u64" where "htole64 x = x"
definition be16toh :: "bool \<Rightarrow> u16 \<Rightarrow> u16" where "be16toh c x = bswap16 c x"
definition be32toh :: "bool \<Rightarrow> u32 \<Rightarrow> u32" where "be32toh c x = bswap32 c x"
definition be64toh :: "bool \<Rightarrow> u64 \<Rightarrow> u64" where "be64toh c x = bswap64 c x"
definition le16toh :: "u16 \<Rightarrow> u16" where "le16toh x = x"
definition le32toh :: "u32 \<Rightarrow> u32" where "le32toh x = x"
definition le64toh :: "u64 \<Rightarrow> u64" where "le64toh x = x"

lemma ntohl_htonl: "ntohl c (htonl d x) = x"
  by (simp add: ntohl_def htonl_def bswap_bytes)

lemma ntohs_htons: "ntohs c (htons d x) = x"
  by (simp add: ntohs_def htons_def bswap_bytes)

section \<open>Encoding and decoding\<close>

definition be16dec :: "memory \<Rightarrow> u64 \<Rightarrow> u16" where [codec_defs]:
  "be16dec m p = ucast (push_bit 8 (ucast (m p) :: u32) OR ucast (m (p + 1)))"

definition be32dec :: "memory \<Rightarrow> u64 \<Rightarrow> u32" where [codec_defs]:
  "be32dec m p = push_bit 24 (ucast (m p)) OR push_bit 16 (ucast (m (p + 1))) OR
     push_bit 8 (ucast (m (p + 2))) OR ucast (m (p + 3))"

definition be64dec :: "memory \<Rightarrow> u64 \<Rightarrow> u64" where
  "be64dec m p = push_bit 32 (ucast (be32dec m p)) OR ucast (be32dec m (p + 4))"

definition le16dec :: "memory \<Rightarrow> u64 \<Rightarrow> u16" where [codec_defs]:
  "le16dec m p = ucast (push_bit 8 (ucast (m (p + 1)) :: u32) OR ucast (m p))"

definition le32dec :: "memory \<Rightarrow> u64 \<Rightarrow> u32" where [codec_defs]:
  "le32dec m p = push_bit 24 (ucast (m (p + 3))) OR push_bit 16 (ucast (m (p + 2))) OR
     push_bit 8 (ucast (m (p + 1))) OR ucast (m p)"

definition le64dec :: "memory \<Rightarrow> u64 \<Rightarrow> u64" where
  "le64dec m p = push_bit 32 (ucast (le32dec m (p + 4))) OR ucast (le32dec m p)"

definition be16enc :: "u64 \<Rightarrow> u16 \<Rightarrow> memory \<Rightarrow> memory" where [codec_defs]:
  "be16enc p u m = m(p := ucast (drop_bit 8 u AND 0xff), p + 1 := ucast (u AND 0xff))"

definition be32enc :: "u64 \<Rightarrow> u32 \<Rightarrow> memory \<Rightarrow> memory" where [codec_defs]:
  "be32enc p u m =
     m(p := ucast (drop_bit 24 u AND 0xff), p + 1 := ucast (drop_bit 16 u AND 0xff),
       p + 2 := ucast (drop_bit 8 u AND 0xff), p + 3 := ucast (u AND 0xff))"

definition be64enc :: "u64 \<Rightarrow> u64 \<Rightarrow> memory \<Rightarrow> memory" where
  "be64enc p u m =
     be32enc (p + 4) (ucast (u AND 0xffffffff)) (be32enc p (ucast (drop_bit 32 u)) m)"

definition le16enc :: "u64 \<Rightarrow> u16 \<Rightarrow> memory \<Rightarrow> memory" where [codec_defs]:
  "le16enc p u m = m(p := ucast (u AND 0xff), p + 1 := ucast (drop_bit 8 u AND 0xff))"

definition le32enc :: "u64 \<Rightarrow> u32 \<Rightarrow> memory \<Rightarrow> memory" where [codec_defs]:
  "le32enc p u m =
     m(p := ucast (u AND 0xff), p + 1 := ucast (drop_bit 8 u AND 0xff),
       p + 2 := ucast (drop_bit 16 u AND 0xff), p + 3 := ucast (drop_bit 24 u AND 0xff))"

definition le64enc :: "u64 \<Rightarrow> u64 \<Rightarrow> memory \<Rightarrow> memory" where
  "le64enc p u m =
     le32enc (p + 4) (ucast (drop_bit 32 u)) (le32enc p (ucast (u AND 0xffffffff)) m)"

text \<open>Each is a load or a store of the bytes of the number, in one order or the other.\<close>

lemma low_byte: "ucast (u AND 0xff :: 'a::len word) = (ucast u :: u8)"
  by (rule bit_word_eqI) (auto simp: ff_mask bit_simps dest: bit_imp_le_length)

lemma le_bytes_num:
  "le_bytes 2 (u :: u16) = [ucast u, ucast (drop_bit 8 u)]"
  "le_bytes 4 (v :: u32) = [ucast v, ucast (drop_bit 8 v), ucast (drop_bit 16 v), ucast (drop_bit 24 v)]"
  by (simp_all add: le_bytes_def upt_conv_Cons)

lemma load_num:
  "load m p 2 = [m p, m (p + 1)]"
  "load m p 4 = [m p, m (p + 1), m (p + 2), m (p + 3)]"
  by (simp_all add: load_def upt_conv_Cons)

lemma store_Nil: "store m a [] = m"
  by (simp add: store_def)

lemma store_Cons: "store m a (b # bs) = (store m (a + 1) bs)(a := b)"
proof (rule ext)
  fix x
  show "store m a (b # bs) x = ((store m (a + 1) bs)(a := b)) x"
  proof (cases "x = a")
    case False
    then have "1 + (x - (a + 1)) \<noteq> 0" by simp
    then have "unat (1 + (x - (a + 1))) = Suc (unat (x - (a + 1)))" by (rule unatSuc)
    then show ?thesis using False by (simp add: store_def algebra_simps)
  qed (simp add: store_def)
qed

lemma enc_store:
  "be16enc p u m = store m p (rev (le_bytes 2 u))"
  "be32enc p v m = store m p (rev (le_bytes 4 v))"
  "le16enc p u m = store m p (le_bytes 2 u)"
  "le32enc p v m = store m p (le_bytes 4 v)"
  by (auto simp: codec_defs store_Cons store_Nil le_bytes_num low_byte fun_eq_iff)

lemma dec_load:
  "be16dec m p = le_word (rev (load m p 2))"
  "be32dec m p = le_word (rev (load m p 4))"
  "le16dec m p = le_word (load m p 2)"
  "le32dec m p = le_word (load m p 4)"
  unfolding codec_defs load_num word_eq_bits by (simp_all add: upt_bits) (simp_all add: bit_bytes bit_beyond)

lemma le_bytes_halves:
  "le_bytes 8 (u :: u64) = le_bytes 4 (ucast (u AND 0xffffffff) :: u32) @ le_bytes 4 (ucast (drop_bit 32 u) :: u32)"
proof -
  have m: "(0xffffffff :: u64) = mask 32" by (simp add: mask_eq_exp_minus_1)
  show ?thesis
    unfolding m by (simp add: le_bytes_def upt_conv_Cons)
      (intro conjI bit_word_eqI; simp add: bit_simps; auto dest: bit_imp_le_length)
qed

lemma le_word_halves:
  assumes "length xs = 4" and "length ys = 4"
  shows "(le_word (xs @ ys) :: u64) = push_bit 32 (ucast (le_word ys :: u32)) OR ucast (le_word xs :: u32)"
  using assms unfolding word_eq_bits by (simp add: upt_bits) (simp add: bit_bytes bit_beyond nth_append)

lemma load_halves: "load m p 8 = load m p 4 @ load m (p + 4) 4"
  using load_append [of m p 4 4] by simp

lemma enc64_store:
  "be64enc p u m = store m p (rev (le_bytes 8 u))"
  "le64enc p u m = store m p (le_bytes 8 u)"
  using store_store_append [of "rev (le_bytes 4 (ucast (drop_bit 32 u) :: u32))" _ m p]
    store_store_append [of "le_bytes 4 (ucast (u AND 0xffffffff) :: u32)" _ m p]
  by (simp_all add: be64enc_def le64enc_def enc_store le_bytes_halves)

lemma dec64_load:
  "be64dec m p = le_word (rev (load m p 8))"
  "le64dec m p = le_word (load m p 8)"
  by (simp_all add: be64dec_def le64dec_def dec_load load_halves le_word_halves)

lemmas enc_stores = enc_store enc64_store
lemmas dec_loads = dec_load dec64_load

section \<open>The interface of a codec\<close>

text \<open>
  What a protocol relies on when it writes fields of a message and reads them back: a
  decoded value is the encoded one, an encoder writes its \<open>size\<close> bytes and nothing else,
  a decoder reads no others.
\<close>

locale codec =
  fixes size :: nat
    and enc :: "u64 \<Rightarrow> 'a \<Rightarrow> memory \<Rightarrow> memory"
    and dec :: "memory \<Rightarrow> u64 \<Rightarrow> 'a"
  assumes dec_enc: "dec (enc p u m) p = u"
    and enc_outside: "\<not> inside p size x \<Longrightarrow> enc p u m x = m x"
    and dec_local: "(\<And>x. inside p size x \<Longrightarrow> m x = m' x) \<Longrightarrow> dec m p = dec m' p"
begin

lemma dec_enc_apart:
  assumes "apart p size q size"
  shows "dec (enc q v m) p = dec m p"
  by (rule dec_local, rule enc_outside) (use assms in \<open>auto simp: apart_def\<close>)

text \<open>Two fields of a message, whatever the order they are written in.\<close>

lemma two_fields:
  assumes "apart p size q size"
  shows "dec (enc q v (enc p u m)) p = u \<and> dec (enc q v (enc p u m)) q = v"
  by (simp add: dec_enc_apart [OF assms] dec_enc)

end

lemma codec_of_bytes:
  assumes "\<And>p u m. enc p u m = store m p (bytes u)" and "\<And>m p. dec m p = val (load m p n)"
    and "\<And>u. length (bytes u) = n" and "n \<le> 2 ^ 64" and "\<And>u. val (bytes u) = u"
  shows "codec n enc dec"
proof
  show "dec (enc p u m) p = u" for p u m using assms by simp
  show "enc p u m x = m x" if "\<not> inside p n x" for p u m x
    using that assms(1,3) by (simp add: store_def inside_def)
  show "dec m p = dec m' p" if "\<And>x. inside p n x \<Longrightarrow> m x = m' x" for m m' p
    using load_cong [OF that assms(4)] assms(2) by simp
qed

interpretation be16: codec 2 be16enc be16dec
  by (rule codec_of_bytes [where bytes = "\<lambda>u. rev (le_bytes 2 u)" and val = "\<lambda>bs. le_word (rev bs)"]) (simp_all add: enc_stores dec_loads)

interpretation be32: codec 4 be32enc be32dec
  by (rule codec_of_bytes [where bytes = "\<lambda>u. rev (le_bytes 4 u)" and val = "\<lambda>bs. le_word (rev bs)"]) (simp_all add: enc_stores dec_loads)

interpretation be64: codec 8 be64enc be64dec
  by (rule codec_of_bytes [where bytes = "\<lambda>u. rev (le_bytes 8 u)" and val = "\<lambda>bs. le_word (rev bs)"]) (simp_all add: enc_stores dec_loads)

interpretation le16: codec 2 le16enc le16dec
  by (rule codec_of_bytes [where bytes = "le_bytes 2" and val = "le_word"]) (simp_all add: enc_stores dec_loads)

interpretation le32: codec 4 le32enc le32dec
  by (rule codec_of_bytes [where bytes = "le_bytes 4" and val = "le_word"]) (simp_all add: enc_stores dec_loads)

interpretation le64: codec 8 le64enc le64dec
  by (rule codec_of_bytes [where bytes = "le_bytes 8" and val = "le_word"]) (simp_all add: enc_stores dec_loads)

section \<open>Properties\<close>


end
