(* ===== verification/Host_Protocol.thy ===== *)
theory Host_Protocol
  imports Pkg_Info Byte_Order
begin

text \<open>
  The host application's side of the connection: the message
  \<open>PayloadService.SendPKGPayload\<close> sends for a package, the exit message of
  \<open>StopServer\<close>, and \<open>EnsureClient\<close>, which finds the placeholder of the host's
  address in the payload image and patches it (Host/PayloadService.cs,
  Others/Conversions.cs). The theorems connect it to the payload's parser: what
  \<open>get_pkg_info\<close> stores is what the host sent.
\<close>

section \<open>The messages\<close>

text \<open>The fields of a package, the strings already in UTF-8.\<close>

record pkg_msg =
  m_url :: "u8 list"
  m_name :: "u8 list"
  m_id :: "u8 list"
  m_type :: "u8 list"
  m_size :: u64
  m_icon :: "u8 list"

definition pkg_info_header :: "pkg_msg \<Rightarrow> u8 list" where
  "pkg_info_header m =
     le_bytes 4 (1 :: u32) @
     le_bytes 4 (of_nat (length (m_url m)) :: u32) @ m_url m @
     le_bytes 4 (of_nat (length (m_name m)) :: u32) @ m_name m @
     le_bytes 4 (of_nat (length (m_id m)) :: u32) @ m_id m @
     le_bytes 4 (of_nat (length (m_type m)) :: u32) @ m_type m @
     le_bytes 8 (m_size m) @
     (if m_icon m = [] then replicate 4 0 else le_bytes 4 (of_nat (length (m_icon m)) :: u32))"

definition pkg_info_buffer :: "pkg_msg \<Rightarrow> u8 list" where
  "pkg_info_buffer m = pkg_info_header m @ m_icon m"

definition exit_buffer :: "u8 list" where
  "exit_buffer = replicate 4 0"

section \<open>Patching the image\<close>

function index_of_loop :: "u8 list \<Rightarrow> u8 list \<Rightarrow> int \<Rightarrow> nat \<Rightarrow> nat \<Rightarrow> int \<Rightarrow> int" where
  "index_of_loop Buffer Content Count i x Offset =
     (if int i < Count
      then if Buffer ! i \<noteq> Content ! x then index_of_loop Buffer Content Count (Suc i) 0 Offset
           else (let Offset = (if x = 0 then int i else Offset) in
                 if Suc x \<ge> length Content then Offset
                 else index_of_loop Buffer Content Count (Suc i) (Suc x) Offset)
      else -1)"
  by pat_completeness auto
termination
  by (relation "measure (\<lambda>(b, c, n, i, x, f). nat (n - int i))") auto

declare index_of_loop.simps [simp del]

definition IndexOf :: "u8 list \<Rightarrow> u8 list \<Rightarrow> int" where
  "IndexOf Buffer Content =
     index_of_loop Buffer Content (int (length Buffer) - int (length Content)) 0 0 0"

definition placeholder :: "u8 list" where
  "placeholder = replicate 6 0xB4"

text \<open>\<open>CopyTo\<close>: the bytes replace those at the offset.\<close>

definition copy_to :: "u8 list \<Rightarrow> u8 list \<Rightarrow> nat \<Rightarrow> u8 list" where
  "copy_to src dst off = take off dst @ src @ drop (off + length src) dst"

definition patch_payload :: "u8 list \<Rightarrow> u8 list \<Rightarrow> u16 \<Rightarrow> u8 list option" where
  "patch_payload Payload IP LocalPort =
     (let Offset = IndexOf Payload placeholder in
      if Offset = -1 then None
      else Some (copy_to (rev (le_bytes 2 LocalPort))
             (copy_to IP Payload (nat Offset)) (nat Offset + 4)))"

text \<open>The packed structure \<open>Connection\<close> of info.c, at an offset of the image.\<close>

definition connection_at :: "u8 list \<Rightarrow> nat \<Rightarrow> connection" where
  "connection_at img off =
     \<lparr>addr = le_word (take 4 (drop off img)), port = le_word (take 2 (drop (off + 4) img))\<rparr>"

section \<open>The payload receives what the host sends\<close>

lemma pkg_info_header_eq:
  "pkg_info_header m = le_bytes 4 (1 :: u32) @ str_field (m_url m) @ str_field (m_name m)
     @ str_field (m_id m) @ str_field (m_type m) @ le_bytes 8 (m_size m)
     @ le_bytes 4 (of_nat (length (m_icon m)) :: u32)"
proof -
  have "replicate 4 0 = le_bytes 4 (0 :: u32)" by (simp add: le_bytes_def upt_rec numeral_eq_Suc)
  then show ?thesis by (simp add: pkg_info_header_def str_field_def)
qed

text \<open>A message the buffers of the payload have room for: strings no longer than their
  buffers, an identifier that leaves room for its terminator and holds no zero byte.\<close>

definition msg_fits :: "pkg_msg \<Rightarrow> bool" where
  "msg_fits m \<longleftrightarrow> length (m_url m) \<le> 0x800 \<and> length (m_name m) \<le> 0x259
     \<and> length (m_id m) < 0x30 \<and> 0 \<notin> set (m_id m) \<and> length (m_type m) \<le> 0x10
     \<and> length (m_icon m) < 2 ^ 31"

definition padded :: "nat \<Rightarrow> u8 list \<Rightarrow> u8 list" where
  "padded n x = x @ replicate (n - length x) 0"

definition icon_file :: "pkg_msg \<Rightarrow> u8 list" where
  "icon_file m = bytes_of ''/user/data/tmp_'' @ m_id m @ bytes_of ''.png''"

text \<open>The parameters after the call: the fields point into the frame of the function.\<close>

definition filled_params :: "bgft_download_param \<Rightarrow> u64 \<Rightarrow> bgft_download_param" where
  "filled_params params n = params\<lparr>param_id := Frame L_id, content_url := Frame L_url,
     content_name := Frame L_name, package_size := n,
     param_icon_path := Frame L_icon_path, package_type := Frame L_pkg_type\<rparr>"

text \<open>Everything up to the icon: after the strings and the size, whatever follows (\<open>t\<close>) is
  left to \<open>get_file\<close>.\<close>

definition sizes_ok :: "pkg_msg \<Rightarrow> bool" where
  "sizes_ok m \<longleftrightarrow> length (m_url m) \<le> 0x800 \<and> length (m_name m) \<le> 0x259
     \<and> length (m_id m) \<le> 0x30 \<and> length (m_type m) \<le> 0x10"

definition strings_and_size :: "pkg_msg \<Rightarrow> u8 list" where
  "strings_and_size m = le_bytes 4 (1 :: u32) @ str_field (m_url m) @ str_field (m_name m)
     @ str_field (m_id m) @ str_field (m_type m) @ le_bytes 8 (m_size m)"

definition after_strings :: "connection \<Rightarrow> net \<Rightarrow> u8 list \<Rightarrow> rx_event list \<Rightarrow> net" where
  "after_strings C s t es = s\<lparr>sock_open := True, peer := Some (addr C, port C),
     rx := rx_push t es, uninit := uninit s + 6\<rparr>"

lemma get_pkg_info_strings:
  assumes ok: "0 \<le> socket_ret s" "0 \<le> connect_ret s" and fits: "sizes_ok m"
    and rx: "rx s = Data (strings_and_size m @ t) # es"
  shows "get_pkg_info C params s = do {
       n1 \<leftarrow> append_string (replicate 100 0) (padded 0x30 (m_id m));
       n2 \<leftarrow> append_string n1 (lit ''.png'');
       (r, p, s') \<leftarrow> get_file (replicate 0x800 0) n2 (after_strings C s t es);
       Some (0, filled_params params (m_size m),
          \<lparr>url = padded 0x800 (m_url m), name = padded 0x259 (m_name m), pkg_id = padded 0x30 (m_id m),
           icon_name = n2, icon_path = p, pkg_type = padded 0x10 (m_type m)\<rparr>, sys_close_sock s')
     }"
proof -
  define s1 where "s1 = s\<lparr>sock_open := True, peer := Some (addr C, port C)\<rparr>"
  define t5 where "t5 = le_bytes 8 (m_size m) @ t"
  define t4 where "t4 = str_field (m_type m) @ t5"
  define t3 where "t3 = str_field (m_id m) @ t4"
  define t2 where "t2 = str_field (m_name m) @ t3"
  define t1 where "t1 = str_field (m_url m) @ t2"
  let ?rest = "\<lambda>t k. s1\<lparr>rx := rx_push t es, uninit := uninit s + k\<rparr>"
  have ne: "t2 \<noteq> []" "t3 \<noteq> []" "t4 \<noteq> []" "t5 \<noteq> []"
    by (simp_all add: t2_def t3_def t4_def t5_def str_field_def le_bytes_def)
  have rx1: "rx s1 = rx_push (le_bytes 4 (1 :: u32) @ t1) es"
    using rx(1) by (simp add: s1_def strings_and_size_def t1_def t2_def t3_def t4_def t5_def rx_push_def)
  have g0: "get_uint32 s1 = (1, ?rest t1 1)"
    using get_uint32_push [OF rx1] by (simp add: s1_def)
  have g1: "get_string (replicate 0x800 0) 0x800 (?rest t1 1) = Some (0, padded 0x800 (m_url m), ?rest t2 2)"
    by (subst get_string_push [where x = "m_url m" and cs = t2 and es = es])
      (use fits ne in \<open>simp_all add: t1_def sizes_ok_def padded_def\<close>)
  have g2: "get_string (replicate 0x259 0) 0x259 (?rest t2 2) = Some (0, padded 0x259 (m_name m), ?rest t3 3)"
    by (subst get_string_push [where x = "m_name m" and cs = t3 and es = es])
      (use fits ne in \<open>simp_all add: t2_def sizes_ok_def padded_def\<close>)
  have g3: "get_string (replicate 0x30 0) 0x30 (?rest t3 3) = Some (0, padded 0x30 (m_id m), ?rest t4 4)"
    by (subst get_string_push [where x = "m_id m" and cs = t4 and es = es])
      (use fits ne in \<open>simp_all add: t3_def sizes_ok_def padded_def\<close>)
  have g4: "get_string (replicate 0x10 0) 0x10 (?rest t4 4) = Some (0, padded 0x10 (m_type m), ?rest t5 5)"
    by (subst get_string_push [where x = "m_type m" and cs = t5 and es = es])
      (use fits ne in \<open>simp_all add: t4_def sizes_ok_def padded_def\<close>)
  have g5: "get_uint64 (?rest t5 5) = (m_size m, ?rest t 6)"
    by (subst get_uint64_push [where w = "m_size m" and cs = t and es = es]) (simp_all add: t5_def)
  have "?rest t 6 = after_strings C s t es" by (simp add: s1_def after_strings_def)
  with g5 have g5': "get_uint64 (?rest t5 5) = (m_size m, after_strings C s t es)" by simp
  show ?thesis
    using ok g0 g1 g2 g3 g4 g5'
    by (simp add: get_pkg_info_def sys_socket_def sys_connect_def fresh_frame_def s1_def filled_params_def)
qed

lemma get_pkg_info_receives:
  assumes "0 \<le> socket_ret s" and "0 \<le> connect_ret s" and "open_ok s" and "wr_ok s"
    and fits: "msg_fits m"
    and rx: "rx s = Data (pkg_info_header m @ a) # es" "rx_clean es" "m_icon m = a @ rx_bytes es"
  shows "\<exists>fr s'. get_pkg_info C params s = Some (0, filled_params params (m_size m), fr, s')
     \<and> url fr = padded 0x800 (m_url m) \<and> name fr = padded 0x259 (m_name m)
     \<and> pkg_id fr = padded 0x30 (m_id m) \<and> pkg_type fr = padded 0x10 (m_type m)
     \<and> c_str (icon_path fr) = (if m_icon m = [] then [] else icon_file m)
     \<and> files s' = (if m_icon m = [] then files s else (files s)(icon_file m \<mapsto> m_icon m))
     \<and> \<not> sock_open s' \<and> open_fds s' = open_fds s \<and> peer s' = Some (addr C, port C)"
proof -
  let ?t = "le_bytes 4 (of_nat (length (m_icon m)) :: u32) @ a"
  let ?s = "after_strings C s ?t es"
  have "rx s = Data (strings_and_size m @ ?t) # es" and "sizes_ok m"
    using rx(1) fits by (simp_all add: pkg_info_header_eq strings_and_size_def msg_fits_def sizes_ok_def)
  note base = get_pkg_info_strings [OF assms(1,2) this(2,1), of C params]
  have "zero_tailed (m_id m) (padded 0x30 (m_id m))"
    using fits by (simp add: padded_def zero_tailed_fill msg_fits_def)
  then obtain n1 n2 where nm: "append_string (replicate 100 0) (padded 0x30 (m_id m)) = Some n1"
    "append_string n1 (lit ''.png'') = Some n2" "zero_tailed (m_id m @ bytes_of ''.png'') n2"
    using icon_name_eq [of "m_id m" "padded 0x30 (m_id m)"] fits by (auto simp: msg_fits_def)
  show ?thesis
  proof (cases "m_icon m = []")
    case True
    then have "get_file (replicate 0x800 0) n2 ?s = Some (0, replicate 0x800 0, ?s\<lparr>rx := rx_push [] es, uninit := Suc (uninit ?s)\<rparr>)"
      using rx(3) by (intro get_file_none) (simp add: after_strings_def)
    then show ?thesis using True base nm
      by (simp add: sys_close_sock_def after_strings_def c_str_def)
  next
    case False
    have "\<exists>p s'. get_file (replicate 0x800 0) n2 ?s = Some (1, p, s')
     \<and> zero_tailed (bytes_of ''/user/data/tmp_'' @ m_id m @ bytes_of ''.png'') p \<and> length p = 0x800
     \<and> files s' = (files ?s)(bytes_of ''/user/data/tmp_'' @ m_id m @ bytes_of ''.png'' \<mapsto> m_icon m)
     \<and> open_fds s' = open_fds ?s \<and> rx_bytes (rx s') = []
     \<and> sock_open s' = sock_open ?s \<and> peer s' = peer ?s"
      by (rule get_file_receives [where a = a and es = es])
        (use fits assms False nm(3) in \<open>auto simp: msg_fits_def after_strings_def bytes_of_def\<close>)
    then show ?thesis using False base nm
      by (auto simp: sys_close_sock_def after_strings_def icon_file_def zero_tailed_c_str)
  qed
qed

text \<open>C6. For every package whose strings fit the payload's buffers (the identifier with room
  for its terminator), a payload that reads the message the host sends -- the header in one
  segment, the icon in any segments and with any positive partial writes -- returns 0 with every
  field of the package in its locals, the parameters pointing to them, the icon stored under
  /user/data/tmp\_ followed by the identifier and .png, both descriptors closed, and the
  connection made to the patched address.\<close>

theorem get_pkg_info_receives_package:
  assumes "0 \<le> socket_ret s" and "0 \<le> connect_ret s" and "open_ok s" and "wr_ok s"
    and fits: "msg_fits m"
    and rx: "rx s = Data (pkg_info_header m @ a) # es" "rx_clean es" "m_icon m = a @ rx_bytes es"
  shows "\<exists>fr s'. get_pkg_info C params s = Some (0, filled_params params (m_size m), fr, s')
     \<and> url fr = padded 0x800 (m_url m) \<and> name fr = padded 0x259 (m_name m)
     \<and> pkg_id fr = padded 0x30 (m_id m) \<and> pkg_type fr = padded 0x10 (m_type m)
     \<and> c_str (icon_path fr) = (if m_icon m = [] then [] else icon_file m)
     \<and> files s' = (if m_icon m = [] then files s else (files s)(icon_file m \<mapsto> m_icon m))
     \<and> \<not> sock_open s' \<and> open_fds s' = open_fds s \<and> peer s' = Some (addr C, port C)"
  using assms by (rule get_pkg_info_receives)

definition sample_net :: net where
  "sample_net = \<lparr>rx = [], junk = (\<lambda>_ _. 0xAA), uninit = 0, socket_ret = 3, connect_ret = 0,
     sock_open = False, peer = None, open_ok = True, wr = [2], files = Map.empty, open_fds = 0\<rparr>"

definition sample_msg :: pkg_msg where
  "sample_msg = \<lparr>m_url = bytes_of ''http://10.0.0.2:9898/a.json'', m_name = bytes_of ''Game'',
     m_id = bytes_of ''UP0000-CUSA00000_00'', m_type = bytes_of ''PS4GD'', m_size = 0x10000,
     m_icon = [1, 2, 3, 4, 5]\<rparr>"

definition blank_params :: bgft_download_param where
  "blank_params = \<lparr>user_id = 0, entitlement_type = 5, param_id = Static '''', content_url = Static '''',
     content_ex_url = NULL_ptr, content_name = Static '''', param_icon_path = Static '''',
     sku_id = NULL_ptr, option_flags = BGFT_TASK_OPTION_DISABLE_CDN_QUERY_PARAM,
     playgo_scenario_id = Static ''0'', release_date = NULL_ptr, package_type = Static ''PS4GD'',
     package_sub_type = Static '''', package_size = 0\<rparr>"

theorem get_pkg_info_receives_package_witness:
  "\<exists>fr s'. get_pkg_info Connection_unpatched blank_params
       (sample_net\<lparr>rx := [Data (pkg_info_header sample_msg @ [1]), Data [2, 3], Data [4, 5]]\<rparr>)
     = Some (0, filled_params blank_params 0x10000, fr, s')
     \<and> files s' (icon_file sample_msg) = Some [1, 2, 3, 4, 5]"
proof -
  have "msg_fits sample_msg" by (simp add: msg_fits_def sample_msg_def bytes_of_def)
  then have "\<exists>fr s'. get_pkg_info Connection_unpatched blank_params
       (sample_net\<lparr>rx := [Data (pkg_info_header sample_msg @ [1]), Data [2, 3], Data [4, 5]]\<rparr>)
     = Some (0, filled_params blank_params (m_size sample_msg), fr, s')
     \<and> url fr = padded 0x800 (m_url sample_msg) \<and> name fr = padded 0x259 (m_name sample_msg)
     \<and> pkg_id fr = padded 0x30 (m_id sample_msg) \<and> pkg_type fr = padded 0x10 (m_type sample_msg)
     \<and> c_str (icon_path fr) = (if m_icon sample_msg = [] then [] else icon_file sample_msg)
     \<and> files s' = (if m_icon sample_msg = [] then files sample_net
           else (files sample_net)(icon_file sample_msg \<mapsto> m_icon sample_msg))
     \<and> \<not> sock_open s' \<and> open_fds s' = 0
     \<and> peer s' = Some (addr Connection_unpatched, port Connection_unpatched)"
    using get_pkg_info_receives_package
      [of "sample_net\<lparr>rx := [Data (pkg_info_header sample_msg @ [1]), Data [2, 3], Data [4, 5]]\<rparr>"
        sample_msg "[1]" "[Data [2, 3], Data [4, 5]]" Connection_unpatched blank_params]
    by (simp add: sample_net_def sample_msg_def)
  then show ?thesis by (auto simp: sample_msg_def)
qed

lemma get_pkg_info_exits:
  assumes "0 \<le> socket_ret s" and "0 \<le> connect_ret s" and "rx s = Data exit_buffer # es"
  shows "\<exists>s'. get_pkg_info C params s = Some (1, params, fresh_frame, s')
     \<and> \<not> sock_open s' \<and> files s' = files s \<and> open_fds s' = open_fds s"
proof -
  let ?s = "s\<lparr>sock_open := True, peer := Some (addr C, port C)\<rparr>"
  have "exit_buffer = le_bytes 4 (0 :: u32) @ []"
    by (simp add: exit_buffer_def le_bytes_def upt_rec numeral_eq_Suc)
  then have "rx ?s = rx_push (le_bytes 4 (0 :: u32) @ []) es"
    using assms(3) by (simp add: rx_push_def exit_buffer_def)
  from get_uint32_push [OF this] show ?thesis
    using assms(1,2) by (simp add: get_pkg_info_def sys_socket_def sys_connect_def sys_close_sock_def)
qed

text \<open>The host's exit message ends the service: the payload returns 1, leaves the
  parameters as they were and closes the connection.\<close>

lemma get_pkg_info_exit:
  assumes "0 \<le> socket_ret s" and "0 \<le> connect_ret s" and "rx s = Data exit_buffer # es"
  shows "\<exists>s'. get_pkg_info C params s = Some (1, params, fresh_frame, s')
     \<and> \<not> sock_open s' \<and> files s' = files s \<and> open_fds s' = open_fds s"
  using assms by (rule get_pkg_info_exits)

lemma get_pkg_info_exit_witness:
  "\<exists>s'. get_pkg_info Connection_unpatched blank_params (sample_net\<lparr>rx := [Data exit_buffer]\<rparr>)
     = Some (1, blank_params, fresh_frame, s') \<and> \<not> sock_open s' \<and> files s' = Map.empty \<and> open_fds s' = 0"
  using get_pkg_info_exit [of "sample_net\<lparr>rx := [Data exit_buffer]\<rparr>" "[]" Connection_unpatched blank_params]
  by (simp add: sample_net_def)

text \<open>An over-long URL length is rejected before anything is copied: the payload returns -1
  with the parameters untouched, but the socket stays open.\<close>

lemma get_pkg_info_rejects_long_url:
  fixes n :: u32
  assumes "0 \<le> socket_ret s" and "0 \<le> connect_ret s" and "0x800 < unat n"
    and "rx s = Data (le_bytes 4 (1 :: u32) @ le_bytes 4 n @ t) # es"
  shows "\<exists>s'. get_pkg_info C params s = Some (-1, params, fresh_frame, s') \<and> sock_open s'"
proof -
  let ?s = "s\<lparr>sock_open := True, peer := Some (addr C, port C)\<rparr>"
  let ?s1 = "?s\<lparr>rx := rx_push (le_bytes 4 n @ t) es, uninit := Suc (uninit s)\<rparr>"
  have "rx ?s = rx_push (le_bytes 4 (1 :: u32) @ le_bytes 4 n @ t) es"
    using assms(4) by (simp add: rx_push_def le_bytes_def)
  from get_uint32_push [OF this] have g: "get_uint32 ?s = (1, ?s1)" by simp
  have "get_string (replicate 0x800 0) 0x800 ?s1
      = Some (-1, (replicate 0x800 0)[0 := 0], ?s1\<lparr>rx := rx_push t es, uninit := Suc (uninit ?s1)\<rparr>)"
    by (rule get_string_too_long [where w = n]) (use assms(3) in simp_all)
  then show ?thesis using assms(1,2) g
    by (simp add: get_pkg_info_def sys_socket_def sys_connect_def fresh_frame_def)
qed

lemma get_pkg_info_rejects_long_url_witness:
  "\<exists>s'. get_pkg_info Connection_unpatched blank_params
      (sample_net\<lparr>rx := [Data (le_bytes 4 (1 :: u32) @ le_bytes 4 (0x801 :: u32))]\<rparr>)
     = Some (-1, blank_params, fresh_frame, s') \<and> sock_open s'"
  using get_pkg_info_rejects_long_url
    [of "sample_net\<lparr>rx := [Data (le_bytes 4 (1 :: u32) @ le_bytes 4 (0x801 :: u32))]\<rparr>" "0x801" "[]" "[]"
      Connection_unpatched blank_params]
  by (simp add: sample_net_def)

text \<open>The length check of \<open>get_string\<close> admits an identifier that fills its whole buffer;
  it has no terminator then, and \<open>append_string\<close> reads past the end of the buffer: the call has
  undefined behaviour for every such message.\<close>

lemma get_pkg_info_full_id_undefined:
  assumes "0 \<le> socket_ret s" and "0 \<le> connect_ret s" and "sizes_ok m"
    and "length (m_id m) = 0x30" and "0 \<notin> set (m_id m)"
    and "rx s = Data (strings_and_size m @ t) # es"
  shows "get_pkg_info C params s = None"
proof -
  have "strlen (padded 0x30 (m_id m)) = None"
    using assms(4,5) by (simp add: padded_def strlen_unterminated)
  then have "append_string (replicate 100 0) (padded 0x30 (m_id m)) = None"
    by (simp add: append_string_def strlen_zero_tailed [OF zero_tailed_replicate])
  then show ?thesis
    using get_pkg_info_strings [OF assms(1,2,3,6)] by simp
qed

lemma get_pkg_info_full_id_undefined_witness:
  "get_pkg_info Connection_unpatched blank_params
     (sample_net\<lparr>rx := [Data (strings_and_size (sample_msg\<lparr>m_id := replicate 0x30 0x41\<rparr>) @ [0, 0, 0, 0])]\<rparr>) = None"
  by (rule get_pkg_info_full_id_undefined [where m = "sample_msg\<lparr>m_id := replicate 0x30 0x41\<rparr>"
        and t = "[0, 0, 0, 0]" and es = "[]"])
    (simp_all add: sample_net_def sizes_ok_def sample_msg_def bytes_of_def)

lemma read_count_neg:
  assumes "- (2 ^ 31) \<le> len" and "len < 0"
  shows "read_count len = 2 ^ 64 - nat (- len)"
proof -
  have "take_bit 64 len = len + 2 ^ 64"
    using assms take_bit_int_eq_self [of "len + 2 ^ 64" 64]
    by (simp add: take_bit_eq_mod)
  then have "read_count len = nat (len + 2 ^ 64)"
    using assms by (simp add: read_count_def unsigned_of_int)
  then show ?thesis using assms by (simp add: nat_diff_distrib' nat_add_distrib)
qed

lemma sint_large:
  assumes "2 ^ 31 \<le> unat (n :: u32)"
  shows "sint n = int (unat n) - 2 ^ 32" and "- (2 ^ 31) \<le> sint n" and "sint n < 0"
proof -
  obtain k where k: "unat n = k" by blast
  then have u: "uint n = int k" by (simp flip: k)
  have r: "2 ^ 31 \<le> int k" "int k < 2 ^ 32" using assms unat_less_32 [of n] k by simp_all
  have "sint n = (int k + 2 ^ 31) mod 2 ^ 32 - 2 ^ 31"
    using int_word_sint [of "uint n", where 'a = 32] by (simp flip: u)
  also have "(int k + 2 ^ 31) mod 2 ^ 32 = (int k - 2 ^ 31 + 2 ^ 32) mod 2 ^ 32" by (simp add: add.commute)
  also have "\<dots> = int k - 2 ^ 31" using r by (simp only: mod_add_self2) simp
  finally have s: "sint n = int k - 2 ^ 32" by simp
  show "sint n = int (unat n) - 2 ^ 32" "- (2 ^ 31) \<le> sint n" "sint n < 0"
    using s r unfolding k by simp_all
qed



text \<open>When a \<open>write\<close> fails, \<open>get_file\<close> still reports success and does not close the
  file: one descriptor is lost.\<close>

lemma get_file_write_error_leaks:
  assumes "rx s = Data (le_bytes 4 (of_nat (length d) :: u32)) # Data d # es"
    and "0 < length d" and "length d \<le> 4096" and "open_ok s" and "wr s = w # ws" and "w \<le> 0"
    and "zero_tailed nm fname" and "length nm + 15 < 0x800"
  shows "\<exists>p s'. get_file (replicate 0x800 0) fname s = Some (1, p, s')
     \<and> open_fds s' = Suc (open_fds s) \<and> files s' (c_str p) = Some []"
proof -
  let ?s1 = "s\<lparr>rx := rx_push [] (Data d # es), uninit := Suc (uninit s)\<rparr>"
  have "rx s = rx_push (le_bytes 4 (of_nat (length d) :: u32) @ []) (Data d # es)"
    using assms(1) by (simp add: rx_push_def le_bytes_def)
  then have g: "get_uint32 s = (of_nat (length d), ?s1)" by (rule get_uint32_push)
  have n: "sint (of_nat (length d) :: u32) = int (length d)"
    using assms(3) by (simp add: sint_of_nat_small)
  obtain p where p: "get_file_path (replicate 0x800 0) fname = Some p"
    using get_file_path_eq [OF assms(7,8)] by blast
  define s2 where "s2 = ?s1\<lparr>files := (files s)(c_str p \<mapsto> []), open_fds := Suc (open_fds s)\<rparr>"
  have o: "sys_open_trunc (c_str p) ?s1 = (Some (c_str p), s2)"
    using assms(4) by (simp add: sys_open_trunc_def s2_def)
  have c: "read_count (int (length d)) = length d"
    using read_count_pos [of "int (length d)"] assms(2,3) by simp
  have rd: "sys_read (read_count (int (length d))) s2 = (int (length d), d, s2\<lparr>rx := es\<rparr>)"
    unfolding c using assms(2) by (auto simp: sys_read_def s2_def rx_push_def)
  have "sys_write (Some (c_str p)) d (s2\<lparr>rx := es\<rparr>) = (min w (int (length d)), s2\<lparr>rx := es, wr := ws\<rparr>)"
    using assms(5,6) by (simp add: sys_write_def s2_def Let_def)
  then have "write_loop (Some (c_str p)) d (s2\<lparr>rx := es\<rparr>) = (False, s2\<lparr>rx := es, wr := ws\<rparr>)"
    using assms(2,6) by (subst write_loop.simps) (auto simp: min_def)
  then have "file_loop (Some (c_str p)) (int (length d)) s2 = Some (False, s2\<lparr>rx := es, wr := ws\<rparr>)"
    using rd assms(2,3) by (subst file_loop.simps) auto
  then have "get_file (replicate 0x800 0) fname s = Some (1, p, s2\<lparr>rx := es, wr := ws\<rparr>)"
    using g n assms(2) p o by (simp add: get_file_def buf_put_def)
  then show ?thesis by (simp add: s2_def)
qed

lemma get_file_write_error_leaks_witness:
  "\<exists>p s'. get_file (replicate 0x800 0) (lit ''a.png'')
     (sample_net\<lparr>rx := [Data (le_bytes 4 (3 :: u32)), Data [1, 2, 3]], wr := [-1]\<rparr>) = Some (1, p, s')
     \<and> open_fds s' = 1 \<and> files s' (c_str p) = Some []"
  using get_file_write_error_leaks [where d = "[1, 2, 3]" and es = "[]" and w = "-1" and ws = "[]"
      and nm = "bytes_of ''a.png''" and fname = "lit ''a.png''"
      and s = "sample_net\<lparr>rx := [Data (le_bytes 4 (3 :: u32)), Data [1, 2, 3]], wr := [-1]\<rparr>"]
  by (simp add: sample_net_def zero_tailed_def lit_def bytes_of_def)

text \<open>\<open>read\<close> results are ignored, so what the payload parses depends on how the bytes were
  segmented: two deliveries of the same stream give different URLs.\<close>

lemma segmentation_changes_result:
  "rx_bytes [Data (le_bytes 4 (2 :: u32)), Data [0x61], Data [0x62]]
     = rx_bytes [Data (le_bytes 4 (2 :: u32) @ [0x61, 0x62])]
   \<and> map_option (\<lambda>(r, b, s). b) (get_string (replicate 4 0) 4
        (sample_net\<lparr>rx := [Data (le_bytes 4 (2 :: u32) @ [0x61, 0x62])]\<rparr>)) = Some [0x61, 0x62, 0, 0]
   \<and> map_option (\<lambda>(r, b, s). b) (get_string (replicate 4 0) 4
        (sample_net\<lparr>rx := [Data (le_bytes 4 (2 :: u32)), Data [0x61], Data [0x62]]\<rparr>)) = Some [0x61, 0, 0, 0]"
  by code_simp

section \<open>Finding and patching the placeholder\<close>

lemma index_of_loop_sound:
  assumes "x < length Content" and "x \<le> i" and "0 < x \<longrightarrow> Offset = int (i - x)"
    and "\<forall>j<x. Buffer ! (i - x + j) = Content ! j"
    and "index_of_loop Buffer Content Count i x Offset = r" and "r \<noteq> -1"
  shows "0 \<le> r \<and> r + int (length Content) \<le> Count
     \<and> (\<forall>j<length Content. Buffer ! (nat r + j) = Content ! j)"
  using assms
proof (induction Buffer Content Count i x Offset rule: index_of_loop.induct)
  case (1 B C n i x f)
  show ?case
  proof (cases "int i < n")
    case False
    then show ?thesis using "1.prems"(5,6) by (subst (asm) index_of_loop.simps) simp
  next
    case i: True
    show ?thesis
    proof (cases "B ! i = C ! x")
      case False
      then have "index_of_loop B C n (Suc i) 0 f = r"
        using "1.prems"(5) i by (subst (asm) index_of_loop.simps) simp
      then show ?thesis using "1.IH"(1) i False "1.prems"(1,6) by fastforce
    next
      case True
      define f' where "f' = (if x = 0 then int i else f)"
      have f': "f' = int (i - x)" using "1.prems"(3) by (simp add: f'_def)
      have m: "\<forall>j<Suc x. B ! (i - x + j) = C ! j"
        using "1.prems"(2,4) True by (auto simp: less_Suc_eq)
      show ?thesis
      proof (cases "Suc x \<ge> length C")
        case fin: True
        then have "r = f'"
          using "1.prems"(5) i True by (subst (asm) index_of_loop.simps) (simp add: f'_def)
        moreover have "length C = Suc x" using fin "1.prems"(1) by simp
        moreover have "nat f' = i - x" by (simp add: f')
        moreover have "f' + int (Suc x) \<le> n" using f' i "1.prems"(2) by (simp add: of_nat_diff)
        ultimately show ?thesis using f' m by simp
      next
        case more: False
        then have "index_of_loop B C n (Suc i) (Suc x) f' = r"
          using "1.prems"(5) i True by (subst (asm) index_of_loop.simps) (simp add: f'_def)
        then show ?thesis
          using "1.IH"(2) [OF i _ f'_def] more True f' m "1.prems"(2,6) by simp
      qed
    qed
  qed
qed

lemma index_of_loop_run:
  assumes "x < n" and "x \<le> i" and "\<forall>j<x. Buffer ! (i - x + j) = c"
    and "x = i \<or> Buffer ! (i - x - 1) \<noteq> c"
    and "i - x \<le> k" and "int (k + n) \<le> Count" and "\<forall>j<n. Buffer ! (k + j) = c"
    and "0 \<le> Offset"
  shows "index_of_loop Buffer (replicate n c) Count i x Offset \<noteq> -1"
  using assms
proof (induction Buffer "replicate n c" Count i x Offset rule: index_of_loop.induct)
  case (1 B m i x f)
  have i: "int i < m"
  proof -
    have "i < k + n" using "1.prems"(1,2,5) by linarith
    then show ?thesis using "1.prems"(6) by linarith
  qed
  show ?case
  proof (cases "B ! i = c")
    case False
    have "i < k"
    proof (rule ccontr)
      assume "\<not> i < k"
      moreover have "i < k + n" using "1.prems"(1,2,5) by linarith
      ultimately have "B ! (k + (i - k)) = c" using "1.prems"(7) by (metis less_diff_conv2 not_less add.commute)
      then show False using False \<open>\<not> i < k\<close> by simp
    qed
    then have "index_of_loop B (replicate n c) m (Suc i) 0 f \<noteq> -1"
      using "1.hyps"(1) i False "1.prems"(1,6,7,8) by simp
    then show ?thesis
      using i False "1.prems"(1) by (subst index_of_loop.simps) simp
  next
    case True
    define f' where "f' = (if x = 0 then int i else f)"
    have f': "0 \<le> f'" using "1.prems"(8) by (simp add: f'_def)
    show ?thesis
    proof (cases "Suc x \<ge> n")
      case fin: True
      then show ?thesis
        using i True f' "1.prems"(1) by (subst index_of_loop.simps) (simp add: f'_def)
    next
      case more: False
      have "\<forall>j<Suc x. B ! (i - x + j) = c" using "1.prems"(2,3) True by (auto simp: less_Suc_eq)
      then have "index_of_loop B (replicate n c) m (Suc i) (Suc x) f' \<noteq> -1"
        using "1.hyps"(2) [OF i _ f'_def] more True f' "1.prems" by simp
      then show ?thesis
        using i True more "1.prems"(1) by (subst index_of_loop.simps) (simp add: f'_def)
    qed
  qed
qed

lemma take_drop_nth:
  assumes "r + length C \<le> length B" and "\<forall>j<length C. B ! (r + j) = C ! j"
  shows "take (length C) (drop r B) = C"
  by (rule nth_equalityI) (use assms in auto)

text \<open>C37. An image that holds the placeholder at an offset at least 12 bytes from its end is
  patched: only the six bytes of the placeholder change, and the packed structure the payload
  reads there is the host's address and the port in network order: what \<^verbatim>\<open>htonl\<close> and \<^verbatim>\<open>htons\<close> make
  of the number the address denotes and of the port.\<close>

theorem patch_payload_connects:
  assumes "length IP = 4" and "k + 12 \<le> length Payload" and "take 6 (drop k Payload) = placeholder"
  shows "\<exists>img off. patch_payload Payload IP LocalPort = Some img
     \<and> take 6 (drop off Payload) = placeholder
     \<and> length img = length Payload \<and> take off img = take off Payload \<and> drop (off + 6) img = drop (off + 6) Payload
     \<and> connection_at img off = \<lparr>addr = le_word IP, port = le_word (rev (le_bytes 2 LocalPort))\<rparr>
     \<and> connection_at img off = \<lparr>addr = htonl c (le_word (rev IP)), port = htons c LocalPort\<rparr>"
proof -
  have net: "le_word IP = htonl c (le_word (rev IP))" "le_word (rev (le_bytes 2 LocalPort)) = htons c LocalPort"
    using assms(1) by (simp_all add: htonl_def htons_def bswap_bytes)
  let ?r = "IndexOf Payload placeholder"
  have l: "length placeholder = 6" by (simp add: placeholder_def)
  have run: "\<forall>j<6. Payload ! (k + j) = 0xB4"
  proof (intro allI impI)
    fix j :: nat assume "j < 6"
    then have "take 6 (drop k Payload) ! j = placeholder ! j" using assms(3) by simp
    then show "Payload ! (k + j) = 0xB4"
      using \<open>j < 6\<close> assms(2) by (simp add: placeholder_def)
  qed
  have r: "?r \<noteq> -1"
    unfolding IndexOf_def placeholder_def
    by (rule index_of_loop_run [where k = k]) (use assms(2) run in simp_all)
  have "0 \<le> ?r \<and> ?r + int (length placeholder) \<le> int (length Payload) - int (length placeholder)
     \<and> (\<forall>j<length placeholder. Payload ! (nat ?r + j) = placeholder ! j)"
    by (rule index_of_loop_sound [OF _ _ _ _ IndexOf_def [symmetric] r]) (simp_all add: l)
  then have off: "nat ?r + 12 \<le> length Payload" "int (nat ?r) = ?r"
    and m: "take 6 (drop (nat ?r) Payload) = placeholder"
    using take_drop_nth [of "nat ?r" placeholder Payload] l by auto
  define o' where "o' = nat ?r"
  let ?p = "rev (le_bytes 2 LocalPort)"
  let ?img = "take o' Payload @ IP @ ?p @ drop (o' + 6) Payload"
  have ln: "o' + 12 \<le> length Payload" using off by (simp add: o'_def)
  have "copy_to ?p (copy_to IP Payload o') (o' + 4) = ?img"
    using assms(1) ln by (simp add: copy_to_def add.commute)
  then have "patch_payload Payload IP LocalPort = Some ?img"
    using r by (simp add: patch_payload_def Let_def o'_def)
  moreover have "length ?img = length Payload" using assms(1) ln by simp
  moreover have "connection_at ?img o' = \<lparr>addr = le_word IP, port = le_word ?p\<rparr>"
    using assms(1) ln by (simp add: connection_at_def)
  ultimately show ?thesis
    using m ln assms(1) net by (intro exI [of _ ?img] exI [of _ o']) (simp add: o'_def)
qed

theorem patch_payload_connects_witness:
  "\<exists>img off. patch_payload ([0x90] @ placeholder @ replicate 6 0) [10, 0, 0, 2] 0x1F90 = Some img
     \<and> connection_at img off = \<lparr>addr = 0x0200000A, port = 0x901F\<rparr>"
proof -
  have w: "le_word [10, 0, 0, 2] = (0x0200000A :: u32)" "le_word (rev (le_bytes 2 (0x1F90 :: u16))) = (0x901F :: u16)"
    by code_simp+
  have "take 6 (drop 1 ([0x90] @ placeholder @ replicate 6 0)) = placeholder" by (simp add: placeholder_def)
  then show ?thesis
    using patch_payload_connects [of "[10, 0, 0, 2]" 1 "[0x90] @ placeholder @ replicate 6 0" "0x1F90" True] w
    by (auto simp: placeholder_def)
qed

end
