(* ===== verification/Kernel_RW.thy ===== *)
theory Kernel_RW
  imports DPI_Prelude
begin

text \<open>
  Payload/ps4-libjbc/kernelrw.c: copying between user space and the kernel. The state is
  the 64-bit address space, the bytes in flight in the Mira socket pair and the cached result
  of the Mira probe. The kernel's system calls are parameters (\<open>krw_cfg\<close>); what the code
  relies on of them is \<open>cfg_ok\<close>: \<open>kexec\<close> runs the function it is given,
  \<open>write\<close> and \<open>read\<close> on the socket pair move a prefix, and either the kernel refuses
  kernel pointers (no Mira: the probe fails) or it completes transfers of up to 64 bytes.

  The locale \<open>kernel_access\<close> is the contract jailbreak.c uses (64-bit kernel reads, copies
  out of and into the kernel heap); \<open>krw\<close> interprets it on the functions of this file.
\<close>

section \<open>State\<close>

datatype KmemKind = USERSPACE | KERNEL_HEAP | KERNEL_TEXT

record krw_cfg =
  gs_td :: u64
  k_get_td :: u64
  k_kcpy :: u64
  va_junk :: "nat \<Rightarrow> u64"
  k_other :: "u64 \<Rightarrow> u64 list \<Rightarrow> memory \<Rightarrow> u64 \<times> memory"
  kexec :: "(u64 list \<Rightarrow> memory \<Rightarrow> u64 list \<times> memory) \<Rightarrow> u64 list \<Rightarrow> memory \<Rightarrow> u64 list \<times> memory"
  socketpair_ret :: int
  mira_write :: "u64 \<Rightarrow> nat \<Rightarrow> memory \<Rightarrow> u8 list \<Rightarrow> int \<times> u8 list"
  mira_read :: "u64 \<Rightarrow> nat \<Rightarrow> u8 list \<Rightarrow> int \<times> u8 list \<times> u8 list"
  addr_c :: u64
  addr_ans :: u64
  addr_val :: u64

record krw =
  mem :: memory
  mira_buf :: "u8 list"
  have_mira :: int
  cfg :: krw_cfg

section \<open>Calling into the kernel\<close>

text \<open>\<open>rep movsb\<close>: bytes are copied one at a time, upwards.\<close>

fun rep_movsb :: "nat \<Rightarrow> u64 \<Rightarrow> u64 \<Rightarrow> memory \<Rightarrow> memory" where
  "rep_movsb 0 rdi rsi m = m"
| "rep_movsb (Suc rcx) rdi rsi m = rep_movsb rcx (rdi + 1) (rsi + 1) (m(rdi := m rsi))"

text \<open>The functions the payload runs in the kernel, by address. The value \<open>k_kcpy\<close> leaves in
  the result register is not defined by its code.\<close>

definition run_kfun :: "krw_cfg \<Rightarrow> u64 \<Rightarrow> u64 list \<Rightarrow> memory \<Rightarrow> u64 \<times> memory" where
  "run_kfun c fn args m =
     (if fn = k_get_td c then (gs_td c, m)
      else if fn = k_kcpy c then (va_junk c 0, rep_movsb (unat (args ! 2)) (args ! 0) (args ! 1) m)
      else k_other c fn args m)"

definition k_kcall :: "krw_cfg \<Rightarrow> u64 list \<Rightarrow> memory \<Rightarrow> u64 list \<times> memory" where
  "k_kcall c args m = (case run_kfun c (args ! 0) (drop 1 args) m of (r, m') \<Rightarrow> (args[0 := r], m'))"

text \<open>Six arguments are always fetched; those the caller did not pass are arbitrary.\<close>

definition jbc_krw_kcall :: "u64 \<Rightarrow> u64 list \<Rightarrow> krw \<Rightarrow> u64 \<times> krw" where
  "jbc_krw_kcall fn args s =
     (let c = cfg s;
          uap = fn # map (\<lambda>i. if i < length args then args ! i else va_junk c (Suc i)) [0..<6]
      in case kexec c (k_kcall c) uap (mem s) of (uap', m') \<Rightarrow> (uap' ! 0, s\<lparr>mem := m'\<rparr>))"

definition jbc_krw_get_td :: "krw \<Rightarrow> u64 \<times> krw" where
  "jbc_krw_get_td s = jbc_krw_kcall (k_get_td (cfg s)) [] s"

section \<open>The Mira probe\<close>

definition do_check_mira :: "krw \<Rightarrow> int \<times> krw" where
  "do_check_mira s =
     (if socketpair_ret (cfg s) \<noteq> 0 then (0, s)
      else (case jbc_krw_get_td s of (td, s) \<Rightarrow>
        case mira_write (cfg s) td 1 (mem s) (mira_buf s) of (r, b) \<Rightarrow>
        let s = s\<lparr>mira_buf := b\<rparr> in
        if r = 1
        then (case mira_read (cfg s) (addr_c (cfg s)) 1 (mira_buf s) of (_, _, b) \<Rightarrow> (1, s\<lparr>mira_buf := b\<rparr>))
        else (0, s)))"

definition check_mira :: "krw \<Rightarrow> bool \<times> krw" where
  "check_mira s =
     (let s' = (if have_mira s < 0 then (case do_check_mira s of (h, s) \<Rightarrow> s\<lparr>have_mira := h\<rparr>) else s)
      in (have_mira s' \<noteq> 0, s'))"

section \<open>Copying\<close>

definition check_ptr :: "u64 \<Rightarrow> KmemKind \<Rightarrow> bool" where
  "check_ptr p kind =
     (case kind of
        USERSPACE \<Rightarrow> p < 0x800000000000
      | KERNEL_HEAP \<Rightarrow> p \<ge> 0xffff800000000000 \<and> p < 0xffffffff00000000
      | KERNEL_TEXT \<Rightarrow> p \<ge> 0xffffffff00000000 \<and> p < 0xfffffffffffff000)"

function kcpy_mira :: "u64 \<Rightarrow> u64 \<Rightarrow> u64 \<Rightarrow> krw \<Rightarrow> int \<times> krw" where
  "kcpy_mira dst src sz s =
     (if sz > 0
      then let chk = (if sz > 64 then 64 else sz) in
        (case mira_write (cfg s) src (unat chk) (mem s) (mira_buf s) of (r, b) \<Rightarrow>
          let s1 = s\<lparr>mira_buf := b\<rparr> in
          if r \<noteq> int (unat chk) then (-1, s1)
          else (case mira_read (cfg s1) dst (unat chk) (mira_buf s1) of (r, bs, b) \<Rightarrow>
            let s2 = s1\<lparr>mem := store (mem s1) dst bs, mira_buf := b\<rparr> in
            if r \<noteq> int (unat chk) then (-1, s2)
            else kcpy_mira (dst + chk) (src + chk) (sz - chk) s2))
      else (0, s))"
  by pat_completeness auto
termination
proof (relation "measure (\<lambda>(d, s, n, k). unat n)", goal_cases)
  case 1
  show ?case by simp
next
  case (2 dst src sz s chk)
  have "chk \<le> sz" "0 < chk" using 2 by (auto simp: word_less_nat_alt word_le_nat_alt)
  then have "unat (sz - chk) < unat sz" by (simp add: unat_sub word_le_nat_alt word_less_nat_alt)
  then show ?case by simp
qed

declare kcpy_mira.simps [simp del]

definition jbc_krw_memcpy :: "u64 \<Rightarrow> u64 \<Rightarrow> u64 \<Rightarrow> KmemKind \<Rightarrow> krw \<Rightarrow> int \<times> krw" where
  "jbc_krw_memcpy dst src sz kind s =
     (if sz = 0 then (0, s)
      else let
        u1 = check_ptr dst USERSPACE \<and> check_ptr (dst + sz - 1) USERSPACE;
        ok1 = check_ptr dst kind \<and> check_ptr (dst + sz - 1) kind;
        u2 = check_ptr src USERSPACE \<and> check_ptr (src + sz - 1) USERSPACE;
        ok2 = check_ptr src kind \<and> check_ptr (src + sz - 1) kind
      in if \<not> ((u1 \<or> ok1) \<and> (u2 \<or> ok2)) then (-1, s)
         else if u1 \<and> u2 then (-1, s)
         else (case check_mira s of (mira, s) \<Rightarrow>
           if mira then kcpy_mira dst src sz s
           else (case jbc_krw_kcall (k_kcpy (cfg s)) [dst, src, sz] s of (_, s) \<Rightarrow> (0, s))))"

definition jbc_krw_read64 :: "u64 \<Rightarrow> KmemKind \<Rightarrow> krw \<Rightarrow> u64 \<times> krw" where
  "jbc_krw_read64 p kind s =
     (case jbc_krw_memcpy (addr_ans (cfg s)) p 8 kind s of (r, s) \<Rightarrow>
      if r \<noteq> 0 then (-1, s) else (load64 (mem s) (addr_ans (cfg s)), s))"

definition jbc_krw_write64 :: "u64 \<Rightarrow> KmemKind \<Rightarrow> u64 \<Rightarrow> krw \<Rightarrow> int \<times> krw" where
  "jbc_krw_write64 p kind val s =
     (let s = s\<lparr>mem := store (mem s) (addr_val (cfg s)) (le_bytes 8 val)\<rparr>
      in jbc_krw_memcpy p (addr_val (cfg s)) 8 kind s)"

section \<open>Ranges of addresses\<close>

definition user_range :: "u64 \<Rightarrow> nat \<Rightarrow> bool" where
  "user_range a n \<longleftrightarrow> unat a + n \<le> 0x800000000000"

definition heap_range :: "u64 \<Rightarrow> nat \<Rightarrow> bool" where
  "heap_range a n \<longleftrightarrow> 0xffff800000000000 \<le> unat a \<and> unat a + n \<le> 0xffffffff00000000"

lemma inside_sub:
  assumes "inside (a + of_nat i) n x" and "i + n \<le> k" and "k \<le> 2 ^ 64" and "0 < n"
  shows "inside a k x"
proof -
  let ?d = "x - (a + of_nat i)"
  have "i < 2 ^ 64" using assms(2,3,4) by linarith
  then have "unat ?d + unat (of_nat i :: u64) < 2 ^ 64"
    using assms by (simp add: inside_def)
  then have "unat (?d + of_nat i) = unat ?d + unat (of_nat i :: u64)"
    by (intro unat_add_lem [THEN iffD1]) simp
  moreover have "?d + of_nat i = x - a" by simp
  ultimately show ?thesis
    using assms \<open>i < 2 ^ 64\<close> by (simp add: inside_def)
qed

lemma apart_sub:
  assumes "apart a n b k" and "i + n' \<le> n" and "j + k' \<le> k" and "n \<le> 2 ^ 64" and "k \<le> 2 ^ 64"
  shows "apart (a + of_nat i) n' (b + of_nat j) k'"
proof (cases "n' = 0 \<or> k' = 0")
  case True
  then show ?thesis by (auto simp: apart_def inside_def)
next
  case False
  then show ?thesis using assms unfolding apart_def by (metis inside_sub neq0_conv)
qed

lemma user_heap_apart:
  assumes "user_range a n" and "heap_range b k"
  shows "apart a n b k" and "apart b k a n"
proof -
  have "\<not> (inside a n x \<and> inside b k x)" for x
    using assms inside_unat [of a n x] inside_unat [of b k x]
    by (auto simp: user_range_def heap_range_def)
  then show "apart a n b k" and "apart b k a n" by (auto simp: apart_def)
qed

lemma user_heap_sizes:
  "user_range a n \<Longrightarrow> n \<le> 2 ^ 64" "heap_range a n \<Longrightarrow> n \<le> 2 ^ 64"
  by (simp_all add: user_range_def heap_range_def)

lemma unat_plus_nat: "unat (a :: u64) + i < 2 ^ 64 \<Longrightarrow> unat (a + of_nat i) = unat a + i"
  using unat_add_lem [of a "of_nat i"] by simp

lemma heap_sub: "heap_range a n \<Longrightarrow> i + k \<le> n \<Longrightarrow> heap_range (a + of_nat i) k"
  using unat_plus_nat [of a i] by (simp add: heap_range_def)

lemma user_sub: "user_range a n \<Longrightarrow> i + k \<le> n \<Longrightarrow> user_range (a + of_nat i) k"
  using unat_plus_nat [of a i] by (simp add: user_range_def)

lemma check_ptr_ends_user:
  assumes "user_range a (unat n)" and "n \<noteq> 0"
  shows "check_ptr a USERSPACE" and "check_ptr (a + n - 1) USERSPACE"
proof -
  have n: "0 < unat n" using assms(2) by (simp add: unat_gt_0)
  have "unat (a + n) = unat a + unat n"
    using assms(1) by (simp add: unat_add_lem [THEN iffD1] user_range_def)
  then have "unat (a + n - 1) = unat a + unat n - 1"
    using n by (simp add: unat_sub_if_size word_size)
  then show "check_ptr a USERSPACE" and "check_ptr (a + n - 1) USERSPACE"
    using assms(1) n by (simp_all add: check_ptr_def user_range_def word_less_nat_alt)
qed

lemma check_ptr_ends_heap:
  assumes "heap_range a (unat n)" and "n \<noteq> 0"
  shows "check_ptr a KERNEL_HEAP" and "check_ptr (a + n - 1) KERNEL_HEAP" and "\<not> check_ptr a USERSPACE"
proof -
  have n: "0 < unat n" using assms(2) by (simp add: unat_gt_0)
  have "unat (a + n) = unat a + unat n"
    using assms(1) by (simp add: unat_add_lem [THEN iffD1] heap_range_def)
  then have "unat (a + n - 1) = unat a + unat n - 1"
    using n by (simp add: unat_sub_if_size word_size)
  then show "check_ptr a KERNEL_HEAP" and "check_ptr (a + n - 1) KERNEL_HEAP" and "\<not> check_ptr a USERSPACE"
    using assms(1) n by (auto simp: check_ptr_def heap_range_def word_less_nat_alt word_le_nat_alt)
qed

text \<open>The checks of both ends cover the whole range when it is no longer than the user half.\<close>

lemma check_ptr_whole:
  assumes "check_ptr p kind" and "check_ptr (p + n - 1) kind"
    and "n \<noteq> 0" and "unat n \<le> 2 ^ 47" and "inside p (unat n) x"
  shows "check_ptr x kind"
proof -
  have n: "0 < unat n" using assms(3) by (simp add: unat_gt_0)
  have e: "unat (p + (n - 1)) = (if unat p + unat (n - 1) < 2 ^ 64 then unat p + unat (n - 1)
      else unat p + unat (n - 1) - 2 ^ 64)"
    by (simp add: unat_plus_if_size word_size)
  have n1: "unat (n - 1) = unat n - 1" using n by (simp add: unat_sub_if_size word_size)
  have q: "p + n - 1 = p + (n - 1)" by simp
  have nowrap: "unat p + unat n \<le> 2 ^ 64 \<and> unat (p + n - 1) = unat p + unat n - 1"
    using assms(1,2,4) n e n1 unfolding q
    by (cases kind) (auto simp: check_ptr_def word_less_nat_alt word_le_nat_alt split: if_splits)
  then have "unat p \<le> unat x" "unat x \<le> unat (p + n - 1)"
    using assms(5) n by (auto simp: inside_unat)
  then show ?thesis
    using assms(1,2) by (cases kind) (auto simp: check_ptr_def word_less_nat_alt word_le_nat_alt)
qed

section \<open>What the code relies on\<close>

definition mira_complete :: "krw_cfg \<Rightarrow> bool" where
  "mira_complete c \<longleftrightarrow>
     (\<forall>p n m. n \<le> 64 \<longrightarrow> mira_write c p n m [] = (int n, load m p n)) \<and>
     (\<forall>p n b. n \<le> length b \<longrightarrow> mira_read c p n b = (int n, take n b, drop n b))"

definition mira_refuses :: "krw_cfg \<Rightarrow> bool" where
  "mira_refuses c \<longleftrightarrow> (\<forall>m. \<exists>r. r \<noteq> 1 \<and> mira_write c (gs_td c) 1 m [] = (r, []))"

definition cfg_ok :: "krw_cfg \<Rightarrow> bool" where
  "cfg_ok c \<longleftrightarrow> (\<forall>f a m. kexec c f a m = f a m) \<and> k_get_td c \<noteq> k_kcpy c
     \<and> (socketpair_ret c \<noteq> 0 \<or> mira_refuses c \<or> mira_complete c)
     \<and> user_range (addr_ans c) 8 \<and> user_range (addr_val c) 8"

text \<open>The invariant of the component: nothing is left in the socket pair, and the cached probe
  result is one the kernel really gives.\<close>

definition krw_ready :: "krw \<Rightarrow> bool" where
  "krw_ready s \<longleftrightarrow> cfg_ok (cfg s) \<and> mira_buf s = []
     \<and> (have_mira s = -1 \<or> have_mira s = 0 \<or> have_mira s = 1 \<and> mira_complete (cfg s))"

section \<open>Correctness of copying\<close>

lemma rep_movsb_copies:
  "apart d n s n \<Longrightarrow> n < 2 ^ 64 \<Longrightarrow> rep_movsb n d s m = store m d (load m s n)"
proof (induction n arbitrary: d s m)
  case 0
  then show ?case by (auto simp: store_def)
next
  case (Suc n)
  let ?m = "m(d := m s)"
  have m: "?m = store m d [m s]"
    by (auto simp: store_def fun_eq_iff unat_eq_0)
  have a1: "apart (d + of_nat 1) n (s + of_nat 1) n"
    using Suc.prems by (intro apart_sub [where n = "Suc n" and k = "Suc n"]) auto
  have a2: "apart d 1 (s + of_nat 1) n"
    using apart_sub [OF Suc.prems(1), of 0 1 1 n] Suc.prems(2) by simp
  have "load ?m (s + 1) n = load m (s + 1) n"
    unfolding m using a2 Suc.prems(2) by (intro load_store_apart) auto
  then have "rep_movsb (Suc n) d s m = store (store m d [m s]) (d + of_nat (length [m s])) (load m (s + 1) n)"
    using Suc.IH [of "d + 1" "s + 1" ?m] a1 Suc.prems(2) m by simp
  also have "\<dots> = store m d ([m s] @ load m (s + 1) n)"
    using Suc.prems(2) by (intro store_store_append) simp
  also have "[m s] @ load m (s + 1) n = load m s (1 + n)"
    using load_append [of m s 1 n] by (simp add: load_def)
  finally show ?case by simp
qed

lemma kcpy_mira_copies:
  assumes "mira_complete (cfg s)" and "mira_buf s = []" and "apart dst (unat sz) src (unat sz)"
  shows "kcpy_mira dst src sz s = (0, s\<lparr>mem := store (mem s) dst (load (mem s) src (unat sz))\<rparr>)"
  using assms
proof (induction dst src sz s rule: kcpy_mira.induct)
  case (1 dst src sz s)
  show ?case
  proof (cases "sz > 0")
    case False
    then have "sz = 0" by (simp add: word_gt_0)
    then show ?thesis by (subst kcpy_mira.simps) (simp add: store_def load_def)
  next
    case True
    define chk where "chk = (if sz > 64 then 64 else sz)"
    have chk: "unat chk \<le> unat sz" "unat chk \<le> 64" "0 < unat chk"
      using True by (auto simp: chk_def word_less_nat_alt)
    have rest: "unat (sz - chk) = unat sz - unat chk"
      using chk(1) by (simp add: unat_sub word_le_nat_alt)
    have c64: "of_nat (unat chk) = chk" by simp
    have lt: "unat sz < 2 ^ 64" by (rule unat_less_64)
    define bs where "bs = load (mem s) src (unat chk)"
    define s2 where "s2 = s\<lparr>mem := store (mem s) dst bs, mira_buf := []\<rparr>"
    have w: "mira_write (cfg s) src (unat chk) (mem s) (mira_buf s) = (int (unat chk), bs)"
      using "1.prems"(1,2) chk(2) by (simp add: mira_complete_def bs_def)
    have r: "mira_read (cfg s) dst (unat chk) bs = (int (unat chk), bs, [])"
      using "1.prems"(1) by (simp add: mira_complete_def bs_def)
    have step: "kcpy_mira dst src sz s = kcpy_mira (dst + chk) (src + chk) (sz - chk) s2"
      using True w r by (subst kcpy_mira.simps) (simp add: s2_def Let_def flip: chk_def)
    have ap: "apart (dst + of_nat (unat chk)) (unat (sz - chk)) (src + of_nat (unat chk)) (unat (sz - chk))"
      using "1.prems"(3) by (rule apart_sub) (use rest chk lt in auto)
    have "kcpy_mira (dst + chk) (src + chk) (sz - chk) s2
        = (0, s2\<lparr>mem := store (mem s2) (dst + chk) (load (mem s2) (src + chk) (unat (sz - chk)))\<rparr>)"
      by (rule "1.IH" [OF True chk_def w [symmetric] refl _ _ refl])
        (use r ap "1.prems" in \<open>auto simp: s2_def c64\<close>)
    moreover have "load (mem s2) (src + chk) (unat (sz - chk)) = load (mem s) (src + chk) (unat (sz - chk))"
    proof -
      have "apart (dst + of_nat 0) (unat chk) (src + of_nat (unat chk)) (unat (sz - chk))"
        using "1.prems"(3) by (rule apart_sub) (use rest chk lt in auto)
      then show ?thesis
        using lt rest by (simp add: s2_def bs_def load_store_apart)
    qed
    moreover have "store (store (mem s) dst bs) (dst + chk) (load (mem s) (src + chk) (unat (sz - chk)))
        = store (mem s) dst (load (mem s) src (unat sz))"
      using store_store_append [of bs "load (mem s) (src + chk) (unat (sz - chk))" "mem s" dst]
        load_append [of "mem s" src "unat chk" "unat (sz - chk)"] rest chk lt
      by (simp add: bs_def)
    ultimately show ?thesis using step "1.prems"(2) by (simp add: s2_def)
  qed
qed

lemma get_td_eq: "cfg_ok (cfg s) \<Longrightarrow> jbc_krw_get_td s = (gs_td (cfg s), s)"
  by (simp add: jbc_krw_get_td_def jbc_krw_kcall_def cfg_ok_def k_kcall_def run_kfun_def Let_def)

lemma check_mira_ready:
  assumes "krw_ready s" and "check_mira s = (b, s')"
  shows "krw_ready s' \<and> mem s' = mem s \<and> cfg s' = cfg s \<and> (b \<longrightarrow> mira_complete (cfg s))"
proof (cases "have_mira s < 0")
  case False
  then show ?thesis using assms by (auto simp: check_mira_def krw_ready_def)
next
  case True
  have ok: "cfg_ok (cfg s)" and buf: "mira_buf s = []" using assms(1) by (auto simp: krw_ready_def)
  show ?thesis
  proof (cases "socketpair_ret (cfg s) \<noteq> 0")
    case sp: True
    then show ?thesis using assms True ok buf
      by (auto simp: check_mira_def do_check_mira_def krw_ready_def)
  next
    case sp: False
    obtain r b1 where w: "mira_write (cfg s) (gs_td (cfg s)) 1 (mem s) [] = (r, b1)" by fastforce
    have "r \<noteq> 1 \<and> b1 = [] \<or> mira_complete (cfg s)"
      using ok sp w unfolding cfg_ok_def mira_refuses_def by (metis prod.inject)
    moreover have ?thesis if c: "mira_complete (cfg s)"
    proof -
      have "mira_write (cfg s) (gs_td (cfg s)) 1 (mem s) [] = (1, load (mem s) (gs_td (cfg s)) 1)"
        "mira_read (cfg s) (addr_c (cfg s)) 1 (load (mem s) (gs_td (cfg s)) 1)
           = (1, load (mem s) (gs_td (cfg s)) 1, [])"
        using c by (simp_all add: mira_complete_def)
      then show ?thesis
        using assms True ok sp buf c
        by (auto simp: check_mira_def do_check_mira_def krw_ready_def get_td_eq)
    qed
    moreover have ?thesis if "r \<noteq> 1 \<and> b1 = []"
      using assms True ok sp w buf that
      by (auto simp: check_mira_def do_check_mira_def krw_ready_def get_td_eq)
    ultimately show ?thesis by blast
  qed
qed

lemma kcall_kcpy:
  assumes "cfg_ok (cfg s)" and "apart dst (unat sz) src (unat sz)"
  shows "snd (jbc_krw_kcall (k_kcpy (cfg s)) [dst, src, sz] s)
       = s\<lparr>mem := store (mem s) dst (load (mem s) src (unat sz))\<rparr>"
proof -
  have "rep_movsb (unat sz) dst src (mem s) = store (mem s) dst (load (mem s) src (unat sz))"
    using assms(2) unat_less_64 by (rule rep_movsb_copies)
  moreover have "[0..<6] = [0, 1, 2, 3, 4, 5 :: nat]" by code_simp
  ultimately show ?thesis
    using assms(1)
    by (auto simp: jbc_krw_kcall_def cfg_ok_def k_kcall_def run_kfun_def Let_def split: prod.splits)
qed

text \<open>A copy between user space and the kernel heap succeeds, is exact, and keeps the invariant.\<close>

lemma memcpy_user_heap:
  assumes "krw_ready s" and "sz \<noteq> 0"
    and "user_range dst (unat sz) \<and> heap_range src (unat sz) \<or> heap_range dst (unat sz) \<and> user_range src (unat sz)"
  shows "\<exists>s'. jbc_krw_memcpy dst src sz KERNEL_HEAP s = (0, s') \<and> krw_ready s' \<and> cfg s' = cfg s
     \<and> mem s' = store (mem s) dst (load (mem s) src (unat sz))"
proof -
  have ap: "apart dst (unat sz) src (unat sz)" using assms(3) user_heap_apart by blast
  obtain b s1 where cm: "check_mira s = (b, s1)" by fastforce
  note r = check_mira_ready [OF assms(1) cm]
  have base: "jbc_krw_memcpy dst src sz KERNEL_HEAP s =
      (if b then kcpy_mira dst src sz s1
       else (case jbc_krw_kcall (k_kcpy (cfg s1)) [dst, src, sz] s1 of (_, s) \<Rightarrow> (0, s)))"
    using assms(2,3) cm check_ptr_ends_user [OF _ assms(2)] check_ptr_ends_heap [OF _ assms(2)]
    by (auto simp: jbc_krw_memcpy_def Let_def)
  show ?thesis
  proof (cases b)
    case True
    then have "kcpy_mira dst src sz s1 = (0, s1\<lparr>mem := store (mem s1) dst (load (mem s1) src (unat sz))\<rparr>)"
      using r ap by (intro kcpy_mira_copies) (auto simp: krw_ready_def)
    then show ?thesis using base True r by (auto simp: krw_ready_def)
  next
    case False
    have "snd (jbc_krw_kcall (k_kcpy (cfg s1)) [dst, src, sz] s1)
       = s1\<lparr>mem := store (mem s1) dst (load (mem s1) src (unat sz))\<rparr>"
      using r ap by (intro kcall_kcpy) (auto simp: krw_ready_def)
    then show ?thesis using base False r by (auto simp: krw_ready_def split: prod.splits)
  qed
qed

lemma read64_heap:
  assumes "krw_ready s" and "heap_range p 8"
  shows "\<exists>s'. jbc_krw_read64 p KERNEL_HEAP s = (load64 (mem s) p, s') \<and> krw_ready s' \<and> cfg s' = cfg s
     \<and> mem s' = store (mem s) (addr_ans (cfg s)) (load (mem s) p 8)"
proof -
  have "user_range (addr_ans (cfg s)) (unat (8 :: u64))" "heap_range p (unat (8 :: u64))"
    using assms by (simp_all add: krw_ready_def cfg_ok_def)
  then obtain s' where "jbc_krw_memcpy (addr_ans (cfg s)) p 8 KERNEL_HEAP s = (0, s')" "krw_ready s'"
      "cfg s' = cfg s" "mem s' = store (mem s) (addr_ans (cfg s)) (load (mem s) p 8)"
    using memcpy_user_heap [OF assms(1), of 8 "addr_ans (cfg s)" p] by auto
  then show ?thesis by (simp add: jbc_krw_read64_def)
qed

lemma write64_heap:
  assumes "krw_ready s" and "heap_range p 8"
  shows "\<exists>s'. jbc_krw_write64 p KERNEL_HEAP v s = (0, s') \<and> krw_ready s' \<and> cfg s' = cfg s
     \<and> mem s' = store (store (mem s) (addr_val (cfg s)) (le_bytes 8 v)) p (le_bytes 8 v)"
proof -
  let ?s = "s\<lparr>mem := store (mem s) (addr_val (cfg s)) (le_bytes 8 v)\<rparr>"
  have "krw_ready ?s" using assms(1) by (simp add: krw_ready_def)
  moreover have "user_range (addr_val (cfg s)) (unat (8 :: u64))" "heap_range p (unat (8 :: u64))"
    using assms by (simp_all add: krw_ready_def cfg_ok_def)
  ultimately obtain s' where "jbc_krw_memcpy p (addr_val (cfg s)) 8 KERNEL_HEAP ?s = (0, s')" "krw_ready s'"
      "cfg s' = cfg s" "mem s' = store (mem ?s) p (load (mem ?s) (addr_val (cfg s)) 8)"
    using memcpy_user_heap [of ?s 8 p "addr_val (cfg s)"] by auto
  then show ?thesis by (simp add: jbc_krw_write64_def Let_def)
qed

section \<open>The contract\<close>

text \<open>Two memories that agree outside a range.\<close>

definition same_outside :: "u64 \<Rightarrow> nat \<Rightarrow> memory \<Rightarrow> memory \<Rightarrow> bool" where
  "same_outside a n m m' \<longleftrightarrow> (\<forall>x. \<not> inside a n x \<longrightarrow> m' x = m x)"

lemma same_outside_refl [simp]: "same_outside a n m m"
  by (simp add: same_outside_def)

lemma same_outside_trans: "same_outside a n m m' \<Longrightarrow> same_outside a n m' m'' \<Longrightarrow> same_outside a n m m''"
  by (simp add: same_outside_def)

lemma same_outside_store: "length bs = n \<Longrightarrow> same_outside a n m (store m a bs)"
  by (simp add: same_outside_def store_def inside_def)

lemma same_outside_load:
  "same_outside a n m m' \<Longrightarrow> apart a n b k \<Longrightarrow> k \<le> 2 ^ 64 \<Longrightarrow> load m' b k = load m b k"
  by (rule load_cong) (auto simp: same_outside_def apart_def)

locale kernel_access =
  fixes gtd :: "'s \<Rightarrow> u64 \<times> 's"
    and rd64 :: "u64 \<Rightarrow> 's \<Rightarrow> u64 \<times> 's"
    and cpy :: "u64 \<Rightarrow> u64 \<Rightarrow> u64 \<Rightarrow> 's \<Rightarrow> int \<times> 's"
    and memory_of :: "'s \<Rightarrow> memory"
    and ready :: "'s \<Rightarrow> bool"
    and slot :: "'s \<Rightarrow> u64"
    and td_of :: "'s \<Rightarrow> u64"
  assumes gtd_law: "ready s \<Longrightarrow> gtd s = (td_of s, s)"
    and slot_user: "ready s \<Longrightarrow> user_range (slot s) 8"
    and rd64_law: "ready s \<Longrightarrow> heap_range p 8 \<Longrightarrow>
      \<exists>s'. rd64 p s = (load64 (memory_of s) p, s') \<and> ready s' \<and> slot s' = slot s \<and> td_of s' = td_of s
        \<and> memory_of s' = store (memory_of s) (slot s) (load (memory_of s) p 8)"
    and cpy_law: "ready s \<Longrightarrow> n \<noteq> 0 \<Longrightarrow>
      user_range d (unat n) \<and> heap_range k (unat n) \<or> heap_range d (unat n) \<and> user_range k (unat n) \<Longrightarrow>
      \<exists>s'. cpy d k n s = (0, s') \<and> ready s' \<and> slot s' = slot s \<and> td_of s' = td_of s
        \<and> memory_of s' = store (memory_of s) d (load (memory_of s) k (unat n))"
begin

lemma rd64_value:
  assumes "ready s" and "heap_range p 8"
  shows "\<exists>s'. rd64 p s = (load64 (memory_of s) p, s') \<and> ready s' \<and> slot s' = slot s \<and> td_of s' = td_of s
     \<and> same_outside (slot s) 8 (memory_of s) (memory_of s')"
  using rd64_law [OF assms] by (metis length_load same_outside_store)

lemma heap_after_slot:
  assumes "ready s" and "same_outside (slot s) 8 (memory_of s) m'" and "heap_range p n"
  shows "load m' p n = load (memory_of s) p n"
  using assms(2) user_heap_apart(1) [OF slot_user [OF assms(1)] assms(3)] user_heap_sizes(2) [OF assms(3)]
  by (rule same_outside_load)

text \<open>The pointer chain every operation of jailbreak.c starts with: thread, process, and the two
  structures of the process.\<close>

lemma chain:
  assumes r: "ready s" and h: "heap_range (td_of s + 8) 8" "heap_range (load64 (memory_of s) (td_of s + 8) + x) 8"
    "heap_range (load64 (memory_of s) (td_of s + 8) + y) 8"
  shows "\<exists>s1 s2 s3. gtd s = (td_of s, s)
     \<and> rd64 (td_of s + 8) s = (load64 (memory_of s) (td_of s + 8), s1)
     \<and> rd64 (load64 (memory_of s) (td_of s + 8) + x) s1 = (load64 (memory_of s) (load64 (memory_of s) (td_of s + 8) + x), s2)
     \<and> rd64 (load64 (memory_of s) (td_of s + 8) + y) s2 = (load64 (memory_of s) (load64 (memory_of s) (td_of s + 8) + y), s3)
     \<and> ready s3 \<and> slot s3 = slot s \<and> td_of s3 = td_of s
     \<and> same_outside (slot s) 8 (memory_of s) (memory_of s3)"
proof -
  from rd64_value [OF r h(1)] obtain s1 where 1: "rd64 (td_of s + 8) s = (load64 (memory_of s) (td_of s + 8), s1)"
    "ready s1" "slot s1 = slot s" "td_of s1 = td_of s" "same_outside (slot s) 8 (memory_of s) (memory_of s1)" by blast
  from rd64_value [OF 1(2) h(2)] obtain s2 where 2:
    "rd64 (load64 (memory_of s) (td_of s + 8) + x) s1 = (load64 (memory_of s1) (load64 (memory_of s) (td_of s + 8) + x), s2)"
    "ready s2" "slot s2 = slot s" "td_of s2 = td_of s" "same_outside (slot s) 8 (memory_of s1) (memory_of s2)"
    using 1(3,4) by metis
  have m2: "same_outside (slot s) 8 (memory_of s) (memory_of s2)" using 1(5) 2(5) by (rule same_outside_trans)
  from rd64_value [OF 2(2) h(3)] obtain s3 where 3:
    "rd64 (load64 (memory_of s) (td_of s + 8) + y) s2 = (load64 (memory_of s2) (load64 (memory_of s) (td_of s + 8) + y), s3)"
    "ready s3" "slot s3 = slot s" "td_of s3 = td_of s" "same_outside (slot s) 8 (memory_of s2) (memory_of s3)"
    using 2(3,4) by metis
  have "same_outside (slot s) 8 (memory_of s) (memory_of s3)" using m2 3(5) by (rule same_outside_trans)
  then show ?thesis
    using gtd_law [OF r] 1 2 3 heap_after_slot [OF r 1(5) h(2)] heap_after_slot [OF r m2 h(3)] by auto
qed

end

interpretation krw: kernel_access jbc_krw_get_td "\<lambda>p. jbc_krw_read64 p KERNEL_HEAP"
  "\<lambda>d k n. jbc_krw_memcpy d k n KERNEL_HEAP" mem krw_ready "\<lambda>s. addr_ans (cfg s)" "\<lambda>s. gs_td (cfg s)"
proof unfold_locales
  fix s p assume "krw_ready s"
  then show "jbc_krw_get_td s = (gs_td (cfg s), s)" by (simp add: krw_ready_def get_td_eq)
next
  fix s assume "krw_ready s"
  then show "user_range (addr_ans (cfg s)) 8" by (simp add: krw_ready_def cfg_ok_def)
next
  fix s p assume "krw_ready s" "heap_range p 8"
  from read64_heap [OF this] show "\<exists>s'. jbc_krw_read64 p KERNEL_HEAP s = (load64 (mem s) p, s') \<and> krw_ready s'
      \<and> addr_ans (cfg s') = addr_ans (cfg s) \<and> gs_td (cfg s') = gs_td (cfg s)
      \<and> mem s' = store (mem s) (addr_ans (cfg s)) (load (mem s) p 8)" by auto
next
  fix s :: krw and n d k :: u64
  assume "krw_ready s" "n \<noteq> 0"
    "user_range d (unat n) \<and> heap_range k (unat n) \<or> heap_range d (unat n) \<and> user_range k (unat n)"
  from memcpy_user_heap [OF this] show "\<exists>s'. jbc_krw_memcpy d k n KERNEL_HEAP s = (0, s') \<and> krw_ready s'
      \<and> addr_ans (cfg s') = addr_ans (cfg s) \<and> gs_td (cfg s') = gs_td (cfg s)
      \<and> mem s' = store (mem s) d (load (mem s) k (unat n))" by auto
qed

section \<open>Properties\<close>

text \<open>A kernel without Mira: \<open>write\<close> fails on kernel pointers. And one with Mira.\<close>

definition plain_cfg :: krw_cfg where
  "plain_cfg = \<lparr>gs_td = 0xffff900000000000, k_get_td = 0x400000, k_kcpy = 0x400010,
     va_junk = (\<lambda>_. 0), k_other = (\<lambda>_ _ m. (0, m)), kexec = (\<lambda>f. f), socketpair_ret = 0,
     mira_write = (\<lambda>p n m b. (-1, b)), mira_read = (\<lambda>p n b. (-1, [], b)),
     addr_c = 0x7f0000000000, addr_ans = 0x7f0000000010, addr_val = 0x7f0000000020\<rparr>"

definition mira_cfg :: krw_cfg where
  "mira_cfg = plain_cfg\<lparr>mira_write := (\<lambda>p n m b. (int n, b @ load m p n)),
     mira_read := (\<lambda>p n b. (int (min n (length b)), take n b, drop n b))\<rparr>"

definition boot :: "krw_cfg \<Rightarrow> memory \<Rightarrow> krw" where
  "boot c m = \<lparr>mem = m, mira_buf = [], have_mira = -1, cfg = c\<rparr>"

lemma plain_cfg_ok: "cfg_ok plain_cfg"
  by (simp add: cfg_ok_def plain_cfg_def mira_refuses_def user_range_def)

lemma mira_cfg_ok: "cfg_ok mira_cfg" "mira_complete mira_cfg"
  by (simp_all add: cfg_ok_def mira_cfg_def plain_cfg_def mira_complete_def user_range_def)

lemma boot_ready: "cfg_ok c \<Longrightarrow> krw_ready (boot c m)"
  by (simp add: krw_ready_def boot_def)

text \<open>C32. A copy between user space and the kernel heap (in either direction, with or without
  Mira) returns 0, leaves exactly the source bytes at the destination and every other byte
  as it was, and leaves nothing in the socket pair.\<close>

theorem jbc_krw_memcpy_exact:
  assumes "krw_ready s" and "sz \<noteq> 0"
    and "user_range dst (unat sz) \<and> heap_range src (unat sz) \<or> heap_range dst (unat sz) \<and> user_range src (unat sz)"
  shows "\<exists>s'. jbc_krw_memcpy dst src sz KERNEL_HEAP s = (0, s') \<and> krw_ready s'
     \<and> load (mem s') dst (unat sz) = load (mem s) src (unat sz)
     \<and> (\<forall>x. \<not> inside dst (unat sz) x \<longrightarrow> mem s' x = mem s x)"
proof -
  have "unat sz \<le> 2 ^ 64" using unat_less_64 [of sz] by simp
  then show ?thesis
    using memcpy_user_heap [OF assms] by (auto simp: store_outside)
qed

theorem jbc_krw_memcpy_exact_witness:
  "\<exists>s'. jbc_krw_memcpy 0x1000 0xffff900000000100 100 KERNEL_HEAP (boot mira_cfg (\<lambda>x. ucast x)) = (0, s')
     \<and> krw_ready s' \<and> load (mem s') 0x1000 100 = load (\<lambda>x. ucast x) 0xffff900000000100 100"
  using jbc_krw_memcpy_exact [OF boot_ready [OF mira_cfg_ok(1)], of 100 "0x1000" "0xffff900000000100" "\<lambda>x. ucast x"]
  by (auto simp: user_range_def heap_range_def boot_def)

text \<open>The pointer checks: a copy is refused, with the state unchanged, unless each range
  has both ends in user space or both in the requested kernel region, and never both in user
  space.\<close>

lemma jbc_krw_memcpy_refuses:
  assumes "sz \<noteq> 0"
    and "(\<not> (check_ptr dst USERSPACE \<and> check_ptr (dst + sz - 1) USERSPACE)
           \<and> \<not> (check_ptr dst kind \<and> check_ptr (dst + sz - 1) kind))
       \<or> (\<not> (check_ptr src USERSPACE \<and> check_ptr (src + sz - 1) USERSPACE)
           \<and> \<not> (check_ptr src kind \<and> check_ptr (src + sz - 1) kind))
       \<or> user_range dst (unat sz) \<and> user_range src (unat sz)"
  shows "jbc_krw_memcpy dst src sz kind s = (-1, s)"
  using assms check_ptr_ends_user [OF _ assms(1)]
  by (auto simp: jbc_krw_memcpy_def Let_def)

lemma jbc_krw_memcpy_refuses_witness:
  "jbc_krw_memcpy 0x1000 0x2000 8 KERNEL_HEAP (boot plain_cfg (\<lambda>_. 0)) = (-1, boot plain_cfg (\<lambda>_. 0))"
  by (rule jbc_krw_memcpy_refuses) (simp_all add: user_range_def)

text \<open>C33. For a size up to 2 to the 47, checking the two ends checks every byte of the range.\<close>

theorem check_ptr_covers_range:
  assumes "check_ptr p kind" and "check_ptr (p + sz - 1) kind" and "sz \<noteq> 0" and "unat sz \<le> 2 ^ 47"
  shows "\<forall>x. inside p (unat sz) x \<longrightarrow> check_ptr x kind"
  using check_ptr_whole [OF assms] by blast

theorem check_ptr_covers_range_witness: "inside 0x1000 4096 0x1abc \<and> check_ptr 0x1abc USERSPACE"
proof -
  have "\<forall>x. inside 0x1000 (unat (4096 :: u64)) x \<longrightarrow> check_ptr x USERSPACE"
    by (rule check_ptr_covers_range) (simp_all add: check_ptr_def)
  moreover have "inside 0x1000 (unat (4096 :: u64)) 0x1abc" by (simp add: inside_def)
  ultimately show ?thesis by simp
qed

text \<open>With a larger size the sum wraps around and the checks pass for a range that runs
  through the kernel.\<close>

lemma check_ptr_wraps:
  "check_ptr 0x1000 USERSPACE \<and> check_ptr (0x1000 + 0xffffffffffffffff - 1) USERSPACE
     \<and> inside 0x1000 (unat (0xffffffffffffffff :: u64)) 0xffff900000000000
     \<and> \<not> check_ptr 0xffff900000000000 USERSPACE"
  by (simp add: check_ptr_def inside_def)

text \<open>A 64-bit value written to the kernel heap is the value read back.\<close>

lemma write64_read64:
  assumes "krw_ready s" and "heap_range p 8"
  shows "\<exists>s1 s2. jbc_krw_write64 p KERNEL_HEAP v s = (0, s1) \<and> jbc_krw_read64 p KERNEL_HEAP s1 = (v, s2)
     \<and> krw_ready s2"
proof -
  obtain s1 where 1: "jbc_krw_write64 p KERNEL_HEAP v s = (0, s1)" "krw_ready s1"
      "mem s1 = store (store (mem s) (addr_val (cfg s)) (le_bytes 8 v)) p (le_bytes 8 v)"
    using write64_heap [OF assms] by blast
  obtain s2 where "jbc_krw_read64 p KERNEL_HEAP s1 = (load64 (mem s1) p, s2)" "krw_ready s2"
    using read64_heap [OF 1(2) assms(2)] by blast
  then show ?thesis using 1 by auto
qed

lemma write64_read64_witness:
  "\<exists>s1 s2. jbc_krw_write64 0xffff900000000100 KERNEL_HEAP 0x1122334455667788 (boot plain_cfg (\<lambda>_. 0)) = (0, s1)
     \<and> jbc_krw_read64 0xffff900000000100 KERNEL_HEAP s1 = (0x1122334455667788, s2) \<and> krw_ready s2"
  by (rule write64_read64 [OF boot_ready [OF plain_cfg_ok]]) (simp add: heap_range_def)

text \<open>A copy through Mira whose \<open>read\<close> fails leaves its bytes in the socket pair, and the
  next copy, which reports success, delivers those stale bytes instead of its own source.\<close>

lemma mira_failed_read_corrupts:
  assumes "have_mira s = 1" and "mira_buf s = []"
    and wr: "\<And>p n m b. mira_write (cfg s) p n m b = (int n, b @ load m p n)"
    and bad: "\<And>b. mira_read (cfg s) d1 8 b = (-1, [], b)"
    and good: "\<And>b. 8 \<le> length b \<Longrightarrow> mira_read (cfg s) d2 8 b = (8, take 8 b, drop 8 b)"
    and r: "user_range d1 8" "user_range d2 8" "heap_range k1 8" "heap_range k2 8"
  shows "\<exists>s1 s2. jbc_krw_memcpy d1 k1 8 KERNEL_HEAP s = (-1, s1)
     \<and> jbc_krw_memcpy d2 k2 8 KERNEL_HEAP s1 = (0, s2)
     \<and> load (mem s2) d2 8 = load (mem s) k1 8"
proof -
  define s1 where "s1 = s\<lparr>mira_buf := load (mem s) k1 8\<rparr>"
  define s2 where "s2 = s1\<lparr>mem := store (mem s) d2 (load (mem s) k1 8), mira_buf := load (mem s) k2 8\<rparr>"
  have go: "jbc_krw_memcpy d k 8 KERNEL_HEAP t = kcpy_mira d k 8 t"
    if "user_range d 8" "heap_range k 8" "have_mira t = 1" for d k t
    using that check_ptr_ends_user [of d 8] check_ptr_ends_heap [of k 8]
    by (simp add: jbc_krw_memcpy_def Let_def check_mira_def)
  have n0: "store (mem s) d1 [] = mem s" by (simp add: store_def)
  have "kcpy_mira d1 k1 8 s = (-1, s1)"
    using assms(2) wr bad n0 by (subst kcpy_mira.simps) (simp add: s1_def Let_def)
  moreover have "kcpy_mira d2 k2 8 s1 = (0, s2)"
    using wr good by (subst kcpy_mira.simps) (simp add: s1_def s2_def Let_def kcpy_mira.simps [of _ _ 0])
  ultimately show ?thesis
    using go r assms(1) by (auto simp: s1_def s2_def)
qed

definition faulty_cfg :: krw_cfg where
  "faulty_cfg = mira_cfg\<lparr>mira_read := (\<lambda>p n b. if p = 0x2000 then (-1, [], b)
      else (int (min n (length b)), take n b, drop n b))\<rparr>"

lemma mira_failed_read_corrupts_witness:
  "\<exists>s1 s2. jbc_krw_memcpy 0x2000 0xffff900000000000 8 KERNEL_HEAP
        \<lparr>mem = (\<lambda>x. ucast (drop_bit 8 x)), mira_buf = [], have_mira = 1, cfg = faulty_cfg\<rparr> = (-1, s1)
     \<and> jbc_krw_memcpy 0x1000 0xffff900000000100 8 KERNEL_HEAP s1 = (0, s2)
     \<and> load (mem s2) 0x1000 8 = load (\<lambda>x. ucast (drop_bit 8 x)) 0xffff900000000000 8"
  using mira_failed_read_corrupts [of "\<lparr>mem = (\<lambda>x. ucast (drop_bit 8 x)), mira_buf = [], have_mira = 1, cfg = faulty_cfg\<rparr>"
      "0x2000" "0x1000" "0xffff900000000000" "0xffff900000000100"]
  by (simp add: faulty_cfg_def mira_cfg_def user_range_def heap_range_def)

end
