(* ===== verification/Jailbreak.thy ===== *)
theory Jailbreak
  imports Kernel_RW
begin

text \<open>
  Payload/ps4-libjbc/jailbreak.c and jailbreak.h: finding init's prison and root vnode in the
  process list, and reading and writing the credentials of the calling process. A
  \<open>struct jbc_cred\<close> lives in memory at the layout the ABI gives it; \<open>cred_at\<close> reads it
  back. \<open>resolve\<close> restarts when the list changes under it and need not return:
  \<^term>\<open>None\<close> is "does not return".
\<close>

section \<open>Layout of the structure\<close>

definition align_up :: "nat \<Rightarrow> nat \<Rightarrow> nat" where
  "align_up off al = ((off + al - 1) div al) * al"

primrec field_offsets :: "nat \<Rightarrow> nat list \<Rightarrow> nat list" where
  "field_offsets off [] = []"
| "field_offsets off (sz # fs) = (let o' = align_up off sz in o' # field_offsets (o' + sz) fs)"

text \<open>uid, ruid, svuid, rgid, svgid: four bytes; prison, cdir, rdir, jdir, sceProcType, sonyCred,
  sceProcCap: eight.\<close>

definition jbc_cred_offsets :: "nat list" where
  "jbc_cred_offsets = field_offsets 0 [4, 4, 4, 4, 4, 8, 8, 8, 8, 8, 8, 8]"

lemma jbc_cred_offsets_eq: "jbc_cred_offsets = [0, 4, 8, 12, 16, 24, 32, 40, 48, 56, 64, 72]"
  by code_simp

record jbc_cred =
  uid :: u32
  ruid :: u32
  svuid :: u32
  rgid :: u32
  svgid :: u32
  prison :: u64
  cdir :: u64
  rdir :: u64
  jdir :: u64
  sceProcType :: u64
  sonyCred :: u64
  sceProcCap :: u64

definition cred_at :: "memory \<Rightarrow> u64 \<Rightarrow> jbc_cred" where
  "cred_at m a = \<lparr>uid = load32 m a, ruid = load32 m (a + 4), svuid = load32 m (a + 8),
     rgid = load32 m (a + 12), svgid = load32 m (a + 16), prison = load64 m (a + 24),
     cdir = load64 m (a + 32), rdir = load64 m (a + 40), jdir = load64 m (a + 48),
     sceProcType = load64 m (a + 56), sonyCred = load64 m (a + 64), sceProcCap = load64 m (a + 72)\<rparr>"

text \<open>Addresses of the statics and of the local \<open>pid\<close>.\<close>

record jb_layout =
  addr_prison0 :: u64
  addr_rootvnode :: u64
  addr_pid :: u64

section \<open>Finding init\<close>

text \<open>Both loops of \<open>resolve\<close>: \<open>None\<close> is the label \<open>restart\<close>, \<open>Some proc\<close> the head of the
  inner loop.\<close>

partial_function (option) resolve_loop :: "jb_layout \<Rightarrow> u64 option \<Rightarrow> krw \<Rightarrow> (u64 \<times> krw) option" where
  "resolve_loop L at s =
     (case at of
        None \<Rightarrow>
          (case jbc_krw_get_td s of (td, s) \<Rightarrow>
           case jbc_krw_read64 (td + 8) KERNEL_HEAP s of (proc, s) \<Rightarrow> resolve_loop L (Some proc) s)
      | Some proc \<Rightarrow>
          (case jbc_krw_memcpy (addr_pid L) (proc + 0xb0) 4 KERNEL_HEAP s of (r, s) \<Rightarrow>
           if r \<noteq> 0 then resolve_loop L None s
           else if load32 (mem s) (addr_pid L) = 1 then Some (proc, s)
           else (case jbc_krw_read64 proc KERNEL_HEAP s of (proc2, s) \<Rightarrow>
             case jbc_krw_read64 (proc2 + 8) KERNEL_HEAP s of (proc1, s) \<Rightarrow>
             if proc1 \<noteq> proc then resolve_loop L None s else resolve_loop L (Some proc2) s)))"

definition resolve :: "jb_layout \<Rightarrow> krw \<Rightarrow> (int \<times> krw) option" where
  "resolve L s = do {
     (proc, s) \<leftarrow> resolve_loop L None s;
     (case jbc_krw_read64 (proc + 0x40) KERNEL_HEAP s of (pid1_ucred, s) \<Rightarrow>
      case jbc_krw_read64 (proc + 0x48) KERNEL_HEAP s of (pid1_fd, s) \<Rightarrow>
      case jbc_krw_memcpy (addr_prison0 L) (pid1_ucred + 0x30) 8 KERNEL_HEAP s of (r, s) \<Rightarrow>
      if r \<noteq> 0 then Some (-1, s)
      else (case jbc_krw_memcpy (addr_rootvnode L) (pid1_fd + 0x18) 8 KERNEL_HEAP s of (r, s) \<Rightarrow>
        if r \<noteq> 0 then Some (-1, s\<lparr>mem := store (mem s) (addr_prison0 L) (le_bytes 8 (0 :: u64))\<rparr>)
        else Some (0, s)))
   }"

definition jbc_get_prison0 :: "jb_layout \<Rightarrow> krw \<Rightarrow> (u64 \<times> krw) option" where
  "jbc_get_prison0 L s = do {
     s \<leftarrow> (if load64 (mem s) (addr_prison0 L) = 0 then map_option snd (resolve L s) else Some s);
     Some (load64 (mem s) (addr_prison0 L), s)
   }"

definition jbc_get_rootvnode :: "jb_layout \<Rightarrow> krw \<Rightarrow> (u64 \<times> krw) option" where
  "jbc_get_rootvnode L s = do {
     s \<leftarrow> (if load64 (mem s) (addr_rootvnode L) = 0 then map_option snd (resolve L s) else Some s);
     Some (load64 (mem s) (addr_rootvnode L), s)
   }"

section \<open>Reading and writing credentials\<close>

definition ppcopyout :: "u64 \<Rightarrow> u64 \<Rightarrow> u64 \<Rightarrow> krw \<Rightarrow> int \<times> krw" where
  "ppcopyout u1 u2 k s = jbc_krw_memcpy u1 k (u2 - u1) KERNEL_HEAP s"

definition ppcopyin :: "u64 \<Rightarrow> u64 \<Rightarrow> u64 \<Rightarrow> krw \<Rightarrow> int \<times> krw" where
  "ppcopyin u1 u2 k s = jbc_krw_memcpy k u1 (u2 - u1) KERNEL_HEAP s"

text \<open>The five copies, joined by \<open>||\<close>: the first failure ends the list. \<open>p\<close> is
  \<open>ppcopyout\<close> or \<open>ppcopyin\<close>.\<close>

definition copy_cred :: "(u64 \<Rightarrow> u64 \<Rightarrow> u64 \<Rightarrow> krw \<Rightarrow> int \<times> krw) \<Rightarrow> u64 \<Rightarrow> u64 \<Rightarrow> u64 \<Rightarrow> krw \<Rightarrow> int \<times> krw" where
  "copy_cred p ans ucred fd s =
     (case p ans (ans + 8 + 4) (ucred + 4) s of (r, s) \<Rightarrow> if r \<noteq> 0 then (-1, s) else
     (case p (ans + 12) (ans + 16 + 4) (ucred + 20) s of (r, s) \<Rightarrow> if r \<noteq> 0 then (-1, s) else
     (case p (ans + 24) (ans + 24 + 8) (ucred + 0x30) s of (r, s) \<Rightarrow> if r \<noteq> 0 then (-1, s) else
     (case p (ans + 32) (ans + 48 + 8) (fd + 0x10) s of (r, s) \<Rightarrow> if r \<noteq> 0 then (-1, s) else
     (case p (ans + 56) (ans + 72 + 8) (ucred + 88) s of (r, s) \<Rightarrow> if r \<noteq> 0 then (-1, s) else (0, s))))))"

definition jbc_get_cred :: "u64 \<Rightarrow> krw \<Rightarrow> int \<times> krw" where
  "jbc_get_cred ans s =
     (case jbc_krw_get_td s of (td, s) \<Rightarrow>
      case jbc_krw_read64 (td + 8) KERNEL_HEAP s of (proc, s) \<Rightarrow>
      case jbc_krw_read64 (proc + 0x40) KERNEL_HEAP s of (ucred, s) \<Rightarrow>
      case jbc_krw_read64 (proc + 0x48) KERNEL_HEAP s of (fd, s) \<Rightarrow> copy_cred ppcopyout ans ucred fd s)"

definition jbc_set_cred :: "u64 \<Rightarrow> krw \<Rightarrow> int \<times> krw" where
  "jbc_set_cred ans s =
     (case jbc_krw_get_td s of (td, s) \<Rightarrow>
      case jbc_krw_read64 (td + 8) KERNEL_HEAP s of (proc, s) \<Rightarrow>
      case jbc_krw_read64 (proc + 0x40) KERNEL_HEAP s of (ucred, s) \<Rightarrow>
      case jbc_krw_read64 (proc + 0x48) KERNEL_HEAP s of (fd, s) \<Rightarrow> copy_cred ppcopyin ans ucred fd s)"

text \<open>Assignments to a field of the structure.\<close>

definition put32 :: "u64 \<Rightarrow> u32 \<Rightarrow> krw \<Rightarrow> krw" where
  "put32 a v s = s\<lparr>mem := store (mem s) a (le_bytes 4 v)\<rparr>"

definition put64 :: "u64 \<Rightarrow> u64 \<Rightarrow> krw \<Rightarrow> krw" where
  "put64 a v s = s\<lparr>mem := store (mem s) a (le_bytes 8 v)\<rparr>"

definition jbc_jailbreak_cred :: "jb_layout \<Rightarrow> u64 \<Rightarrow> krw \<Rightarrow> (int \<times> krw) option" where
  "jbc_jailbreak_cred L ans s = do {
     (prison0, s) \<leftarrow> jbc_get_prison0 L s;
     if prison0 = 0 then Some (-1, s) else do {
     (rootvnode, s) \<leftarrow> jbc_get_rootvnode L s;
     if rootvnode = 0 then Some (-1, s) else do {
     let s = put64 (ans + 72) 0xffffffffffffffff s;
     let s = put64 (ans + 56) 0x3801000000000013 s;
     let s = put64 (ans + 64) 0xffffffffffffffff s;
     let s = put32 ans 0 (put32 (ans + 4) 0 (put32 (ans + 8) 0 (put32 (ans + 12) 0 (put32 (ans + 16) 0 s))));
     let s = put64 (ans + 24) prison0 s;
     let s = put64 (ans + 32) rootvnode (put64 (ans + 40) rootvnode (put64 (ans + 48) rootvnode s));
     Some (0, s)
   }}}"

section \<open>Offsets within an object\<close>

lemma apart_offsets:
  assumes "unat i + n \<le> unat j \<or> unat j + k \<le> unat i" and "unat i + n < 2 ^ 64" and "unat j + k < 2 ^ 64"
  shows "apart (a + i) n (a + j) k"
proof -
  have "False" if "inside (a + i) n x" "inside (a + j) k x" for x
  proof -
    define y where "y = x - a"
    have e: "x - (a + i) = y - i" "x - (a + j) = y - j" by (simp_all add: y_def)
    have d: "unat (y - i) < n" "unat (y - j) < k" using that unfolding inside_def e by blast+
    have "unat i \<le> unat y \<and> unat y < unat i + n"
      using d(1) assms(2) unat_less_64 [of y] unat_less_64 [of i] by (auto simp: unat_sub_if_size word_size split: if_splits)
    moreover have "unat j \<le> unat y \<and> unat y < unat j + k"
      using d(2) assms(3) unat_less_64 [of y] unat_less_64 [of j] by (auto simp: unat_sub_if_size word_size split: if_splits)
    ultimately show False using assms(1) by auto
  qed
  then show ?thesis by (auto simp: apart_def)
qed

lemmas apart_offsets_0 = apart_offsets [where i = 0, simplified] apart_offsets [where j = 0, simplified]

lemma load_store_offsets [mem_simps]:
  assumes "unat i + length bs \<le> unat j \<or> unat j + k \<le> unat i" and "unat i + length bs < 2 ^ 64" and "unat j + k < 2 ^ 64"
  shows "load (store m (a + i) bs) (a + j) k = load m (a + j) k"
  using apart_offsets [OF assms] assms(3) by (intro load_store_apart) auto

lemma load_store_offsets_0 [mem_simps]:
  "length bs \<le> unat j \<Longrightarrow> length bs < 2 ^ 64 \<Longrightarrow> unat j + k < 2 ^ 64 \<Longrightarrow>
     load (store m a bs) (a + j) k = load m (a + j) k"
  "k \<le> unat i \<Longrightarrow> unat i + length bs < 2 ^ 64 \<Longrightarrow> k < 2 ^ 64 \<Longrightarrow>
     load (store m (a + i) bs) a k = load m a k"
  using load_store_offsets [of 0 bs j k m a] load_store_offsets [of i bs 0 k m a] by auto

lemma load_offset: "load m (a + of_nat i) n = take n (drop i (load m a (i + n)))"
  using load_append [of m a i n] by simp

lemma take_drop_load: "i + n \<le> k \<Longrightarrow> take n (drop i (load m a k)) = load m (a + of_nat i) n"
  by (rule nth_equalityI) (simp_all add: add.assoc)

lemma take_load: "n \<le> k \<Longrightarrow> take n (load m a k) = load m a n"
  by (rule nth_equalityI) simp_all

lemma drop_load: "drop i (load m a k) = load m (a + of_nat i) (k - i)"
  by (rule nth_equalityI) (simp_all add: add.assoc)

lemma load_store_sub [mem_simps]:
  assumes "unat i \<le> unat j" and "unat j + n \<le> unat i + length bs" and "unat i + length bs < 2 ^ 64"
  shows "load (store m (a + i) bs) (a + j) n = take n (drop (unat j - unat i) bs)"
proof (rule nth_equalityI)
  fix k assume "k < length (load (store m (a + i) bs) (a + j) n)"
  then have k: "k < n" by simp
  have e: "unat (a + j + of_nat k - (a + i)) = unat j + k - unat i"
  proof -
    have e: "a + j + of_nat k - (a + i) = (j + of_nat k) - i" by simp
    have u: "unat (j + of_nat k) = unat j + k" by (rule unat_plus_nat) (use k assms in simp)
    have "i \<le> j + of_nat k" using assms(1) u by (simp only: word_le_nat_alt)
    then have "unat ((j + of_nat k) - i) = unat (j + of_nat k) - unat i" by (rule unat_sub)
    then show ?thesis unfolding e u .
  qed
  have l: "unat j + k - unat i < length bs" "unat j - unat i + k = unat j + k - unat i"
    using k assms by linarith+
  have "load (store m (a + i) bs) (a + j) n ! k = store m (a + i) bs (a + j + of_nat k)" using k by simp
  also have "\<dots> = bs ! (unat j + k - unat i)" unfolding store_def e using l(1) by simp
  also have "\<dots> = take n (drop (unat j - unat i) bs) ! k"
    using k assms l(2) by (subst nth_take) (simp_all add: nth_drop)
  finally show "load (store m (a + i) bs) (a + j) n ! k = take n (drop (unat j - unat i) bs) ! k" .
qed (use assms in simp)

lemma load_store_sub_0 [mem_simps]:
  "unat j + n \<le> length bs \<Longrightarrow> length bs < 2 ^ 64 \<Longrightarrow>
     load (store m a bs) (a + j) n = take n (drop (unat j) bs)"
  "n \<le> length bs \<Longrightarrow> length bs < 2 ^ 64 \<Longrightarrow> load (store m a bs) a n = take n bs"
  using load_store_sub [of 0 j n bs m a] load_store_sub [of 0 0 n bs m a] by auto

section \<open>The kernel half of memory\<close>

definition kernel_same :: "memory \<Rightarrow> memory \<Rightarrow> bool" where
  "kernel_same m m' \<longleftrightarrow> (\<forall>x. 0x800000000000 \<le> unat x \<longrightarrow> m' x = m x)"

lemma kernel_same_refl [simp]: "kernel_same m m"
  by (simp add: kernel_same_def)

lemma kernel_same_trans: "kernel_same m m' \<Longrightarrow> kernel_same m' m'' \<Longrightarrow> kernel_same m m''"
  by (simp add: kernel_same_def)

lemma kernel_same_store: "user_range a (length bs) \<Longrightarrow> kernel_same m (store m a bs)"
  using inside_unat [of a "length bs"]
  by (auto simp: kernel_same_def user_range_def inside_def store_def)

lemma kernel_same_load: "kernel_same m m' \<Longrightarrow> heap_range k n \<Longrightarrow> load m' k n = load m k n"
  by (rule load_cong) (auto simp: kernel_same_def heap_range_def inside_unat)

lemma kernel_same_outside: "same_outside a n m m' \<Longrightarrow> user_range a n \<Longrightarrow> kernel_same m m'"
  by (auto simp: kernel_same_def same_outside_def user_range_def inside_unat)

section \<open>Copying the structure\<close>

lemma copyout_step:
  assumes "krw_ready s" and "user_range u n" and "heap_range k n" and "0 < n" and "v = u + of_nat n"
  shows "\<exists>s'. ppcopyout u v k s = (0, s') \<and> krw_ready s' \<and> cfg s' = cfg s
     \<and> mem s' = store (mem s) u (load (mem s) k n)"
proof -
  have "n < 2 ^ 64" using assms(2) by (simp add: user_range_def)
  moreover from this have "(of_nat n :: u64) \<noteq> 0" using assms(4) by (metis less_irrefl unat_of_nat_small unat_0)
  ultimately show ?thesis
    using memcpy_user_heap [OF assms(1), of "of_nat n" u k] assms(2,3) by (simp add: ppcopyout_def assms(5))
qed

lemma copyin_step:
  assumes "krw_ready s" and "user_range u n" and "heap_range k n" and "0 < n" and "v = u + of_nat n"
  shows "\<exists>s'. ppcopyin u v k s = (0, s') \<and> krw_ready s' \<and> cfg s' = cfg s
     \<and> mem s' = store (mem s) k (load (mem s) u n)"
proof -
  have "n < 2 ^ 64" using assms(2) by (simp add: user_range_def)
  moreover from this have "(of_nat n :: u64) \<noteq> 0" using assms(4) by (metis less_irrefl unat_of_nat_small unat_0)
  ultimately show ?thesis
    using memcpy_user_heap [OF assms(1), of "of_nat n" k u] assms(2,3) by (simp add: ppcopyin_def assms(5))
qed

text \<open>The credentials the kernel holds, in the structures at \<open>ucred\<close> and \<open>fd\<close>.\<close>

definition kcred :: "memory \<Rightarrow> u64 \<Rightarrow> u64 \<Rightarrow> jbc_cred" where
  "kcred m ucred fd = \<lparr>uid = load32 m (ucred + 4), ruid = load32 m (ucred + 8), svuid = load32 m (ucred + 12),
     rgid = load32 m (ucred + 20), svgid = load32 m (ucred + 24), prison = load64 m (ucred + 0x30),
     cdir = load64 m (fd + 0x10), rdir = load64 m (fd + 0x18), jdir = load64 m (fd + 0x20),
     sceProcType = load64 m (ucred + 88), sonyCred = load64 m (ucred + 96), sceProcCap = load64 m (ucred + 104)\<rparr>"

lemma range_offset:
  "heap_range a n \<Longrightarrow> unat i + k \<le> n \<Longrightarrow> heap_range (a + i) k"
  "user_range a n \<Longrightarrow> unat i + k \<le> n \<Longrightarrow> user_range (a + i) k"
  using heap_sub [of a n "unat i" k] user_sub [of a n "unat i" k] by simp_all

lemma range_prefix: "heap_range a n \<Longrightarrow> k \<le> n \<Longrightarrow> heap_range a k" "user_range a n \<Longrightarrow> k \<le> n \<Longrightarrow> user_range a k"
  by (simp_all add: heap_range_def user_range_def)

lemma copy_cred_out:
  assumes r: "krw_ready s" and a: "user_range ans 80" and u: "heap_range ucred 112" and f: "heap_range fd 0x28"
  shows "\<exists>s'. copy_cred ppcopyout ans ucred fd s = (0, s') \<and> krw_ready s' \<and> cfg s' = cfg s
     \<and> mem s' = store (store (store (store (store (mem s) ans (load (mem s) (ucred + 4) 12))
          (ans + 12) (load (mem s) (ucred + 20) 8)) (ans + 24) (load (mem s) (ucred + 0x30) 8))
          (ans + 32) (load (mem s) (fd + 0x10) 24)) (ans + 56) (load (mem s) (ucred + 88) 24)"
proof -
  note R = range_offset(1) [OF u] range_offset(1) [OF f] range_offset(2) [OF a] range_prefix(2) [OF a]
  obtain s1 where 1: "ppcopyout ans (ans + 8 + 4) (ucred + 4) s = (0, s1)" "krw_ready s1" "cfg s1 = cfg s"
    "mem s1 = store (mem s) ans (load (mem s) (ucred + 4) 12)"
    using copyout_step [OF r, of ans 12 "ucred + 4" "ans + 8 + 4"] R by auto
  have k1: "kernel_same (mem s) (mem s1)" unfolding 1(4) by (rule kernel_same_store) (use R in simp)
  obtain s2 where 2: "ppcopyout (ans + 12) (ans + 16 + 4) (ucred + 20) s1 = (0, s2)" "krw_ready s2" "cfg s2 = cfg s1"
    "mem s2 = store (mem s1) (ans + 12) (load (mem s1) (ucred + 20) 8)"
    using copyout_step [OF 1(2), of "ans + 12" 8 "ucred + 20" "ans + 16 + 4"] R by auto
  have k2: "kernel_same (mem s) (mem s2)"
    by (rule kernel_same_trans [OF k1]) (unfold 2(4), rule kernel_same_store, use R in simp)
  obtain s3 where 3: "ppcopyout (ans + 24) (ans + 24 + 8) (ucred + 0x30) s2 = (0, s3)" "krw_ready s3" "cfg s3 = cfg s2"
    "mem s3 = store (mem s2) (ans + 24) (load (mem s2) (ucred + 0x30) 8)"
    using copyout_step [OF 2(2), of "ans + 24" 8 "ucred + 0x30" "ans + 24 + 8"] R by auto
  have k3: "kernel_same (mem s) (mem s3)"
    by (rule kernel_same_trans [OF k2]) (unfold 3(4), rule kernel_same_store, use R in simp)
  obtain s4 where 4: "ppcopyout (ans + 32) (ans + 48 + 8) (fd + 0x10) s3 = (0, s4)" "krw_ready s4" "cfg s4 = cfg s3"
    "mem s4 = store (mem s3) (ans + 32) (load (mem s3) (fd + 0x10) 24)"
    using copyout_step [OF 3(2), of "ans + 32" 24 "fd + 0x10" "ans + 48 + 8"] R by auto
  have k4: "kernel_same (mem s) (mem s4)"
    by (rule kernel_same_trans [OF k3]) (unfold 4(4), rule kernel_same_store, use R in simp)
  obtain s5 where 5: "ppcopyout (ans + 56) (ans + 72 + 8) (ucred + 88) s4 = (0, s5)" "krw_ready s5" "cfg s5 = cfg s4"
    "mem s5 = store (mem s4) (ans + 56) (load (mem s4) (ucred + 88) 24)"
    using copyout_step [OF 4(2), of "ans + 56" 24 "ucred + 88" "ans + 72 + 8"] R by auto
  have "load (mem s1) (ucred + 20) 8 = load (mem s) (ucred + 20) 8"
    "load (mem s2) (ucred + 0x30) 8 = load (mem s) (ucred + 0x30) 8"
    "load (mem s3) (fd + 0x10) 24 = load (mem s) (fd + 0x10) 24"
    "load (mem s4) (ucred + 88) 24 = load (mem s) (ucred + 88) 24"
    using kernel_same_load [OF k1] kernel_same_load [OF k2] kernel_same_load [OF k3] kernel_same_load [OF k4] R
    by simp_all
  then show ?thesis
    using 1 2 3 4 5 by (auto simp: copy_cred_def)
qed

lemma cred_at_copied:
  "cred_at (store (store (store (store (store m ans (load k (ucred + 4) 12))
          (ans + 12) (load k (ucred + 20) 8)) (ans + 24) (load k (ucred + 0x30) 8))
          (ans + 32) (load k (fd + 0x10) 24)) (ans + 56) (load k (ucred + 88) 24)) ans
     = kcred k ucred fd"
  by (simp add: cred_at_def kcred_def mem_simps take_drop_load take_load drop_load)
    (simp add: add.commute)

section \<open>The calling process\<close>

definition cur_proc :: "krw \<Rightarrow> u64" where
  "cur_proc s = load64 (mem s) (gs_td (cfg s) + 8)"

definition cur_ucred :: "krw \<Rightarrow> u64" where
  "cur_ucred s = load64 (mem s) (cur_proc s + 0x40)"

definition cur_fd :: "krw \<Rightarrow> u64" where
  "cur_fd s = load64 (mem s) (cur_proc s + 0x48)"

text \<open>The structures of the calling process are on the kernel heap and do not overlap.\<close>

definition proc_ok :: "krw \<Rightarrow> bool" where
  "proc_ok s \<longleftrightarrow> heap_range (gs_td (cfg s) + 8) 8 \<and> heap_range (cur_proc s) 0x50
     \<and> heap_range (cur_ucred s) 112 \<and> heap_range (cur_fd s) 0x28
     \<and> apart (cur_ucred s) 112 (cur_fd s) 0x28
     \<and> apart (cur_ucred s) 112 (cur_proc s) 0x50 \<and> apart (cur_fd s) 0x28 (cur_proc s) 0x50
     \<and> apart (cur_ucred s) 112 (gs_td (cfg s) + 8) 8 \<and> apart (cur_fd s) 0x28 (gs_td (cfg s) + 8) 8"

text \<open>The kernel's view of the credentials.\<close>

definition proc_cred :: "krw \<Rightarrow> jbc_cred" where
  "proc_cred s = kcred (mem s) (cur_ucred s) (cur_fd s)"

lemma chain_reads:
  assumes "krw_ready s" and "proc_ok s"
  shows "\<exists>s1 s2 s3. jbc_krw_get_td s = (gs_td (cfg s), s)
     \<and> jbc_krw_read64 (gs_td (cfg s) + 8) KERNEL_HEAP s = (cur_proc s, s1)
     \<and> jbc_krw_read64 (cur_proc s + 0x40) KERNEL_HEAP s1 = (cur_ucred s, s2)
     \<and> jbc_krw_read64 (cur_proc s + 0x48) KERNEL_HEAP s2 = (cur_fd s, s3)
     \<and> krw_ready s3 \<and> addr_ans (cfg s3) = addr_ans (cfg s) \<and> gs_td (cfg s3) = gs_td (cfg s)
     \<and> same_outside (addr_ans (cfg s)) 8 (mem s) (mem s3)"
proof -
  have "heap_range (gs_td (cfg s) + 8) 8" "heap_range (cur_proc s + 0x40) 8" "heap_range (cur_proc s + 0x48) 8"
    using assms(2) range_offset(1) [of "cur_proc s" "0x50"] by (simp_all add: proc_ok_def)
  then show ?thesis
    using krw.chain [OF assms(1), of "0x40" "0x48"] unfolding cur_ucred_def cur_fd_def cur_proc_def by blast
qed

lemma get_cred_lemma:
  assumes "krw_ready s" and "proc_ok s" and "user_range ans 80"
  shows "\<exists>s'. jbc_get_cred ans s = (0, s') \<and> krw_ready s' \<and> cred_at (mem s') ans = proc_cred s
     \<and> kernel_same (mem s) (mem s') \<and> gs_td (cfg s') = gs_td (cfg s) \<and> addr_ans (cfg s') = addr_ans (cfg s)
     \<and> (\<forall>x. \<not> inside ans 80 x \<longrightarrow> \<not> inside (addr_ans (cfg s)) 8 x \<longrightarrow> mem s' x = mem s x)"
proof -
  obtain s1 s2 s3 where c: "jbc_krw_get_td s = (gs_td (cfg s), s)"
     "jbc_krw_read64 (gs_td (cfg s) + 8) KERNEL_HEAP s = (cur_proc s, s1)"
     "jbc_krw_read64 (cur_proc s + 0x40) KERNEL_HEAP s1 = (cur_ucred s, s2)"
     "jbc_krw_read64 (cur_proc s + 0x48) KERNEL_HEAP s2 = (cur_fd s, s3)"
     "krw_ready s3" "addr_ans (cfg s3) = addr_ans (cfg s)" "gs_td (cfg s3) = gs_td (cfg s)"
     "same_outside (addr_ans (cfg s)) 8 (mem s) (mem s3)"
    using chain_reads [OF assms(1,2)] by blast
  have p: "heap_range (cur_ucred s) 112" "heap_range (cur_fd s) 0x28" using assms(2) by (simp_all add: proc_ok_def)
  have ks: "kernel_same (mem s) (mem s3)"
    using c(8) krw.slot_user [OF assms(1)] by (rule kernel_same_outside)
  have same: "load (mem s3) (cur_ucred s + i) n = load (mem s) (cur_ucred s + i) n" if "unat i + n \<le> 112" for i n
    by (rule kernel_same_load [OF ks range_offset(1) [OF p(1) that]])
  have samef: "load (mem s3) (cur_fd s + i) n = load (mem s) (cur_fd s + i) n" if "unat i + n \<le> 0x28" for i n
    by (rule kernel_same_load [OF ks range_offset(1) [OF p(2) that]])
  define m5 where "m5 = store (store (store (store (store (mem s3) ans (load (mem s3) (cur_ucred s + 4) 12))
          (ans + 12) (load (mem s3) (cur_ucred s + 20) 8)) (ans + 24) (load (mem s3) (cur_ucred s + 0x30) 8))
          (ans + 32) (load (mem s3) (cur_fd s + 0x10) 24)) (ans + 56) (load (mem s3) (cur_ucred s + 88) 24)"
  obtain s4 where o: "copy_cred ppcopyout ans (cur_ucred s) (cur_fd s) s3 = (0, s4)" "krw_ready s4"
      "cfg s4 = cfg s3" "mem s4 = m5"
    using copy_cred_out [OF c(5) assms(3) p] unfolding m5_def by blast
  have "cred_at (mem s4) ans = kcred (mem s3) (cur_ucred s) (cur_fd s)"
    unfolding o(4) m5_def by (rule cred_at_copied)
  also have "\<dots> = proc_cred s" by (simp add: kcred_def proc_cred_def same samef)
  finally have cr: "cred_at (mem s4) ans = proc_cred s" .
  have out: "mem s4 x = mem s3 x" if "\<not> inside ans 80 x" for x
  proof -
    have "\<not> inside ans 12 x" "\<not> inside (ans + of_nat 12) 8 x" "\<not> inside (ans + of_nat 24) 8 x"
      "\<not> inside (ans + of_nat 32) 24 x" "\<not> inside (ans + of_nat 56) 24 x"
      using that inside_sub [of ans 12 8 x 80] inside_sub [of ans 24 8 x 80] inside_sub [of ans 32 24 x 80]
        inside_sub [of ans 56 24 x 80] by (auto simp: inside_def)
    then show ?thesis by (simp add: o(4) m5_def store_outside)
  qed
  have "kernel_same (mem s3) (mem s4)"
    unfolding kernel_same_def using out assms(3) by (auto simp: inside_unat user_range_def)
  then show ?thesis
    using c o(1,2,3) cr out kernel_same_trans [OF ks]
    by (auto simp: jbc_get_cred_def same_outside_def)
qed

lemma user_same_store: "user_range u n \<Longrightarrow> heap_range k (length bs) \<Longrightarrow> load (store m k bs) u n = load m u n"
  using user_heap_apart(2) [of u n k "length bs"] user_heap_sizes(1) [of u n] by (intro load_store_apart) auto

lemma copy_cred_in:
  assumes r: "krw_ready s" and a: "user_range ans 80" and u: "heap_range ucred 112" and f: "heap_range fd 0x28"
  shows "\<exists>s'. copy_cred ppcopyin ans ucred fd s = (0, s') \<and> krw_ready s' \<and> cfg s' = cfg s
     \<and> mem s' = store (store (store (store (store (mem s) (ucred + 4) (load (mem s) ans 12))
          (ucred + 20) (load (mem s) (ans + 12) 8)) (ucred + 0x30) (load (mem s) (ans + 24) 8))
          (fd + 0x10) (load (mem s) (ans + 32) 24)) (ucred + 88) (load (mem s) (ans + 56) 24)"
proof -
  note R = range_offset(1) [OF u] range_offset(1) [OF f] range_offset(2) [OF a] range_prefix(2) [OF a]
  obtain s1 where 1: "ppcopyin ans (ans + 8 + 4) (ucred + 4) s = (0, s1)" "krw_ready s1" "cfg s1 = cfg s"
    "mem s1 = store (mem s) (ucred + 4) (load (mem s) ans 12)"
    using copyin_step [OF r, of ans 12 "ucred + 4" "ans + 8 + 4"] R by auto
  obtain s2 where 2: "ppcopyin (ans + 12) (ans + 16 + 4) (ucred + 20) s1 = (0, s2)" "krw_ready s2" "cfg s2 = cfg s1"
    "mem s2 = store (mem s1) (ucred + 20) (load (mem s1) (ans + 12) 8)"
    using copyin_step [OF 1(2), of "ans + 12" 8 "ucred + 20" "ans + 16 + 4"] R by auto
  obtain s3 where 3: "ppcopyin (ans + 24) (ans + 24 + 8) (ucred + 0x30) s2 = (0, s3)" "krw_ready s3" "cfg s3 = cfg s2"
    "mem s3 = store (mem s2) (ucred + 0x30) (load (mem s2) (ans + 24) 8)"
    using copyin_step [OF 2(2), of "ans + 24" 8 "ucred + 0x30" "ans + 24 + 8"] R by auto
  obtain s4 where 4: "ppcopyin (ans + 32) (ans + 48 + 8) (fd + 0x10) s3 = (0, s4)" "krw_ready s4" "cfg s4 = cfg s3"
    "mem s4 = store (mem s3) (fd + 0x10) (load (mem s3) (ans + 32) 24)"
    using copyin_step [OF 3(2), of "ans + 32" 24 "fd + 0x10" "ans + 48 + 8"] R by auto
  obtain s5 where 5: "ppcopyin (ans + 56) (ans + 72 + 8) (ucred + 88) s4 = (0, s5)" "krw_ready s5" "cfg s5 = cfg s4"
    "mem s5 = store (mem s4) (ucred + 88) (load (mem s4) (ans + 56) 24)"
    using copyin_step [OF 4(2), of "ans + 56" 24 "ucred + 88" "ans + 72 + 8"] R by auto
  have "load (mem s1) (ans + 12) 8 = load (mem s) (ans + 12) 8"
    "load (mem s2) (ans + 24) 8 = load (mem s) (ans + 24) 8"
    "load (mem s3) (ans + 32) 24 = load (mem s) (ans + 32) 24"
    "load (mem s4) (ans + 56) 24 = load (mem s) (ans + 56) 24"
    unfolding 4(4) 3(4) 2(4) 1(4) using R by (simp_all add: user_same_store)
  then show ?thesis
    using 1 2 3 4 5 by (auto simp: copy_cred_def)
qed

lemma kcred_copied:
  assumes a: "apart ucred 112 fd 0x28"
  shows "kcred (store (store (store (store (store m (ucred + 4) (load k ans 12))
          (ucred + 20) (load k (ans + 12) 8)) (ucred + 0x30) (load k (ans + 24) 8))
          (fd + 0x10) (load k (ans + 32) 24)) (ucred + 88) (load k (ans + 56) 24)) ucred fd
     = cred_at k ans"
proof -
  have x: "load (store m' (fd + 0x10) (load k b 24)) (ucred + j) n = load m' (ucred + j) n"
    if "unat j + n \<le> 112" for m' b j n
    using apart_sub [OF a, of "unat j" n 16 24] that
    by (intro load_store_apart) (simp_all add: apart_sym)
  have y: "load (store m' (ucred + i) bs) (fd + j) n = load m' (fd + j) n"
    if "unat j + n \<le> 0x28" "unat i + length bs \<le> 112" for m' bs i j n
    using apart_sub [OF a, of "unat i" "length bs" "unat j" n] that
    by (intro load_store_apart) simp_all
  show ?thesis
    by (simp add: cred_at_def kcred_def x y mem_simps take_drop_load take_load drop_load)
      (simp add: add.commute)
qed

text \<open>The bytes of the kernel's structures that hold the credentials.\<close>

definition cred_footprint :: "u64 \<Rightarrow> u64 \<Rightarrow> u64 \<Rightarrow> bool" where
  "cred_footprint ucred fd x \<longleftrightarrow> inside (ucred + 4) 12 x \<or> inside (ucred + 20) 8 x \<or> inside (ucred + 0x30) 8 x
     \<or> inside (fd + 0x10) 24 x \<or> inside (ucred + 88) 24 x"

lemma cred_footprint_inside: "cred_footprint ucred fd x \<Longrightarrow> inside ucred 112 x \<or> inside fd 0x28 x"
  using inside_sub [of ucred 4 12 x 112] inside_sub [of ucred 20 8 x 112] inside_sub [of ucred 48 8 x 112]
    inside_sub [of ucred 88 24 x 112] inside_sub [of fd 16 24 x 40]
  by (auto simp: cred_footprint_def)

lemma cred_footprint_apart:
  "apart ucred 112 p n \<Longrightarrow> apart fd 0x28 p n \<Longrightarrow> inside p n x \<Longrightarrow> \<not> cred_footprint ucred fd x"
  using cred_footprint_inside [of ucred fd x] by (auto simp: apart_def)

lemma cred_at_cong:
  assumes "load m' a 80 = load m a 80"
  shows "cred_at m' a = cred_at m a"
proof -
  have "load m' (a + i) n = load m (a + i) n" if "unat i + n \<le> 80" for i n
    using take_drop_load [OF that, of m' a] take_drop_load [OF that, of m a] assms by simp
  moreover have "load m' a 4 = load m a 4"
    using take_load [of 4 80 m' a] take_load [of 4 80 m a] assms by simp
  ultimately show ?thesis by (simp add: cred_at_def)
qed

lemma set_cred_lemma:
  assumes "krw_ready s" and "proc_ok s" and "user_range ans 80" and "apart (addr_ans (cfg s)) 8 ans 80"
  shows "\<exists>s'. jbc_set_cred ans s = (0, s') \<and> krw_ready s' \<and> kcred (mem s') (cur_ucred s) (cur_fd s) = cred_at (mem s) ans
     \<and> addr_ans (cfg s') = addr_ans (cfg s) \<and> gs_td (cfg s') = gs_td (cfg s)
     \<and> (\<forall>x. \<not> cred_footprint (cur_ucred s) (cur_fd s) x \<longrightarrow> \<not> inside (addr_ans (cfg s)) 8 x \<longrightarrow> mem s' x = mem s x)"
proof -
  obtain s1 s2 s3 where c: "jbc_krw_get_td s = (gs_td (cfg s), s)"
     "jbc_krw_read64 (gs_td (cfg s) + 8) KERNEL_HEAP s = (cur_proc s, s1)"
     "jbc_krw_read64 (cur_proc s + 0x40) KERNEL_HEAP s1 = (cur_ucred s, s2)"
     "jbc_krw_read64 (cur_proc s + 0x48) KERNEL_HEAP s2 = (cur_fd s, s3)"
     "krw_ready s3" "addr_ans (cfg s3) = addr_ans (cfg s)" "gs_td (cfg s3) = gs_td (cfg s)"
     "same_outside (addr_ans (cfg s)) 8 (mem s) (mem s3)"
    using chain_reads [OF assms(1,2)] by blast
  have p: "heap_range (cur_ucred s) 112" "heap_range (cur_fd s) 0x28" "apart (cur_ucred s) 112 (cur_fd s) 0x28"
    using assms(2) by (simp_all add: proc_ok_def)
  have "load (mem s3) ans 80 = load (mem s) ans 80"
    using same_outside_load [OF c(8), of ans 80] assms(4) by simp
  then have ca: "cred_at (mem s3) ans = cred_at (mem s) ans" by (rule cred_at_cong)
  obtain s4 where o: "copy_cred ppcopyin ans (cur_ucred s) (cur_fd s) s3 = (0, s4)" "krw_ready s4" "cfg s4 = cfg s3"
    "mem s4 = store (store (store (store (store (mem s3) (cur_ucred s + 4) (load (mem s3) ans 12))
          (cur_ucred s + 20) (load (mem s3) (ans + 12) 8)) (cur_ucred s + 0x30) (load (mem s3) (ans + 24) 8))
          (cur_fd s + 0x10) (load (mem s3) (ans + 32) 24)) (cur_ucred s + 88) (load (mem s3) (ans + 56) 24)"
    using copy_cred_in [OF c(5) assms(3) p(1,2)] by blast
  have "kcred (mem s4) (cur_ucred s) (cur_fd s) = cred_at (mem s) ans"
    unfolding o(4) ca [symmetric] by (rule kcred_copied [OF p(3)])
  moreover have "mem s4 x = mem s3 x" if "\<not> cred_footprint (cur_ucred s) (cur_fd s) x" for x
    using that by (simp add: o(4) cred_footprint_def store_outside)
  ultimately show ?thesis
    using c o(1,2,3) by (auto simp: jbc_set_cred_def same_outside_def)
qed

text \<open>The structures of the process are where they were.\<close>

lemma proc_stable:
  assumes "proc_ok s" and "krw_ready s" and "gs_td (cfg s') = gs_td (cfg s)"
    and "\<And>x. \<not> cred_footprint (cur_ucred s) (cur_fd s) x \<Longrightarrow> 0x800000000000 \<le> unat x \<Longrightarrow> mem s' x = mem s x"
  shows "cur_proc s' = cur_proc s" and "cur_ucred s' = cur_ucred s" and "cur_fd s' = cur_fd s" and "proc_ok s'"
proof -
  have L: "load (mem s') p n = load (mem s) p n"
    if "heap_range p n" "apart (cur_ucred s) 112 p n" "apart (cur_fd s) 0x28 p n" for p n
  proof (rule load_cong)
    fix x assume "inside p n x"
    then have "\<not> cred_footprint (cur_ucred s) (cur_fd s) x" "0x800000000000 \<le> unat x"
      using that cred_footprint_apart by (blast, simp add: heap_range_def inside_unat)
    then show "mem s' x = mem s x" by (rule assms(4))
  qed (use that user_heap_sizes(2) in blast)
  note P = assms(1) [unfolded proc_ok_def]
  have "load (mem s') (gs_td (cfg s) + 8) 8 = load (mem s) (gs_td (cfg s) + 8) 8"
    using P by (intro L) simp_all
  then show 1: "cur_proc s' = cur_proc s" by (simp add: cur_proc_def assms(3))
  have 2: "load (mem s') (cur_proc s + i) 8 = load (mem s) (cur_proc s + i) 8" if "unat i + 8 \<le> 0x50" for i
    using P that apart_sub [of "cur_ucred s" 112 "cur_proc s" "0x50" 0 112 "unat i" 8]
      apart_sub [of "cur_fd s" "0x28" "cur_proc s" "0x50" 0 "0x28" "unat i" 8]
    by (intro L range_offset(1) [of "cur_proc s" "0x50"]) simp_all
  then show 3: "cur_ucred s' = cur_ucred s" and 4: "cur_fd s' = cur_fd s"
    by (simp_all add: cur_ucred_def cur_fd_def 1)
  show "proc_ok s'" using assms(1) by (simp add: proc_ok_def 1 3 4 assms(3))
qed

lemma not_kernel_slot: "krw_ready s \<Longrightarrow> 0x800000000000 \<le> unat x \<Longrightarrow> \<not> inside (addr_ans (cfg s)) 8 x"
  using krw.slot_user [of s] by (auto simp: user_range_def inside_unat)

lemma set_cred_stable:
  assumes "krw_ready s" and "proc_ok s" and "user_range ans 80" and "apart (addr_ans (cfg s)) 8 ans 80"
  shows "\<exists>s'. jbc_set_cred ans s = (0, s') \<and> krw_ready s' \<and> proc_ok s' \<and> proc_cred s' = cred_at (mem s) ans
     \<and> cur_ucred s' = cur_ucred s \<and> cur_fd s' = cur_fd s
     \<and> addr_ans (cfg s') = addr_ans (cfg s) \<and> gs_td (cfg s') = gs_td (cfg s)
     \<and> (\<forall>x. \<not> cred_footprint (cur_ucred s) (cur_fd s) x \<longrightarrow> \<not> inside (addr_ans (cfg s)) 8 x \<longrightarrow> mem s' x = mem s x)"
proof -
  obtain s' where s: "jbc_set_cred ans s = (0, s')" "krw_ready s'"
      "kcred (mem s') (cur_ucred s) (cur_fd s) = cred_at (mem s) ans"
      "addr_ans (cfg s') = addr_ans (cfg s)" "gs_td (cfg s') = gs_td (cfg s)"
      "\<forall>x. \<not> cred_footprint (cur_ucred s) (cur_fd s) x \<longrightarrow> \<not> inside (addr_ans (cfg s)) 8 x \<longrightarrow> mem s' x = mem s x"
    using set_cred_lemma [OF assms] by blast
  have "proc_ok s'" "cur_ucred s' = cur_ucred s" "cur_fd s' = cur_fd s"
    using proc_stable [OF assms(2,1) s(5)] s(6) not_kernel_slot [OF assms(1)] by blast+
  then show ?thesis using s by (auto simp: proc_cred_def)
qed

section \<open>Finding init terminates\<close>

text \<open>A process list as the kernel keeps it: each entry points to the next and back, only the
  last is pid 1.\<close>

fun proc_chain :: "memory \<Rightarrow> u64 list \<Rightarrow> bool" where
  "proc_chain m [] \<longleftrightarrow> False"
| "proc_chain m [p] \<longleftrightarrow> heap_range p 0xb4 \<and> load32 m (p + 0xb0) = 1"
| "proc_chain m (p # q # ps) \<longleftrightarrow> heap_range p 0xb4 \<and> load32 m (p + 0xb0) \<noteq> 1 \<and> load64 m p = q
     \<and> load64 m (q + 8) = p \<and> proc_chain m (q # ps)"

lemma proc_chain_head: "proc_chain m (p # ps) \<Longrightarrow> heap_range p 0xb4"
  by (cases ps) simp_all

lemma proc_chain_last: "proc_chain m (p # ps) \<Longrightarrow> heap_range (last (p # ps)) 0xb4 \<and> load32 m (last (p # ps) + 0xb0) = 1"
  by (induction ps arbitrary: p) auto

lemma proc_chain_kernel:
  "proc_chain m ps \<Longrightarrow> kernel_same m m' \<Longrightarrow> proc_chain m' ps"
proof (induction m ps rule: proc_chain.induct)
  case (2 m p)
  then show ?case
    using kernel_same_load [of m m' "p + 0xb0" 4] range_offset(1) [of p "0xb4" "0xb0" 4] by simp
next
  case (3 m p q ps)
  have "heap_range p 0xb4" "heap_range q 0xb4" using 3 proc_chain_head [of m q ps] by simp_all
  then have "load m' p 8 = load m p 8" "load m' (q + 8) 8 = load m (q + 8) 8" "load m' (p + 0xb0) 4 = load m (p + 0xb0) 4"
    using kernel_same_load [OF 3(3)] range_offset(1) [of _ "0xb4"] range_prefix(1) [of _ "0xb4"] by simp_all
  then show ?case using 3 by simp
qed simp

definition slots_outside :: "jb_layout \<Rightarrow> krw \<Rightarrow> memory \<Rightarrow> bool" where
  "slots_outside L s m' \<longleftrightarrow> (\<forall>x. \<not> inside (addr_pid L) 4 x \<longrightarrow> \<not> inside (addr_ans (cfg s)) 8 x \<longrightarrow> m' x = mem s x)"

lemma pid_copy:
  assumes "krw_ready s" and "user_range (addr_pid L) 4" and "heap_range p 0xb4"
  shows "\<exists>s'. jbc_krw_memcpy (addr_pid L) (p + 0xb0) 4 KERNEL_HEAP s = (0, s') \<and> krw_ready s' \<and> cfg s' = cfg s
     \<and> mem s' = store (mem s) (addr_pid L) (load (mem s) (p + 0xb0) 4)"
  using memcpy_user_heap [OF assms(1), of 4 "addr_pid L" "p + 0xb0"] assms(2) range_offset(1) [OF assms(3), of "0xb0" 4]
  by simp

lemma slot_user_range: "krw_ready s \<Longrightarrow> user_range (addr_ans (cfg s)) 8"
  by (rule krw.slot_user)

lemma resolve_loop_chain:
  assumes "krw_ready s" and "user_range (addr_pid L) 4" and "proc_chain (mem s) (p # ps)"
  shows "\<exists>s'. resolve_loop L (Some p) s = Some (last (p # ps), s') \<and> krw_ready s' \<and> cfg s' = cfg s
     \<and> kernel_same (mem s) (mem s') \<and> slots_outside L s (mem s')"
  using assms
proof (induction ps arbitrary: p s)
  case Nil
  obtain s' where s': "jbc_krw_memcpy (addr_pid L) (p + 0xb0) 4 KERNEL_HEAP s = (0, s')" "krw_ready s'" "cfg s' = cfg s"
     "mem s' = store (mem s) (addr_pid L) (load (mem s) (p + 0xb0) 4)"
    using pid_copy [OF Nil(1,2)] Nil(3) by auto
  have "resolve_loop L (Some p) s = Some (p, s')"
    using Nil(3) s' by (subst resolve_loop.simps) simp
  moreover have "kernel_same (mem s) (mem s')" unfolding s'(4) using Nil(2) by (intro kernel_same_store) simp
  ultimately show ?case using s' by (auto simp: slots_outside_def store_outside)
next
  case (Cons q ps)
  have h: "heap_range p 0xb4" "heap_range q 0xb4" using Cons.prems(3) proc_chain_head [of "mem s" q ps] by simp_all
  obtain s1 where 1: "jbc_krw_memcpy (addr_pid L) (p + 0xb0) 4 KERNEL_HEAP s = (0, s1)" "krw_ready s1" "cfg s1 = cfg s"
     "mem s1 = store (mem s) (addr_pid L) (load (mem s) (p + 0xb0) 4)"
    using pid_copy [OF Cons.prems(1,2) h(1)] by blast
  have k1: "kernel_same (mem s) (mem s1)" unfolding 1(4) using Cons.prems(2) by (intro kernel_same_store) simp
  obtain s2 where 2: "jbc_krw_read64 p KERNEL_HEAP s1 = (load64 (mem s1) p, s2)" "krw_ready s2" "cfg s2 = cfg s1"
     "mem s2 = store (mem s1) (addr_ans (cfg s1)) (load (mem s1) p 8)"
    using read64_heap [OF 1(2)] range_prefix(1) [OF h(1), of 8] by auto
  have k2: "kernel_same (mem s) (mem s2)"
    by (rule kernel_same_trans [OF k1]) (unfold 2(4), rule kernel_same_store, use slot_user_range [OF 1(2)] in simp)
  have c1: "load64 (mem s1) p = q"
    using Cons.prems(3) proc_chain_kernel [OF Cons.prems(3) k1] by simp
  obtain s3 where 3: "jbc_krw_read64 (q + 8) KERNEL_HEAP s2 = (load64 (mem s2) (q + 8), s3)" "krw_ready s3" "cfg s3 = cfg s2"
     "mem s3 = store (mem s2) (addr_ans (cfg s2)) (load (mem s2) (q + 8) 8)"
    using read64_heap [OF 2(2)] range_offset(1) [OF h(2), of 8 8] by auto
  have k3: "kernel_same (mem s) (mem s3)"
    by (rule kernel_same_trans [OF k2]) (unfold 3(4), rule kernel_same_store, use slot_user_range [OF 2(2)] in simp)
  have c2: "load64 (mem s2) (q + 8) = p"
    using proc_chain_kernel [OF Cons.prems(3) k2] by simp
  have "proc_chain (mem s3) (q # ps)" using proc_chain_kernel [OF Cons.prems(3) k3] by simp
  from Cons.IH [OF 3(2) Cons.prems(2) this] obtain s' where
    s': "resolve_loop L (Some q) s3 = Some (last (q # ps), s')" "krw_ready s'" "cfg s' = cfg s3"
      "kernel_same (mem s3) (mem s')" "slots_outside L s3 (mem s')" by blast
  have "resolve_loop L (Some p) s = resolve_loop L (Some q) s3"
    using 1 2 3 c1 c2 Cons.prems(3) by (subst resolve_loop.simps) simp
  moreover have "slots_outside L s (mem s')"
    using s'(5) by (simp add: slots_outside_def 1 2 3 store_outside)
  moreover have "kernel_same (mem s) (mem s')" using k3 s'(4) by (rule kernel_same_trans)
  ultimately show ?case using s' 1 2 3 by auto
qed

lemma kernel_same_slot: "krw_ready s \<Longrightarrow> kernel_same (mem s) (store (mem s) (addr_ans (cfg s)) (load m p 8))"
  using slot_user_range [of s] by (intro kernel_same_store) simp

lemma resolve_loop_restart:
  assumes "krw_ready s" and "heap_range (gs_td (cfg s) + 8) 8"
  shows "\<exists>s'. resolve_loop L None s = resolve_loop L (Some (cur_proc s)) s' \<and> krw_ready s' \<and> cfg s' = cfg s
     \<and> kernel_same (mem s) (mem s') \<and> slots_outside L s (mem s')"
proof -
  obtain s' where "jbc_krw_read64 (gs_td (cfg s) + 8) KERNEL_HEAP s = (cur_proc s, s')" "krw_ready s'" "cfg s' = cfg s"
     "mem s' = store (mem s) (addr_ans (cfg s)) (load (mem s) (gs_td (cfg s) + 8) 8)"
    using read64_heap [OF assms] unfolding cur_proc_def by blast
  then show ?thesis
    using krw.gtd_law [OF assms(1)] kernel_same_slot [OF assms(1)]
    by (subst resolve_loop.simps) (auto simp: slots_outside_def store_outside)
qed

definition statics_ok :: "jb_layout \<Rightarrow> krw \<Rightarrow> bool" where
  "statics_ok L s \<longleftrightarrow> user_range (addr_pid L) 4 \<and> user_range (addr_prison0 L) 8 \<and> user_range (addr_rootvnode L) 8
     \<and> apart (addr_prison0 L) 8 (addr_rootvnode L) 8
     \<and> apart (addr_ans (cfg s)) 8 (addr_prison0 L) 8 \<and> apart (addr_ans (cfg s)) 8 (addr_rootvnode L) 8"

definition init_prison :: "memory \<Rightarrow> u64 \<Rightarrow> u64" where
  "init_prison m p = load64 m (load64 m (p + 0x40) + 0x30)"

definition init_root :: "memory \<Rightarrow> u64 \<Rightarrow> u64" where
  "init_root m p = load64 m (load64 m (p + 0x48) + 0x18)"

definition init_ok :: "memory \<Rightarrow> u64 \<Rightarrow> bool" where
  "init_ok m p \<longleftrightarrow> heap_range (load64 m (p + 0x40) + 0x30) 8 \<and> heap_range (load64 m (p + 0x48) + 0x18) 8"

definition resolve_outside :: "jb_layout \<Rightarrow> krw \<Rightarrow> memory \<Rightarrow> bool" where
  "resolve_outside L s m' \<longleftrightarrow> (\<forall>x. \<not> inside (addr_pid L) 4 x \<longrightarrow> \<not> inside (addr_ans (cfg s)) 8 x
     \<longrightarrow> \<not> inside (addr_prison0 L) 8 x \<longrightarrow> \<not> inside (addr_rootvnode L) 8 x \<longrightarrow> m' x = mem s x)"

lemma resolve_tail:
  assumes r: "krw_ready s" and l: "statics_ok L s" and p: "heap_range p 0xb4" and i: "init_ok (mem s) p"
  shows "\<exists>s1 s2 s3 s4. jbc_krw_read64 (p + 0x40) KERNEL_HEAP s = (load64 (mem s) (p + 0x40), s1)
     \<and> jbc_krw_read64 (p + 0x48) KERNEL_HEAP s1 = (load64 (mem s) (p + 0x48), s2)
     \<and> jbc_krw_memcpy (addr_prison0 L) (load64 (mem s) (p + 0x40) + 0x30) 8 KERNEL_HEAP s2 = (0, s3)
     \<and> jbc_krw_memcpy (addr_rootvnode L) (load64 (mem s) (p + 0x48) + 0x18) 8 KERNEL_HEAP s3 = (0, s4)
     \<and> krw_ready s4 \<and> cfg s4 = cfg s \<and> kernel_same (mem s) (mem s4)
     \<and> load64 (mem s4) (addr_prison0 L) = init_prison (mem s) p
     \<and> load64 (mem s4) (addr_rootvnode L) = init_root (mem s) p \<and> resolve_outside L s (mem s4)"
proof -
  note L = l [unfolded statics_ok_def]
  have h: "heap_range (p + 0x40) 8" "heap_range (p + 0x48) 8" using range_offset(1) [OF p] by simp_all
  obtain s1 where 1: "jbc_krw_read64 (p + 0x40) KERNEL_HEAP s = (load64 (mem s) (p + 0x40), s1)" "krw_ready s1" "cfg s1 = cfg s"
     "mem s1 = store (mem s) (addr_ans (cfg s)) (load (mem s) (p + 0x40) 8)"
    using read64_heap [OF r h(1)] by blast
  have k1: "kernel_same (mem s) (mem s1)" unfolding 1(4) using r by (rule kernel_same_slot)
  obtain s2 where 2: "jbc_krw_read64 (p + 0x48) KERNEL_HEAP s1 = (load64 (mem s1) (p + 0x48), s2)" "krw_ready s2" "cfg s2 = cfg s1"
     "mem s2 = store (mem s1) (addr_ans (cfg s1)) (load (mem s1) (p + 0x48) 8)"
    using read64_heap [OF 1(2) h(2)] by blast
  have k2: "kernel_same (mem s) (mem s2)"
    unfolding 2(4) using k1 kernel_same_slot [OF 1(2)] by (rule kernel_same_trans)
  have v: "load64 (mem s1) (p + 0x48) = load64 (mem s) (p + 0x48)" by (simp add: kernel_same_load [OF k1 h(2)])
  obtain s3 where 3: "jbc_krw_memcpy (addr_prison0 L) (load64 (mem s) (p + 0x40) + 0x30) 8 KERNEL_HEAP s2 = (0, s3)"
     "krw_ready s3" "cfg s3 = cfg s2"
     "mem s3 = store (mem s2) (addr_prison0 L) (load (mem s2) (load64 (mem s) (p + 0x40) + 0x30) 8)"
    using memcpy_user_heap [OF 2(2), of 8] L i by (auto simp: init_ok_def)
  have k3: "kernel_same (mem s) (mem s3)"
    by (rule kernel_same_trans [OF k2]) (unfold 3(4), rule kernel_same_store, use L in simp)
  obtain s4 where 4: "jbc_krw_memcpy (addr_rootvnode L) (load64 (mem s) (p + 0x48) + 0x18) 8 KERNEL_HEAP s3 = (0, s4)"
     "krw_ready s4" "cfg s4 = cfg s3"
     "mem s4 = store (mem s3) (addr_rootvnode L) (load (mem s3) (load64 (mem s) (p + 0x48) + 0x18) 8)"
    using memcpy_user_heap [OF 3(2), of 8] L i by (auto simp: init_ok_def)
  have k4: "kernel_same (mem s) (mem s4)"
    by (rule kernel_same_trans [OF k3]) (unfold 4(4), rule kernel_same_store, use L in simp)
  have "load64 (mem s4) (addr_rootvnode L) = init_root (mem s) p"
    using kernel_same_load [OF k3] i by (simp add: 4(4) init_root_def init_ok_def)
  moreover have "load (mem s4) (addr_prison0 L) 8 = load (mem s3) (addr_prison0 L) 8"
    unfolding 4(4) using L by (intro load_store_apart) (simp_all add: apart_sym)
  then have "load64 (mem s4) (addr_prison0 L) = init_prison (mem s) p"
    using kernel_same_load [OF k2] i by (simp add: 3(4) init_prison_def init_ok_def)
  moreover have "resolve_outside L s (mem s4)"
    by (simp add: resolve_outside_def 1 2 3 4 store_outside)
  ultimately show ?thesis using 1 2 3 4 v k4 by auto
qed

text \<open>The process list of the caller: it starts at the caller and ends at pid 1, whose structures
  are on the kernel heap.\<close>

definition init_reachable :: "krw \<Rightarrow> u64 list \<Rightarrow> bool" where
  "init_reachable s ps \<longleftrightarrow> heap_range (gs_td (cfg s) + 8) 8 \<and> proc_chain (mem s) (cur_proc s # ps)
     \<and> init_ok (mem s) (last (cur_proc s # ps))"

lemma init_kernel:
  assumes "kernel_same m m'" and "heap_range p 0xb4" and "init_ok m p"
  shows "init_ok m' p" and "init_prison m' p = init_prison m p" and "init_root m' p = init_root m p"
proof -
  have "load m' (p + 0x40) 8 = load m (p + 0x40) 8" "load m' (p + 0x48) 8 = load m (p + 0x48) 8"
    using kernel_same_load [OF assms(1)] range_offset(1) [OF assms(2)] by simp_all
  then show "init_ok m' p" "init_prison m' p = init_prison m p" "init_root m' p = init_root m p"
    using assms(3) kernel_same_load [OF assms(1)] by (simp_all add: init_ok_def init_prison_def init_root_def)
qed

lemma resolve_finds_init:
  assumes r: "krw_ready s" and l: "statics_ok L s" and i: "init_reachable s ps"
  shows "\<exists>s'. resolve L s = Some (0, s') \<and> krw_ready s' \<and> cfg s' = cfg s \<and> kernel_same (mem s) (mem s')
     \<and> load64 (mem s') (addr_prison0 L) = init_prison (mem s) (last (cur_proc s # ps))
     \<and> load64 (mem s') (addr_rootvnode L) = init_root (mem s) (last (cur_proc s # ps)) \<and> resolve_outside L s (mem s')"
proof -
  let ?p = "last (cur_proc s # ps)"
  note I = i [unfolded init_reachable_def]
  obtain s1 where 1: "resolve_loop L None s = resolve_loop L (Some (cur_proc s)) s1" "krw_ready s1" "cfg s1 = cfg s"
     "kernel_same (mem s) (mem s1)" "slots_outside L s (mem s1)"
    using resolve_loop_restart [OF r] I by blast
  have "user_range (addr_pid L) 4" using l by (simp add: statics_ok_def)
  moreover have "proc_chain (mem s1) (cur_proc s # ps)" using proc_chain_kernel 1(4) I by blast
  ultimately obtain s2 where 2: "resolve_loop L (Some (cur_proc s)) s1 = Some (?p, s2)" "krw_ready s2" "cfg s2 = cfg s1"
     "kernel_same (mem s1) (mem s2)" "slots_outside L s1 (mem s2)"
    using resolve_loop_chain [OF 1(2)] by blast
  have k: "kernel_same (mem s) (mem s2)" using 1(4) 2(4) by (rule kernel_same_trans)
  have h: "heap_range ?p 0xb4" using proc_chain_last I by blast
  have ik: "init_ok (mem s2) ?p" "init_prison (mem s2) ?p = init_prison (mem s) ?p" "init_root (mem s2) ?p = init_root (mem s) ?p"
    using init_kernel [OF k h] I by blast+
  have "statics_ok L s2" using l by (simp add: statics_ok_def 1 2)
  from resolve_tail [OF 2(2) this h ik(1)] obtain s3 s4 s5 s6 where
    "jbc_krw_read64 (?p + 0x40) KERNEL_HEAP s2 = (load64 (mem s2) (?p + 0x40), s3)"
    "jbc_krw_read64 (?p + 0x48) KERNEL_HEAP s3 = (load64 (mem s2) (?p + 0x48), s4)"
    "jbc_krw_memcpy (addr_prison0 L) (load64 (mem s2) (?p + 0x40) + 0x30) 8 KERNEL_HEAP s4 = (0, s5)"
    "jbc_krw_memcpy (addr_rootvnode L) (load64 (mem s2) (?p + 0x48) + 0x18) 8 KERNEL_HEAP s5 = (0, s6)"
    and t: "krw_ready s6" "cfg s6 = cfg s2" "kernel_same (mem s2) (mem s6)"
    "load64 (mem s6) (addr_prison0 L) = init_prison (mem s2) ?p"
    "load64 (mem s6) (addr_rootvnode L) = init_root (mem s2) ?p" "resolve_outside L s2 (mem s6)"
    by blast
  then have "resolve L s = Some (0, s6)" by (simp add: resolve_def 1(1) 2(1))
  moreover have "resolve_outside L s (mem s6)"
    using t(6) 1(5) 2(5) by (simp add: resolve_outside_def slots_outside_def 1(3) 2(3))
  ultimately show ?thesis
    using t ik 1(3) 2(3) kernel_same_trans [OF k] by auto
qed

definition escalated_cred :: "u64 \<Rightarrow> u64 \<Rightarrow> jbc_cred" where
  "escalated_cred pr vn = \<lparr>uid = 0, ruid = 0, svuid = 0, rgid = 0, svgid = 0, prison = pr,
     cdir = vn, rdir = vn, jdir = vn, sceProcType = 0x3801000000000013, sonyCred = 0xffffffffffffffff,
     sceProcCap = 0xffffffffffffffff\<rparr>"

text \<open>The cached statics are empty or hold what resolving gives.\<close>

definition jb_ready :: "jb_layout \<Rightarrow> krw \<Rightarrow> u64 \<Rightarrow> u64 \<Rightarrow> bool" where
  "jb_ready L s pr vn \<longleftrightarrow> statics_ok L s \<and> pr \<noteq> 0 \<and> vn \<noteq> 0
     \<and> (load64 (mem s) (addr_prison0 L) = pr \<and> load64 (mem s) (addr_rootvnode L) = vn
        \<or> load64 (mem s) (addr_prison0 L) = 0
          \<and> (\<exists>ps. init_reachable s ps \<and> init_prison (mem s) (last (cur_proc s # ps)) = pr
              \<and> init_root (mem s) (last (cur_proc s # ps)) = vn))"

lemma jailbreak_statics:
  assumes "krw_ready s" and "jb_ready L s pr vn"
  shows "\<exists>s'. jbc_get_prison0 L s = Some (pr, s') \<and> jbc_get_rootvnode L s' = Some (vn, s')
     \<and> krw_ready s' \<and> cfg s' = cfg s \<and> kernel_same (mem s) (mem s') \<and> resolve_outside L s (mem s')
     \<and> load64 (mem s') (addr_prison0 L) = pr \<and> load64 (mem s') (addr_rootvnode L) = vn"
proof (cases "load64 (mem s) (addr_prison0 L) = 0")
  case False
  then show ?thesis
    using assms by (auto simp: jb_ready_def jbc_get_prison0_def jbc_get_rootvnode_def resolve_outside_def)
next
  case True
  then obtain ps where ps: "init_reachable s ps" "init_prison (mem s) (last (cur_proc s # ps)) = pr"
      "init_root (mem s) (last (cur_proc s # ps)) = vn" "statics_ok L s" "pr \<noteq> 0" "vn \<noteq> 0"
    using assms(2) by (auto simp: jb_ready_def)
  then obtain s' where "resolve L s = Some (0, s')" "krw_ready s'" "cfg s' = cfg s" "kernel_same (mem s) (mem s')"
     "load64 (mem s') (addr_prison0 L) = pr" "load64 (mem s') (addr_rootvnode L) = vn" "resolve_outside L s (mem s')"
    using resolve_finds_init [OF assms(1) ps(4,1)] by auto
  then show ?thesis
    using True ps by (intro exI [of _ s']) (simp add: jbc_get_prison0_def jbc_get_rootvnode_def)
qed

definition jailbreak_puts :: "u64 \<Rightarrow> u64 \<Rightarrow> u64 \<Rightarrow> krw \<Rightarrow> krw" where
  "jailbreak_puts ans pr vn s =
     put64 (ans + 32) vn (put64 (ans + 40) vn (put64 (ans + 48) vn (put64 (ans + 24) pr
       (put32 ans 0 (put32 (ans + 4) 0 (put32 (ans + 8) 0 (put32 (ans + 12) 0 (put32 (ans + 16) 0
         (put64 (ans + 64) 0xffffffffffffffff (put64 (ans + 56) 0x3801000000000013
            (put64 (ans + 72) 0xffffffffffffffff s)))))))))))"

lemma put_cfg [simp]: "cfg (put32 a v s) = cfg s" "cfg (put64 a w s) = cfg s"
  by (simp_all add: put32_def put64_def)

lemma put_ready [simp]: "krw_ready (put32 a v s) = krw_ready s" "krw_ready (put64 a w s) = krw_ready s"
  by (simp_all add: put32_def put64_def krw_ready_def)

lemma jailbreak_puts_cred: "cred_at (mem (jailbreak_puts ans pr vn s)) ans = escalated_cred pr vn"
  by (simp add: jailbreak_puts_def cred_at_def escalated_cred_def put32_def put64_def mem_simps)

lemma put_outside:
  "\<not> inside a 80 x \<Longrightarrow> unat i + 4 \<le> 80 \<Longrightarrow> mem (put32 (a + i) v s) x = mem s x"
  "\<not> inside a 80 x \<Longrightarrow> mem (put32 a v s) x = mem s x"
  "\<not> inside a 80 x \<Longrightarrow> unat i + 8 \<le> 80 \<Longrightarrow> mem (put64 (a + i) w s) x = mem s x"
  using inside_sub [of a "unat i" 4 x 80] inside_sub [of a "unat i" 8 x 80] inside_sub [of a 0 4 x 80]
  unfolding put32_def put64_def by (auto intro!: store_outside)

text \<open>What resolving may overwrite: the local \<open>pid\<close>, the result slot of the 64-bit reads and the
  two statics.\<close>

definition jb_scratch :: "jb_layout \<Rightarrow> krw \<Rightarrow> u64 \<Rightarrow> bool" where
  "jb_scratch L s x \<longleftrightarrow> inside (addr_pid L) 4 x \<or> inside (addr_ans (cfg s)) 8 x
     \<or> inside (addr_prison0 L) 8 x \<or> inside (addr_rootvnode L) 8 x"

lemma jailbreak_cred_lemma:
  assumes "krw_ready s" and "jb_ready L s pr vn" and "user_range ans 80"
  shows "\<exists>s'. jbc_jailbreak_cred L ans s = Some (0, s') \<and> krw_ready s' \<and> cfg s' = cfg s
     \<and> cred_at (mem s') ans = escalated_cred pr vn \<and> kernel_same (mem s) (mem s')
     \<and> (\<forall>x. \<not> inside ans 80 x \<longrightarrow> \<not> jb_scratch L s x \<longrightarrow> mem s' x = mem s x)"
proof -
  obtain t where t: "jbc_get_prison0 L s = Some (pr, t)" "jbc_get_rootvnode L t = Some (vn, t)"
     "krw_ready t" "cfg t = cfg s" "kernel_same (mem s) (mem t)" "resolve_outside L s (mem t)"
     "load64 (mem t) (addr_prison0 L) = pr" "load64 (mem t) (addr_rootvnode L) = vn"
    using jailbreak_statics [OF assms(1,2)] by blast
  let ?s = "jailbreak_puts ans pr vn t"
  have "pr \<noteq> 0" "vn \<noteq> 0" using assms(2) by (simp_all add: jb_ready_def)
  then have "jbc_jailbreak_cred L ans s = Some (0, ?s)"
    using t(1,2) by (simp add: jbc_jailbreak_cred_def jailbreak_puts_def Let_def)
  moreover have o: "mem ?s x = mem t x" if "\<not> inside ans 80 x" for x
    using that by (simp add: jailbreak_puts_def put_outside)
  moreover have "kernel_same (mem t) (mem ?s)"
    unfolding kernel_same_def using o assms(3) by (auto simp: inside_unat user_range_def)
  moreover have "krw_ready ?s" "cfg ?s = cfg s" using t(3,4) by (simp_all add: jailbreak_puts_def)
  moreover have "\<forall>x. \<not> inside ans 80 x \<longrightarrow> \<not> jb_scratch L s x \<longrightarrow> mem ?s x = mem s x"
    using o t(6) by (auto simp: resolve_outside_def jb_scratch_def)
  ultimately show ?thesis
    using jailbreak_puts_cred [of ans pr vn t] kernel_same_trans [OF t(5)] by blast
qed

section \<open>Not returning\<close>

lemma memcpy_user_user:
  "user_range d (unat n) \<Longrightarrow> user_range k (unat n) \<Longrightarrow> n \<noteq> 0 \<Longrightarrow> jbc_krw_memcpy d k n kind s = (-1, s)"
  using check_ptr_ends_user [of d n] check_ptr_ends_user [of k n] by (simp add: jbc_krw_memcpy_def Let_def)

definition resolve_stuck :: "jb_layout \<Rightarrow> krw \<Rightarrow> bool" where
  "resolve_stuck L s \<longleftrightarrow> krw_ready s \<and> heap_range (gs_td (cfg s) + 8) 8 \<and> user_range (addr_pid L) 4
     \<and> user_range (cur_proc s + 0xb0) 4"

lemma resolve_stuck_read:
  assumes "resolve_stuck L s"
  shows "\<exists>s'. jbc_krw_get_td s = (gs_td (cfg s), s) \<and> jbc_krw_read64 (gs_td (cfg s) + 8) KERNEL_HEAP s = (cur_proc s, s')
     \<and> resolve_stuck L s' \<and> cur_proc s' = cur_proc s"
proof -
  note S = assms [unfolded resolve_stuck_def]
  obtain s' where s': "jbc_krw_read64 (gs_td (cfg s) + 8) KERNEL_HEAP s = (cur_proc s, s')" "krw_ready s'" "cfg s' = cfg s"
     "mem s' = store (mem s) (addr_ans (cfg s)) (load (mem s) (gs_td (cfg s) + 8) 8)"
    using read64_heap S unfolding cur_proc_def by blast
  have "kernel_same (mem s) (mem s')" unfolding s'(4) using S by (intro kernel_same_slot) simp
  then have "cur_proc s' = cur_proc s" using S kernel_same_load by (simp add: cur_proc_def s'(3))
  then show ?thesis using s' S krw.gtd_law [of s] by (simp add: resolve_stuck_def)
qed

lemma resolve_loop_diverges:
  "resolve_loop L at s = Some y \<Longrightarrow> resolve_stuck L s \<longrightarrow> at \<noteq> None \<and> at \<noteq> Some (cur_proc s)"
proof (induction L at s y rule: resolve_loop.raw_induct [rotated, consumes 1, case_names step])
  case (step f L at s y)
  show ?case
  proof (rule impI)
    assume st: "resolve_stuck L s"
    obtain s' where r: "jbc_krw_get_td s = (gs_td (cfg s), s)"
       "jbc_krw_read64 (gs_td (cfg s) + 8) KERNEL_HEAP s = (cur_proc s, s')" "resolve_stuck L s'" "cur_proc s' = cur_proc s"
      using resolve_stuck_read [OF st] by blast
    have m: "jbc_krw_memcpy (addr_pid L) (cur_proc s + 0xb0) 4 KERNEL_HEAP s = (-1, s)"
      using st by (intro memcpy_user_user) (simp_all add: resolve_stuck_def)
    show "at \<noteq> None \<and> at \<noteq> Some (cur_proc s)"
      using step(1) [of L "Some (cur_proc s)" s' y] step(1) [of L None s y] step(2) r m st
      by (cases "at") (auto split: option.splits)
  qed
qed

lemma resolve_diverges: "resolve_stuck L s \<Longrightarrow> resolve L s = None"
  using resolve_loop_diverges [of L None s] by (cases "resolve_loop L None s") (auto simp: resolve_def)

lemma jb_ready_stable:
  assumes "jb_ready L s pr vn" and "kernel_same (mem s) (mem s')" and "gs_td (cfg s') = gs_td (cfg s)"
    and "addr_ans (cfg s') = addr_ans (cfg s)"
    and "load (mem s') (addr_prison0 L) 8 = load (mem s) (addr_prison0 L) 8"
    and "load (mem s') (addr_rootvnode L) 8 = load (mem s) (addr_rootvnode L) 8"
  shows "jb_ready L s' pr vn"
proof -
  have "init_reachable s' ps \<and> init_prison (mem s') (last (cur_proc s' # ps)) = init_prison (mem s) (last (cur_proc s # ps))
      \<and> init_root (mem s') (last (cur_proc s' # ps)) = init_root (mem s) (last (cur_proc s # ps))"
    if "init_reachable s ps" for ps
  proof -
    note I = that [unfolded init_reachable_def]
    have c: "cur_proc s' = cur_proc s" using kernel_same_load [OF assms(2)] I by (simp add: cur_proc_def assms(3))
    have "heap_range (last (cur_proc s # ps)) 0xb4" using I proc_chain_last by blast
    with init_kernel [OF assms(2) this] I proc_chain_kernel [OF _ assms(2)] show ?thesis
      by (simp add: init_reachable_def c assms(3))
  qed
  moreover have "statics_ok L s'" using assms(1,4) by (simp add: jb_ready_def statics_ok_def)
  ultimately show ?thesis using assms(1) unfolding jb_ready_def assms(5,6) by metis
qed

lemma escalate_lemma:
  assumes r: "krw_ready s" and p: "proc_ok s" and j: "jb_ready L s pr vn"
    and a: "user_range ans 80" "apart (addr_ans (cfg s)) 8 ans 80"
      "apart ans 80 (addr_prison0 L) 8" "apart ans 80 (addr_rootvnode L) 8"
  shows "\<exists>s1 s2. jbc_get_cred ans s = (0, s1) \<and> jbc_jailbreak_cred L ans s1 = Some (0, s2)
     \<and> krw_ready s2 \<and> proc_ok s2 \<and> cred_at (mem s1) ans = proc_cred s \<and> cred_at (mem s2) ans = escalated_cred pr vn
     \<and> cur_ucred s2 = cur_ucred s \<and> cur_fd s2 = cur_fd s
     \<and> addr_ans (cfg s2) = addr_ans (cfg s) \<and> gs_td (cfg s2) = gs_td (cfg s) \<and> kernel_same (mem s) (mem s2)
     \<and> (\<forall>x. \<not> inside ans 80 x \<longrightarrow> \<not> jb_scratch L s x \<longrightarrow> mem s2 x = mem s x)"
proof -
  obtain s1 where 1: "jbc_get_cred ans s = (0, s1)" "krw_ready s1" "cred_at (mem s1) ans = proc_cred s"
     "kernel_same (mem s) (mem s1)" "gs_td (cfg s1) = gs_td (cfg s)" "addr_ans (cfg s1) = addr_ans (cfg s)"
     "\<forall>x. \<not> inside ans 80 x \<longrightarrow> \<not> inside (addr_ans (cfg s)) 8 x \<longrightarrow> mem s1 x = mem s x"
    using get_cred_lemma [OF r p a(1)] by blast
  have st: "load (mem s1) b 8 = load (mem s) b 8" if "apart ans 80 b 8" "apart (addr_ans (cfg s)) 8 b 8" for b
    using 1(7) that by (intro load_cong) (auto simp: apart_def)
  have "jb_ready L s1 pr vn"
    using j a by (intro jb_ready_stable [OF j 1(4,5,6)] st) (simp_all add: jb_ready_def statics_ok_def)
  from jailbreak_cred_lemma [OF 1(2) this a(1)] obtain s2 where
    2: "jbc_jailbreak_cred L ans s1 = Some (0, s2)" "krw_ready s2" "cfg s2 = cfg s1" "cred_at (mem s2) ans = escalated_cred pr vn"
     "kernel_same (mem s1) (mem s2)" "\<forall>x. \<not> inside ans 80 x \<longrightarrow> \<not> jb_scratch L s1 x \<longrightarrow> mem s2 x = mem s1 x"
    by blast
  have k: "kernel_same (mem s) (mem s2)" using 1(4) 2(5) by (rule kernel_same_trans)
  have "cur_ucred s2 = cur_ucred s" "cur_fd s2 = cur_fd s" "proc_ok s2"
    using proc_stable [OF p r, of s2] k 2(3) 1(5) by (auto simp: kernel_same_def)
  moreover have "\<forall>x. \<not> inside ans 80 x \<longrightarrow> \<not> jb_scratch L s x \<longrightarrow> mem s2 x = mem s x"
    using 2(6) 1(7) by (simp add: jb_scratch_def 1(6))
  ultimately show ?thesis using 1 2 k by auto
qed

section \<open>An example kernel\<close>

text \<open>The caller (pid 77) and init, with their credentials and directories, on an otherwise zero heap.\<close>

definition demo_mem :: memory where
  "demo_mem = fold (\<lambda>(a, v) m. store m a (le_bytes 8 v))
      [(0xffff900000000008, 0xffff900000001000), (0xffff900000001000, 0xffff900000005000),
       (0xffff900000001040, 0xffff900000002000), (0xffff900000001048, 0xffff900000003000),
       (0xffff900000005008, 0xffff900000001000),
       (0xffff900000005040, 0xffff900000006000), (0xffff900000005048, 0xffff900000007000),
       (0xffff900000006030, 0xffffffff81234560), (0xffff900000007018, 0xffff900000008000 :: u64)]
     (fold (\<lambda>(a, v) m. store m a (le_bytes 4 v))
      [(0xffff9000000010b0, 77), (0xffff9000000050b0, 1), (0xffff900000002008, 1 :: u32)] (\<lambda>_. 0))"

definition demo :: krw where
  "demo = boot plain_cfg demo_mem"

definition demo_layout :: jb_layout where
  "demo_layout = \<lparr>addr_prison0 = 0x7f0000001000, addr_rootvnode = 0x7f0000001008, addr_pid = 0x7f0000000100\<rparr>"

lemma demo_loads:
  "load64 demo_mem 0xffff900000000008 = 0xffff900000001000"
  "load64 demo_mem 0xffff900000001000 = 0xffff900000005000"
  "load64 demo_mem 0xffff900000001040 = 0xffff900000002000"
  "load64 demo_mem 0xffff900000001048 = 0xffff900000003000"
  "load32 demo_mem 0xffff9000000010b0 = 77"
  "load64 demo_mem 0xffff900000005008 = 0xffff900000001000"
  "load64 demo_mem 0xffff900000005040 = 0xffff900000006000"
  "load64 demo_mem 0xffff900000005048 = 0xffff900000007000"
  "load32 demo_mem 0xffff9000000050b0 = 1"
  "load64 demo_mem 0xffff900000006030 = 0xffffffff81234560"
  "load64 demo_mem 0xffff900000007018 = 0xffff900000008000"
  "load64 demo_mem 0x7f0000001000 = 0"
  "load64 demo_mem 0x7f0000001008 = 0"
  "load32 demo_mem 0xffff900000002008 = 1"
  by (simp_all add: demo_mem_def load_store_num load_zero)

lemma heap_apart:
  "heap_range a n \<Longrightarrow> heap_range b k \<Longrightarrow> unat a + n \<le> unat b \<or> unat b + k \<le> unat a \<Longrightarrow> apart a n b k"
  by (auto simp: apart_def heap_range_def inside_unat)

lemma user_apart:
  "user_range a n \<Longrightarrow> user_range b k \<Longrightarrow> unat a + n \<le> unat b \<or> unat b + k \<le> unat a \<Longrightarrow> apart a n b k"
  by (auto simp: apart_def user_range_def inside_unat)

lemma demo_ready: "krw_ready demo"
  by (simp add: demo_def boot_ready plain_cfg_ok)

lemma demo_sel: "mem demo = demo_mem" "gs_td (cfg demo) = 0xffff900000000000" "addr_ans (cfg demo) = 0x7f0000000010"
  by (simp_all add: demo_def boot_def plain_cfg_def)

lemma demo_cur: "cur_proc demo = 0xffff900000001000" "cur_ucred demo = 0xffff900000002000" "cur_fd demo = 0xffff900000003000"
  by (simp_all add: cur_proc_def cur_ucred_def cur_fd_def demo_sel demo_loads)

lemma demo_proc_ok: "proc_ok demo"
  by (simp add: proc_ok_def demo_sel demo_cur heap_range_def heap_apart)

lemma demo_reachable: "init_reachable demo [0xffff900000005000]"
  by (simp add: init_reachable_def demo_sel demo_cur demo_loads init_ok_def heap_range_def)

lemma demo_statics: "statics_ok demo_layout demo"
  by (simp add: statics_ok_def demo_layout_def demo_sel user_range_def user_apart)

lemma demo_init: "init_prison demo_mem 0xffff900000005000 = 0xffffffff81234560" "init_root demo_mem 0xffff900000005000 = 0xffff900000008000"
  by (simp_all add: init_prison_def init_root_def demo_loads)

lemma demo_jb_ready: "jb_ready demo_layout demo 0xffffffff81234560 0xffff900000008000"
proof -
  have "load64 (mem demo) (addr_prison0 demo_layout) = 0" by (simp add: demo_sel demo_layout_def demo_loads)
  then show ?thesis
    unfolding jb_ready_def using demo_statics demo_reachable demo_init
    by (intro conjI disjI2 exI [of _ "[0xffff900000005000]"]) (simp_all add: demo_sel)
qed

lemma demo_ans: "user_range 0x7f0000002000 80" "apart (addr_ans (cfg demo)) 8 0x7f0000002000 80"
  by (simp_all add: demo_sel user_range_def user_apart)

section \<open>Properties\<close>

text \<open>\<open>jbc_get_cred\<close> returns 0 and the structure holds the twelve fields of the kernel's
  credentials of the calling process; the kernel half of memory and, apart from the structure and
  the slot of the 64-bit reads, user memory are untouched.\<close>

lemma jbc_get_cred_reads:
  assumes "krw_ready s" and "proc_ok s" and "user_range ans 80"
  shows "\<exists>s'. jbc_get_cred ans s = (0, s') \<and> krw_ready s' \<and> cred_at (mem s') ans = proc_cred s
     \<and> kernel_same (mem s) (mem s')
     \<and> (\<forall>x. \<not> inside ans 80 x \<longrightarrow> \<not> inside (addr_ans (cfg s)) 8 x \<longrightarrow> mem s' x = mem s x)"
  using get_cred_lemma [OF assms] by blast

lemma jbc_get_cred_reads_witness:
  "\<exists>s'. jbc_get_cred 0x7f0000002000 demo = (0, s') \<and> ruid (cred_at (mem s') 0x7f0000002000) = 1"
proof -
  have "ruid (proc_cred demo) = 1"
    by (simp add: proc_cred_def kcred_def demo_cur demo_sel demo_loads)
  then show ?thesis
    using jbc_get_cred_reads [OF demo_ready demo_proc_ok demo_ans(1)] by auto
qed

text \<open>C28. \<open>jbc_set_cred\<close> returns 0 and the kernel's credentials become the twelve fields of the
  structure; of all memory only the five field groups and the slot of the 64-bit reads change, and
  the process still owns the same structures.\<close>

theorem jbc_set_cred_writes:
  assumes "krw_ready s" and "proc_ok s" and "user_range ans 80" and "apart (addr_ans (cfg s)) 8 ans 80"
  shows "\<exists>s'. jbc_set_cred ans s = (0, s') \<and> krw_ready s' \<and> proc_ok s' \<and> proc_cred s' = cred_at (mem s) ans
     \<and> (\<forall>x. \<not> cred_footprint (cur_ucred s) (cur_fd s) x \<longrightarrow> \<not> inside (addr_ans (cfg s)) 8 x \<longrightarrow> mem s' x = mem s x)"
  using set_cred_stable [OF assms] by blast

theorem jbc_set_cred_writes_witness:
  "\<exists>s'. jbc_set_cred 0x7f0000002000 demo = (0, s') \<and> proc_cred s' = cred_at demo_mem 0x7f0000002000"
  using jbc_set_cred_writes [OF demo_ready demo_proc_ok demo_ans] by (auto simp: demo_sel)

text \<open>Credentials written from one structure are what a later read puts into another.\<close>

lemma set_get_cred_roundtrip:
  assumes "krw_ready s" and "proc_ok s" and "user_range a 80" and "apart (addr_ans (cfg s)) 8 a 80" and "user_range b 80"
  shows "\<exists>s1 s2. jbc_set_cred a s = (0, s1) \<and> jbc_get_cred b s1 = (0, s2) \<and> cred_at (mem s2) b = cred_at (mem s) a"
  using set_cred_stable [OF assms(1-4)] get_cred_lemma [OF _ _ assms(5)] by metis

lemma set_get_cred_roundtrip_witness:
  "\<exists>s1 s2. jbc_set_cred 0x7f0000002000 demo = (0, s1) \<and> jbc_get_cred 0x7f0000003000 s1 = (0, s2)
     \<and> cred_at (mem s2) 0x7f0000003000 = cred_at (mem demo) 0x7f0000002000"
  by (rule set_get_cred_roundtrip [OF demo_ready demo_proc_ok demo_ans]) (simp add: user_range_def)

text \<open>C29. On a process list that leads from the caller to pid 1, \<open>resolve\<close> returns (0), having
  stored init's prison and root vnode in the statics.\<close>

theorem resolve_returns:
  assumes "krw_ready s" and "statics_ok L s" and "init_reachable s ps"
  shows "\<exists>s'. resolve L s = Some (0, s') \<and> krw_ready s' \<and> kernel_same (mem s) (mem s')
     \<and> load64 (mem s') (addr_prison0 L) = init_prison (mem s) (last (cur_proc s # ps))
     \<and> load64 (mem s') (addr_rootvnode L) = init_root (mem s) (last (cur_proc s # ps))"
  using resolve_finds_init [OF assms] by blast

theorem resolve_returns_witness:
  "\<exists>s'. resolve demo_layout demo = Some (0, s') \<and> load64 (mem s') 0x7f0000001000 = 0xffffffff81234560
     \<and> load64 (mem s') 0x7f0000001008 = 0xffff900000008000"
  using resolve_returns [OF demo_ready demo_statics demo_reachable] by (auto simp: demo_sel demo_init demo_layout_def)

text \<open>C39. If the process pointer of the thread is not a kernel pointer (a null pointer, say), the
  copy of the pid is refused every time, and \<open>resolve\<close> restarts for ever instead of
  reporting an error.\<close>

theorem resolve_livelock:
  assumes "krw_ready s" and "heap_range (gs_td (cfg s) + 8) 8" and "user_range (addr_pid L) 4"
    and "user_range (cur_proc s + 0xb0) 4"
  shows "resolve L s = None"
  using assms by (intro resolve_diverges) (simp add: resolve_stuck_def)

theorem resolve_livelock_witness: "resolve demo_layout (boot plain_cfg (\<lambda>_. 0)) = None"
proof (rule resolve_livelock)
  have "cur_proc (boot plain_cfg (\<lambda>_. 0)) = 0" by (simp add: cur_proc_def boot_def plain_cfg_def load_zero)
  then show "user_range (cur_proc (boot plain_cfg (\<lambda>_. 0)) + 0xb0) 4" by (simp add: user_range_def)
qed (simp_all add: boot_ready plain_cfg_ok demo_layout_def user_range_def, simp add: boot_def plain_cfg_def heap_range_def)

text \<open>C17. The escalation of the payload, end to end: reading the credentials, replacing them and
  writing them back leaves the kernel with uid and gid 0, init's prison, the root vnode for the
  current, root and jail directories, and the system capabilities.\<close>

theorem escalation_end_to_end:
  assumes "krw_ready s" and "proc_ok s" and "jb_ready L s pr vn"
    and "user_range ans 80" and "apart (addr_ans (cfg s)) 8 ans 80"
    and "apart ans 80 (addr_prison0 L) 8" and "apart ans 80 (addr_rootvnode L) 8"
  shows "\<exists>s1 s2 s3. jbc_get_cred ans s = (0, s1) \<and> jbc_jailbreak_cred L ans s1 = Some (0, s2)
     \<and> jbc_set_cred ans s2 = (0, s3) \<and> krw_ready s3 \<and> proc_ok s3 \<and> proc_cred s3 = escalated_cred pr vn"
proof -
  obtain s1 s2 where 1: "jbc_get_cred ans s = (0, s1)" "jbc_jailbreak_cred L ans s1 = Some (0, s2)" "krw_ready s2"
     "proc_ok s2" "cred_at (mem s2) ans = escalated_cred pr vn" "addr_ans (cfg s2) = addr_ans (cfg s)"
    using escalate_lemma [OF assms] by blast
  then show ?thesis using set_cred_stable [OF 1(3,4) assms(4)] assms(5) by (metis (no_types))
qed

theorem escalation_end_to_end_witness:
  "\<exists>s1 s2 s3. jbc_get_cred 0x7f0000002000 demo = (0, s1)
     \<and> jbc_jailbreak_cred demo_layout 0x7f0000002000 s1 = Some (0, s2)
     \<and> jbc_set_cred 0x7f0000002000 s2 = (0, s3) \<and> krw_ready s3 \<and> proc_ok s3
     \<and> proc_cred s3 = escalated_cred 0xffffffff81234560 0xffff900000008000"
  by (rule escalation_end_to_end [OF demo_ready demo_proc_ok demo_jb_ready demo_ans])
    (simp_all add: demo_layout_def user_range_def user_apart)

end
