(* ===== verification/Dynlib.thy ===== *)
theory Dynlib
  imports C_Strings Jailbreak
begin

text \<open>
  Payload/lib/dl.c: loading modules and looking up symbols. The kernel's loader is a parameter
  (\<open>loader\<close>); the module's own initialiser, run at the address the loader reports, is
  \<open>run_init\<close>. The module information structure has the size the ABI gives it.
\<close>

section \<open>Structures\<close>

record module_segment =
  ms_addr :: u64
  ms_size :: u32
  ms_flags :: u32

record module_info_ex =
  st_size :: u64
  mi_name :: "u8 list"
  mi_id :: u32
  tls_index :: u32
  tls_init_addr :: u64
  tls_init_size :: u32
  tls_size :: u32
  tls_offset :: u32
  tls_align :: u32
  init_proc_addr :: u64
  fini_proc_addr :: u64
  reserved1 :: u64
  reserved2 :: u64
  eh_frame_hdr_addr :: u64
  eh_frame_addr :: u64
  eh_frame_hdr_size :: u32
  eh_frame_size :: u32
  segments :: "module_segment list"
  segment_count :: u32
  ref_count :: u32

text \<open>The layout of \<open>struct module_info_ex\<close>: (size, alignment) of each member, an array being as
  aligned as its elements; the structure is padded to the alignment of its widest member.\<close>

definition module_segment_members :: "(nat \<times> nat) list" where
  "module_segment_members = [(8, 8), (4, 4), (4, 4)]"

definition struct_align :: "(nat \<times> nat) list \<Rightarrow> nat" where
  "struct_align ms = foldr max (map snd ms) 1"

fun struct_end :: "nat \<Rightarrow> (nat \<times> nat) list \<Rightarrow> nat" where
  "struct_end off [] = off"
| "struct_end off ((sz, al) # ms) = struct_end (align_up off al + sz) ms"

definition struct_size :: "(nat \<times> nat) list \<Rightarrow> nat" where
  "struct_size ms = align_up (struct_end 0 ms) (struct_align ms)"

definition module_info_ex_members :: "(nat \<times> nat) list" where
  "module_info_ex_members =
     [(8, 8), (256, 1), (4, 4), (4, 4), (8, 8), (4, 4), (4, 4), (4, 4), (4, 4), (8, 8), (8, 8), (8, 8), (8, 8),
      (8, 8), (8, 8), (4, 4), (4, 4), (4 * struct_size module_segment_members, struct_align module_segment_members),
      (4, 4), (4, 4)]"

section \<open>Operations\<close>

text \<open>The loader: \<open>dynlib_load_prx\<close> stores the handle only on success (its result is wider than
  the test looks at: any bit set is a failure).\<close>

record 'w loader =
  dynlib_load_prx :: "u8 list \<Rightarrow> int \<Rightarrow> u32 \<Rightarrow> int \<Rightarrow> 'w \<Rightarrow> u64 \<times> u32 \<times> 'w"
  dynlib_get_info_ex :: "u32 \<Rightarrow> int \<Rightarrow> module_info_ex \<Rightarrow> 'w \<Rightarrow> u32 \<times> module_info_ex \<times> 'w"
  dynlib_dlsym :: "u32 \<Rightarrow> u8 list \<Rightarrow> u64 \<Rightarrow> 'w \<Rightarrow> u64 \<times> u64 \<times> 'w"
  run_init :: "u64 \<Rightarrow> u64 \<Rightarrow> u64 \<Rightarrow> u64 \<Rightarrow> 'w \<Rightarrow> 'w"

text \<open>\<open>mi0\<close> is what the uninitialised local \<open>mi\<close> happens to hold. The result is the handle,
  sign-extended to a pointer.\<close>

definition dlopen_ex :: "'w loader \<Rightarrow> module_info_ex \<Rightarrow> u8 list \<Rightarrow> int \<Rightarrow> u64 \<Rightarrow> u64 \<Rightarrow> 'w \<Rightarrow> u64 \<times> 'w" where
  "dlopen_ex D mi0 path mode data data_len w =
     (case dynlib_load_prx D path 0 0 0 w of (r, handle, w) \<Rightarrow>
      if r \<noteq> 0 then (0, w)
      else let mi = mi0\<lparr>st_size := of_nat (struct_size module_info_ex_members)\<rparr> in
        (case dynlib_get_info_ex D handle 0 mi w of (r, mi, w) \<Rightarrow>
         if r \<noteq> 0 then (0, w)
         else let w = (if ref_count mi < 2 then run_init D (init_proc_addr mi) data_len data 0 w else w)
           in (scast handle, w)))"

definition dlopen :: "'w loader \<Rightarrow> module_info_ex \<Rightarrow> u8 list \<Rightarrow> int \<Rightarrow> 'w \<Rightarrow> u64 \<times> 'w" where
  "dlopen D mi0 path mode w = dlopen_ex D mi0 path mode 0 0 w"

definition dlsym :: "'w loader \<Rightarrow> u64 \<Rightarrow> u8 list \<Rightarrow> 'w \<Rightarrow> u64 \<times> 'w" where
  "dlsym D handle nm w = (case dynlib_dlsym D (ucast handle) nm 0 w of (_, addr, w) \<Rightarrow> (addr, w))"

section \<open>Lemmas\<close>

lemma module_info_ex_size: "struct_size module_info_ex_members = 424"
  by (simp add: struct_size_def module_info_ex_members_def module_segment_members_def struct_align_def align_up_def)

lemma handle_roundtrip: "ucast (scast (h :: u32) :: u64) = h"
  by (rule bit_word_eqI) (simp add: bit_ucast_iff bit_signed_iff)

text \<open>Opening a module several times in a row.\<close>

primrec open_times :: "'w loader \<Rightarrow> module_info_ex \<Rightarrow> u8 list \<Rightarrow> nat \<Rightarrow> 'w \<Rightarrow> 'w" where
  "open_times D mi0 path 0 w = w"
| "open_times D mi0 path (Suc n) w = open_times D mi0 path n (snd (dlopen D mi0 path 0 w))"

text \<open>The documented behaviour of the loader that \<open>dlopen\<close> relies on: loading counts a reference, the
  information reports the count, and neither the query nor the initialiser changes it.\<close>

definition counts_refs :: "'w loader \<Rightarrow> u8 list \<Rightarrow> u32 \<Rightarrow> ('w \<Rightarrow> nat) \<Rightarrow> ('w \<Rightarrow> nat) \<Rightarrow> bool" where
  "counts_refs D path h refs inits \<longleftrightarrow>
     (\<forall>w. \<exists>w'. dynlib_load_prx D path 0 0 0 w = (0, h, w') \<and> refs w' = Suc (refs w) \<and> inits w' = inits w) \<and>
     (\<forall>mi w. st_size mi = 424 \<longrightarrow> (\<exists>mi' w'. dynlib_get_info_ex D h 0 mi w = (0, mi', w') \<and> (ref_count mi' < 2 \<longleftrightarrow> refs w < 2)
         \<and> refs w' = refs w \<and> inits w' = inits w)) \<and>
     (\<forall>a n d v w. refs (run_init D a n d v w) = refs w \<and> inits (run_init D a n d v w) = Suc (inits w))"

lemma dlopen_counts:
  assumes "counts_refs D path h refs inits"
  shows "\<exists>w'. dlopen D mi0 path mode w = (scast h, w') \<and> refs w' = Suc (refs w)
     \<and> inits w' = inits w + (if refs w = 0 then 1 else 0)"
proof -
  obtain w1 where 1: "dynlib_load_prx D path 0 0 0 w = (0, h, w1)" "refs w1 = Suc (refs w)" "inits w1 = inits w"
    using assms unfolding counts_refs_def by blast
  let ?mi = "mi0\<lparr>st_size := of_nat (struct_size module_info_ex_members)\<rparr>"
  have "st_size ?mi = 424" by (simp add: module_info_ex_size)
  then obtain mi' w2 where 2: "dynlib_get_info_ex D h 0 ?mi w1 = (0, mi', w2)" "ref_count mi' < 2 \<longleftrightarrow> refs w1 < 2"
      "refs w2 = refs w1" "inits w2 = inits w1"
    using assms unfolding counts_refs_def by blast
  have "ref_count mi' < 2 \<longleftrightarrow> refs w = 0" using 2(2) 1(2) by simp
  then show ?thesis
    using 1 2 assms unfolding counts_refs_def by (simp add: dlopen_def dlopen_ex_def Let_def)
qed

lemma open_times_counts:
  assumes "counts_refs D path h refs inits"
  shows "inits (open_times D mi0 path n w) = inits w + (if refs w = 0 \<and> 0 < n then 1 else 0)"
proof (induction n arbitrary: w)
  case (Suc n)
  obtain w' where "dlopen D mi0 path 0 w = (scast h, w')" "refs w' = Suc (refs w)" "inits w' = inits w + (if refs w = 0 then 1 else 0)"
    using dlopen_counts [OF assms, of mi0 0 w] by blast
  then show ?case using Suc.IH [of w'] by simp
qed simp

section \<open>Properties\<close>

text \<open>A loader with one module, handle -3: the world is its reference count and the number of
  times its initialiser ran.\<close>

definition blank_info :: module_info_ex where
  "blank_info = \<lparr>st_size = 0, mi_name = replicate 256 0, mi_id = 0, tls_index = 0, tls_init_addr = 0, tls_init_size = 0,
     tls_size = 0, tls_offset = 0, tls_align = 0, init_proc_addr = 0x1000, fini_proc_addr = 0, reserved1 = 0, reserved2 = 0,
     eh_frame_hdr_addr = 0, eh_frame_addr = 0, eh_frame_hdr_size = 0, eh_frame_size = 0, segments = [], segment_count = 0,
     ref_count = 0\<rparr>"

definition one_module :: "(nat \<times> nat) loader" where
  "one_module = \<lparr>dynlib_load_prx = (\<lambda>p a h f w. if p = lit ''a'' then (0, -3, Suc (fst w), snd w) else (0x80020002, h, w)),
     dynlib_get_info_ex = (\<lambda>h f mi w. if st_size mi = 424 then (0, mi\<lparr>ref_count := word_of_nat (min (fst w) 1000)\<rparr>, w) else (22, mi, w)),
     dynlib_dlsym = (\<lambda>h n a w. if h = -3 \<and> n = lit ''f'' then (0, 0x5000, w) else (0x80020003, a, w)),
     run_init = (\<lambda>a n d v w. (fst w, Suc (snd w)))\<rparr>"

lemma one_module_counts: "counts_refs one_module (lit ''a'') (-3) fst snd"
proof -
  have "(word_of_nat (min k 1000) :: u32) < 2 \<longleftrightarrow> k < 2" for k
    by (simp add: word_less_nat_alt unsigned_of_nat take_bit_nat_eq_self min_def)
  then show ?thesis by (simp add: counts_refs_def one_module_def)
qed

text \<open>The initialiser of a module runs once, at its first open, however often the module is
  opened.\<close>

lemma dlopen_inits_once:
  assumes "counts_refs D path h refs inits" and "refs w = 0" and "0 < n"
  shows "inits (open_times D mi0 path n w) = Suc (inits w)"
  using open_times_counts [OF assms(1)] assms(2,3) by simp

lemma dlopen_inits_once_witness: "snd (open_times one_module blank_info (lit ''a'') 3 (0, 0)) = 1"
  using dlopen_inits_once [OF one_module_counts, of "(0, 0)" 3 blank_info] by simp

text \<open>A handle survives the trip through a pointer: whatever handle the loader gives, negative
  ones included, \<open>dlsym\<close> on the result of \<open>dlopen\<close> asks the loader for that same handle.\<close>

lemma dlsym_uses_loader_handle:
  assumes "counts_refs D path h refs inits"
  shows "\<exists>w'. dlopen D mi0 path mode w = (scast h, w') \<and>
    dlsym D (scast h) nm w' = (case dynlib_dlsym D h nm 0 w' of (_, addr, w'') \<Rightarrow> (addr, w''))"
  using dlopen_counts [OF assms, of mi0 mode w] by (auto simp: dlsym_def handle_roundtrip)

lemma dlsym_uses_loader_handle_witness:
  "\<exists>w'. dlopen one_module blank_info (lit ''a'') 0 (0, 0) = (-3, w')
     \<and> fst (dlsym one_module (-3) (lit ''f'') w') = 0x5000"
  using dlsym_uses_loader_handle [OF one_module_counts, of blank_info 0 "(0, 0)" "lit ''f''"]
  by (auto simp: one_module_def)

text \<open>The error paths: \<open>dlopen\<close> returns a null pointer when the module cannot be loaded or its
  information cannot be read, and then runs no initialiser; \<open>dlsym\<close> returns a null pointer when
  the loader leaves the address alone.\<close>

lemma dlopen_dlsym_errors:
  "(\<forall>r h w'. dynlib_load_prx D path 0 0 0 w = (r, h, w') \<and> r \<noteq> 0 \<longrightarrow> dlopen D mi0 path mode w = (0, w'))
   \<and> (\<forall>h w1 r mi w2. dynlib_load_prx D path 0 0 0 w = (0, h, w1)
        \<and> dynlib_get_info_ex D h 0 (mi0\<lparr>st_size := 424\<rparr>) w1 = (r, mi, w2) \<and> r \<noteq> 0 \<longrightarrow> dlopen D mi0 path mode w = (0, w2))
   \<and> (\<forall>r w'. dynlib_dlsym D (ucast handle) nm 0 w = (r, 0, w') \<longrightarrow> dlsym D handle nm w = (0, w'))"
  by (auto simp: dlopen_def dlopen_ex_def dlsym_def module_info_ex_size)

lemma dlopen_dlsym_errors_witness:
  "dlopen one_module blank_info (lit ''b'') 0 (0, 0) = (0, 0, 0) \<and> dlsym one_module 7 (lit ''g'') (1, 1) = (0, 1, 1)"
  using dlopen_dlsym_errors [of one_module "lit ''b''" "(0, 0)" blank_info 0 7 "lit ''g''"]
    dlopen_dlsym_errors [of one_module "lit ''b''" "(1, 1)" blank_info 0 7 "lit ''g''"]
  by (simp add: one_module_def lit_def bytes_of_def)

end
