(* ===== verification/Sandbox_Utils.thy ===== *)
theory Sandbox_Utils
  imports C_Strings Jailbreak
begin

text \<open>
  Payload/ps4-libjbc/utils.c and utils.h: running a function with root credentials, and mounting
  a system directory into the sandbox. The file system is a parameter (\<open>fs_ops\<close>): each system
  call sees the credentials the kernel holds for the process when it is made, and the world
  \<open>'w\<close> it changes. The raw system calls return 0 or an error number.
\<close>

section \<open>Running as root\<close>

definition CWD_KEEP :: int where "CWD_KEEP = 0"
definition CWD_ROOT :: int where "CWD_ROOT = 1"
definition CWD_RESET :: int where "CWD_RESET = 2"

text \<open>The \<open>switch\<close> on \<open>cwd_mode\<close>: an assignment to \<open>root_cred.cdir\<close>; \<open>CWD_KEEP\<close> is the
  default branch.\<close>

definition set_cwd :: "u64 \<Rightarrow> u64 \<Rightarrow> int \<Rightarrow> krw \<Rightarrow> krw" where
  "set_cwd cred root_cred cwd_mode s =
     put64 (root_cred + 32)
       (if cwd_mode = CWD_ROOT then load64 (mem s) (cred + 40)
        else if cwd_mode = CWD_RESET then load64 (mem s) (root_cred + 40)
        else load64 (mem s) (cred + 32)) s"

text \<open>\<open>cred\<close> and \<open>root_cred\<close> are the addresses of the two locals. The results of the credential
  functions are not looked at.\<close>

definition jbc_run_as_root ::
  "jb_layout \<Rightarrow> u64 \<Rightarrow> u64 \<Rightarrow> ('w \<Rightarrow> krw \<Rightarrow> ('w \<times> krw) option) \<Rightarrow> 'w \<Rightarrow> int \<Rightarrow> krw \<Rightarrow> ('w \<times> krw) option" where
  "jbc_run_as_root L cred root_cred fn w cwd_mode s = do {
     let s = snd (jbc_get_cred cred s);
     let s = s\<lparr>mem := store (mem s) root_cred (load (mem s) cred 80)\<rparr>;
     (_, s) \<leftarrow> jbc_jailbreak_cred L root_cred s;
     let s = set_cwd cred root_cred cwd_mode s;
     let s = snd (jbc_set_cred root_cred s);
     (w, s) \<leftarrow> fn w s;
     Some (w, snd (jbc_set_cred cred s))
   }"

section \<open>Mounting in the sandbox\<close>

record 'w fs_ops =
  sys_getcwd :: "jbc_cred \<Rightarrow> nat \<Rightarrow> 'w \<Rightarrow> int \<times> u8 list \<times> 'w"
  sys_mkdir :: "jbc_cred \<Rightarrow> u8 list \<Rightarrow> int \<Rightarrow> 'w \<Rightarrow> int \<times> 'w"
  sys_rmdir :: "jbc_cred \<Rightarrow> u8 list \<Rightarrow> 'w \<Rightarrow> int \<times> 'w"
  sys_nmount :: "jbc_cred \<Rightarrow> u8 list list \<Rightarrow> int \<Rightarrow> 'w \<Rightarrow> int \<times> 'w"
  sys_unmount :: "jbc_cred \<Rightarrow> u8 list \<Rightarrow> int \<Rightarrow> 'w \<Rightarrow> int \<times> 'w"

definition EINVAL :: int where "EINVAL = 22"

definition MAX_PATH :: nat where "MAX_PATH = 1024"

record mount_in_sandbox_param =
  p_path :: "u8 list option"
  p_name :: "u8 list"
  p_ans :: int

text \<open>The loop over the name. \<open>Inl ()\<close> is \<open>goto invalid\<close>; \<open>n\<close> is the number of rounds left,
  \<open>l2 + 1 - i\<close>.\<close>

fun name_loop :: "u8 list \<Rightarrow> nat \<Rightarrow> nat \<Rightarrow> nat \<Rightarrow> bool \<Rightarrow> u8 list \<Rightarrow> (unit + bool \<times> u8 list) option" where
  "name_loop nm l1 i 0 dots path = Some (Inr (dots, path))"
| "name_loop nm l1 i (Suc n) dots path = do {
     c \<leftarrow> buf_get nm i;
     if c = 0x2f then Some (Inl ())
     else do {
       path \<leftarrow> buf_put path (l1 + 1 + i) c;
       name_loop nm l1 (Suc i) n (if c \<noteq> 0x2e then False else dots) path
     }
   }"

text \<open>The two operations behind the name checks; the mode 0777 is 511, and the vectors given to
  \<open>nmount\<close> are the bytes their lengths cover.\<close>

definition do_mount ::
  "'w fs_ops \<Rightarrow> jbc_cred \<Rightarrow> u8 list \<Rightarrow> nat \<Rightarrow> nat \<Rightarrow> u8 list \<Rightarrow> 'w \<Rightarrow> (int \<times> 'w) option" where
  "do_mount F c path l1 l2 target w =
     (case sys_mkdir F c (c_str path) 511 w of (error, w) \<Rightarrow>
      if error \<noteq> 0 then Some (error, w)
      else do {
        l3 \<leftarrow> strlen_loop target 0;
        (case sys_nmount F c [lit ''fstype'', lit ''nullfs'', lit ''fspath'', take (l1 + l2 + 2) path,
              lit ''target'', take (l3 + 1) target] 0 w of (error, w) \<Rightarrow>
         if error \<noteq> 0 then (case sys_rmdir F c (c_str path) w of (_, w) \<Rightarrow> Some (error, w))
         else Some (0, w))
      })"

definition do_unmount :: "'w fs_ops \<Rightarrow> jbc_cred \<Rightarrow> u8 list \<Rightarrow> 'w \<Rightarrow> (int \<times> 'w) option" where
  "do_unmount F c path w =
     (case sys_unmount F c (c_str path) 0 w of (error, w) \<Rightarrow>
      if error \<noteq> 0 then Some (error, w) else Some (sys_rmdir F c (c_str path) w))"

text \<open>\<open>path0\<close> is what the 1025 uninitialised bytes of the local happen to hold.\<close>

definition do_mount_in_sandbox ::
  "'w fs_ops \<Rightarrow> jbc_cred \<Rightarrow> u8 list \<Rightarrow> mount_in_sandbox_param \<times> 'w \<Rightarrow> (mount_in_sandbox_param \<times> 'w) option" where
  "do_mount_in_sandbox F c path0 = (\<lambda>(p, w). do {
     path \<leftarrow> buf_put path0 MAX_PATH 0;
     (case sys_getcwd F c MAX_PATH w of (error, bs, w) \<Rightarrow> do {
       path \<leftarrow> buf_fill path bs;
       if error \<noteq> 0 then Some (p\<lparr>p_ans := error\<rparr>, w) else do {
       l1 \<leftarrow> strlen_loop path 0;
       l2 \<leftarrow> strlen_loop (p_name p) 0;
       if l1 + l2 + 1 \<ge> MAX_PATH then Some (p\<lparr>p_ans := EINVAL\<rparr>, w) else do {
       path \<leftarrow> buf_put path l1 0x2f;
       r \<leftarrow> name_loop (p_name p) l1 0 (l2 + 1) True path;
       (case r of
          Inl _ \<Rightarrow> Some (p\<lparr>p_ans := EINVAL\<rparr>, w)
        | Inr (dots, path) \<Rightarrow>
            if dots \<and> l2 \<le> 2 then Some (p\<lparr>p_ans := EINVAL\<rparr>, w)
            else do {
              (error, w) \<leftarrow> (case p_path p of
                  Some target \<Rightarrow> do_mount F c path l1 l2 target w
                | None \<Rightarrow> do_unmount F c path w);
              Some (if error \<noteq> 0 then p\<lparr>p_ans := error\<rparr> else p, w)
            })
     }}})
   })"

text \<open>The callback given to \<open>jbc_run_as_root\<close>: the system calls it makes run under the credentials
  of that moment.\<close>

definition mount_call :: "'w fs_ops \<Rightarrow> u8 list \<Rightarrow> mount_in_sandbox_param \<times> 'w \<Rightarrow> krw \<Rightarrow> ((mount_in_sandbox_param \<times> 'w) \<times> krw) option" where
  "mount_call F path0 x s = map_option (\<lambda>x. (x, s)) (do_mount_in_sandbox F (proc_cred s) path0 x)"

definition jbc_mount_in_sandbox ::
  "'w fs_ops \<Rightarrow> jb_layout \<Rightarrow> u64 \<Rightarrow> u64 \<Rightarrow> u8 list \<Rightarrow> u8 list option \<Rightarrow> u8 list \<Rightarrow> 'w \<Rightarrow> krw \<Rightarrow> (int \<times> 'w \<times> krw) option" where
  "jbc_mount_in_sandbox F L cred root_cred path0 system_path mnt_name w s = do {
     ((op, w), s) \<leftarrow> jbc_run_as_root L cred root_cred
        (mount_call F path0)
        (\<lparr>p_path = system_path, p_name = mnt_name, p_ans = 0\<rparr>, w) CWD_ROOT s;
     Some (p_ans op, w, s)
   }"

definition jbc_unmount_in_sandbox ::
  "'w fs_ops \<Rightarrow> jb_layout \<Rightarrow> u64 \<Rightarrow> u64 \<Rightarrow> u8 list \<Rightarrow> u8 list \<Rightarrow> 'w \<Rightarrow> krw \<Rightarrow> (int \<times> 'w \<times> krw) option" where
  "jbc_unmount_in_sandbox F L cred root_cred path0 mnt_name w s =
     jbc_mount_in_sandbox F L cred root_cred path0 None mnt_name w s"

section \<open>The name loop\<close>

lemma name_loop_copies:
  assumes "0x2f \<notin> set s" and "k \<le> length s" and "l1 + 1 + length s < length path"
  shows "name_loop (s @ 0 # r) l1 k (length s + 1 - k) dots path
     = Some (Inr (False, take (l1 + 1 + k) path @ drop k s @ 0 # drop (l1 + 2 + length s) path))"
  using assms
proof (induction "length s - k" arbitrary: k dots path)
  case 0
  then have "k = length s" by simp
  then show ?case using 0
    by (simp add: buf_get_def buf_put_def nth_append list_update_append upd_conv_take_nth_drop)
next
  case (Suc n)
  then have k: "k < length s" by simp
  let ?p = "path[l1 + 1 + k := s ! k]" and ?d = "if s ! k \<noteq> 0x2e then False else dots"
  have "s ! k \<noteq> 0x2f" using k Suc.prems(1) by (metis nth_mem)
  then have "name_loop (s @ 0 # r) l1 k (length s + 1 - k) dots path = name_loop (s @ 0 # r) l1 (Suc k) (length s + 1 - Suc k) ?d ?p"
    using k Suc.prems by (simp add: Suc_diff_le buf_get_def buf_put_def nth_append)
  also have "\<dots> = Some (Inr (False, take (l1 + 1 + Suc k) ?p @ drop (Suc k) s @ 0 # drop (l1 + 2 + length s) ?p))"
    using Suc k by (intro Suc.hyps(1)) auto
  finally show ?case
    using k Suc.prems by (simp add: take_Suc_conv_app_nth Cons_nth_drop_Suc drop_update_cancel)
qed

lemma name_loop_slash:
  assumes "0x2f \<in> set (drop k s)" and "k \<le> length s" and "l1 + 1 + length s < length path"
  shows "name_loop (s @ 0 # r) l1 k (length s + 1 - k) dots path = Some (Inl ())"
  using assms
proof (induction "length s - k" arbitrary: k dots path)
  case (Suc n)
  then have k: "k < length s" by simp
  have d: "drop k s = s ! k # drop (Suc k) s" using k by (simp add: Cons_nth_drop_Suc)
  show ?case
  proof (cases "s ! k = 0x2f")
    case True
    then show ?thesis using k by (simp add: Suc_diff_le buf_get_def nth_append)
  next
    case False
    let ?p = "path[l1 + 1 + k := s ! k]" and ?d = "if s ! k \<noteq> 0x2e then False else dots"
    have "name_loop (s @ 0 # r) l1 (Suc k) (length s + 1 - Suc k) ?d ?p = Some (Inl ())"
      using Suc k d False by (intro Suc.hyps(1)) auto
    then show ?thesis using False k Suc.prems by (simp add: Suc_diff_le buf_get_def buf_put_def nth_append)
  qed
qed simp

section \<open>What the operation promises\<close>

text \<open>Mounting and unmounting \<open>nm\<close> in the directory \<open>cwd\<close>, on strings instead of buffers.\<close>

definition mount_spec :: "'w fs_ops \<Rightarrow> jbc_cred \<Rightarrow> u8 list \<Rightarrow> u8 list \<Rightarrow> u8 list option \<Rightarrow> 'w \<Rightarrow> int \<times> 'w" where
  "mount_spec F c cwd nm target w =
     (let path = cwd @ 0x2f # nm in
      if MAX_PATH \<le> length path \<or> 0x2f \<in> set nm then (EINVAL, w)
      else (case target of
        Some t \<Rightarrow>
          (case sys_mkdir F c path 511 w of (e, w) \<Rightarrow>
           if e \<noteq> 0 then (e, w)
           else (case sys_nmount F c [lit ''fstype'', lit ''nullfs'', lit ''fspath'', path @ [0], lit ''target'', t @ [0]] 0 w of
             (e, w) \<Rightarrow> if e \<noteq> 0 then (e, snd (sys_rmdir F c path w)) else (0, w)))
      | None \<Rightarrow>
          (case sys_unmount F c path 0 w of (e, w) \<Rightarrow> if e \<noteq> 0 then (e, w) else sys_rmdir F c path w)))"

lemma strlen_loop_terminated: "terminated b \<Longrightarrow> strlen_loop b 0 = Some (length (c_str b))"
  using terminated_split [of b] strlen_loop_string [of "c_str b" 0] by (metis c_str_no_zero le0)

lemma take_c_str: "terminated b \<Longrightarrow> take (length (c_str b) + 1) b = c_str b @ [0]"
proof -
  assume "terminated b"
  then obtain r where "b = c_str b @ 0 # r" using terminated_split by blast
  then have "take (length (c_str b) + 1) b = take (length (c_str b) + 1) (c_str b @ 0 # r)" by simp
  then show ?thesis by simp
qed

lemma do_mount_spec:
  assumes "path = cwd @ 0x2f # nm @ 0 # r" and "0 \<notin> set cwd" and "0 \<notin> set nm" and "terminated target"
    and "length cwd + length nm + 1 < MAX_PATH" and "0x2f \<notin> set nm"
  shows "do_mount F c path (length cwd) (length nm) target w = Some (mount_spec F c cwd nm (Some (c_str target)) w)"
proof -
  have "c_str path = cwd @ 0x2f # nm" using c_str_eq [of "cwd @ 0x2f # nm" r] assms(1-3) by simp
  moreover have "take (length cwd + length nm + 2) path = (cwd @ 0x2f # nm) @ [0]" by (simp add: assms(1))
  ultimately show ?thesis
    using assms(5,6) strlen_loop_terminated [OF assms(4)] take_c_str [OF assms(4)]
    by (simp add: do_mount_def mount_spec_def Let_def split: prod.split)
qed

lemma do_unmount_spec:
  assumes "path = cwd @ 0x2f # nm @ 0 # r" and "0 \<notin> set cwd" and "0 \<notin> set nm"
    and "length cwd + length nm + 1 < MAX_PATH" and "0x2f \<notin> set nm"
  shows "do_unmount F c path w = Some (mount_spec F c cwd nm None w)"
proof -
  have "c_str path = cwd @ 0x2f # nm" using c_str_eq [of "cwd @ 0x2f # nm" r] assms(1-3) by simp
  then show ?thesis using assms(4,5) by (simp add: do_unmount_def mount_spec_def Let_def split: prod.split)
qed

declare name_loop.simps(2) [simp del]

lemma do_mount_in_sandbox_spec:
  assumes cwd: "sys_getcwd F c MAX_PATH w = (0, bs, w')" "length bs \<le> MAX_PATH" "terminated bs"
    and nm: "terminated (p_name p)" and tg: "\<And>t. p_path p = Some t \<Longrightarrow> terminated t" and l: "length path0 = MAX_PATH + 1"
  shows "do_mount_in_sandbox F c path0 (p, w) =
    (case mount_spec F c (c_str bs) (c_str (p_name p)) (map_option c_str (p_path p)) w' of (e, w'') \<Rightarrow>
       Some (if e \<noteq> 0 then p\<lparr>p_ans := e\<rparr> else p, w''))"
proof -
  define path where "path = bs @ drop (length bs) (path0[MAX_PATH := 0])"
  let ?d = "c_str bs" and ?n = "c_str (p_name p)"
  have put: "buf_put path0 MAX_PATH 0 = Some (path0[MAX_PATH := 0])" using l by (simp add: buf_put_def)
  have fill: "buf_fill (path0[MAX_PATH := 0]) bs = Some path" using cwd(2) l by (simp add: buf_fill_def path_def)
  have lp: "length path = MAX_PATH + 1" using cwd(2) l by (simp add: path_def)
  have cp: "c_str path = ?d" "terminated path" using cwd(3) by (simp_all add: path_def c_str_append_zero)
  then obtain r where pr: "path = ?d @ 0 # r" using terminated_split by metis
  have l1: "strlen_loop path 0 = Some (length ?d)" using strlen_loop_terminated [OF cp(2)] cp(1) by simp
  have l2: "strlen_loop (p_name p) 0 = Some (length ?n)" by (rule strlen_loop_terminated [OF nm])
  obtain q where nq: "p_name p = ?n @ 0 # q" using terminated_split [OF nm] by blast
  show ?thesis
  proof (cases "length ?d + length ?n + 1 \<ge> MAX_PATH")
    case True
    then show ?thesis
      using put fill l1 l2 cwd(1) by (simp add: do_mount_in_sandbox_def mount_spec_def Let_def EINVAL_def)
  next
    case False
    let ?p = "path[length ?d := 0x2f]"
    have pp: "buf_put path (length ?d) 0x2f = Some ?p" using pr by (subst (1 2) pr) (simp add: buf_put_def)
    have p1: "?p = ?d @ 0x2f # r" by (subst (1) pr) simp
    note G = put fill l1 l2 cwd(1) pp
    show ?thesis
    proof (cases "0x2f \<in> set ?n")
      case True
      then have "name_loop (p_name p) (length ?d) 0 (length ?n + 1) True ?p = Some (Inl ())"
        using False lp name_loop_slash [of 0 ?n "length ?d" ?p q True] by (subst nq) simp
      then show ?thesis
        using G False True by (simp add: do_mount_in_sandbox_def mount_spec_def Let_def EINVAL_def)
    next
      case ns: False
      have "name_loop (p_name p) (length ?d) 0 (length ?n + 1) True ?p
          = Some (Inr (False, take (length ?d + 1) ?p @ ?n @ 0 # drop (length ?d + 2 + length ?n) ?p))"
        using False lp name_loop_copies [OF ns, of 0 "length ?d" ?p q True] by (subst nq) simp
      also have "take (length ?d + 1) ?p = ?d @ [0x2f]" by (simp add: p1)
      finally have nl: "name_loop (p_name p) (length ?d) 0 (length ?n + 1) True ?p
          = Some (Inr (False, ?d @ 0x2f # ?n @ 0 # drop (length ?d + 2 + length ?n) ?p))" by simp
      have ok: "length ?d + length ?n + 1 < MAX_PATH" using False by simp
      define q where "q = ?d @ 0x2f # ?n @ 0 # drop (length ?d + 2 + length ?n) ?p"
      have op: "(case p_path p of Some target \<Rightarrow> do_mount F c q (length ?d) (length ?n) target w' | None \<Rightarrow> do_unmount F c q w')
          = Some (mount_spec F c ?d ?n (map_option c_str (p_path p)) w')"
      proof (cases "p_path p")
        case None
        then show ?thesis using do_unmount_spec [OF q_def _ _ ok ns] by simp
      next
        case (Some t)
        then show ?thesis using do_mount_spec [OF q_def _ _ tg [OF Some] ok ns] by simp
      qed
      have "do_mount_in_sandbox F c path0 (p, w) = do {
          (error, w) \<leftarrow> (case p_path p of Some target \<Rightarrow> do_mount F c q (length ?d) (length ?n) target w' | None \<Rightarrow> do_unmount F c q w');
          Some (if error \<noteq> 0 then p\<lparr>p_ans := error\<rparr> else p, w) }"
        using G nl [folded q_def] ok by (simp add: do_mount_in_sandbox_def)
      then show ?thesis unfolding op by simp
    qed
  qed
qed

section \<open>Running as root\<close>

text \<open>The two structures on the stack of \<open>jbc_run_as_root\<close>: disjoint from each other and from
  everything the credential functions write on their own.\<close>

definition cred_frame_ok :: "jb_layout \<Rightarrow> krw \<Rightarrow> u64 \<Rightarrow> u64 \<Rightarrow> bool" where
  "cred_frame_ok L s cred rc \<longleftrightarrow> user_range cred 80 \<and> user_range rc 80 \<and> apart rc 80 cred 80
     \<and> apart (addr_ans (cfg s)) 8 cred 80 \<and> apart (addr_ans (cfg s)) 8 rc 80
     \<and> apart (addr_pid L) 4 cred 80 \<and> apart (addr_prison0 L) 8 cred 80 \<and> apart (addr_rootvnode L) 8 cred 80
     \<and> apart (addr_prison0 L) 8 rc 80 \<and> apart (addr_rootvnode L) 8 rc 80"

definition cwd_of :: "int \<Rightarrow> jbc_cred \<Rightarrow> u64 \<Rightarrow> u64" where
  "cwd_of mode c vn = (if mode = CWD_ROOT then rdir c else if mode = CWD_RESET then vn else cdir c)"

lemma cred_at_cdir:
  "cred_at (store m (a + 32) (le_bytes 8 v)) a = cred_at m a\<lparr>cdir := v\<rparr>"
  by (simp add: cred_at_def mem_simps)

lemma kernel_same_user: "user_range a n \<Longrightarrow> (\<And>x. \<not> inside a n x \<Longrightarrow> m' x = m x) \<Longrightarrow> kernel_same m m'"
  by (auto simp: kernel_same_def user_range_def inside_unat)

lemma footprint_user:
  assumes "proc_ok s" and "user_range a n" and "inside a n x"
  shows "\<not> cred_footprint (cur_ucred s) (cur_fd s) x"
  using assms(1) user_heap_apart(2) [OF assms(2)] by (intro cred_footprint_apart [OF _ _ assms(3)]) (simp_all add: proc_ok_def)

lemma enter_root:
  assumes r: "krw_ready s" and p: "proc_ok s" and j: "jb_ready L s pr vn" and f: "cred_frame_ok L s cred rc"
  shows "\<exists>s1 s2 s3. jbc_get_cred cred s = (0, s1)
     \<and> jbc_jailbreak_cred L rc (s1\<lparr>mem := store (mem s1) rc (load (mem s1) cred 80)\<rparr>) = Some (0, s2)
     \<and> jbc_set_cred rc (set_cwd cred rc mode s2) = (0, s3)
     \<and> krw_ready s3 \<and> proc_ok s3 \<and> proc_cred s3 = (escalated_cred pr vn)\<lparr>cdir := cwd_of mode (proc_cred s) vn\<rparr>
     \<and> cred_at (mem s3) cred = proc_cred s \<and> cur_ucred s3 = cur_ucred s \<and> cur_fd s3 = cur_fd s
     \<and> addr_ans (cfg s3) = addr_ans (cfg s)"
proof -
  note F = f [unfolded cred_frame_ok_def]
  obtain s1 where 1: "jbc_get_cred cred s = (0, s1)" "krw_ready s1" "cred_at (mem s1) cred = proc_cred s"
     "kernel_same (mem s) (mem s1)" "gs_td (cfg s1) = gs_td (cfg s)" "addr_ans (cfg s1) = addr_ans (cfg s)"
     "\<forall>x. \<not> inside cred 80 x \<longrightarrow> \<not> inside (addr_ans (cfg s)) 8 x \<longrightarrow> mem s1 x = mem s x"
    using get_cred_lemma [OF r p] F by blast
  define t where "t = s1\<lparr>mem := store (mem s1) rc (load (mem s1) cred 80)\<rparr>"
  have t: "krw_ready t" "cfg t = cfg s1" "mem t = store (mem s1) rc (load (mem s1) cred 80)"
    using 1(2) by (simp_all add: t_def krw_ready_def)
  have kt: "kernel_same (mem s) (mem t)"
    unfolding t(3) using 1(4) by (rule kernel_same_trans) (rule kernel_same_store, use F in simp)
  have "load (mem t) cred 80 = load (mem s1) cred 80"
    unfolding t(3) using F by (intro load_store_apart) simp_all
  then have ct: "cred_at (mem t) cred = proc_cred s" using 1(3) cred_at_cong by metis
  have st: "load (mem t) b 8 = load (mem s) b 8"
    if "apart b 8 cred 80" "apart b 8 rc 80" "apart (addr_ans (cfg s)) 8 b 8" for b
  proof -
    have "load (mem t) b 8 = load (mem s1) b 8"
      unfolding t(3) using that by (intro load_store_apart) (simp_all add: apart_sym)
    also have "\<dots> = load (mem s) b 8" using 1(7) that by (intro load_cong) (auto simp: apart_def)
    finally show ?thesis .
  qed
  have "jb_ready L t pr vn"
    using j F 1(5,6) t(2) by (intro jb_ready_stable [OF j kt] st) (simp_all add: jb_ready_def statics_ok_def)
  from jailbreak_cred_lemma [OF t(1) this] F obtain s2 where
    2: "jbc_jailbreak_cred L rc t = Some (0, s2)" "krw_ready s2" "cfg s2 = cfg t" "cred_at (mem s2) rc = escalated_cred pr vn"
     "kernel_same (mem t) (mem s2)" "\<forall>x. \<not> inside rc 80 x \<longrightarrow> \<not> jb_scratch L t x \<longrightarrow> mem s2 x = mem t x"
    by blast
  have "load (mem s2) cred 80 = load (mem t) cred 80"
    using F 2(6) t(2) 1(6) by (intro load_cong) (auto simp: apart_def jb_scratch_def)
  then have c2: "cred_at (mem s2) cred = proc_cred s" using ct cred_at_cong by metis
  define u where "u = set_cwd cred rc mode s2"
  have v: "cwd_of mode (proc_cred s) vn =
      (if mode = CWD_ROOT then load64 (mem s2) (cred + 40) else if mode = CWD_RESET then load64 (mem s2) (rc + 40)
       else load64 (mem s2) (cred + 32))"
    unfolding cwd_of_def c2 [symmetric] using arg_cong [OF 2(4), of rdir]
    by (simp add: cred_at_def escalated_cred_def)
  have u: "krw_ready u" "cfg u = cfg s2" "mem u = store (mem s2) (rc + 32) (le_bytes 8 (cwd_of mode (proc_cred s) vn))"
    using 2(2) unfolding v by (simp_all add: u_def set_cwd_def) (simp add: put64_def)
  have cu: "cred_at (mem u) rc = (escalated_cred pr vn)\<lparr>cdir := cwd_of mode (proc_cred s) vn\<rparr>"
    unfolding u(3) by (simp add: cred_at_cdir 2(4))
  have "load (mem u) cred 80 = load (mem s2) cred 80"
    unfolding u(3) using apart_sub [of rc 80 cred 80 32 8 0 80] F by (intro load_store_apart) simp_all
  then have c3: "cred_at (mem u) cred = proc_cred s" using c2 cred_at_cong by metis
  have ku: "kernel_same (mem s) (mem u)"
    using kernel_same_trans [OF kernel_same_trans [OF kt 2(5)]] range_offset(2) [of rc 80 32 8] F
    by (simp add: u(3) kernel_same_store)
  have pu: "cur_ucred u = cur_ucred s" "cur_fd u = cur_fd s" "proc_ok u"
    using proc_stable [OF p r, of u] ku u(2) 2(3) t(2) 1(5) by (auto simp: kernel_same_def)
  have au: "apart (addr_ans (cfg u)) 8 rc 80" using F u(2) 2(3) t(2) 1(6) by simp
  obtain s3 where 3: "jbc_set_cred rc u = (0, s3)" "krw_ready s3" "proc_ok s3" "proc_cred s3 = cred_at (mem u) rc"
     "cur_ucred s3 = cur_ucred u" "cur_fd s3 = cur_fd u" "addr_ans (cfg s3) = addr_ans (cfg u)"
     "\<forall>x. \<not> cred_footprint (cur_ucred u) (cur_fd u) x \<longrightarrow> \<not> inside (addr_ans (cfg u)) 8 x \<longrightarrow> mem s3 x = mem u x"
    using set_cred_stable [OF u(1) pu(3) _ au] F by blast
  have "load (mem s3) cred 80 = load (mem u) cred 80"
    using 3(8) footprint_user [OF pu(3), of cred 80] F u(2) 2(3) t(2) 1(6) by (intro load_cong) (auto simp: apart_def)
  then have "cred_at (mem s3) cred = proc_cred s" using c3 cred_at_cong by metis
  then show ?thesis
    using 1(1) 2(1) 2(3) 3 cu pu u(2) t(2) 1(6) unfolding t_def u_def
    by (intro exI [of _ s1] exI [of _ s2] exI [of _ s3] conjI) simp_all
qed

text \<open>What \<open>jbc_run_as_root\<close> asks of the function it runs: it returns, leaves the process
  where it is and does not touch the saved credentials.\<close>

locale privileged_call =
  fixes fn :: "'w \<Rightarrow> krw \<Rightarrow> ('w \<times> krw) option"
    and valid :: "'w \<Rightarrow> bool"
  assumes fn_law: "valid w \<Longrightarrow> krw_ready s \<Longrightarrow> proc_ok s \<Longrightarrow> user_range cred 80 \<Longrightarrow>
    \<exists>w' s'. fn w s = Some (w', s') \<and> krw_ready s' \<and> proc_ok s' \<and> load (mem s') cred 80 = load (mem s) cred 80
      \<and> addr_ans (cfg s') = addr_ans (cfg s)"
begin

lemma run_as_root:
  assumes "valid w" and r: "krw_ready s" "proc_ok s" "jb_ready L s pr vn" and f: "cred_frame_ok L s cred rc"
  shows "\<exists>s1 s2 w' s3. jbc_run_as_root L cred rc fn w mode s = Some (w', s3)
     \<and> krw_ready s1 \<and> proc_ok s1 \<and> proc_cred s1 = (escalated_cred pr vn)\<lparr>cdir := cwd_of mode (proc_cred s) vn\<rparr>
     \<and> fn w s1 = Some (w', s2) \<and> krw_ready s3 \<and> proc_ok s3 \<and> proc_cred s3 = proc_cred s"
proof -
  obtain a b s1 where e: "jbc_get_cred cred s = (0, a)"
     "jbc_jailbreak_cred L rc (a\<lparr>mem := store (mem a) rc (load (mem a) cred 80)\<rparr>) = Some (0, b)"
     "jbc_set_cred rc (set_cwd cred rc mode b) = (0, s1)" "krw_ready s1" "proc_ok s1"
     "proc_cred s1 = (escalated_cred pr vn)\<lparr>cdir := cwd_of mode (proc_cred s) vn\<rparr>"
     "cred_at (mem s1) cred = proc_cred s" "addr_ans (cfg s1) = addr_ans (cfg s)"
    using enter_root [OF r f] by blast
  have u: "user_range cred 80" "apart (addr_ans (cfg s)) 8 cred 80" using f by (simp_all add: cred_frame_ok_def)
  obtain w' s2 where g: "fn w s1 = Some (w', s2)" "krw_ready s2" "proc_ok s2" "load (mem s2) cred 80 = load (mem s1) cred 80"
     "addr_ans (cfg s2) = addr_ans (cfg s1)"
    using fn_law [OF assms(1) e(4,5) u(1)] by blast
  obtain s3 where x: "jbc_set_cred cred s2 = (0, s3)" "krw_ready s3" "proc_ok s3" "proc_cred s3 = cred_at (mem s2) cred"
    using set_cred_stable [OF g(2,3) u(1)] u(2) e(8) g(5) by auto
  have "proc_cred s3 = proc_cred s" using x(4) cred_at_cong [OF g(4)] e(7) by simp
  then show ?thesis using e g x by (auto simp: jbc_run_as_root_def Let_def)
qed

end

text \<open>What is relied on of \<open>getcwd\<close>: it returns 0 with a terminated string that fits the size
  it is given, or an error number and at most that many bytes.\<close>

definition getcwd_ok :: "'w fs_ops \<Rightarrow> bool" where
  "getcwd_ok F \<longleftrightarrow> (\<forall>c n w. case sys_getcwd F c n w of (e, bs, w') \<Rightarrow> length bs \<le> n \<and> (e = 0 \<longrightarrow> terminated bs))"

definition mount_args_ok :: "mount_in_sandbox_param \<Rightarrow> bool" where
  "mount_args_ok p \<longleftrightarrow> terminated (p_name p) \<and> (\<forall>t. p_path p = Some t \<longrightarrow> terminated t)"

lemma do_mount_in_sandbox_defined:
  assumes "getcwd_ok F" and "mount_args_ok p" and "length path0 = MAX_PATH + 1"
  shows "\<exists>q. do_mount_in_sandbox F c path0 (p, w) = Some q"
proof -
  obtain e bs w' where g: "sys_getcwd F c MAX_PATH w = (e, bs, w')" by (metis prod_cases3)
  have "case sys_getcwd F c MAX_PATH w of (e, bs, w') \<Rightarrow> length bs \<le> MAX_PATH \<and> (e = 0 \<longrightarrow> terminated bs)"
    using assms(1) unfolding getcwd_ok_def by simp
  then have l: "length bs \<le> MAX_PATH" "e = 0 \<Longrightarrow> terminated bs" by (simp_all add: g)
  show ?thesis
  proof (cases "e = 0")
    case True
    then show ?thesis
      using do_mount_in_sandbox_spec [of F c w bs w' p path0] g l assms(2,3) by (auto simp: mount_args_ok_def split: prod.split)
  next
    case False
    then show ?thesis using g l assms(3) by (simp add: do_mount_in_sandbox_def buf_put_def buf_fill_def)
  qed
qed

interpretation mnt: privileged_call "mount_call F path0"
  "\<lambda>(p, w). mount_args_ok p \<and> getcwd_ok F \<and> length path0 = MAX_PATH + 1"
  for F :: "'w fs_ops" and path0
proof
  fix x :: "mount_in_sandbox_param \<times> 'w" and s :: krw and cred :: u64
  assume v: "case x of (p, w) \<Rightarrow> mount_args_ok p \<and> getcwd_ok F \<and> length path0 = MAX_PATH + 1" "krw_ready s" "proc_ok s"
  obtain p w where x: "x = (p, w)" by fastforce
  have "getcwd_ok F" "mount_args_ok p" "length path0 = MAX_PATH + 1" using v(1) x by simp_all
  from do_mount_in_sandbox_defined [OF this] obtain q where "do_mount_in_sandbox F (proc_cred s) path0 (p, w) = Some q"
    by blast
  then show "\<exists>w' s'. mount_call F path0 x s = Some (w', s') \<and> krw_ready s' \<and> proc_ok s'
      \<and> load (mem s') cred 80 = load (mem s) cred 80 \<and> addr_ans (cfg s') = addr_ans (cfg s)"
    using v x by (simp add: mount_call_def)
qed

section \<open>Properties\<close>

text \<open>A file system that accepts everything and keeps the paths of the calls made; mounting on a
  path that ends in two dots fails, as the kernel does.\<close>

definition log_fs :: "u8 list list fs_ops" where
  "log_fs = \<lparr>sys_getcwd = (\<lambda>c n w. if n < 6 then (34, [], w) else (0, lit ''/app0'', w)),
     sys_mkdir = (\<lambda>c p m w. if drop (length p - 2) p = bytes_of ''..'' then (17, w @ [p]) else (0, w @ [p])),
     sys_rmdir = (\<lambda>c p w. (0, w @ [p])), sys_nmount = (\<lambda>c v m w. (0, w @ v)), sys_unmount = (\<lambda>c p m w. (0, w @ [p]))\<rparr>"

lemma log_strings:
  "c_str (lit ''/app0'') = bytes_of ''/app0''" "c_str (lit ''mnt'') = bytes_of ''mnt''" "c_str (lit ''..'') = bytes_of ''..''"
  "c_str (lit ''/system'') = bytes_of ''/system''" "c_str (lit ''/data'') = bytes_of ''/data''"
  "length (lit ''/app0'') = 6" "bytes_of ''/app0'' @ 0x2f # bytes_of ''mnt'' = bytes_of ''/app0/mnt''"
  "bytes_of ''/app0'' @ bytes_of ''/..'' = bytes_of ''/app0/..''" "0x2f # bytes_of ''..'' = bytes_of ''/..''"
  "0x2f \<notin> set (bytes_of ''mnt'')" "0x2f \<notin> set (bytes_of ''..'')" "length (bytes_of ''/app0/mnt'') = 9"
  "length (bytes_of ''/..'') = 3" "length (bytes_of ''/app0'') = 5" "length (bytes_of ''/app0/..'') = 8"
  "drop 6 (bytes_of ''/app0/..'') = bytes_of ''..''" "drop 7 (bytes_of ''/app0/mnt'') \<noteq> bytes_of ''..''"
  by code_simp+

lemma lit_append: "bytes_of s @ [0] = lit s"
  by (simp add: lit_def)

lemma terminated_lit: "terminated (lit s)"
  by (simp add: lit_def)

lemma log_fs_getcwd: "getcwd_ok log_fs"
  by (simp add: getcwd_ok_def log_fs_def log_strings terminated_lit)



text \<open>C12. The mount operation from the caller's side: the system calls run with init's credentials
  and the caller's root as working directory, the result is that of the specification, and when
  it returns the caller has exactly the credentials it had.\<close>

theorem jbc_mount_in_sandbox_correct:
  assumes "krw_ready s" and "proc_ok s" and "jb_ready L s pr vn" and "cred_frame_ok L s cred rc"
    and "getcwd_ok F" and "terminated nm" and "\<And>t. target = Some t \<Longrightarrow> terminated t" and "length path0 = MAX_PATH + 1"
    and "c = (escalated_cred pr vn)\<lparr>cdir := rdir (proc_cred s)\<rparr>"
    and "sys_getcwd F c MAX_PATH w = (0, bs, w')"
    and "mount_spec F c (c_str bs) (c_str nm) (map_option c_str target) w' = (e, w'')"
  shows "\<exists>s'. jbc_mount_in_sandbox F L cred rc path0 target nm w s = Some (e, w'', s')
     \<and> krw_ready s' \<and> proc_ok s' \<and> proc_cred s' = proc_cred s"
proof -
  let ?p = "\<lparr>p_path = target, p_name = nm, p_ans = 0\<rparr>"
  have v: "case (?p, w) of (p, w) \<Rightarrow> mount_args_ok p \<and> getcwd_ok F \<and> length path0 = MAX_PATH + 1"
    using assms(5-8) by (simp add: mount_args_ok_def)
  have l: "length bs \<le> MAX_PATH" "terminated bs"
    using assms(5,10) by (simp_all add: getcwd_ok_def) (metis (mono_tags, lifting) case_prod_conv)+
  obtain s1 s2 x s3 where r: "jbc_run_as_root L cred rc (mount_call F path0) (?p, w) CWD_ROOT s = Some (x, s3)"
     "proc_cred s1 = (escalated_cred pr vn)\<lparr>cdir := cwd_of CWD_ROOT (proc_cred s) vn\<rparr>"
     "mount_call F path0 (?p, w) s1 = Some (x, s2)" "krw_ready s3" "proc_ok s3" "proc_cred s3 = proc_cred s"
    using mnt.run_as_root [OF v assms(1-4)] by blast
  have "proc_cred s1 = c" using r(2) assms(9) by (simp add: cwd_of_def)
  then have "x = (if e \<noteq> 0 then ?p\<lparr>p_ans := e\<rparr> else ?p, w'')"
    using r(3) do_mount_in_sandbox_spec [OF assms(10) l, of ?p path0] assms(6,7,8,11) by (simp add: mount_call_def)
  then show ?thesis using r by (auto simp: jbc_mount_in_sandbox_def)
qed

theorem jbc_mount_in_sandbox_correct_witness:
  "\<exists>s'. jbc_mount_in_sandbox log_fs demo_layout 0x7f0000002000 0x7f0000003000 (replicate 1025 7)
        (Some (lit ''/system'')) (lit ''mnt'') [] demo
      = Some (0, [bytes_of ''/app0/mnt'', lit ''fstype'', lit ''nullfs'', lit ''fspath'', lit ''/app0/mnt'',
           lit ''target'', lit ''/system''], s')
     \<and> krw_ready s' \<and> proc_ok s' \<and> proc_cred s' = proc_cred demo"
proof (rule jbc_mount_in_sandbox_correct [OF demo_ready demo_proc_ok demo_jb_ready _ log_fs_getcwd _ _ _ refl])
  show "cred_frame_ok demo_layout demo 0x7f0000002000 0x7f0000003000"
    by (simp add: cred_frame_ok_def demo_layout_def demo_sel user_range_def user_apart)
  let ?c = "(escalated_cred 0xffffffff81234560 0xffff900000008000)\<lparr>cdir := rdir (proc_cred demo)\<rparr>"
  show "sys_getcwd log_fs ?c MAX_PATH [] = (0, lit ''/app0'', [])" by (simp add: log_fs_def MAX_PATH_def)
  show "mount_spec log_fs ?c (c_str (lit ''/app0'')) (c_str (lit ''mnt'')) (map_option c_str (Some (lit ''/system''))) []
    = (0, [bytes_of ''/app0/mnt'', lit ''fstype'', lit ''nullfs'', lit ''fspath'', lit ''/app0/mnt'', lit ''target'', lit ''/system''])"
    by (simp add: mount_spec_def Let_def log_strings MAX_PATH_def log_fs_def lit_append)
qed (auto simp: terminated_lit MAX_PATH_def)

text \<open>The names \<open>.\<close> and \<open>..\<close> are not refused: the loop also looks at the terminator, which
  is not a dot, so the check for names of dots can never hold, and \<open>mkdir\<close> is asked for the
  parent of the sandbox root.\<close>

lemma dots_are_accepted:
  assumes "sys_getcwd F c MAX_PATH w = (0, bs, w')" and "length bs \<le> MAX_PATH" and "terminated bs"
    and "length (c_str bs) + 3 < MAX_PATH" and "p_path p = Some target" and "terminated target"
    and "p_name p = lit ''..''" and "length path0 = MAX_PATH + 1"
    and "sys_mkdir F c (c_str bs @ bytes_of ''/..'') 511 w' = (e, w'')" and "e \<noteq> 0"
  shows "do_mount_in_sandbox F c path0 (p, w) = Some (p\<lparr>p_ans := e\<rparr>, w'')"
proof -
  have n: "c_str (p_name p) = bytes_of ''..''" "terminated (p_name p)"
    using assms(7) by (simp_all add: log_strings terminated_lit)
  have "mount_spec F c (c_str bs) (bytes_of ''..'') (Some (c_str target)) w' = (e, w'')"
    using assms(4,9,10) by (simp add: mount_spec_def Let_def log_strings)
  then show ?thesis
    using do_mount_in_sandbox_spec [OF assms(1-3) n(2) _ assms(8)] assms(5,6,10) n(1) by simp
qed

lemma dots_are_accepted_witness:
  "do_mount_in_sandbox log_fs (escalated_cred 1 2) (replicate 1025 7) (\<lparr>p_path = Some (lit ''/data''), p_name = lit ''..'', p_ans = 0\<rparr>, [])
     = Some (\<lparr>p_path = Some (lit ''/data''), p_name = lit ''..'', p_ans = 17\<rparr>, [bytes_of ''/app0/..''])"
  using dots_are_accepted [of log_fs "escalated_cred 1 2" "[]" "lit ''/app0''" "[]"
      "\<lparr>p_path = Some (lit ''/data''), p_name = lit ''..'', p_ans = 0\<rparr>" "lit ''/data''" "replicate 1025 7" 17 "[bytes_of ''/app0/..'']"]
  by (simp add: log_fs_def MAX_PATH_def terminated_lit log_strings)

end
