(* ===== verification/Payload_Main.thy ===== *)
theory Payload_Main
  imports Host_Protocol Dynlib Sandbox_Utils
begin

text \<open>
  Payload/main.c: \<open>main\<close>. The system libraries it calls through the pointers \<open>dlsym\<close> gives
  (notifications, user service, background transfer, application installer) and \<open>mmap\<close>
  are a parameter (\<open>sce\<close>), as is the loader; all of them change one world \<open>'w\<close>. A call
  through a null pointer is the outcome \<open>Fault\<close>. The state also keeps the calls made, in order.

  Each round of the main loop opens one connection; the connections the host will serve are a
  list, and the payload that has served them all is \<open>Waiting\<close> for the next.
  \<open>clear_stack\<close> overwrites dead stack below the frame and has no effect on this state. The
  parameters handed to the registration point into the frame of \<open>get_pkg_info\<close>, which has
  returned; the model passes that frame's last contents along.
\<close>

section \<open>Environment\<close>

record OrbisUserServiceInitializeParams =
  priority :: u32

record bgft_init_params =
  bgft_mem :: u64
  bgft_size :: u64

definition BGFT_INVALID_TASK_ID :: u32 where "BGFT_INVALID_TASK_ID = -1"
definition ORBIS_KERNEL_PRIO_FIFO_NORMAL :: u32 where "ORBIS_KERNEL_PRIO_FIFO_NORMAL = 0x2BC"

record 'w sce =
  sce_notify :: "int \<Rightarrow> u8 list \<Rightarrow> 'w \<Rightarrow> u32 \<times> 'w"
  sce_user_init :: "OrbisUserServiceInitializeParams \<Rightarrow> 'w \<Rightarrow> u32 \<times> 'w"
  sce_user_get :: "u32 \<Rightarrow> 'w \<Rightarrow> (u32 \<times> u32) \<times> 'w"
  sce_user_term :: "'w \<Rightarrow> u32 \<times> 'w"
  sce_appinst_init :: "'w \<Rightarrow> u32 \<times> 'w"
  sce_bgft_init :: "bgft_init_params \<Rightarrow> 'w \<Rightarrow> u32 \<times> 'w"
  sce_register :: "bgft_download_param \<Rightarrow> pkg_frame \<Rightarrow> u32 \<Rightarrow> 'w \<Rightarrow> (u32 \<times> u32) \<times> 'w"
  sce_debug_register :: "bgft_download_param \<Rightarrow> pkg_frame \<Rightarrow> u32 \<Rightarrow> 'w \<Rightarrow> (u32 \<times> u32) \<times> 'w"
  sce_start :: "u32 \<Rightarrow> 'w \<Rightarrow> u32 \<times> 'w"
  sce_mmap :: "u64 \<Rightarrow> 'w \<Rightarrow> u64 \<times> 'w"

text \<open>The function pointers of \<open>main\<close>.\<close>

record sce_fns =
  sceSysUtilSendSystemNotificationWithText :: u64
  sceUserServiceInitialize :: u64
  sceUserServiceGetForegroundUser :: u64
  sceUserServiceTerminate :: u64
  sceBgftInitialize :: u64
  sceBgftDownloadRegisterTask :: u64
  sceBgftDebugDownloadRegisterTask :: u64
  sceBgftDownloadStartTask :: u64
  sceBgftFinalize :: u64

datatype event =
    UserInit u32 | UserGet u32 | UserTerm | AppInstInit u32 | BgftInit u64 u32
  | Notify int "u8 list"
  | RegisterTask bgft_download_param pkg_frame u32 u32
  | DebugRegisterTask bgft_download_param pkg_frame u32 u32
  | StartTask u32

datatype outcome = Returned int | Fault | Undefined | Waiting | Hung

record 'w pst =
  pw :: 'w
  events :: "event list"

section \<open>Calls\<close>

type_synonym 'w halt = "outcome \<times> 'w pst"

definition call :: "u64 \<Rightarrow> ('w \<Rightarrow> 'r \<times> 'w) \<Rightarrow> ('r \<Rightarrow> event) \<Rightarrow> 'w pst \<Rightarrow> 'w halt + ('r \<times> 'w pst)" where
  "call fp f ev st =
     (if fp = 0 then Inl (Fault, st)
      else (case f (pw st) of (r, w) \<Rightarrow> Inr (r, st\<lparr>pw := w, events := events st @ [ev r]\<rparr>)))"

fun and_then :: "'h + 'a \<Rightarrow> ('a \<Rightarrow> 'h + 'b) \<Rightarrow> 'h + 'b" where
  "and_then (Inl h) f = Inl h"
| "and_then (Inr x) f = f x"

definition notify :: "'w sce \<Rightarrow> sce_fns \<Rightarrow> u8 list \<Rightarrow> 'w pst \<Rightarrow> 'w halt + (u32 \<times> 'w pst)" where
  "notify E fns txt st =
     call (sceSysUtilSendSystemNotificationWithText fns) (sce_notify E 222 txt) (\<lambda>_. Notify 222 txt) st"

text \<open>The text of an error: the two arrays are zero-initialised.\<close>

definition error_text :: "string \<Rightarrow> u32 \<Rightarrow> u8 list option" where
  "error_text prefix rv = do {
     errCode \<leftarrow> int32ToHex rv (replicate 0x20 0);
     concat_str (lit prefix) errCode (replicate 0x200 0)
   }"

text \<open>\<open>notify (the text); return -1;\<close>\<close>

definition fail_with :: "'w sce \<Rightarrow> sce_fns \<Rightarrow> string \<Rightarrow> u32 \<Rightarrow> 'w pst \<Rightarrow> 'w halt" where
  "fail_with E fns prefix rv st =
     (case error_text prefix rv of
        None \<Rightarrow> (Undefined, st)
      | Some err \<Rightarrow> (case notify E fns (c_str err) st of Inl h \<Rightarrow> h | Inr (_, st) \<Rightarrow> (Returned (-1), st)))"

section \<open>The main loop\<close>

definition lf :: string where "lf = [CHR 0x0A]"

text \<open>How a round ends: the loop goes on, with the parameters as \<open>get_pkg_info\<close> left them, or
  \<open>main\<close> returns.\<close>

datatype 'w verdict = Continue bgft_download_param net "'w pst" | Stop net "'w halt"

definition continue_with :: "bgft_download_param \<Rightarrow> net \<Rightarrow> 'w halt + ('r \<times> 'w pst) \<Rightarrow> 'w verdict" where
  "continue_with params n r = (case r of Inl h \<Rightarrow> Stop n h | Inr (_, st) \<Rightarrow> Continue params n st)"

definition stop_with :: "int \<Rightarrow> net \<Rightarrow> 'w halt + ('r \<times> 'w pst) \<Rightarrow> 'w verdict" where
  "stop_with v n r = (case r of Inl h \<Rightarrow> Stop n h | Inr (_, st) \<Rightarrow> Stop n (Returned v, st))"

definition start_task :: "'w sce \<Rightarrow> sce_fns \<Rightarrow> u32 \<Rightarrow> 'w pst \<Rightarrow> 'w halt + (u32 \<times> 'w pst)" where
  "start_task E fns task st = call (sceBgftDownloadStartTask fns) (sce_start E task) (\<lambda>_. StartTask task) st"

definition handle_error :: "'w sce \<Rightarrow> sce_fns \<Rightarrow> u32 \<Rightarrow> bgft_download_param \<Rightarrow> net \<Rightarrow> 'w pst \<Rightarrow> 'w verdict" where
  "handle_error E fns rv params n st =
     (if rv = 0x80990086 then continue_with params n (notify E fns (bytes_of
          (''DPI: BGFT Error 0x80990086'' @ lf @ ''Ensure that there are no old downloads in the notification list.'')) st)
      else if rv = 0x80990088 then continue_with params n (notify E fns (bytes_of ''DPI: Package Already Installed!'') st)
      else if rv = 0x80990039 \<or> rv = 0x80A30026 then continue_with params n (notify E fns (bytes_of
          (''DPI: Insufficient storage space.'' @ lf @ ''Please free up space on your hard drive.'')) st)
      else if rv = 0x80990085 then continue_with params n (notify E fns (bytes_of
          (''DPI: Insufficient storage space.'' @ lf @ ''Please free up non fragmented space on your hard drive.'')) st)
      else Stop n (fail_with E fns ''DPI: BGFT Error '' rv st))"

definition register_and_start :: "'w sce \<Rightarrow> sce_fns \<Rightarrow> bgft_download_param \<Rightarrow> pkg_frame \<Rightarrow> net \<Rightarrow> 'w pst \<Rightarrow> 'w verdict" where
  "register_and_start E fns params fr n st =
     (case call (sceBgftDownloadRegisterTask fns) (sce_register E params fr BGFT_INVALID_TASK_ID)
          (\<lambda>(rv, task). RegisterTask params fr rv task) st of
        Inl h \<Rightarrow> Stop n h
      | Inr ((rv, task), st) \<Rightarrow>
          if rv \<noteq> 0x80990088 \<and> task \<noteq> BGFT_INVALID_TASK_ID then continue_with params n (start_task E fns task st)
          else (case call (sceBgftDebugDownloadRegisterTask fns) (sce_debug_register E params fr task)
              (\<lambda>(rv, task). DebugRegisterTask params fr rv task) st of
            Inl h \<Rightarrow> Stop n h
          | Inr ((rv, task), st) \<Rightarrow>
              if rv \<noteq> 0x80990088 \<and> task \<noteq> BGFT_INVALID_TASK_ID then continue_with params n (start_task E fns task st)
              else handle_error E fns rv params n st))"

definition main_round :: "'w sce \<Rightarrow> sce_fns \<Rightarrow> connection \<Rightarrow> bgft_download_param \<Rightarrow> net \<Rightarrow> 'w pst \<Rightarrow> 'w verdict" where
  "main_round E fns Conn bgft_params n st =
     (case get_pkg_info Conn bgft_params n of
        None \<Rightarrow> Stop n (Undefined, st)
      | Some (rv, bgft_params, fr, n) \<Rightarrow>
          if rv = -1 then stop_with (-1) n (notify E fns (bytes_of ''DPI: GET INFO ERROR'') st)
          else if rv = 1 then stop_with 0 n (notify E fns (bytes_of ''DirectPackageInstaller Exited'') st)
          else register_and_start E fns bgft_params fr n st)"

text \<open>The files written in one round are there in the next.\<close>

definition next_net :: "net \<Rightarrow> net \<Rightarrow> net" where
  "next_net prev n = n\<lparr>files := files prev, open_fds := open_fds prev\<rparr>"

primrec main_loop :: "'w sce \<Rightarrow> sce_fns \<Rightarrow> connection \<Rightarrow> net list \<Rightarrow> bgft_download_param \<Rightarrow> net \<Rightarrow> 'w pst \<Rightarrow> net \<times> 'w halt" where
  "main_loop E fns Conn [] params prev st = (prev, Waiting, st)"
| "main_loop E fns Conn (n # ns) params prev st =
     (case main_round E fns Conn params (next_net prev n) st of
        Continue params n' st \<Rightarrow> main_loop E fns Conn ns params n' st
      | Stop n' h \<Rightarrow> (n', h))"
section \<open>Start-up\<close>

text \<open>\<open>cred\<close> is the address of the local.\<close>

definition main_escalate :: "jb_layout \<Rightarrow> u64 \<Rightarrow> krw \<Rightarrow> krw option" where
  "main_escalate L cred s = do {
     let s = snd (jbc_get_cred cred s);
     (_, s) \<leftarrow> jbc_jailbreak_cred L cred s;
     let s = put64 (cred + 48) 0 s;
     let s = put64 (cred + 56) 0x3800000000000010 s;
     let s = put64 (cred + 64) 0x40001c0000000000 s;
     let s = put64 (cred + 72) 0x900000000000ff00 s;
     Some (snd (jbc_set_cred cred s))
   }"

definition load_functions :: "'w loader \<Rightarrow> module_info_ex \<Rightarrow> 'w \<Rightarrow> sce_fns \<times> 'w" where
  "load_functions D mi w =
     (case dlopen D mi (lit ''/system/common/lib/libSceSysUtil.sprx'') 0 w of (libSceSysUtil, w) \<Rightarrow>
      case dlsym D libSceSysUtil (lit ''sceSysUtilSendSystemNotificationWithText'') w of (f_notify, w) \<Rightarrow>
      case dlopen D mi (lit ''/system/common/lib/libSceUserService.sprx'') 0 w of (usrsrv, w) \<Rightarrow>
      case dlsym D usrsrv (lit ''sceUserServiceInitialize'') w of (f_init, w) \<Rightarrow>
      case dlsym D usrsrv (lit ''sceUserServiceGetForegroundUser'') w of (f_get, w) \<Rightarrow>
      case dlsym D usrsrv (lit ''sceUserServiceTerminate'') w of (f_term, w) \<Rightarrow>
      case dlopen D mi (lit ''/system/common/lib/libSceBgft.sprx'') 0 w of (bgft, w) \<Rightarrow>
      case dlsym D bgft (lit ''sceBgftServiceIntInit'') w of (f_bgft, w) \<Rightarrow>
      case dlsym D bgft (lit ''sceBgftServiceDownloadRegisterTask'') w of (f_reg, w) \<Rightarrow>
      case dlsym D bgft (lit ''sceBgftServiceIntDebugDownloadRegisterPkg'') w of (f_dreg, w) \<Rightarrow>
      case dlsym D bgft (lit ''sceBgftServiceIntDownloadStartTask'') w of (f_start, w) \<Rightarrow>
      case dlsym D bgft (lit ''sceBgftFinalize'') w of (f_fin, w) \<Rightarrow>
      (\<lparr>sceSysUtilSendSystemNotificationWithText = f_notify, sceUserServiceInitialize = f_init,
        sceUserServiceGetForegroundUser = f_get, sceUserServiceTerminate = f_term, sceBgftInitialize = f_bgft,
        sceBgftDownloadRegisterTask = f_reg, sceBgftDebugDownloadRegisterTask = f_dreg,
        sceBgftDownloadStartTask = f_start, sceBgftFinalize = f_fin\<rparr>, w))"

definition user_of_foreground :: "'w sce \<Rightarrow> sce_fns \<Rightarrow> 'w pst \<Rightarrow> 'w halt + (u32 \<times> 'w pst)" where
  "user_of_foreground E fns st =
     and_then (call (sceUserServiceInitialize fns) (sce_user_init E \<lparr>priority = ORBIS_KERNEL_PRIO_FIFO_NORMAL\<rparr>)
         (\<lambda>_. UserInit ORBIS_KERNEL_PRIO_FIFO_NORMAL) st) (\<lambda>(_, st).
     and_then (call (sceUserServiceGetForegroundUser fns) (sce_user_get E 0) (\<lambda>(_, u). UserGet u) st) (\<lambda>((_, user), st).
     and_then (call (sceUserServiceTerminate fns) (sce_user_term E) (\<lambda>_. UserTerm) st) (\<lambda>(_, st).
     Inr (user, st))))"

definition init_installer :: "'w loader \<Rightarrow> module_info_ex \<Rightarrow> 'w sce \<Rightarrow> sce_fns \<Rightarrow> 'w pst \<Rightarrow> 'w halt + 'w pst" where
  "init_installer D mi E fns st =
     (case dlopen D mi (lit ''/system/common/lib/libSceAppInstUtil.sprx'') 0 (pw st) of (lib, w) \<Rightarrow>
      case dlsym D lib (lit ''sceAppInstUtilInitialize'') w of (f, w) \<Rightarrow>
      and_then (call f (sce_appinst_init E) AppInstInit (st\<lparr>pw := w\<rparr>)) (\<lambda>(rv, st).
      if rv \<noteq> 0 then Inl (fail_with E fns ''DPI: App Inst Util Error '' rv st) else Inr st))"

definition init_bgft :: "'w sce \<Rightarrow> sce_fns \<Rightarrow> 'w pst \<Rightarrow> 'w halt + 'w pst" where
  "init_bgft E fns st =
     (case sce_mmap E 0x100000 (pw st) of (m, w) \<Rightarrow>
      and_then (call (sceBgftInitialize fns) (sce_bgft_init E \<lparr>bgft_mem = m, bgft_size = 0x100000\<rparr>) (BgftInit m) (st\<lparr>pw := w\<rparr>))
      (\<lambda>(rv, st).
      if rv \<noteq> 0 \<and> rv \<noteq> 0x80990001 then Inl (fail_with E fns ''DPI: BGFT Init Failed '' rv st) else Inr st))"

definition initial_params :: "u32 \<Rightarrow> bgft_download_param" where
  "initial_params user = \<lparr>user_id = user, entitlement_type = 5, param_id = Static '''', content_url = Static '''',
     content_ex_url = NULL_ptr, content_name = Static '''', param_icon_path = Static '''', sku_id = NULL_ptr,
     option_flags = BGFT_TASK_OPTION_DISABLE_CDN_QUERY_PARAM, playgo_scenario_id = Static ''0'',
     release_date = NULL_ptr, package_type = Static ''PS4GD'', package_sub_type = Static '''', package_size = 0\<rparr>"

definition startup :: "'w loader \<Rightarrow> module_info_ex \<Rightarrow> 'w sce \<Rightarrow> sce_fns \<Rightarrow> 'w pst \<Rightarrow> 'w halt + (u32 \<times> 'w pst)" where
  "startup D mi E fns st =
     and_then (user_of_foreground E fns st) (\<lambda>(user, st).
     and_then (init_installer D mi E fns st) (\<lambda>st.
     and_then (init_bgft E fns st) (\<lambda>st. Inr (user, st))))"

text \<open>\<open>net0\<close> is the file system before the first connection.\<close>

definition payload_main ::
  "jb_layout \<Rightarrow> u64 \<Rightarrow> 'w loader \<Rightarrow> module_info_ex \<Rightarrow> 'w sce \<Rightarrow> connection \<Rightarrow> net list \<Rightarrow> net \<Rightarrow> krw \<Rightarrow> 'w
    \<Rightarrow> krw \<times> net \<times> 'w halt" where
  "payload_main L cred D mi E Conn nets net0 s w =
     (case main_escalate L cred s of
        None \<Rightarrow> (s, net0, Hung, \<lparr>pw = w, events = []\<rparr>)
      | Some s \<Rightarrow>
          (case load_functions D mi w of (fns, w) \<Rightarrow>
           case startup D mi E fns \<lparr>pw = w, events = []\<rparr> of
             Inl h \<Rightarrow> (s, net0, h)
           | Inr (user, st) \<Rightarrow> (s, main_loop E fns Conn nets (initial_params user) net0 st)))"

section \<open>Error texts\<close>

lemma hex_digit_nonzero:
  assumes "unat b < 16"
  shows "hex_digit b \<noteq> 0"
proof -
  obtain n where n: "b = of_nat n" "n < 16" using assms by (metis of_nat_unat ucast_id)
  then have "n \<in> {0, 1, 2, 3, 4, 5, 6, 7, 8, 9, 10, 11, 12, 13, 14, 15}" by simp arith
  then show ?thesis by (auto simp: n(1) hex_digit_def)
qed

lemma hex_digits_no_zero: "0 \<notin> set (hex_digits rv)"
proof
  assume "0 \<in> set (hex_digits rv)"
  then obtain i where "i < 8" "hex_digit (BytePart rv i) = 0" by (auto simp: hex_digits_def)
  then show False using hex_digit_nonzero [of "BytePart rv i"] BytePart_unat [of i rv] by simp
qed

lemma length_hex_digits [simp]: "length (hex_digits rv) = 8"
  by (simp add: hex_digits_def)

definition error_string :: "string \<Rightarrow> u32 \<Rightarrow> u8 list" where
  "error_string prefix rv = bytes_of prefix @ 0x30 # 0x78 # hex_digits rv"

lemma error_text_eq:
  assumes "0 \<notin> set (bytes_of prefix)" and "length prefix < 500"
  shows "\<exists>err. error_text prefix rv = Some err \<and> length err = 0x200 \<and> terminated err \<and> c_str err = error_string prefix rv"
proof -
  let ?h = "0x30 # 0x78 # hex_digits rv"
  have i: "int32ToHex rv (replicate 0x20 0) = Some (?h @ 0 # replicate 21 0)"
    by (simp add: int32ToHex_eq)
  have h: "0 \<notin> set ?h" using hex_digits_no_zero by simp
  have c: "c_str (?h @ 0 # replicate 21 0) = ?h" by (rule c_str_eq [OF h])
  have p: "c_str (lit prefix) = bytes_of prefix" using c_str_eq [OF assms(1), of "[]"] by (simp add: lit_def)
  have l: "length (bytes_of prefix) = length prefix" by (simp add: bytes_of_def)
  have "concat_str (lit prefix) (?h @ 0 # replicate 21 0) (replicate 0x200 0)
      = Some (bytes_of prefix @ ?h @ 0 # drop (Suc (length (bytes_of prefix) + length ?h)) (replicate 0x200 0))"
    using concat_str_terminated [of "lit prefix" "?h @ 0 # replicate 21 0" "replicate 0x200 0"] assms(2)
    unfolding c p by (simp add: l lit_def)
  moreover have "c_str (error_string prefix rv @ 0 # r) = error_string prefix rv" for r
    using assms(1) h by (intro c_str_eq) (simp add: error_string_def)
  ultimately show ?thesis using i assms(2) by (simp add: error_text_def error_string_def l)
qed

section \<open>The trace\<close>

definition grants :: "event \<Rightarrow> u32 \<Rightarrow> bool" where
  "grants e t = (case e of
       RegisterTask p fr rv k \<Rightarrow> k = t \<and> rv \<noteq> 0x80990088 \<and> k \<noteq> BGFT_INVALID_TASK_ID
     | DebugRegisterTask p fr rv k \<Rightarrow> k = t \<and> rv \<noteq> 0x80990088 \<and> k \<noteq> BGFT_INVALID_TASK_ID
     | _ \<Rightarrow> False)"

primrec starts_from :: "event option \<Rightarrow> event list \<Rightarrow> bool" where
  "starts_from prev [] = True"
| "starts_from prev (e # es) =
     ((case e of StartTask t \<Rightarrow> (case prev of None \<Rightarrow> False | Some p \<Rightarrow> grants p t) | _ \<Rightarrow> True) \<and> starts_from (Some e) es)"

text \<open>Every started task was granted by the call just before: a registration that returned that task,
  a valid one, and not the code for "already installed".\<close>

definition starts_ok :: "event list \<Rightarrow> bool" where
  "starts_ok es = starts_from None es"

lemma starts_from_append:
  "starts_from p (xs @ ys) \<longleftrightarrow> starts_from p xs \<and> starts_from (if xs = [] then p else Some (last xs)) ys"
  by (induction xs arbitrary: p) auto

lemma starts_ok_append: "starts_ok (xs @ [e]) \<longleftrightarrow>
   starts_ok xs \<and> (case e of StartTask t \<Rightarrow> xs \<noteq> [] \<and> grants (last xs) t | _ \<Rightarrow> True)"
  by (auto simp: starts_ok_def starts_from_append split: event.split)

lemma starts_ok_granted: "starts_ok (xs @ [e, StartTask t]) \<longleftrightarrow> starts_ok (xs @ [e]) \<and> grants e t"
  using starts_ok_append [of "xs @ [e]" "StartTask t"] by simp

lemma call_Inl: "call fp f ev st = Inl h \<Longrightarrow> h = (Fault, st)"
  by (auto simp: call_def split: if_splits prod.splits)

lemma call_Inr: "call fp f ev st = Inr (r, st') \<Longrightarrow> fp \<noteq> 0 \<and> events st' = events st @ [ev r]"
  by (auto simp: call_def split: if_splits prod.splits)

lemmas call_cases = call_Inl call_Inr

definition verdict_events :: "'w verdict \<Rightarrow> event list" where
  "verdict_events v = (case v of Continue p n st \<Rightarrow> events st | Stop n h \<Rightarrow> events (snd h))"

lemma notify_starts:
  "notify E fns txt st = Inr (r, st') \<Longrightarrow> starts_ok (events st) \<Longrightarrow> starts_ok (events st')"
  "notify E fns txt st = Inl h \<Longrightarrow> snd h = st"
  by (auto simp: notify_def starts_ok_append dest!: call_cases)

lemma fail_with_starts: "starts_ok (events st) \<Longrightarrow> starts_ok (events (snd (fail_with E fns prefix rv st)))"
  by (auto simp: fail_with_def notify_starts split: option.split sum.split dest!: notify_starts)

lemma continue_notify_starts:
  "starts_ok (events st) \<Longrightarrow> starts_ok (verdict_events (continue_with p n (notify E fns txt st)))"
  "starts_ok (events st) \<Longrightarrow> starts_ok (verdict_events (stop_with v n (notify E fns txt st)))"
  by (auto simp: continue_with_def stop_with_def verdict_events_def split: sum.split dest: notify_starts)

lemma handle_error_starts: "starts_ok (events st) \<Longrightarrow> starts_ok (verdict_events (handle_error E fns rv params n st))"
  using fail_with_starts [of st] by (auto simp: handle_error_def continue_notify_starts) (simp add: verdict_events_def)

lemma start_task_starts:
  assumes "starts_ok (events st)" and "events st = es @ [e]" and "grants e task"
  shows "starts_ok (verdict_events (continue_with p n (start_task E fns task st)))"
  using assms by (auto simp: continue_with_def start_task_def verdict_events_def starts_ok_granted split: sum.split dest!: call_cases)

lemma register_starts:
  assumes "starts_ok (events st)"
  shows "starts_ok (verdict_events (register_and_start E fns params fr n st))"
proof -
  have s: "starts_ok (events st)" using assms .
  show ?thesis
  proof (cases "call (sceBgftDownloadRegisterTask fns) (sce_register E params fr BGFT_INVALID_TASK_ID)
          (\<lambda>(rv, task). RegisterTask params fr rv task) st")
    case (Inl h)
    then show ?thesis using assms by (simp add: register_and_start_def verdict_events_def call_Inl [OF Inl])
  next
    case (Inr x)
    obtain rv task st1 where x: "x = ((rv, task), st1)" by (metis prod.collapse)
    have e1: "events st1 = events st @ [RegisterTask params fr rv task]" using call_Inr [OF Inr [unfolded x]] by simp
    have s1: "starts_ok (events st1)" using assms by (simp add: e1 starts_ok_append)
    show ?thesis
    proof (cases "rv \<noteq> 0x80990088 \<and> task \<noteq> BGFT_INVALID_TASK_ID")
      case True
      then show ?thesis
        using Inr x start_task_starts [OF s1 e1, of task] by (simp add: register_and_start_def grants_def)
    next
      case False
      note step1 = Inr False
      show ?thesis
      proof (cases "call (sceBgftDebugDownloadRegisterTask fns) (sce_debug_register E params fr task)
              (\<lambda>(rv, task). DebugRegisterTask params fr rv task) st1")
        case (Inl h)
        then show ?thesis using step1 x s1 by (auto simp: register_and_start_def verdict_events_def call_Inl [OF Inl])
      next
        case (Inr y)
        obtain rv2 task2 st2 where y: "y = ((rv2, task2), st2)" by (metis prod.collapse)
        have e2: "events st2 = events st1 @ [DebugRegisterTask params fr rv2 task2]" using call_Inr [OF Inr [unfolded y]] by simp
        have s2: "starts_ok (events st2)" using s1 by (simp add: e2 starts_ok_append)
        then show ?thesis
          using step1 x Inr y start_task_starts [OF s2 e2, of task2] handle_error_starts [OF s2]
          by (auto simp: register_and_start_def grants_def)
      qed
    qed
  qed
qed

lemma main_round_starts:
  "starts_ok (events st) \<Longrightarrow> starts_ok (verdict_events (main_round E fns Conn params n st))"
  by (auto simp: main_round_def continue_notify_starts register_starts split: option.split)
    (simp add: verdict_events_def)

lemma main_loop_starts:
  "starts_ok (events st) \<Longrightarrow> starts_ok (events (snd (snd (main_loop E fns Conn ns params prev st))))"
proof (induction ns arbitrary: params prev st)
  case (Cons n ns)
  have "starts_ok (verdict_events (main_round E fns Conn params (next_net prev n) st))"
    using Cons.prems by (rule main_round_starts)
  then show ?case using Cons.IH by (auto simp: verdict_events_def split: verdict.split)
qed simp


text \<open>The same through the start-up sequence: \<open>P\<close> picks the state out of a result.\<close>

definition res_ok :: "('a \<Rightarrow> 'w pst) \<Rightarrow> 'w halt + 'a \<Rightarrow> bool" where
  "res_ok P r = (case r of Inl h \<Rightarrow> starts_ok (events (snd h)) | Inr x \<Rightarrow> starts_ok (events (P x)))"

lemma res_ok_simps [simp]:
  "res_ok P (Inl h) = starts_ok (events (snd h))" "res_ok P (Inr x) = starts_ok (events (P x))"
  by (simp_all add: res_ok_def)

lemma and_then_ok:
  "res_ok P r \<Longrightarrow> (\<And>x. starts_ok (events (P x)) \<Longrightarrow> res_ok Q (f x)) \<Longrightarrow> res_ok Q (and_then r f)"
  by (cases r) (auto simp: res_ok_def)

lemma call_ok:
  "starts_ok (events st) \<Longrightarrow> (\<And>r t. ev r \<noteq> StartTask t) \<Longrightarrow> res_ok snd (call fp f ev st)"
  by (auto simp: res_ok_def starts_ok_append split: sum.split event.split dest!: call_cases)

lemma user_ok: "starts_ok (events st) \<Longrightarrow> res_ok snd (user_of_foreground E fns st)"
  unfolding user_of_foreground_def by (auto split: prod.split intro!: and_then_ok [OF call_ok])

lemma init_installer_ok: "starts_ok (events st) \<Longrightarrow> res_ok (\<lambda>st. st) (init_installer D mi E fns st)"
  unfolding init_installer_def
  by (auto split: prod.split intro!: and_then_ok [OF call_ok] simp: fail_with_starts)

lemma init_bgft_ok: "starts_ok (events st) \<Longrightarrow> res_ok (\<lambda>st. st) (init_bgft E fns st)"
  unfolding init_bgft_def
  by (auto split: prod.split intro!: and_then_ok [OF call_ok] simp: fail_with_starts)

lemma startup_ok: "starts_ok (events st) \<Longrightarrow> res_ok snd (startup D mi E fns st)"
  unfolding startup_def
  by (auto split: prod.split intro!: and_then_ok [OF user_ok] and_then_ok [OF init_installer_ok] and_then_ok [OF init_bgft_ok])

lemma payload_main_starts:
  "starts_ok (events (snd (snd (snd (payload_main L cred D mi E Conn nets net0 s w)))))"
proof (cases "main_escalate L cred s")
  case None
  then show ?thesis by (simp add: payload_main_def starts_ok_def)
next
  case (Some s')
  obtain fns w' where l: "load_functions D mi w = (fns, w')" by fastforce
  have "res_ok snd (startup D mi E fns \<lparr>pw = w', events = []\<rparr>)"
    by (rule startup_ok) (simp add: starts_ok_def)
  then show ?thesis
    using Some l main_loop_starts
    by (cases "startup D mi E fns \<lparr>pw = w', events = []\<rparr>") (auto simp: payload_main_def split: prod.split)
qed

section \<open>A session with the host\<close>

text \<open>A connection on which the host sends package \<open>m\<close> (header in one segment, the icon in any number
  of them), and one on which it sends the exit command.\<close>

definition serves_pkg :: "pkg_msg \<Rightarrow> net \<Rightarrow> bool" where
  "serves_pkg m n \<longleftrightarrow> 0 \<le> socket_ret n \<and> 0 \<le> connect_ret n \<and> open_ok n \<and> wr_ok n \<and> msg_fits m
     \<and> (\<exists>a es. rx n = Data (pkg_info_header m @ a) # es \<and> rx_clean es \<and> m_icon m = a @ rx_bytes es)"

definition serves_exit :: "net \<Rightarrow> bool" where
  "serves_exit n \<longleftrightarrow> 0 \<le> socket_ret n \<and> 0 \<le> connect_ret n \<and> (\<exists>es. rx n = Data exit_buffer # es)"

definition frame_holds :: "pkg_msg \<Rightarrow> pkg_frame \<Rightarrow> bool" where
  "frame_holds m fr \<longleftrightarrow> url fr = padded 0x800 (m_url m) \<and> name fr = padded 0x259 (m_name m)
     \<and> pkg_id fr = padded 0x30 (m_id m) \<and> pkg_type fr = padded 0x10 (m_type m)
     \<and> c_str (icon_path fr) = (if m_icon m = [] then [] else icon_file m)"

definition store_icon :: "pkg_msg \<Rightarrow> (u8 list \<rightharpoonup> u8 list) \<Rightarrow> (u8 list \<rightharpoonup> u8 list)" where
  "store_icon m fs = (if m_icon m = [] then fs else fs(icon_file m \<mapsto> m_icon m))"

text \<open>The transfer service takes every package.\<close>

definition accepts :: "'w sce \<Rightarrow> bool" where
  "accepts E \<longleftrightarrow> (\<forall>p fr w. case sce_register E p fr BGFT_INVALID_TASK_ID w of ((rv, task), w') \<Rightarrow>
     rv \<noteq> 0x80990088 \<and> task \<noteq> BGFT_INVALID_TASK_ID)"

definition loop_fns_ok :: "sce_fns \<Rightarrow> bool" where
  "loop_fns_ok fns \<longleftrightarrow> sceSysUtilSendSystemNotificationWithText fns \<noteq> 0 \<and> sceBgftDownloadRegisterTask fns \<noteq> 0
     \<and> sceBgftDebugDownloadRegisterTask fns \<noteq> 0 \<and> sceBgftDownloadStartTask fns \<noteq> 0"

text \<open>The two calls made for a package.\<close>

definition installs :: "pkg_msg \<Rightarrow> event list \<Rightarrow> bool" where
  "installs m es \<longleftrightarrow> (\<exists>p fr rv task. es = [RegisterTask p fr rv task, StartTask task] \<and> package_size p = m_size m
     \<and> content_url p = Frame L_url \<and> frame_holds m fr \<and> task \<noteq> BGFT_INVALID_TASK_ID)"

lemma call_ok_eq: "fp \<noteq> 0 \<Longrightarrow> call fp f ev st =
    Inr (fst (f (pw st)), st\<lparr>pw := snd (f (pw st)), events := events st @ [ev (fst (f (pw st)))]\<rparr>)"
  by (simp add: call_def split: prod.split)

lemma register_accepted:
  assumes "accepts E" and "loop_fns_ok fns"
  shows "\<exists>rv task st'. register_and_start E fns params fr n st = Continue params n st'
     \<and> events st' = events st @ [RegisterTask params fr rv task, StartTask task] \<and> task \<noteq> BGFT_INVALID_TASK_ID"
proof -
  obtain rv task w' where r: "sce_register E params fr BGFT_INVALID_TASK_ID (pw st) = ((rv, task), w')"
    by (metis prod.collapse)
  have "case sce_register E params fr BGFT_INVALID_TASK_ID (pw st) of ((rv, task), w') \<Rightarrow>
     rv \<noteq> 0x80990088 \<and> task \<noteq> BGFT_INVALID_TASK_ID" using assms(1) unfolding accepts_def by simp
  then have "rv \<noteq> 0x80990088" "task \<noteq> BGFT_INVALID_TASK_ID" using r by simp_all
  then show ?thesis
    using assms(2) r by (auto simp: register_and_start_def call_ok_eq loop_fns_ok_def start_task_def continue_with_def)
qed

lemma round_installs:
  assumes "serves_pkg m n" and "accepts E" and "loop_fns_ok fns"
  shows "\<exists>n' st' es. main_round E fns Conn params n st = Continue (filled_params params (m_size m)) n' st'
     \<and> events st' = events st @ es \<and> installs m es \<and> files n' = store_icon m (files n) \<and> open_fds n' = open_fds n"
proof -
  obtain a es where "0 \<le> socket_ret n" "0 \<le> connect_ret n" "open_ok n" "wr_ok n" "msg_fits m"
      "rx n = Data (pkg_info_header m @ a) # es" "rx_clean es" "m_icon m = a @ rx_bytes es"
    using assms(1) by (auto simp: serves_pkg_def)
  from get_pkg_info_receives [OF this, of Conn params] obtain fr n' where
    g: "get_pkg_info Conn params n = Some (0, filled_params params (m_size m), fr, n')" "frame_holds m fr"
      "files n' = store_icon m (files n)" "open_fds n' = open_fds n"
    by (auto simp: frame_holds_def store_icon_def)
  obtain rv task st' where r: "register_and_start E fns (filled_params params (m_size m)) fr n' st
        = Continue (filled_params params (m_size m)) n' st'"
     "events st' = events st @ [RegisterTask (filled_params params (m_size m)) fr rv task, StartTask task]"
     "task \<noteq> BGFT_INVALID_TASK_ID"
    using register_accepted [OF assms(2,3)] by blast
  have "installs m [RegisterTask (filled_params params (m_size m)) fr rv task, StartTask task]"
    using g(2) r(3) by (simp add: installs_def filled_params_def)
  then show ?thesis using g r by (simp add: main_round_def)
qed

lemma round_exits:
  assumes "serves_exit n" and "loop_fns_ok fns"
  shows "\<exists>n' st'. main_round E fns Conn params n st = Stop n' (Returned 0, st')
     \<and> events st' = events st @ [Notify 222 (bytes_of ''DirectPackageInstaller Exited'')]
     \<and> files n' = files n \<and> open_fds n' = open_fds n"
proof -
  obtain es where "0 \<le> socket_ret n" "0 \<le> connect_ret n" "rx n = Data exit_buffer # es"
    using assms(1) by (auto simp: serves_exit_def)
  from get_pkg_info_exits [OF this, of Conn params] show ?thesis
    using assms(2) by (auto simp: main_round_def stop_with_def notify_def call_ok_eq loop_fns_ok_def)
qed

lemma serves_next [simp]: "serves_pkg m (next_net p n) = serves_pkg m n" "serves_exit (next_net p n) = serves_exit n"
  by (simp_all add: serves_pkg_def serves_exit_def next_net_def)

lemma next_net_files [simp]: "files (next_net p n) = files p" "open_fds (next_net p n) = open_fds p"
  by (simp_all add: next_net_def)

lemma session_lemma:
  assumes "list_all2 serves_pkg ms ns" and "serves_exit x" and "accepts E" and "loop_fns_ok fns"
  shows "\<exists>n' st' ess. main_loop E fns Conn (ns @ [x]) params prev st = (n', Returned 0, st')
     \<and> list_all2 installs ms ess
     \<and> events st' = events st @ concat ess @ [Notify 222 (bytes_of ''DirectPackageInstaller Exited'')]
     \<and> files n' = fold store_icon ms (files prev) \<and> open_fds n' = open_fds prev"
  using assms(1)
proof (induction arbitrary: params prev st rule: list_all2_induct)
  case Nil
  then show ?case
    using round_exits [of "next_net prev x" fns E Conn params st] assms(2,4) by auto
next
  case (Cons m ms n ns)
  obtain n1 st1 es where r: "main_round E fns Conn params (next_net prev n) st = Continue (filled_params params (m_size m)) n1 st1"
     "events st1 = events st @ es" "installs m es" "files n1 = store_icon m (files prev)" "open_fds n1 = open_fds prev"
    using round_installs [of m "next_net prev n" E fns Conn params st] Cons.hyps(1) assms(3,4) by auto
  obtain n' st' ess where "main_loop E fns Conn (ns @ [x]) (filled_params params (m_size m)) n1 st1 = (n', Returned 0, st')"
     "list_all2 installs ms ess"
     "events st' = events st1 @ concat ess @ [Notify 222 (bytes_of ''DirectPackageInstaller Exited'')]"
     "files n' = fold store_icon ms (files n1)" "open_fds n' = open_fds n1"
    using Cons.IH [of "filled_params params (m_size m)" n1 st1] by blast
  then show ?case using r by (auto intro!: exI [of _ "es # ess"])
qed
section \<open>How the payload ends\<close>

definition exit_text :: "u8 list" where
  "exit_text = bytes_of ''DirectPackageInstaller Exited''"

text \<open>A result of \<open>main\<close> comes with a last notification: the exit text for 0, an error text for -1.\<close>

definition reported :: "outcome \<Rightarrow> event list \<Rightarrow> bool" where
  "reported r es = (case r of
       Returned v \<Rightarrow> es \<noteq> [] \<and> (v = 0 \<and> last es = Notify 222 exit_text
          \<or> v = -1 \<and> (\<exists>txt. last es = Notify 222 txt \<and> take 4 txt = bytes_of ''DPI:''))
     | _ \<Rightarrow> True)"

lemma fail_with_reported:
  assumes "0 \<notin> set (bytes_of prefix)" and "length prefix < 500" and "take 4 (bytes_of prefix) = bytes_of ''DPI:''"
  shows "reported (fst (fail_with E fns prefix rv st)) (events (snd (fail_with E fns prefix rv st)))"
proof -
  obtain err where err: "error_text prefix rv = Some err" "c_str err = error_string prefix rv"
    using error_text_eq [OF assms(1,2)] by blast
  have "length (bytes_of ''DPI:'') = 4" by (simp add: bytes_of_def)
  then have "4 \<le> length (bytes_of prefix)" using assms(3) by (metis min_def length_take linorder_le_cases)
  then have "take 4 (error_string prefix rv) = bytes_of ''DPI:''" using assms(3) by (simp add: error_string_def)
  then show ?thesis
    using err by (auto simp: fail_with_def reported_def notify_def split: sum.split dest!: call_cases)
qed

lemma dpi_prefixes:
  "0 \<notin> set (bytes_of ''DPI: BGFT Error '')" "take 4 (bytes_of ''DPI: BGFT Error '') = bytes_of ''DPI:''"
  "0 \<notin> set (bytes_of ''DPI: App Inst Util Error '')" "take 4 (bytes_of ''DPI: App Inst Util Error '') = bytes_of ''DPI:''"
  "0 \<notin> set (bytes_of ''DPI: BGFT Init Failed '')" "take 4 (bytes_of ''DPI: BGFT Init Failed '') = bytes_of ''DPI:''"
  "take 4 (bytes_of ''DPI: GET INFO ERROR'') = bytes_of ''DPI:''"
  by code_simp+

definition verdict_reported :: "'w verdict \<Rightarrow> bool" where
  "verdict_reported v = (case v of Continue p n st \<Rightarrow> True | Stop n h \<Rightarrow> reported (fst h) (events (snd h)))"

lemma verdict_reported_simps:
  "verdict_reported (continue_with p n (call fp f ev st))"
  "verdict_reported (stop_with (-1) n (notify E fns (bytes_of ''DPI: GET INFO ERROR'') st))"
  "verdict_reported (stop_with 0 n (notify E fns (bytes_of ''DirectPackageInstaller Exited'') st))"
  by (auto simp: verdict_reported_def continue_with_def stop_with_def notify_def reported_def exit_text_def dpi_prefixes
      split: sum.split dest!: call_cases)

lemma handle_error_reported: "verdict_reported (handle_error E fns rv params n st)"
  using fail_with_reported [of "''DPI: BGFT Error ''" E fns rv st]
  by (auto simp: handle_error_def notify_def verdict_reported_simps) (simp add: verdict_reported_def dpi_prefixes)

lemma stop_call_reported: "call fp f ev st = Inl h \<Longrightarrow> verdict_reported (Stop n h)"
  by (auto simp: verdict_reported_def reported_def dest!: call_Inl)

lemma main_round_reported: "verdict_reported (main_round E fns Conn params n st)"
proof -
  have "verdict_reported (register_and_start E fns p fr n' st)" for p fr n'
    by (auto simp: register_and_start_def start_task_def verdict_reported_simps handle_error_reported
        split: sum.split prod.split dest: stop_call_reported)
  then show ?thesis
    by (auto simp: main_round_def verdict_reported_simps split: option.split)
      (simp add: verdict_reported_def reported_def)
qed

lemma main_loop_reported:
  "main_loop E fns Conn ns params prev st = (n', r, st') \<Longrightarrow> reported r (events st')"
proof (induction ns arbitrary: params prev st)
  case Nil
  then show ?case by (auto simp: reported_def)
next
  case (Cons n ns)
  then show ?case
    using main_round_reported [of E fns Conn params "next_net prev n" st]
    by (auto simp: verdict_reported_def split: verdict.splits)
qed

lemma startup_reported: "startup D mi E fns st = Inl h \<Longrightarrow> reported (fst h) (events (snd h))"
proof -
  have A: "reported (fst h) (events (snd h))" if "user_of_foreground E fns st = Inl h" for st
    using that by (auto simp: user_of_foreground_def call_def reported_def split: if_splits prod.splits)
  have B: "reported (fst h) (events (snd h))" if "init_installer D mi E fns st = Inl h" for st
    using that fail_with_reported [of "''DPI: App Inst Util Error ''" E fns]
    by (auto simp: init_installer_def call_def reported_def dpi_prefixes split: if_splits prod.splits)
  have C: "reported (fst h) (events (snd h))" if "init_bgft E fns st = Inl h" for st
    using that fail_with_reported [of "''DPI: BGFT Init Failed ''" E fns]
    by (auto simp: init_bgft_def call_def reported_def dpi_prefixes split: if_splits prod.splits)
  assume s: "startup D mi E fns st = Inl h"
  show ?thesis
  proof (cases "user_of_foreground E fns st")
    case (Inl x)
    then show ?thesis using A [of st] s by (simp add: startup_def)
  next
    case (Inr y)
    then have s1: "and_then (init_installer D mi E fns (snd y)) (\<lambda>st. and_then (init_bgft E fns st) (\<lambda>st. Inr (fst y, st))) = Inl h"
      using s by (simp add: startup_def split: prod.splits)
    then show ?thesis
      using B [of "snd y"] C by (cases "init_installer D mi E fns (snd y)"; cases "init_bgft E fns (projr (init_installer D mi E fns (snd y)))") auto
  qed
qed

lemma payload_main_reported:
  "payload_main L cred D mi E Conn nets net0 s w = (s', n', r, st') \<Longrightarrow> reported r (events st')"
  using startup_reported main_loop_reported
  by (fastforce simp: payload_main_def reported_def [of Hung] split: option.splits prod.splits sum.splits)

section \<open>The credentials of the payload\<close>

definition payload_cred :: "u64 \<Rightarrow> u64 \<Rightarrow> jbc_cred" where
  "payload_cred pr vn = (escalated_cred pr vn)\<lparr>jdir := 0, sceProcType := 0x3800000000000010,
     sonyCred := 0x40001c0000000000, sceProcCap := 0x900000000000ff00\<rparr>"

lemma escalate_puts:
  "cred_at (mem s) a = escalated_cred pr vn \<Longrightarrow>
   cred_at (mem (put64 (a + 72) 0x900000000000ff00 (put64 (a + 64) 0x40001c0000000000
     (put64 (a + 56) 0x3800000000000010 (put64 (a + 48) 0 s))))) a = payload_cred pr vn"
  by (simp add: cred_at_def put64_def mem_simps payload_cred_def escalated_cred_def)

lemma main_escalate_lemma:
  assumes r: "krw_ready s" and p: "proc_ok s" and j: "jb_ready L s pr vn"
    and a: "user_range cred 80" "apart (addr_ans (cfg s)) 8 cred 80"
      "apart cred 80 (addr_prison0 L) 8" "apart cred 80 (addr_rootvnode L) 8"
  shows "\<exists>s'. main_escalate L cred s = Some s' \<and> krw_ready s' \<and> proc_ok s' \<and> proc_cred s' = payload_cred pr vn"
proof -
  obtain s1 s2 where 1: "jbc_get_cred cred s = (0, s1)" "jbc_jailbreak_cred L cred s1 = Some (0, s2)" "krw_ready s2"
     "proc_ok s2" "cred_at (mem s2) cred = escalated_cred pr vn" "addr_ans (cfg s2) = addr_ans (cfg s)"
    using escalate_lemma [OF assms] by blast
  define t where "t = put64 (cred + 72) 0x900000000000ff00 (put64 (cred + 64) 0x40001c0000000000
     (put64 (cred + 56) 0x3800000000000010 (put64 (cred + 48) 0 s2)))"
  have t: "krw_ready t" "cfg t = cfg s2" "cred_at (mem t) cred = payload_cred pr vn"
    using 1(3) escalate_puts [OF 1(5)] by (simp_all add: t_def)
  have "kernel_same (mem s2) (mem t)"
    by (rule kernel_same_user [OF a(1)]) (simp add: t_def put_outside)
  then have "proc_ok t"
    using proc_stable(4) [OF 1(4,3), of t] t(2) by (auto simp: kernel_same_def)
  from set_cred_stable [OF t(1) this a(1)] obtain s3 where
    "jbc_set_cred cred t = (0, s3)" "krw_ready s3" "proc_ok s3" "proc_cred s3 = cred_at (mem t) cred"
    using a(2) 1(6) t(2) by auto
  then show ?thesis
    using 1(1,2) t(3) by (simp add: main_escalate_def Let_def t_def)
qed

section \<open>Start-up succeeds\<close>

definition payload_symbols :: "u8 list list" where
  "payload_symbols = map lit [''sceSysUtilSendSystemNotificationWithText'', ''sceUserServiceInitialize'',
     ''sceUserServiceGetForegroundUser'', ''sceUserServiceTerminate'', ''sceBgftServiceIntInit'',
     ''sceBgftServiceDownloadRegisterTask'', ''sceBgftServiceIntDebugDownloadRegisterPkg'',
     ''sceBgftServiceIntDownloadStartTask'', ''sceBgftFinalize'', ''sceAppInstUtilInitialize'']"

text \<open>The loader knows the payload's symbols; the services initialise (the transfer service may
  report that it is already initialised).\<close>

definition symbols_found :: "'w loader \<Rightarrow> bool" where
  "symbols_found D \<longleftrightarrow> (\<forall>h nm w. nm \<in> set payload_symbols \<longrightarrow> fst (dlsym D h nm w) \<noteq> 0)"

definition services_up :: "'w sce \<Rightarrow> bool" where
  "services_up E \<longleftrightarrow> (\<forall>w. fst (sce_appinst_init E w) = 0) \<and> (\<forall>p w. fst (sce_bgft_init E p w) \<in> {0, 0x80990001})"

definition fns_found :: "sce_fns \<Rightarrow> bool" where
  "fns_found fns \<longleftrightarrow> sceSysUtilSendSystemNotificationWithText fns \<noteq> 0 \<and> sceUserServiceInitialize fns \<noteq> 0
     \<and> sceUserServiceGetForegroundUser fns \<noteq> 0 \<and> sceUserServiceTerminate fns \<noteq> 0 \<and> sceBgftInitialize fns \<noteq> 0
     \<and> sceBgftDownloadRegisterTask fns \<noteq> 0 \<and> sceBgftDebugDownloadRegisterTask fns \<noteq> 0 \<and> sceBgftDownloadStartTask fns \<noteq> 0"

lemma dlsym_found: "symbols_found D \<Longrightarrow> dlsym D h nm w = (a, w') \<Longrightarrow> nm \<in> set payload_symbols \<Longrightarrow> a \<noteq> 0"
  unfolding symbols_found_def by (metis fst_conv)

lemma load_functions_found:
  assumes "symbols_found D" and "load_functions D mi w = (fns, w')"
  shows "fns_found fns"
  using assms(2) dlsym_found [OF assms(1)]
  by (auto simp: load_functions_def fns_found_def payload_symbols_def split: prod.splits)

lemma startup_succeeds:
  assumes "symbols_found D" and "services_up E" and "fns_found fns"
  shows "\<exists>user st'. startup D mi E fns st = Inr (user, st')"
proof -
  have "\<exists>user st1. user_of_foreground E fns st = Inr (user, st1)"
    using assms(3) by (simp add: user_of_foreground_def call_ok_eq fns_found_def split: prod.split)
  then obtain user st1 where u: "user_of_foreground E fns st = Inr (user, st1)" by blast
  have "\<exists>st2. init_installer D mi E fns st1 = Inr st2"
    using assms(1,2) dlsym_found [OF assms(1)]
    by (auto simp: init_installer_def call_ok_eq services_up_def payload_symbols_def split: prod.split)
  then obtain st2 where i: "init_installer D mi E fns st1 = Inr st2" by blast
  have "\<exists>st3. init_bgft E fns st2 = Inr st3"
    using assms(2,3) by (auto simp: init_bgft_def call_ok_eq services_up_def fns_found_def split: prod.split)
  then show ?thesis using u i by (auto simp: startup_def)
qed

section \<open>Properties\<close>

text \<open>The services of the examples: registering gives task 7 for packages of at least 64 KiB and the
  code for "already installed" for smaller ones.\<close>

definition demo_sce :: "'w sce" where
  "demo_sce = \<lparr>sce_notify = (\<lambda>k t w. (0, w)), sce_user_init = (\<lambda>p w. (0, w)), sce_user_get = (\<lambda>u w. ((0, 0x10000000), w)),
     sce_user_term = (\<lambda>w. (0, w)), sce_appinst_init = (\<lambda>w. (0, w)), sce_bgft_init = (\<lambda>p w. (0x80990001, w)),
     sce_register = (\<lambda>p fr t w. if package_size p < 0x10000 then ((0x80990088, -1), w) else ((0, 7), w)),
     sce_debug_register = (\<lambda>p fr t w. ((0x80990088, -1), w)), sce_start = (\<lambda>t w. (0, w)),
     sce_mmap = (\<lambda>n w. (0x200000, w))\<rparr>"

text \<open>The same, with every package accepted, and a loader that has everything.\<close>

definition open_sce :: "'w sce" where
  "open_sce = demo_sce\<lparr>sce_register := (\<lambda>p fr t w. ((0, 7), w))\<rparr>"

definition full_loader :: "nat loader" where
  "full_loader = \<lparr>dynlib_load_prx = (\<lambda>p a h f w. (0, 5, Suc w)), dynlib_get_info_ex = (\<lambda>h f mi w. (0, mi, w)),
     dynlib_dlsym = (\<lambda>h n a w. (0, 0x5000, w)), run_init = (\<lambda>a n d v w. w)\<rparr>"

definition demo_fns :: sce_fns where
  "demo_fns = \<lparr>sceSysUtilSendSystemNotificationWithText = 1, sceUserServiceInitialize = 2, sceUserServiceGetForegroundUser = 3,
     sceUserServiceTerminate = 4, sceBgftInitialize = 5, sceBgftDownloadRegisterTask = 6, sceBgftDebugDownloadRegisterTask = 7,
     sceBgftDownloadStartTask = 8, sceBgftFinalize = 9\<rparr>"

definition pkg_net :: net where
  "pkg_net = sample_net\<lparr>rx := [Data (pkg_info_header sample_msg @ [1]), Data [2, 3], Data [4, 5]]\<rparr>"

definition exit_net :: net where
  "exit_net = sample_net\<lparr>rx := [Data exit_buffer]\<rparr>"

lemma demo_serves: "serves_pkg sample_msg pkg_net" "serves_exit exit_net" "accepts open_sce" "loop_fns_ok demo_fns"
proof -
  have "msg_fits sample_msg" by (simp add: msg_fits_def sample_msg_def bytes_of_def)
  then show "serves_pkg sample_msg pkg_net"
    by (auto simp: serves_pkg_def pkg_net_def sample_net_def sample_msg_def intro!: exI [of _ "[1]"])
qed (simp_all add: serves_exit_def exit_net_def sample_net_def accepts_def open_sce_def demo_sce_def loop_fns_ok_def demo_fns_def
      BGFT_INVALID_TASK_ID_def)

lemma full_loader_found: "symbols_found full_loader"
  by (simp add: symbols_found_def dlsym_def full_loader_def)

lemma open_sce_up: "services_up open_sce"
  by (simp add: services_up_def open_sce_def demo_sce_def)

lemma demo_apart:
  "apart 0x7f0000002000 80 (addr_prison0 demo_layout) 8" "apart 0x7f0000002000 80 (addr_rootvnode demo_layout) 8"
  by (simp_all add: demo_layout_def user_range_def user_apart)

lemma payload_session_lemma:
  assumes "krw_ready s" and "proc_ok s" and "jb_ready L s pr vn"
    and "user_range cred 80" and "apart (addr_ans (cfg s)) 8 cred 80"
    and "apart cred 80 (addr_prison0 L) 8" and "apart cred 80 (addr_rootvnode L) 8"
    and "symbols_found D" and "services_up E" and "accepts E"
    and "list_all2 serves_pkg ms ns" and "serves_exit x"
  shows "\<exists>s' n' st' es0 ess. payload_main L cred D mi E Conn (ns @ [x]) net0 s w = (s', n', Returned 0, st')
     \<and> proc_cred s' = payload_cred pr vn
     \<and> list_all2 installs ms ess
     \<and> events st' = es0 @ concat ess @ [Notify 222 (bytes_of ''DirectPackageInstaller Exited'')]
     \<and> files n' = fold store_icon ms (files net0) \<and> open_fds n' = open_fds net0"
proof -
  obtain s' where s': "main_escalate L cred s = Some s'" "proc_cred s' = payload_cred pr vn"
    using main_escalate_lemma [OF assms(1-7)] by blast
  obtain fns w' where l: "load_functions D mi w = (fns, w')" by fastforce
  have f: "fns_found fns" using load_functions_found [OF assms(8) l] .
  obtain user st0 where u: "startup D mi E fns \<lparr>pw = w', events = []\<rparr> = Inr (user, st0)"
    using startup_succeeds [OF assms(8,9) f] by blast
  have "loop_fns_ok fns" using f by (simp add: fns_found_def loop_fns_ok_def)
  from session_lemma [OF assms(11,12,10) this] obtain n' st' ess where
    "main_loop E fns Conn (ns @ [x]) (initial_params user) net0 st0 = (n', Returned 0, st')" "list_all2 installs ms ess"
    "events st' = events st0 @ concat ess @ [Notify 222 (bytes_of ''DirectPackageInstaller Exited'')]"
    "files n' = fold store_icon ms (files net0)" "open_fds n' = open_fds net0"
    by blast
  then show ?thesis using s' l u by (auto simp: payload_main_def)
qed



text \<open>C7. For every environment and every host: a task is only ever started directly after a
  registration that returned that task, a valid one, and did not answer "already installed".\<close>

theorem payload_main_starts_granted:
  "starts_ok (events (snd (snd (snd (payload_main L cred D mi E Conn nets net0 s w)))))"
  by (rule payload_main_starts)

text \<open>C10. \<open>main\<close> returns only 0 or -1, and never silently: before 0 the last call is the exit
  notification, before -1 it is an error notification.\<close>

theorem payload_main_reports:
  assumes "payload_main L cred D mi E Conn nets net0 s w = (s', n', Returned v, st')"
  shows "v = 0 \<and> events st' \<noteq> [] \<and> last (events st') = Notify 222 exit_text
    \<or> v = -1 \<and> events st' \<noteq> [] \<and> (\<exists>txt. last (events st') = Notify 222 txt \<and> take 4 txt = bytes_of ''DPI:'')"
  using payload_main_reported [OF assms] by (auto simp: reported_def)

theorem payload_main_reports_witness:
  "\<exists>s' n' v st'. payload_main demo_layout 0x7f0000002000 full_loader blank_info open_sce Connection_unpatched
        [exit_net] sample_net demo 0 = (s', n', Returned v, st') \<and> (v = 0 \<or> v = -1) \<and> events st' \<noteq> []"
proof -
  have "list_all2 serves_pkg [] []" by simp
  from payload_session_lemma [OF demo_ready demo_proc_ok demo_jb_ready demo_ans demo_apart full_loader_found open_sce_up
      demo_serves(3) this demo_serves(2), of blank_info Connection_unpatched sample_net 0]
  obtain s' n' st' where r: "payload_main demo_layout 0x7f0000002000 full_loader blank_info open_sce Connection_unpatched
        [exit_net] sample_net demo 0 = (s', n', Returned 0, st')"
    by auto
  show ?thesis using payload_main_reports [OF r] r by blast
qed

text \<open>The escalation \<open>main\<close> starts with returns and leaves the process with root's ids, init's
  prison, the root directory, no jail directory and the payload's capabilities.\<close>

lemma main_escalate_sets_cred:
  assumes "krw_ready s" and "proc_ok s" and "jb_ready L s pr vn"
    and "user_range cred 80" and "apart (addr_ans (cfg s)) 8 cred 80"
    and "apart cred 80 (addr_prison0 L) 8" and "apart cred 80 (addr_rootvnode L) 8"
  shows "\<exists>s'. main_escalate L cred s = Some s' \<and> krw_ready s' \<and> proc_ok s' \<and> proc_cred s' = payload_cred pr vn"
  using assms by (rule main_escalate_lemma)

lemma main_escalate_sets_cred_witness:
  "\<exists>s'. main_escalate demo_layout 0x7f0000002000 demo = Some s' \<and> krw_ready s' \<and> proc_ok s'
     \<and> proc_cred s' = payload_cred 0xffffffff81234560 0xffff900000008000"
  by (rule main_escalate_sets_cred [OF demo_ready demo_proc_ok demo_jb_ready demo_ans])
    (simp_all add: demo_layout_def user_range_def user_apart)

text \<open>A registration answered "already installed" by both services starts nothing: one
  notification, and the loop goes on with the next connection.\<close>

lemma already_installed_continues:
  assumes "loop_fns_ok fns" and "sce_register E params fr BGFT_INVALID_TASK_ID (pw st) = ((0x80990088, t1), w1)"
    and "sce_debug_register E params fr t1 w1 = ((0x80990088, t2), w2)"
  shows "\<exists>st'. register_and_start E fns params fr n st = Continue params n st'
     \<and> events st' = events st @ [RegisterTask params fr 0x80990088 t1, DebugRegisterTask params fr 0x80990088 t2,
          Notify 222 (bytes_of ''DPI: Package Already Installed!'')]"
  using assms by (auto simp: register_and_start_def call_ok_eq loop_fns_ok_def handle_error_def continue_with_def notify_def)

lemma already_installed_continues_witness:
  "\<exists>st'. register_and_start demo_sce demo_fns blank_params fresh_frame sample_net \<lparr>pw = (), events = []\<rparr>
       = Continue blank_params sample_net st'
     \<and> events st' = [RegisterTask blank_params fresh_frame 0x80990088 (-1),
          DebugRegisterTask blank_params fresh_frame 0x80990088 (-1), Notify 222 (bytes_of ''DPI: Package Already Installed!'')]"
  using already_installed_continues [OF demo_serves(4), of demo_sce blank_params fresh_frame "\<lparr>pw = (), events = []\<rparr>" "-1" "()" "-1" "()"
      sample_net]
  by (simp add: demo_sce_def blank_params_def)

text \<open>An error number the payload does not know ends it with -1, and the notification shows the
  number: "DPI: BGFT Error 0x" and eight digits whose value is the number.\<close>

lemma unknown_error_reported:
  assumes "loop_fns_ok fns" and "rv \<notin> {0x80990086, 0x80990088, 0x80990039, 0x80A30026, 0x80990085}"
  shows "\<exists>st'. handle_error E fns rv params n st = Stop n (Returned (-1), st')
     \<and> events st' = events st @ [Notify 222 (bytes_of ''DPI: BGFT Error 0x'' @ hex_digits rv)]
     \<and> foldl (\<lambda>a c. 16 * a + hex_value c) 0 (hex_digits rv) = unat rv"
proof -
  obtain err where "error_text ''DPI: BGFT Error '' rv = Some err" "c_str err = error_string ''DPI: BGFT Error '' rv"
    using error_text_eq [of "''DPI: BGFT Error ''" rv] dpi_prefixes(1) by auto
  moreover have "error_string ''DPI: BGFT Error '' rv = bytes_of ''DPI: BGFT Error 0x'' @ hex_digits rv"
    by (simp add: error_string_def bytes_of_def)
  ultimately show ?thesis
    using assms hex_digits_value by (simp add: handle_error_def fail_with_def notify_def call_ok_eq loop_fns_ok_def)
qed

lemma unknown_error_reported_witness:
  "\<exists>st'. handle_error demo_sce demo_fns 0x80990015 blank_params sample_net \<lparr>pw = (), events = []\<rparr> = Stop sample_net (Returned (-1), st')
     \<and> events st' = [Notify 222 (bytes_of ''DPI: BGFT Error 0x80990015'')]"
proof -
  have "bytes_of ''DPI: BGFT Error 0x'' @ hex_digits 0x80990015 = bytes_of ''DPI: BGFT Error 0x80990015''" by code_simp
  then show ?thesis
    using unknown_error_reported [OF demo_serves(4), of "0x80990015" demo_sce blank_params sample_net "\<lparr>pw = (), events = []\<rparr>"]
    by auto
qed

text \<open>Nothing checks the pointers \<open>dlsym\<close> gives: if the user service could not be loaded, the
  payload calls through a null pointer before it has made any other call.\<close>

lemma missing_library_faults:
  assumes "main_escalate L cred s = Some s'" and "load_functions D mi w = (fns, w')" and "sceUserServiceInitialize fns = 0"
  shows "payload_main L cred D mi E Conn nets net0 s w = (s', net0, Fault, \<lparr>pw = w', events = []\<rparr>)"
  using assms by (simp add: payload_main_def startup_def user_of_foreground_def call_def)

lemma missing_library_faults_witness:
  "\<exists>s' w'. payload_main demo_layout 0x7f0000002000 one_module blank_info demo_sce Connection_unpatched [pkg_net] sample_net demo (0, 0)
     = (s', sample_net, Fault, \<lparr>pw = w', events = []\<rparr>)"
proof -
  obtain s' where s: "main_escalate demo_layout 0x7f0000002000 demo = Some s'"
    using main_escalate_lemma [OF demo_ready demo_proc_ok demo_jb_ready demo_ans demo_apart] by blast
  obtain fns w' where l: "load_functions one_module blank_info (0, 0) = (fns, w')"
    by (cases "load_functions one_module blank_info (0, 0)")
  have z: "fst (dlsym one_module h (lit ''sceUserServiceInitialize'') w) = 0" for h w
    by (simp add: dlsym_def one_module_def lit_def bytes_of_def)
  then have "sceUserServiceInitialize fns = 0"
    using l by (auto simp: load_functions_def split: prod.splits) (metis fst_conv)
  then show ?thesis using missing_library_faults [OF s l] by blast
qed

end
