(* ===== verification/Sys_Queue.thy ===== *)
theory Sys_Queue
  imports DPI_Prelude
begin

text \<open>
  The list macros of \<^verbatim>\<open>sys/queue.h\<close>, the interface through which the kernel links its
  processes, threads and sockets (the process list that \<^verbatim>\<open>ps4-libjbc/jailbreak.c\<close> walks
  is one of them). Memory is taken at the granularity of pointers: a cell is an
  aligned 8-byte pointer, named by its address. An element \<open>e\<close> whose link field has
  offset \<open>f\<close> has its \<^verbatim>\<open>next\<close> cell at \<open>e + f\<close> and, in the doubly linked lists, its
  \<^verbatim>\<open>prev\<close> cell 8 bytes further; a head has \<^verbatim>\<open>first\<close> at its own address and, in the
  tail queues, \<^verbatim>\<open>last\<close> at offset 8. A macro is a function on the memory that writes
  the cells in the order of the source. \<^term>\<open>None\<close> is an access through a null
  pointer, or a loop that does not end.

  The specification is a HOL list: each macro is shown to do to the list that the
  memory represents what its name says. The macros are taken as compiled without
  \<^verbatim>\<open>QUEUE_MACRO_DEBUG\<close>, where \<^verbatim>\<open>TRASHIT\<close> and the traces are empty; the checks of a
  kernel built with \<^verbatim>\<open>INVARIANTS\<close> are predicates, shown to hold.
\<close>

type_synonym cells = "u64 \<Rightarrow> u64"

named_theorems link_simps \<open>walks over linked cells\<close>

section \<open>Cells and walks\<close>

definition next_cell :: "u64 \<Rightarrow> u64 \<Rightarrow> u64" where
  "next_cell f e = e + f"

definition prev_cell :: "u64 \<Rightarrow> u64 \<Rightarrow> u64" where
  "prev_cell f e = e + f + 8"

definition last_field :: "u64 \<Rightarrow> u64" where
  "last_field h = h + 8"

lemma next_cell_inj [simp]: "next_cell f x = next_cell f y \<longleftrightarrow> x = y"
  by (simp add: next_cell_def)

lemma prev_cell_inj [simp]: "prev_cell f x = prev_cell f y \<longleftrightarrow> x = y"
  by (simp add: prev_cell_def)

lemma next_cell_image [simp]: "next_cell f x \<in> next_cell f ` A \<longleftrightarrow> x \<in> A"
  by auto

lemma prev_cell_image [simp]: "prev_cell f x \<in> prev_cell f ` A \<longleftrightarrow> x \<in> A"
  by auto

lemma next_prev_same [simp]:
  "next_cell f x \<noteq> prev_cell f x" "prev_cell f x \<noteq> next_cell f x"
  by (simp_all add: next_cell_def prev_cell_def)

lemma last_field_neq [simp]: "last_field h \<noteq> h" "h \<noteq> last_field h"
  by (simp_all add: last_field_def)

lemma next_cell_last_field [simp]: "next_cell f x = last_field h \<longleftrightarrow> last_field h = next_cell f x"
  by auto

lemma prev_cell_last_field [simp]: "prev_cell f x = last_field h \<longleftrightarrow> last_field h = prev_cell f x"
  by auto

lemma prev_cell_next_cell [simp]: "prev_cell f x = next_cell f y \<longleftrightarrow> next_cell f y = prev_cell f x"
  by auto

lemma last_field_next [simp]: "last_field (next_cell f e) = prev_cell f e"
  by (simp add: last_field_def next_cell_def prev_cell_def)

text \<open>
  \<open>chain f s p es v\<close>: following the pointers from the cell \<open>p\<close> on visits the elements
  \<open>es\<close>, and the last cell of the walk, \<open>last_cell f p es\<close>, holds \<open>v\<close>;
  \<open>backs f s p es\<close>: each element's \<^verbatim>\<open>prev\<close> cell holds the address of the cell that
  points to it.
\<close>

primrec last_cell :: "u64 \<Rightarrow> u64 \<Rightarrow> u64 list \<Rightarrow> u64" where
  "last_cell f p [] = p"
| "last_cell f p (e # es) = last_cell f (next_cell f e) es"

primrec chain :: "u64 \<Rightarrow> cells \<Rightarrow> u64 \<Rightarrow> u64 list \<Rightarrow> u64 \<Rightarrow> bool" where
  "chain f s p [] v = (s p = v)"
| "chain f s p (e # es) v = (s p = e \<and> chain f s (next_cell f e) es v)"

primrec backs :: "u64 \<Rightarrow> cells \<Rightarrow> u64 \<Rightarrow> u64 list \<Rightarrow> bool" where
  "backs f s p [] = True"
| "backs f s p (e # es) = (s (prev_cell f e) = p \<and> backs f s (next_cell f e) es)"

lemma last_cell_append [simp]:
  "last_cell f p (xs @ ys) = last_cell f (last_cell f p xs) ys"
  by (induction xs arbitrary: p) simp_all

lemma chain_append [simp]:
  "chain f s p (xs @ y # ys) v = (chain f s p xs y \<and> chain f s (next_cell f y) ys v)"
  by (induction xs arbitrary: p) simp_all

lemma backs_append [simp]:
  "backs f s p (xs @ ys) = (backs f s p xs \<and> backs f s (last_cell f p xs) ys)"
  by (induction xs arbitrary: p) simp_all

lemma last_cell_eq: "last_cell f p es = (if es = [] then p else next_cell f (last es))"
  by (induction es arbitrary: p) simp_all

lemma chain_last: "chain f s p es v \<Longrightarrow> s (last_cell f p es) = v"
  by (induction es arbitrary: p) simp_all

lemma chain_start: "chain f s p es v \<Longrightarrow> s p = (case es of [] \<Rightarrow> v | e # _ \<Rightarrow> e)"
  by (cases es) simp_all

text \<open>The three frame rules: what a walk reads, and the change of its last cell.\<close>

lemma chain_move:
  "chain f s p es v \<Longrightarrow> s' q = s p \<Longrightarrow> (\<And>x. x \<in> set es \<Longrightarrow> s' (next_cell f x) = s (next_cell f x)) \<Longrightarrow>
     chain f s' q es v"
  by (induction es arbitrary: p q) simp_all

lemma backs_move:
  "backs f s p es \<Longrightarrow> (\<And>x. x \<in> set es \<Longrightarrow> s' (prev_cell f x) = s (prev_cell f x)) \<Longrightarrow>
     backs f s' p es"
  by (induction es arbitrary: p) simp_all

lemma chain_redirect:
  "chain f s p es v \<Longrightarrow> distinct es \<Longrightarrow> p \<notin> next_cell f ` set es \<Longrightarrow> s' (last_cell f p es) = w \<Longrightarrow>
     (\<And>c. c \<noteq> last_cell f p es \<Longrightarrow> c = p \<or> c \<in> next_cell f ` set es \<Longrightarrow> s' c = s c) \<Longrightarrow>
     chain f s' p es w"
proof (induction es arbitrary: p)
  case (Cons e es)
  have "last_cell f p (e # es) \<noteq> p" using Cons.prems(3) by (auto simp: last_cell_eq)
  then show ?case using Cons by auto
qed simp

text \<open>
  The cells in use do not overlap: \<open>hs\<close> are the head cells, \<open>es\<close> the elements, with
  their \<^verbatim>\<open>next\<close> cells only (\<open>places\<close>) or with both cells (\<open>places2\<close>). This is what
  the C code gets from alignment and from the elements being distinct objects.
\<close>

definition places :: "u64 \<Rightarrow> u64 list \<Rightarrow> u64 list \<Rightarrow> bool" where
  "places f hs es \<longleftrightarrow> distinct hs \<and> distinct es \<and> 0 \<notin> set es \<and>
     (\<forall>h \<in> set hs. h \<notin> next_cell f ` set es)"

definition places2 :: "u64 \<Rightarrow> u64 list \<Rightarrow> u64 list \<Rightarrow> bool" where
  "places2 f hs es \<longleftrightarrow> places f hs es \<and> (\<forall>h \<in> set hs. h \<notin> prev_cell f ` set es) \<and>
     (\<forall>x \<in> set es. \<forall>y \<in> set es. next_cell f x \<noteq> prev_cell f y)"

lemma image_neqD:
  "h \<notin> g ` A \<Longrightarrow> x \<in> A \<Longrightarrow> h \<noteq> g x" "h \<notin> g ` A \<Longrightarrow> x \<in> A \<Longrightarrow> g x \<noteq> h"
  by auto

section \<open>Traversal\<close>

text \<open>
  The loop of all the \<^verbatim>\<open>FOREACH\<close> macros, as the list of the elements visited
  (\<^verbatim>\<open>FOREACH_SAFE\<close> reads the successor before the body, here the same value).
\<close>

partial_function (option) foreach_loop :: "u64 \<Rightarrow> cells \<Rightarrow> u64 \<Rightarrow> u64 list option" where
  "foreach_loop f s v =
     (if v = 0 then Some []
      else do { vs \<leftarrow> foreach_loop f s (s (next_cell f v)); Some (v # vs) })"

lemma foreach_loop_chain:
  "chain f s p es 0 \<Longrightarrow> 0 \<notin> set es \<Longrightarrow> foreach_loop f s (s p) = Some es"
  by (induction es arbitrary: p) (simp_all add: foreach_loop.simps)

text \<open>
  The search loop of the singly linked \<^verbatim>\<open>REMOVE\<close> macros:
  \<^verbatim>\<open>while (NEXT(curelm) != elm) curelm = NEXT(curelm)\<close>.
\<close>

partial_function (option) find_pred :: "u64 \<Rightarrow> cells \<Rightarrow> u64 \<Rightarrow> u64 \<Rightarrow> u64 option" where
  "find_pred f s elm curelm =
     (if curelm = 0 then None
      else if s (next_cell f curelm) \<noteq> elm then find_pred f s elm (s (next_cell f curelm))
      else Some curelm)"

lemma find_pred_chain:
  "chain f s p (xs @ [y]) elm \<Longrightarrow> 0 \<notin> set (xs @ [y]) \<Longrightarrow> elm \<notin> set (xs @ [y]) \<Longrightarrow>
     find_pred f s elm (s p) = Some y"
proof (induction xs arbitrary: p)
  case Nil
  then show ?case by (simp add: find_pred.simps)
next
  case (Cons x xs)
  then have "s p = x" "x \<noteq> 0" "s (next_cell f x) = hd (xs @ [y])"
    by (cases xs; simp)+
  moreover have "hd (xs @ [y]) \<noteq> elm"
    using Cons.prems by (cases xs) auto
  ultimately show ?case
    using Cons.IH [of "next_cell f x"] Cons.prems by (simp add: find_pred.simps [of f s elm x])
qed

section \<open>Singly-linked lists\<close>

text \<open>\<^verbatim>\<open>SLIST_HEAD\<close> is one cell, its \<^verbatim>\<open>slh_first\<close>; \<^verbatim>\<open>SLIST_ENTRY\<close> is \<^verbatim>\<open>sle_next\<close>.\<close>

definition slist :: "u64 \<Rightarrow> cells \<Rightarrow> u64 \<Rightarrow> u64 list \<Rightarrow> bool" where
  "slist f s h es \<longleftrightarrow> places f [h] es \<and> chain f s h es 0"

definition SLIST_EMPTY :: "cells \<Rightarrow> u64 \<Rightarrow> bool" where
  "SLIST_EMPTY s h = (s h = 0)"

definition SLIST_FIRST :: "cells \<Rightarrow> u64 \<Rightarrow> u64" where
  "SLIST_FIRST s h = s h"

definition SLIST_NEXT :: "u64 \<Rightarrow> cells \<Rightarrow> u64 \<Rightarrow> u64" where
  "SLIST_NEXT f s e = s (next_cell f e)"

definition SLIST_FOREACH :: "u64 \<Rightarrow> cells \<Rightarrow> u64 \<Rightarrow> u64 list option" where
  "SLIST_FOREACH f s h = foreach_loop f s (SLIST_FIRST s h)"

definition SLIST_INIT :: "u64 \<Rightarrow> cells \<Rightarrow> cells" where
  "SLIST_INIT h s = s(h := 0)"

definition SLIST_INSERT_AFTER :: "u64 \<Rightarrow> u64 \<Rightarrow> u64 \<Rightarrow> cells \<Rightarrow> cells" where
  "SLIST_INSERT_AFTER f slistelm elm s =
     (let s = s(next_cell f elm := s (next_cell f slistelm))
      in s(next_cell f slistelm := elm))"

definition SLIST_INSERT_HEAD :: "u64 \<Rightarrow> u64 \<Rightarrow> u64 \<Rightarrow> cells \<Rightarrow> cells" where
  "SLIST_INSERT_HEAD f h elm s =
     (let s = s(next_cell f elm := s h)
      in s(h := elm))"

definition SLIST_REMOVE_AFTER :: "u64 \<Rightarrow> u64 \<Rightarrow> cells \<Rightarrow> cells option" where
  "SLIST_REMOVE_AFTER f elm s =
     (if s (next_cell f elm) = 0 then None
      else Some (s(next_cell f elm := s (next_cell f (s (next_cell f elm))))))"

definition SLIST_REMOVE_HEAD :: "u64 \<Rightarrow> u64 \<Rightarrow> cells \<Rightarrow> cells option" where
  "SLIST_REMOVE_HEAD f h s =
     (if s h = 0 then None else Some (s(h := s (next_cell f (s h)))))"

definition SLIST_REMOVE :: "u64 \<Rightarrow> u64 \<Rightarrow> u64 \<Rightarrow> cells \<Rightarrow> cells option" where
  "SLIST_REMOVE f h elm s =
     (if s h = elm then SLIST_REMOVE_HEAD f h s
      else do {
        curelm \<leftarrow> find_pred f s elm (s h);
        SLIST_REMOVE_AFTER f curelm s })"

definition SLIST_SWAP :: "u64 \<Rightarrow> u64 \<Rightarrow> cells \<Rightarrow> cells" where
  "SLIST_SWAP h1 h2 s =
     (let swap_first = s h1; s = s(h1 := s h2)
      in s(h2 := swap_first))"

lemma slist_foreach: "slist f s h es \<Longrightarrow> SLIST_FOREACH f s h = Some es"
  by (auto simp: slist_def SLIST_FOREACH_def SLIST_FIRST_def places_def intro: foreach_loop_chain)

lemma slist_init: "slist f (SLIST_INIT h s) h []"
  by (simp add: slist_def SLIST_INIT_def places_def)

lemma slist_empty: "slist f s h es \<Longrightarrow> SLIST_EMPTY s h \<longleftrightarrow> es = []"
  by (cases es) (auto simp: slist_def SLIST_EMPTY_def places_def)

lemma slist_insert_head:
  assumes "slist f s h es" and "places f [h] (e # es)"
  shows "slist f (SLIST_INSERT_HEAD f h e s) h (e # es)"
  using assms
  by (auto simp: slist_def SLIST_INSERT_HEAD_def places_def Let_def elim!: chain_move)

lemma slist_insert_after:
  assumes "slist f s h (xs @ y # ys)" and "places f [h] (xs @ y # e # ys)"
  shows "slist f (SLIST_INSERT_AFTER f y e s) h (xs @ y # e # ys)"
  using assms
  by (auto simp: slist_def SLIST_INSERT_AFTER_def places_def Let_def elim!: chain_move)

lemma slist_remove_head:
  assumes "slist f s h (e # es)"
  shows "\<exists>s'. SLIST_REMOVE_HEAD f h s = Some s' \<and> slist f s' h es"
  using assms
  by (auto simp: slist_def SLIST_REMOVE_HEAD_def places_def elim!: chain_move)

lemma slist_remove_after:
  assumes "slist f s h (xs @ y # e # ys)"
  shows "\<exists>s'. SLIST_REMOVE_AFTER f y s = Some s' \<and> slist f s' h (xs @ y # ys)"
  using assms
  by (auto simp: slist_def SLIST_REMOVE_AFTER_def places_def elim!: chain_move)

lemma slist_remove:
  assumes "slist f s h (xs @ e # ys)"
  shows "\<exists>s'. SLIST_REMOVE f h e s = Some s' \<and> slist f s' h (xs @ ys)"
proof (cases xs rule: rev_cases)
  case Nil
  then show ?thesis using assms slist_remove_head [of f s h e ys]
    by (simp add: SLIST_REMOVE_def slist_def)
next
  case (snoc zs z)
  have "chain f s h (zs @ [z]) e" "0 \<notin> set (zs @ [z])" "e \<notin> set (zs @ [z])"
    using assms by (auto simp: slist_def snoc places_def)
  then have "find_pred f s e (s h) = Some z" by (rule find_pred_chain)
  moreover have "s h \<noteq> e" using assms by (cases zs) (auto simp: slist_def snoc places_def)
  ultimately show ?thesis
    using slist_remove_after [of f s h zs z e ys] assms by (simp add: SLIST_REMOVE_def snoc)
qed

lemma slist_swap:
  assumes "slist f s h1 xs" and "slist f s h2 ys" and "places f [h1, h2] (xs @ ys)"
  shows "slist f (SLIST_SWAP h1 h2 s) h1 ys" and "slist f (SLIST_SWAP h1 h2 s) h2 xs"
  using assms
  by (auto simp: slist_def SLIST_SWAP_def places_def Let_def elim!: chain_move)

section \<open>Singly-linked tail queues\<close>

text \<open>\<^verbatim>\<open>stqh_first\<close> is the head's first cell, \<^verbatim>\<open>stqh_last\<close> its second.\<close>

definition stailq :: "u64 \<Rightarrow> cells \<Rightarrow> u64 \<Rightarrow> u64 list \<Rightarrow> bool" where
  "stailq f s h es \<longleftrightarrow> places f [h, last_field h] es \<and> chain f s h es 0 \<and>
     s (last_field h) = last_cell f h es"

definition STAILQ_EMPTY :: "cells \<Rightarrow> u64 \<Rightarrow> bool" where
  "STAILQ_EMPTY s h = (s h = 0)"

definition STAILQ_FIRST :: "cells \<Rightarrow> u64 \<Rightarrow> u64" where
  "STAILQ_FIRST s h = s h"

definition STAILQ_NEXT :: "u64 \<Rightarrow> cells \<Rightarrow> u64 \<Rightarrow> u64" where
  "STAILQ_NEXT f s e = s (next_cell f e)"

definition STAILQ_FOREACH :: "u64 \<Rightarrow> cells \<Rightarrow> u64 \<Rightarrow> u64 list option" where
  "STAILQ_FOREACH f s h = foreach_loop f s (STAILQ_FIRST s h)"

definition STAILQ_INIT :: "u64 \<Rightarrow> cells \<Rightarrow> cells" where
  "STAILQ_INIT h s = (let s = s(h := 0) in s(last_field h := h))"

definition STAILQ_CONCAT :: "u64 \<Rightarrow> u64 \<Rightarrow> cells \<Rightarrow> cells" where
  "STAILQ_CONCAT h1 h2 s =
     (if \<not> STAILQ_EMPTY s h2
      then (let s = s(s (last_field h1) := s h2);
                s = s(last_field h1 := s (last_field h2))
            in STAILQ_INIT h2 s)
      else s)"

definition STAILQ_INSERT_AFTER :: "u64 \<Rightarrow> u64 \<Rightarrow> u64 \<Rightarrow> u64 \<Rightarrow> cells \<Rightarrow> cells" where
  "STAILQ_INSERT_AFTER f h tqelm elm s =
     (let s = s(next_cell f elm := s (next_cell f tqelm));
          s = (if s (next_cell f elm) = 0 then s(last_field h := next_cell f elm) else s)
      in s(next_cell f tqelm := elm))"

definition STAILQ_INSERT_HEAD :: "u64 \<Rightarrow> u64 \<Rightarrow> u64 \<Rightarrow> cells \<Rightarrow> cells" where
  "STAILQ_INSERT_HEAD f h elm s =
     (let s = s(next_cell f elm := s h);
          s = (if s (next_cell f elm) = 0 then s(last_field h := next_cell f elm) else s)
      in s(h := elm))"

definition STAILQ_INSERT_TAIL :: "u64 \<Rightarrow> u64 \<Rightarrow> u64 \<Rightarrow> cells \<Rightarrow> cells" where
  "STAILQ_INSERT_TAIL f h elm s =
     (let s = s(next_cell f elm := 0);
          s = s(s (last_field h) := elm)
      in s(last_field h := next_cell f elm))"

definition STAILQ_LAST :: "u64 \<Rightarrow> cells \<Rightarrow> u64 \<Rightarrow> u64" where
  "STAILQ_LAST f s h = (if STAILQ_EMPTY s h then 0 else s (last_field h) - f)"

definition STAILQ_REMOVE_AFTER :: "u64 \<Rightarrow> u64 \<Rightarrow> u64 \<Rightarrow> cells \<Rightarrow> cells option" where
  "STAILQ_REMOVE_AFTER f h elm s =
     (if s (next_cell f elm) = 0 then None
      else let s = s(next_cell f elm := s (next_cell f (s (next_cell f elm))))
           in Some (if s (next_cell f elm) = 0 then s(last_field h := next_cell f elm) else s))"

definition STAILQ_REMOVE_HEAD :: "u64 \<Rightarrow> u64 \<Rightarrow> cells \<Rightarrow> cells option" where
  "STAILQ_REMOVE_HEAD f h s =
     (if s h = 0 then None
      else let s = s(h := s (next_cell f (s h)))
           in Some (if s h = 0 then s(last_field h := h) else s))"

definition STAILQ_REMOVE :: "u64 \<Rightarrow> u64 \<Rightarrow> u64 \<Rightarrow> cells \<Rightarrow> cells option" where
  "STAILQ_REMOVE f h elm s =
     (if s h = elm then STAILQ_REMOVE_HEAD f h s
      else do {
        curelm \<leftarrow> find_pred f s elm (s h);
        STAILQ_REMOVE_AFTER f h curelm s })"

definition STAILQ_SWAP :: "u64 \<Rightarrow> u64 \<Rightarrow> cells \<Rightarrow> cells" where
  "STAILQ_SWAP h1 h2 s =
     (let swap_first = s h1; swap_last = s (last_field h1);
          s = s(h1 := s h2);
          s = s(last_field h1 := s (last_field h2));
          s = s(h2 := swap_first);
          s = s(last_field h2 := swap_last);
          s = (if STAILQ_EMPTY s h1 then s(last_field h1 := h1) else s)
      in if STAILQ_EMPTY s h2 then s(last_field h2 := h2) else s)"

lemma stailq_foreach: "stailq f s h es \<Longrightarrow> STAILQ_FOREACH f s h = Some es"
  by (auto simp: stailq_def STAILQ_FOREACH_def STAILQ_FIRST_def places_def
        intro: foreach_loop_chain)

lemma stailq_init: "stailq f (STAILQ_INIT h s) h []"
  by (simp add: stailq_def STAILQ_INIT_def places_def)

lemma stailq_empty: "stailq f s h es \<Longrightarrow> STAILQ_EMPTY s h \<longleftrightarrow> es = []"
  by (cases es) (auto simp: stailq_def STAILQ_EMPTY_def places_def)

lemma stailq_last:
  "stailq f s h es \<Longrightarrow> STAILQ_LAST f s h = (if es = [] then 0 else last es)"
  using stailq_empty [of f s h es]
  by (auto simp: STAILQ_LAST_def stailq_def last_cell_eq next_cell_def)

lemma chain_zero: "chain f s p es 0 \<Longrightarrow> 0 \<notin> set es \<Longrightarrow> s p = 0 \<longleftrightarrow> es = []"
  by (cases es) auto

lemma stailq_insert_head:
  assumes "stailq f s h es" and "places f [h, last_field h] (e # es)"
  shows "stailq f (STAILQ_INSERT_HEAD f h e s) h (e # es)"
  using assms chain_zero [of f s h es]
  by (auto simp: stailq_def STAILQ_INSERT_HEAD_def places_def Let_def last_cell_eq
        elim!: chain_move)

lemma stailq_insert_after:
  assumes "stailq f s h (xs @ y # ys)" and "places f [h, last_field h] (xs @ y # e # ys)"
  shows "stailq f (STAILQ_INSERT_AFTER f h y e s) h (xs @ y # e # ys)"
  using assms chain_zero [of f s "next_cell f y" ys]
  by (auto simp: stailq_def STAILQ_INSERT_AFTER_def places_def Let_def last_cell_eq
        elim!: chain_move)

lemma stailq_insert_tail:
  assumes "stailq f s h es" and "places f [h, last_field h] (es @ [e])"
  shows "stailq f (STAILQ_INSERT_TAIL f h e s) h (es @ [e])"
  using assms
  by (auto simp: stailq_def STAILQ_INSERT_TAIL_def places_def Let_def last_cell_eq
        elim!: chain_redirect)

lemma stailq_remove_head:
  assumes "stailq f s h (e # es)"
  shows "\<exists>s'. STAILQ_REMOVE_HEAD f h s = Some s' \<and> stailq f s' h es"
  using assms chain_zero [of f s "next_cell f e" es]
  by (auto simp: stailq_def STAILQ_REMOVE_HEAD_def places_def Let_def last_cell_eq
        elim!: chain_move)

lemma stailq_remove_after:
  assumes "stailq f s h (xs @ y # e # ys)"
  shows "\<exists>s'. STAILQ_REMOVE_AFTER f h y s = Some s' \<and> stailq f s' h (xs @ y # ys)"
  using assms
  by (cases ys)
    (auto simp: stailq_def STAILQ_REMOVE_AFTER_def places_def Let_def last_cell_eq
      elim!: chain_move)

lemma stailq_remove:
  assumes "stailq f s h (xs @ e # ys)"
  shows "\<exists>s'. STAILQ_REMOVE f h e s = Some s' \<and> stailq f s' h (xs @ ys)"
proof (cases xs rule: rev_cases)
  case Nil
  then show ?thesis using assms stailq_remove_head [of f s h e ys]
    by (simp add: STAILQ_REMOVE_def stailq_def)
next
  case (snoc zs z)
  have "chain f s h (zs @ [z]) e" "0 \<notin> set (zs @ [z])" "e \<notin> set (zs @ [z])"
    using assms by (auto simp: stailq_def snoc places_def)
  then have "find_pred f s e (s h) = Some z" by (rule find_pred_chain)
  moreover have "s h \<noteq> e" using assms by (cases zs) (auto simp: stailq_def snoc places_def)
  ultimately show ?thesis
    using stailq_remove_after [of f s h zs z e ys] assms by (simp add: STAILQ_REMOVE_def snoc)
qed


lemma stailq_concat:
  assumes "stailq f s h1 xs" and "stailq f s h2 ys"
    and "places f [h1, last_field h1, h2, last_field h2] (xs @ ys)"
  shows "stailq f (STAILQ_CONCAT h1 h2 s) h1 (xs @ ys)" and "stailq f (STAILQ_CONCAT h1 h2 s) h2 []"
proof -
  have "stailq f (STAILQ_CONCAT h1 h2 s) h1 (xs @ ys) \<and> stailq f (STAILQ_CONCAT h1 h2 s) h2 []"
  proof (cases ys)
    case Nil
    then show ?thesis using assms by (simp add: stailq_def STAILQ_CONCAT_def STAILQ_EMPTY_def)
  next
    case (Cons z zs)
    then show ?thesis using assms
      by (cases xs rule: rev_cases)
        (auto simp: stailq_def STAILQ_CONCAT_def STAILQ_EMPTY_def STAILQ_INIT_def places_def
          Let_def last_cell_eq elim!: chain_move)
  qed
  then show "stailq f (STAILQ_CONCAT h1 h2 s) h1 (xs @ ys)" "stailq f (STAILQ_CONCAT h1 h2 s) h2 []"
    by simp_all
qed

lemma stailq_swap_cells:
  assumes "distinct [h1, last_field h1, h2, last_field h2]"
  shows "STAILQ_SWAP h1 h2 s =
     s(h1 := s h2, last_field h1 := if s h2 = 0 then h1 else s (last_field h2),
       h2 := s h1, last_field h2 := if s h1 = 0 then h2 else s (last_field h1))"
  using assms unfolding STAILQ_SWAP_def STAILQ_EMPTY_def Let_def by (intro ext) auto

lemma stailq_swap:
  assumes "stailq f s h1 xs" and "stailq f s h2 ys"
    and "places f [h1, last_field h1, h2, last_field h2] (xs @ ys)"
  shows "stailq f (STAILQ_SWAP h1 h2 s) h1 ys" and "stailq f (STAILQ_SWAP h1 h2 s) h2 xs"
proof -
  have d: "distinct [h1, last_field h1, h2, last_field h2]"
    using assms(3) unfolding places_def by (elim conjE)
  have z: "s h1 = 0 \<longleftrightarrow> xs = []" "s h2 = 0 \<longleftrightarrow> ys = []"
    using assms by (auto simp: stailq_def places_def chain_zero)
  show "stailq f (STAILQ_SWAP h1 h2 s) h1 ys" "stailq f (STAILQ_SWAP h1 h2 s) h2 xs"
    using assms unfolding stailq_swap_cells [OF d] z stailq_def
    by (auto simp: places_def last_cell_eq elim!: chain_move)
qed

section \<open>Lists\<close>

text \<open>
  \<^verbatim>\<open>LIST_HEAD\<close> is one cell; \<^verbatim>\<open>LIST_ENTRY\<close> has \<^verbatim>\<open>le_next\<close> and \<^verbatim>\<open>le_prev\<close>, the address
  of the previous \<^verbatim>\<open>next\<close> cell, so an element is removed without its head.
\<close>

definition dlist :: "u64 \<Rightarrow> cells \<Rightarrow> u64 \<Rightarrow> u64 list \<Rightarrow> bool" where
  "dlist f s h es \<longleftrightarrow> places2 f [h] es \<and> chain f s h es 0 \<and> backs f s h es"

definition QMD_LIST_CHECK_HEAD :: "u64 \<Rightarrow> cells \<Rightarrow> u64 \<Rightarrow> bool" where
  "QMD_LIST_CHECK_HEAD f s h = (\<not> (s h \<noteq> 0 \<and> s (prev_cell f (s h)) \<noteq> h))"

definition QMD_LIST_CHECK_NEXT :: "u64 \<Rightarrow> cells \<Rightarrow> u64 \<Rightarrow> bool" where
  "QMD_LIST_CHECK_NEXT f s elm =
     (\<not> (s (next_cell f elm) \<noteq> 0 \<and> s (prev_cell f (s (next_cell f elm))) \<noteq> next_cell f elm))"

definition QMD_LIST_CHECK_PREV :: "u64 \<Rightarrow> cells \<Rightarrow> u64 \<Rightarrow> bool" where
  "QMD_LIST_CHECK_PREV f s elm = (\<not> (s (s (prev_cell f elm)) \<noteq> elm))"

definition LIST_EMPTY :: "cells \<Rightarrow> u64 \<Rightarrow> bool" where
  "LIST_EMPTY s h = (s h = 0)"

definition LIST_FIRST :: "cells \<Rightarrow> u64 \<Rightarrow> u64" where
  "LIST_FIRST s h = s h"

definition LIST_NEXT :: "u64 \<Rightarrow> cells \<Rightarrow> u64 \<Rightarrow> u64" where
  "LIST_NEXT f s e = s (next_cell f e)"

definition LIST_FOREACH :: "u64 \<Rightarrow> cells \<Rightarrow> u64 \<Rightarrow> u64 list option" where
  "LIST_FOREACH f s h = foreach_loop f s (LIST_FIRST s h)"

definition LIST_INIT :: "u64 \<Rightarrow> cells \<Rightarrow> cells" where
  "LIST_INIT h s = s(h := 0)"

definition LIST_INSERT_AFTER :: "u64 \<Rightarrow> u64 \<Rightarrow> u64 \<Rightarrow> cells \<Rightarrow> cells" where
  "LIST_INSERT_AFTER f listelm elm s =
     (let s = s(next_cell f elm := s (next_cell f listelm));
          s = (if s (next_cell f elm) \<noteq> 0
               then s(prev_cell f (s (next_cell f listelm)) := next_cell f elm) else s);
          s = s(next_cell f listelm := elm)
      in s(prev_cell f elm := next_cell f listelm))"

definition LIST_INSERT_BEFORE :: "u64 \<Rightarrow> u64 \<Rightarrow> u64 \<Rightarrow> cells \<Rightarrow> cells" where
  "LIST_INSERT_BEFORE f listelm elm s =
     (let s = s(prev_cell f elm := s (prev_cell f listelm));
          s = s(next_cell f elm := listelm);
          s = s(s (prev_cell f listelm) := elm)
      in s(prev_cell f listelm := next_cell f elm))"

definition LIST_INSERT_HEAD :: "u64 \<Rightarrow> u64 \<Rightarrow> u64 \<Rightarrow> cells \<Rightarrow> cells" where
  "LIST_INSERT_HEAD f h elm s =
     (let s = s(next_cell f elm := s h);
          s = (if s (next_cell f elm) \<noteq> 0
               then s(prev_cell f (s h) := next_cell f elm) else s);
          s = s(h := elm)
      in s(prev_cell f elm := h))"

definition LIST_REMOVE :: "u64 \<Rightarrow> u64 \<Rightarrow> cells \<Rightarrow> cells" where
  "LIST_REMOVE f elm s =
     (let s = (if s (next_cell f elm) \<noteq> 0
               then s(prev_cell f (s (next_cell f elm)) := s (prev_cell f elm)) else s)
      in s(s (prev_cell f elm) := s (next_cell f elm)))"

definition LIST_SWAP :: "u64 \<Rightarrow> u64 \<Rightarrow> u64 \<Rightarrow> cells \<Rightarrow> cells" where
  "LIST_SWAP f h1 h2 s =
     (let swap_tmp = s h1;
          s = s(h1 := s h2);
          s = s(h2 := swap_tmp);
          swap_tmp = s h1;
          s = (if swap_tmp \<noteq> 0 then s(prev_cell f swap_tmp := h1) else s);
          swap_tmp = s h2
      in if swap_tmp \<noteq> 0 then s(prev_cell f swap_tmp := h2) else s)"

lemma dlist_foreach: "dlist f s h es \<Longrightarrow> LIST_FOREACH f s h = Some es"
  by (auto simp: dlist_def LIST_FOREACH_def LIST_FIRST_def places2_def places_def
        intro: foreach_loop_chain)

lemma dlist_init: "dlist f (LIST_INIT h s) h []"
  by (simp add: dlist_def LIST_INIT_def places2_def places_def)

lemma dlist_empty: "dlist f s h es \<Longrightarrow> LIST_EMPTY s h \<longleftrightarrow> es = []"
  by (cases es) (auto simp: dlist_def LIST_EMPTY_def places2_def places_def)

lemma dlist_checks:
  assumes "dlist f s h es"
  shows "QMD_LIST_CHECK_HEAD f s h"
    and "x \<in> set es \<Longrightarrow> QMD_LIST_CHECK_NEXT f s x"
    and "x \<in> set es \<Longrightarrow> QMD_LIST_CHECK_PREV f s x"
proof -
  show "QMD_LIST_CHECK_HEAD f s h" using assms
    by (cases es) (auto simp: dlist_def QMD_LIST_CHECK_HEAD_def)
next
  assume "x \<in> set es"
  then obtain xs ys where es: "es = xs @ x # ys" by (auto simp: in_set_conv_decomp)
  show "QMD_LIST_CHECK_NEXT f s x" using assms
    by (cases ys) (auto simp: dlist_def QMD_LIST_CHECK_NEXT_def es)
  show "QMD_LIST_CHECK_PREV f s x" using assms
    by (auto simp: dlist_def QMD_LIST_CHECK_PREV_def es dest: chain_last)
qed

lemma dlist_insert_head:
  assumes "dlist f s h es" and "places2 f [h] (e # es)"
  shows "dlist f (LIST_INSERT_HEAD f h e s) h (e # es)"
  using assms
  by (cases es) (auto simp: dlist_def LIST_INSERT_HEAD_def places2_def places_def Let_def
      elim!: chain_move backs_move)

lemma dlist_insert_after:
  assumes "dlist f s h (xs @ y # ys)" and "places2 f [h] (xs @ y # e # ys)"
  shows "dlist f (LIST_INSERT_AFTER f y e s) h (xs @ y # e # ys)"
  using assms
  by (cases ys) (auto simp: dlist_def LIST_INSERT_AFTER_def places2_def places_def Let_def
      elim!: chain_move backs_move)

lemma dlist_insert_before:
  assumes "dlist f s h (xs @ y # ys)" and "places2 f [h] (xs @ e # y # ys)"
  shows "dlist f (LIST_INSERT_BEFORE f y e s) h (xs @ e # y # ys)"
  using assms
  by (cases xs rule: rev_cases)
    (auto simp: dlist_def LIST_INSERT_BEFORE_def places2_def places_def Let_def
      elim!: chain_move backs_move)

lemma dlist_remove:
  assumes "dlist f s h (xs @ e # ys)"
  shows "dlist f (LIST_REMOVE f e s) h (xs @ ys)"
  using assms
  by (cases xs rule: rev_cases; cases ys)
    (auto simp: dlist_def LIST_REMOVE_def places2_def places_def Let_def
      elim!: chain_move backs_move)

lemma dlist_swap:
  assumes "dlist f s h1 xs" and "dlist f s h2 ys" and "places2 f [h1, h2] (xs @ ys)"
  shows "dlist f (LIST_SWAP f h1 h2 s) h1 ys" and "dlist f (LIST_SWAP f h1 h2 s) h2 xs"
  using assms
  by (cases xs; cases ys,
    auto simp: dlist_def LIST_SWAP_def places2_def places_def Let_def
      elim!: chain_move backs_move)+

section \<open>Tail queues\<close>

text \<open>
  As \<^verbatim>\<open>LIST\<close>, with \<^verbatim>\<open>tqh_last\<close> in the head. \<^verbatim>\<open>TAILQ_LAST\<close> and \<^verbatim>\<open>TAILQ_PREV\<close> read a
  link field as if it were a head: \<^verbatim>\<open>tqe_prev\<close> stands where \<^verbatim>\<open>tqh_last\<close> would.
\<close>

definition tailq :: "u64 \<Rightarrow> cells \<Rightarrow> u64 \<Rightarrow> u64 list \<Rightarrow> bool" where
  "tailq f s h es \<longleftrightarrow> places2 f [h, last_field h] es \<and> chain f s h es 0 \<and> backs f s h es \<and>
     s (last_field h) = last_cell f h es"

definition TAILQ_EMPTY :: "cells \<Rightarrow> u64 \<Rightarrow> bool" where
  "TAILQ_EMPTY s h = (s h = 0)"

definition TAILQ_FIRST :: "cells \<Rightarrow> u64 \<Rightarrow> u64" where
  "TAILQ_FIRST s h = s h"

definition QMD_TAILQ_CHECK_HEAD :: "u64 \<Rightarrow> cells \<Rightarrow> u64 \<Rightarrow> bool" where
  "QMD_TAILQ_CHECK_HEAD f s h =
     (\<not> (\<not> TAILQ_EMPTY s h \<and> s (prev_cell f (TAILQ_FIRST s h)) \<noteq> h))"

definition QMD_TAILQ_CHECK_TAIL :: "cells \<Rightarrow> u64 \<Rightarrow> bool" where
  "QMD_TAILQ_CHECK_TAIL s h = (\<not> (s (s (last_field h)) \<noteq> 0))"

definition QMD_TAILQ_CHECK_NEXT :: "u64 \<Rightarrow> cells \<Rightarrow> u64 \<Rightarrow> bool" where
  "QMD_TAILQ_CHECK_NEXT f s elm =
     (\<not> (s (next_cell f elm) \<noteq> 0 \<and> s (prev_cell f (s (next_cell f elm))) \<noteq> next_cell f elm))"

definition QMD_TAILQ_CHECK_PREV :: "u64 \<Rightarrow> cells \<Rightarrow> u64 \<Rightarrow> bool" where
  "QMD_TAILQ_CHECK_PREV f s elm = (\<not> (s (s (prev_cell f elm)) \<noteq> elm))"

definition TAILQ_INIT :: "u64 \<Rightarrow> cells \<Rightarrow> cells" where
  "TAILQ_INIT h s = (let s = s(h := 0) in s(last_field h := h))"

definition TAILQ_CONCAT :: "u64 \<Rightarrow> u64 \<Rightarrow> u64 \<Rightarrow> cells \<Rightarrow> cells" where
  "TAILQ_CONCAT f h1 h2 s =
     (if \<not> TAILQ_EMPTY s h2
      then (let s = s(s (last_field h1) := s h2);
                s = s(prev_cell f (s h2) := s (last_field h1));
                s = s(last_field h1 := s (last_field h2))
            in TAILQ_INIT h2 s)
      else s)"

definition TAILQ_NEXT :: "u64 \<Rightarrow> cells \<Rightarrow> u64 \<Rightarrow> u64" where
  "TAILQ_NEXT f s e = s (next_cell f e)"

definition TAILQ_LAST :: "cells \<Rightarrow> u64 \<Rightarrow> u64" where
  "TAILQ_LAST s h = s (s (last_field (s (last_field h))))"

definition TAILQ_PREV :: "u64 \<Rightarrow> cells \<Rightarrow> u64 \<Rightarrow> u64" where
  "TAILQ_PREV f s e = s (s (last_field (s (prev_cell f e))))"

definition TAILQ_FOREACH :: "u64 \<Rightarrow> cells \<Rightarrow> u64 \<Rightarrow> u64 list option" where
  "TAILQ_FOREACH f s h = foreach_loop f s (TAILQ_FIRST s h)"

partial_function (option) reverse_loop :: "u64 \<Rightarrow> cells \<Rightarrow> u64 \<Rightarrow> u64 list option" where
  "reverse_loop f s v =
     (if v = 0 then Some []
      else do { vs \<leftarrow> reverse_loop f s (TAILQ_PREV f s v); Some (v # vs) })"

definition TAILQ_FOREACH_REVERSE :: "u64 \<Rightarrow> cells \<Rightarrow> u64 \<Rightarrow> u64 list option" where
  "TAILQ_FOREACH_REVERSE f s h = reverse_loop f s (TAILQ_LAST s h)"

definition TAILQ_INSERT_AFTER :: "u64 \<Rightarrow> u64 \<Rightarrow> u64 \<Rightarrow> u64 \<Rightarrow> cells \<Rightarrow> cells" where
  "TAILQ_INSERT_AFTER f h listelm elm s =
     (let s = s(next_cell f elm := s (next_cell f listelm));
          s = (if s (next_cell f elm) \<noteq> 0
               then s(prev_cell f (s (next_cell f elm)) := next_cell f elm)
               else s(last_field h := next_cell f elm));
          s = s(next_cell f listelm := elm)
      in s(prev_cell f elm := next_cell f listelm))"

definition TAILQ_INSERT_BEFORE :: "u64 \<Rightarrow> u64 \<Rightarrow> u64 \<Rightarrow> cells \<Rightarrow> cells" where
  "TAILQ_INSERT_BEFORE f listelm elm s =
     (let s = s(prev_cell f elm := s (prev_cell f listelm));
          s = s(next_cell f elm := listelm);
          s = s(s (prev_cell f listelm) := elm)
      in s(prev_cell f listelm := next_cell f elm))"

definition TAILQ_INSERT_HEAD :: "u64 \<Rightarrow> u64 \<Rightarrow> u64 \<Rightarrow> cells \<Rightarrow> cells" where
  "TAILQ_INSERT_HEAD f h elm s =
     (let s = s(next_cell f elm := s h);
          s = (if s (next_cell f elm) \<noteq> 0
               then s(prev_cell f (s h) := next_cell f elm)
               else s(last_field h := next_cell f elm));
          s = s(h := elm)
      in s(prev_cell f elm := h))"

definition TAILQ_INSERT_TAIL :: "u64 \<Rightarrow> u64 \<Rightarrow> u64 \<Rightarrow> cells \<Rightarrow> cells" where
  "TAILQ_INSERT_TAIL f h elm s =
     (let s = s(next_cell f elm := 0);
          s = s(prev_cell f elm := s (last_field h));
          s = s(s (last_field h) := elm)
      in s(last_field h := next_cell f elm))"

definition TAILQ_REMOVE :: "u64 \<Rightarrow> u64 \<Rightarrow> u64 \<Rightarrow> cells \<Rightarrow> cells" where
  "TAILQ_REMOVE f h elm s =
     (let s = (if s (next_cell f elm) \<noteq> 0
               then s(prev_cell f (s (next_cell f elm)) := s (prev_cell f elm))
               else s(last_field h := s (prev_cell f elm)))
      in s(s (prev_cell f elm) := s (next_cell f elm)))"

definition TAILQ_SWAP :: "u64 \<Rightarrow> u64 \<Rightarrow> u64 \<Rightarrow> cells \<Rightarrow> cells" where
  "TAILQ_SWAP f h1 h2 s =
     (let swap_first = s h1; swap_last = s (last_field h1);
          s = s(h1 := s h2);
          s = s(last_field h1 := s (last_field h2));
          s = s(h2 := swap_first);
          s = s(last_field h2 := swap_last);
          swap_first = s h1;
          s = (if swap_first \<noteq> 0 then s(prev_cell f swap_first := h1) else s(last_field h1 := h1));
          swap_first = s h2
      in if swap_first \<noteq> 0 then s(prev_cell f swap_first := h2) else s(last_field h2 := h2))"

lemma tailq_foreach: "tailq f s h es \<Longrightarrow> TAILQ_FOREACH f s h = Some es"
  by (auto simp: tailq_def TAILQ_FOREACH_def TAILQ_FIRST_def places2_def places_def
        intro: foreach_loop_chain)

lemma tailq_init: "tailq f (TAILQ_INIT h s) h []"
  by (simp add: tailq_def TAILQ_INIT_def places2_def places_def)

lemma tailq_empty: "tailq f s h es \<Longrightarrow> TAILQ_EMPTY s h \<longleftrightarrow> es = []"
  by (cases es) (auto simp: tailq_def TAILQ_EMPTY_def places2_def places_def)

lemma tailq_checks:
  assumes "tailq f s h es"
  shows "QMD_TAILQ_CHECK_HEAD f s h" and "QMD_TAILQ_CHECK_TAIL s h"
    and "x \<in> set es \<Longrightarrow> QMD_TAILQ_CHECK_NEXT f s x"
    and "x \<in> set es \<Longrightarrow> QMD_TAILQ_CHECK_PREV f s x"
proof -
  show "QMD_TAILQ_CHECK_HEAD f s h" using assms
    by (cases es) (auto simp: tailq_def QMD_TAILQ_CHECK_HEAD_def TAILQ_EMPTY_def TAILQ_FIRST_def)
  show "QMD_TAILQ_CHECK_TAIL s h" using assms
    by (auto simp: tailq_def QMD_TAILQ_CHECK_TAIL_def dest: chain_last)
next
  assume "x \<in> set es"
  then obtain xs ys where es: "es = xs @ x # ys" by (auto simp: in_set_conv_decomp)
  show "QMD_TAILQ_CHECK_NEXT f s x" using assms
    by (cases ys) (auto simp: tailq_def QMD_TAILQ_CHECK_NEXT_def es)
  show "QMD_TAILQ_CHECK_PREV f s x" using assms
    by (auto simp: tailq_def QMD_TAILQ_CHECK_PREV_def es dest: chain_last)
qed

text \<open>
  Reading backwards: from the cell that points to an element, the field after it
  points in turn to the cell that points to this one.
\<close>

lemma tailq_prev_cell:
  assumes "tailq f s h (xs @ ys)"
  shows "s (s (last_field (last_cell f h xs))) = (if xs = [] then 0 else last xs)"
proof (cases xs rule: rev_cases)
  case Nil
  then show ?thesis using assms by (auto simp: tailq_def dest: chain_last)
next
  case (snoc zs z)
  then show ?thesis using assms by (cases ys) (auto simp: tailq_def dest: chain_last)
qed

lemma tailq_last: "tailq f s h es \<Longrightarrow> TAILQ_LAST s h = (if es = [] then 0 else last es)"
  using tailq_prev_cell [of f s h es "[]"] by (simp add: TAILQ_LAST_def tailq_def)

lemma tailq_prev:
  "tailq f s h (xs @ y # ys) \<Longrightarrow> TAILQ_PREV f s y = (if xs = [] then 0 else last xs)"
  using tailq_prev_cell [of f s h xs "y # ys"] by (simp add: TAILQ_PREV_def tailq_def)

lemma reverse_loop_tailq:
  "tailq f s h (xs @ ys) \<Longrightarrow> reverse_loop f s (if xs = [] then 0 else last xs) = Some (rev xs)"
proof (induction xs arbitrary: ys rule: rev_induct)
  case (snoc x xs)
  have "x \<noteq> 0" using snoc.prems by (auto simp: tailq_def places2_def places_def)
  moreover have "TAILQ_PREV f s x = (if xs = [] then 0 else last xs)"
    using tailq_prev [of f s h xs x ys] snoc.prems by simp
  moreover have "reverse_loop f s (if xs = [] then 0 else last xs) = Some (rev xs)"
    using snoc.IH [of "x # ys"] snoc.prems by simp
  ultimately show ?case by (simp add: reverse_loop.simps [of f s x])
qed (simp add: reverse_loop.simps)

lemma tailq_foreach_reverse: "tailq f s h es \<Longrightarrow> TAILQ_FOREACH_REVERSE f s h = Some (rev es)"
  using reverse_loop_tailq [of f s h es "[]"] tailq_last [of f s h es]
  by (simp add: TAILQ_FOREACH_REVERSE_def)

lemma tailq_insert_head:
  assumes "tailq f s h es" and "places2 f [h, last_field h] (e # es)"
  shows "tailq f (TAILQ_INSERT_HEAD f h e s) h (e # es)"
  using assms
  by (cases es) (auto simp: tailq_def TAILQ_INSERT_HEAD_def places2_def places_def Let_def
      last_cell_eq elim!: chain_move backs_move)

lemma tailq_insert_after:
  assumes "tailq f s h (xs @ y # ys)" and "places2 f [h, last_field h] (xs @ y # e # ys)"
  shows "tailq f (TAILQ_INSERT_AFTER f h y e s) h (xs @ y # e # ys)"
  using assms
  by (cases ys) (auto simp: tailq_def TAILQ_INSERT_AFTER_def places2_def places_def Let_def
      last_cell_eq elim!: chain_move backs_move)

lemma tailq_insert_before:
  assumes "tailq f s h (xs @ y # ys)" and "places2 f [h, last_field h] (xs @ e # y # ys)"
  shows "tailq f (TAILQ_INSERT_BEFORE f y e s) h (xs @ e # y # ys)"
  using assms
  by (cases xs rule: rev_cases)
    (auto simp: tailq_def TAILQ_INSERT_BEFORE_def places2_def places_def Let_def last_cell_eq
      elim!: chain_move backs_move)

lemma tailq_insert_tail:
  assumes "tailq f s h es" and "places2 f [h, last_field h] (es @ [e])"
  shows "tailq f (TAILQ_INSERT_TAIL f h e s) h (es @ [e])"
  using assms
  by (cases es rule: rev_cases)
    (auto simp: tailq_def TAILQ_INSERT_TAIL_def places2_def places_def Let_def last_cell_eq
      elim!: chain_move backs_move)

lemma tailq_remove:
  assumes "tailq f s h (xs @ e # ys)"
  shows "tailq f (TAILQ_REMOVE f h e s) h (xs @ ys)"
  using assms
  by (cases xs rule: rev_cases; cases ys)
    (auto simp: tailq_def TAILQ_REMOVE_def places2_def places_def Let_def last_cell_eq
      elim!: chain_move backs_move)

lemma tailq_concat:
  assumes "tailq f s h1 xs" and "tailq f s h2 ys"
    and "places2 f [h1, last_field h1, h2, last_field h2] (xs @ ys)"
  shows "tailq f (TAILQ_CONCAT f h1 h2 s) h1 (xs @ ys)" and "tailq f (TAILQ_CONCAT f h1 h2 s) h2 []"
proof -
  have "tailq f (TAILQ_CONCAT f h1 h2 s) h1 (xs @ ys) \<and> tailq f (TAILQ_CONCAT f h1 h2 s) h2 []"
  proof (cases ys)
    case Nil
    then show ?thesis using assms by (simp add: tailq_def TAILQ_CONCAT_def TAILQ_EMPTY_def)
  next
    case (Cons z zs)
    define c where "c = last_cell f h1 xs"
    define d where "d = last_cell f h2 ys"
    have c: "c = h1 \<or> c \<in> next_cell f ` set xs" by (auto simp: c_def last_cell_eq)
    have sep: "c \<noteq> h2" "c \<noteq> last_field h1" "c \<noteq> last_field h2" "c \<noteq> prev_cell f z"
      "c \<notin> next_cell f ` set ys" "c \<notin> prev_cell f ` set ys" "c \<notin> prev_cell f ` set xs"
      "s (last_field h1) = c" "s (last_field h2) = d" "s h2 = z" "z \<noteq> 0"
      using assms c by (auto simp: tailq_def places2_def places_def Cons c_def d_def)
    have s': "TAILQ_CONCAT f h1 h2 s =
        s(c := z, prev_cell f z := c, last_field h1 := d, h2 := 0, last_field h2 := h2)"
      using sep assms(3)
      by (simp add: TAILQ_CONCAT_def TAILQ_EMPTY_def TAILQ_INIT_def Let_def places2_def
          places_def Cons)
    have xs: "chain f s h1 xs 0" "distinct xs" "h1 \<notin> next_cell f ` set xs"
      using assms by (auto simp: tailq_def places2_def places_def)
    have out: "k \<noteq> prev_cell f z \<and> k \<noteq> last_field h1 \<and> k \<noteq> h2 \<and> k \<noteq> last_field h2"
      if "k = h1 \<or> k \<in> next_cell f ` set xs" for k
      using that assms(3) by (auto simp: places2_def places_def Cons)
    have "chain f (TAILQ_CONCAT f h1 h2 s) h1 xs z"
      unfolding s' by (rule chain_redirect [OF xs]) (use out sep in \<open>auto simp: c_def [symmetric]\<close>)
    moreover have "chain f (TAILQ_CONCAT f h1 h2 s) (next_cell f z) zs 0"
    proof (rule chain_move)
      show "chain f s (next_cell f z) zs 0" using assms(2) by (simp add: tailq_def Cons)
      have "k \<noteq> c \<and> k \<noteq> prev_cell f z \<and> k \<noteq> last_field h1 \<and> k \<noteq> h2 \<and> k \<noteq> last_field h2"
        if "k \<in> next_cell f ` set ys" for k
        using that assms(3) sep(5) by (auto simp: places2_def places_def Cons)
      then show "TAILQ_CONCAT f h1 h2 s (next_cell f z) = s (next_cell f z)"
        "x \<in> set zs \<Longrightarrow> TAILQ_CONCAT f h1 h2 s (next_cell f x) = s (next_cell f x)" for x
        unfolding s' by (auto simp: Cons)
    qed
    moreover have "k \<noteq> c \<and> k \<noteq> last_field h1 \<and> k \<noteq> h2 \<and> k \<noteq> last_field h2"
      if "k \<in> prev_cell f ` set (xs @ ys)" for k
      using that assms(3) sep(6,7) by (auto simp: places2_def places_def)
    then have "backs f (TAILQ_CONCAT f h1 h2 s) h1 xs" "backs f (TAILQ_CONCAT f h1 h2 s) (next_cell f z) zs"
      unfolding s' using assms
      by (auto simp: tailq_def places2_def places_def Cons elim!: backs_move)
    moreover have "TAILQ_CONCAT f h1 h2 s (prev_cell f z) = c"
      "TAILQ_CONCAT f h1 h2 s (last_field h1) = d" "TAILQ_CONCAT f h1 h2 s h2 = 0"
      "TAILQ_CONCAT f h1 h2 s (last_field h2) = h2"
      unfolding s' using assms sep by (auto simp: places2_def places_def Cons)
    ultimately show ?thesis using assms
      by (auto simp: tailq_def places2_def places_def Cons c_def d_def)
  qed
  then show "tailq f (TAILQ_CONCAT f h1 h2 s) h1 (xs @ ys)" "tailq f (TAILQ_CONCAT f h1 h2 s) h2 []"
    by simp_all
qed

lemma tailq_move:
  assumes "tailq f s h xs" and "places2 f [k, last_field k] xs" and "s' k = s h"
    and "xs \<noteq> [] \<Longrightarrow> s' (prev_cell f (hd xs)) = k"
    and "s' (last_field k) = (if xs = [] then k else s (last_field h))"
    and "\<And>x. x \<in> set xs \<Longrightarrow> s' (next_cell f x) = s (next_cell f x)"
    and "\<And>x. x \<in> set (tl xs) \<Longrightarrow> s' (prev_cell f x) = s (prev_cell f x)"
  shows "tailq f s' k xs"
proof (cases xs)
  case (Cons z zs)
  then show ?thesis using assms
    by (simp add: tailq_def) (blast intro: chain_move [of f s] backs_move [of f s])
qed (use assms in \<open>simp add: tailq_def\<close>)

lemma tailq_swap_cells:
  assumes d: "distinct [h1, last_field h1, h2, last_field h2]"
    and x: "s h1 \<noteq> 0 \<Longrightarrow> prev_cell f (s h1) \<notin> {h1, last_field h1, h2, last_field h2}"
    and y: "s h2 \<noteq> 0 \<Longrightarrow> prev_cell f (s h2) \<notin> {h1, last_field h1, h2, last_field h2}"
  shows "TAILQ_SWAP f h1 h2 s h1 = s h2" and "TAILQ_SWAP f h1 h2 s h2 = s h1"
    and "TAILQ_SWAP f h1 h2 s (last_field h1) = (if s h2 = 0 then h1 else s (last_field h2))"
    and "TAILQ_SWAP f h1 h2 s (last_field h2) = (if s h1 = 0 then h2 else s (last_field h1))"
    and "s h1 \<noteq> 0 \<Longrightarrow> TAILQ_SWAP f h1 h2 s (prev_cell f (s h1)) = h2"
    and "s h2 \<noteq> 0 \<Longrightarrow> s h2 \<noteq> s h1 \<Longrightarrow> TAILQ_SWAP f h1 h2 s (prev_cell f (s h2)) = h1"
    and "c \<notin> {h1, last_field h1, h2, last_field h2} \<Longrightarrow> (s h1 \<noteq> 0 \<Longrightarrow> c \<noteq> prev_cell f (s h1)) \<Longrightarrow>
           (s h2 \<noteq> 0 \<Longrightarrow> c \<noteq> prev_cell f (s h2)) \<Longrightarrow> TAILQ_SWAP f h1 h2 s c = s c"
  using d x y by (cases "s h1 = 0"; cases "s h2 = 0"; auto simp: TAILQ_SWAP_def Let_def)+

lemma tailq_swap:
  assumes "tailq f s h1 xs" and "tailq f s h2 ys"
    and "places2 f [h1, last_field h1, h2, last_field h2] (xs @ ys)"
  shows "tailq f (TAILQ_SWAP f h1 h2 s) h1 ys" and "tailq f (TAILQ_SWAP f h1 h2 s) h2 xs"
proof -
  let ?H = "{h1, last_field h1, h2, last_field h2}"
  have d: "distinct [h1, last_field h1, h2, last_field h2]"
    and far: "\<And>x. x \<in> set (xs @ ys) \<Longrightarrow> next_cell f x \<notin> ?H \<and> prev_cell f x \<notin> ?H \<and> x \<noteq> 0"
    and dist: "distinct (xs @ ys)"
    and nop: "\<And>x y. x \<in> set (xs @ ys) \<Longrightarrow> y \<in> set (xs @ ys) \<Longrightarrow> next_cell f x \<noteq> prev_cell f y"
    using assms(3) unfolding places2_def places_def by auto
  have z: "s h1 = (if xs = [] then 0 else hd xs)" "s h2 = (if ys = [] then 0 else hd ys)"
    using assms(1,2) by (cases xs; cases ys; simp add: tailq_def)+
  have hd: "xs \<noteq> [] \<Longrightarrow> hd xs \<in> set (xs @ ys)" "ys \<noteq> [] \<Longrightarrow> hd ys \<in> set (xs @ ys)"
    by simp_all
  have x: "s h1 \<noteq> 0 \<Longrightarrow> prev_cell f (s h1) \<notin> ?H" and y: "s h2 \<noteq> 0 \<Longrightarrow> prev_cell f (s h2) \<notin> ?H"
    using far hd z by (auto split: if_splits)
  note swapped = tailq_swap_cells [OF d x y]
  have neq: "xs \<noteq> [] \<Longrightarrow> ys \<noteq> [] \<Longrightarrow> hd ys \<noteq> hd xs" using dist by (cases xs; cases ys) auto
  have "places2 f [h1, last_field h1] ys" "places2 f [h2, last_field h2] xs"
    using assms(1-3) by (auto simp: places2_def places_def)
  then show "tailq f (TAILQ_SWAP f h1 h2 s) h1 ys" "tailq f (TAILQ_SWAP f h1 h2 s) h2 xs"
  proof -
    assume p: "places2 f [h1, last_field h1] ys" "places2 f [h2, last_field h2] xs"
    show "tailq f (TAILQ_SWAP f h1 h2 s) h1 ys"
      by (rule tailq_move [OF assms(2) p(1)]; cases xs; cases ys)
        (use far z neq dist nop in \<open>auto simp: swapped(1-6) intro!: swapped(7)\<close>)
    show "tailq f (TAILQ_SWAP f h1 h2 s) h2 xs"
      by (rule tailq_move [OF assms(1) p(2)]; cases xs; cases ys)
        (use far z neq dist nop in \<open>auto simp: swapped(1-6) intro!: swapped(7)\<close>)
  qed
qed

section \<open>The list interface\<close>

text \<open>
  What a user of any of the four kinds of list relies on, stated over the list that
  the memory represents: a new element goes to the front, an element is removed from
  wherever it is, a traversal visits all. \<open>rep\<close> is the representation, \<open>fresh\<close> the
  condition on a new element's cells.
\<close>

locale linked_list =
  fixes rep :: "cells \<Rightarrow> u64 list \<Rightarrow> bool"
    and fresh :: "u64 list \<Rightarrow> bool"
    and insert_head :: "u64 \<Rightarrow> cells \<Rightarrow> cells"
    and remove :: "u64 \<Rightarrow> cells \<Rightarrow> cells option"
    and foreach :: "cells \<Rightarrow> u64 list option"
  assumes rep_fresh: "rep s es \<Longrightarrow> fresh es"
    and fresh_sub: "fresh es \<Longrightarrow> set es' \<subseteq> set es \<Longrightarrow> distinct es' \<Longrightarrow> fresh es'"
    and fresh_distinct: "fresh es \<Longrightarrow> distinct es"
    and insert_head: "rep s es \<Longrightarrow> fresh (e # es) \<Longrightarrow> rep (insert_head e s) (e # es)"
    and remove: "rep s (xs @ e # ys) \<Longrightarrow> \<exists>s'. remove e s = Some s' \<and> rep s' (xs @ ys)"
    and foreach: "rep s es \<Longrightarrow> foreach s = Some es"
begin

text \<open>A whole session: elements are pushed one after the other, then one is taken out.\<close>

lemma push_all:
  "rep s es \<Longrightarrow> fresh (rev ns @ es) \<Longrightarrow> rep (fold insert_head ns s) (rev ns @ es)"
proof (induction ns arbitrary: s es)
  case (Cons n ns)
  have "fresh (n # es)"
    using Cons.prems(2) fresh_sub [of "rev (n # ns) @ es" "n # es"]
      fresh_distinct [OF Cons.prems(2)] by auto
  then show ?case using Cons.IH [OF insert_head [OF Cons.prems(1)]] Cons.prems(2) by simp
qed simp

lemma push_remove_foreach:
  assumes "rep s es" and "fresh (rev ns @ es)" and "n \<in> set ns"
  shows "\<exists>s'. remove n (fold insert_head ns s) = Some s' \<and>
           foreach s' = Some (remove1 n (rev ns) @ es)"
proof -
  obtain xs ys where ns: "rev ns = xs @ n # ys" "n \<notin> set xs"
    using assms(3) split_list_first [of n "rev ns"] by auto
  have "rep (fold insert_head ns s) (xs @ n # (ys @ es))"
    using push_all [OF assms(1,2)] by (simp add: ns)
  then obtain s' where "remove n (fold insert_head ns s) = Some s'" "rep s' (xs @ ys @ es)"
    using remove by blast
  then show ?thesis using foreach [of s' "xs @ ys @ es"] ns(2)
    by (simp add: ns(1) remove1_append)
qed

lemma remove_undoes_insert:
  assumes "rep s es" and "fresh (e # es)"
  shows "\<exists>s'. remove e (insert_head e s) = Some s' \<and> rep s' es"
  using remove [of "insert_head e s" "[]" e es] insert_head [OF assms] by simp

end

text \<open>A tail queue also takes elements at its end, which makes it a FIFO.\<close>

locale linked_queue = linked_list +
  fixes insert_tail :: "u64 \<Rightarrow> cells \<Rightarrow> cells"
  assumes insert_tail: "rep s es \<Longrightarrow> fresh (es @ [e]) \<Longrightarrow> rep (insert_tail e s) (es @ [e])"
begin

lemma enqueue_all:
  "rep s es \<Longrightarrow> fresh (es @ ns) \<Longrightarrow> rep (fold insert_tail ns s) (es @ ns)"
proof (induction ns arbitrary: s es)
  case (Cons n ns)
  have "fresh (es @ [n])"
    using Cons.prems(2) fresh_sub [of "es @ n # ns" "es @ [n]"]
      fresh_distinct [OF Cons.prems(2)] by auto
  then show ?case using Cons.IH [OF insert_tail [OF Cons.prems(1)]] Cons.prems(2) by simp
qed simp

lemma fifo:
  assumes "rep s []" and "fresh ns"
  shows "foreach (fold insert_tail ns s) = Some ns"
  using enqueue_all [OF assms(1), of ns] assms(2) foreach by simp

end

lemma places_sub:
  "places f hs es \<Longrightarrow> set es' \<subseteq> set es \<Longrightarrow> distinct es' \<Longrightarrow> places f hs es'"
  by (auto simp: places_def)

lemma places2_sub:
  "places2 f hs es \<Longrightarrow> set es' \<subseteq> set es \<Longrightarrow> distinct es' \<Longrightarrow> places2 f hs es'"
  unfolding places2_def places_def by blast

lemma places_distinct: "places f hs es \<Longrightarrow> distinct es" "places2 f hs es \<Longrightarrow> distinct es"
  by (simp_all add: places2_def places_def)

interpretation slist: linked_list "\<lambda>s. slist f s h" "places f [h]"
    "SLIST_INSERT_HEAD f h" "SLIST_REMOVE f h" "\<lambda>s. SLIST_FOREACH f s h"
  for f h
proof unfold_locales
  show "slist f s h es \<Longrightarrow> places f [h] es" for s es by (simp add: slist_def)
qed (auto intro: slist_insert_head slist_foreach slist_remove
       elim: places_sub dest: places_distinct)

interpretation stailq: linked_queue "\<lambda>s. stailq f s h" "places f [h, last_field h]"
    "STAILQ_INSERT_HEAD f h" "STAILQ_REMOVE f h" "\<lambda>s. STAILQ_FOREACH f s h"
    "STAILQ_INSERT_TAIL f h"
  for f h
proof unfold_locales
  show "stailq f s h es \<Longrightarrow> places f [h, last_field h] es" for s es by (simp add: stailq_def)
qed (auto intro: stailq_insert_head stailq_insert_tail stailq_foreach stailq_remove
       elim: places_sub dest: places_distinct)

interpretation dlist: linked_list "\<lambda>s. dlist f s h" "places2 f [h]"
    "LIST_INSERT_HEAD f h" "\<lambda>e s. Some (LIST_REMOVE f e s)" "\<lambda>s. LIST_FOREACH f s h"
  for f h
proof unfold_locales
  show "dlist f s h es \<Longrightarrow> places2 f [h] es" for s es by (simp add: dlist_def)
qed (auto intro: dlist_insert_head dlist_foreach dlist_remove
       elim: places2_sub dest: places_distinct)

interpretation tailq: linked_queue "\<lambda>s. tailq f s h" "places2 f [h, last_field h]"
    "TAILQ_INSERT_HEAD f h" "\<lambda>e s. Some (TAILQ_REMOVE f h e s)" "\<lambda>s. TAILQ_FOREACH f s h"
    "TAILQ_INSERT_TAIL f h"
  for f h
proof unfold_locales
  show "tailq f s h es \<Longrightarrow> places2 f [h, last_field h] es" for s es by (simp add: tailq_def)
qed (auto intro: tailq_insert_head tailq_insert_tail tailq_foreach tailq_remove
       elim: places2_sub dest: places_distinct)

text \<open>C34. A tail queue is a list: elements inserted one after the other at its end are
  visited in that order by \<^verbatim>\<open>FOREACH\<close> and in the opposite order by
  \<^verbatim>\<open>FOREACH_REVERSE\<close>, \<^verbatim>\<open>LAST\<close> is the one inserted last, and after the removal of any of
  them the queue still represents the list without it.\<close>
theorem tailq_session:
  assumes "tailq f s h es" and "places2 f [h, last_field h] (es @ ns @ [n])"
    and "m \<in> set ns"
  shows "let q = fold (TAILQ_INSERT_TAIL f h) (ns @ [n]) s
         in TAILQ_FOREACH f q h = Some (es @ ns @ [n]) \<and>
            TAILQ_FOREACH_REVERSE f q h = Some (n # rev ns @ rev es) \<and>
            TAILQ_LAST q h = n \<and>
            tailq f (TAILQ_REMOVE f h m q) h (es @ remove1 m ns @ [n])"
proof -
  let ?q = "fold (TAILQ_INSERT_TAIL f h) (ns @ [n]) s"
  have q: "tailq f ?q h (es @ ns @ [n])"
    using tailq.enqueue_all [OF assms(1), of "ns @ [n]"] assms(2) by simp
  obtain xs ys where ns: "ns = xs @ m # ys" "m \<notin> set xs"
    using assms(3) split_list_first by metis
  have "tailq f (TAILQ_REMOVE f h m ?q) h (es @ remove1 m ns @ [n])"
    using tailq_remove [of f ?q h "es @ xs" m "ys @ [n]"] q ns by (simp add: remove1_append)
  then show ?thesis
    using tailq_foreach [OF q] tailq_foreach_reverse [OF q] tailq_last [OF q] by (simp add: Let_def)
qed

theorem tailq_session_witness:
  "let q = fold (TAILQ_INSERT_TAIL 0 0x1000) [0x2000, 0x3000] (TAILQ_INIT 0x1000 (\<lambda>_. 0))
   in TAILQ_FOREACH 0 q 0x1000 = Some [0x2000, 0x3000] \<and>
      TAILQ_FOREACH_REVERSE 0 q 0x1000 = Some [0x3000, 0x2000] \<and>
      TAILQ_LAST q 0x1000 = 0x3000 \<and> tailq 0 (TAILQ_REMOVE 0 0x1000 0x2000 q) 0x1000 [0x3000]"
  using tailq_session [where f = 0 and h = "0x1000" and es = "[]" and ns = "[0x2000]"
      and n = "0x3000" and m = "0x2000", OF tailq_init]
  by (simp add: places2_def places_def next_cell_def prev_cell_def last_field_def)

end
