(* ===== verification/C_Layout.thy ===== *)
theory C_Layout
  imports DPI_Prelude
begin

text \<open>
  Layout of C objects under the System V x86-64 ABI, the one the payload and the
  kernel are compiled for: a scalar is aligned to its size, the members of a
  structure are placed in order at the next aligned offset, a structure is padded to
  a multiple of its alignment, an array is its elements side by side, the members of
  a union share offset 0. The structures of the headers are values of \<open>ctype\<close>; the
  theorems on the layout hold for every well-formed type.
\<close>

datatype ctype =
    Scalar nat
  | Array nat ctype
  | Struct "(string \<times> ctype) list"
  | Union "(string \<times> ctype) list"

definition round_up :: "nat \<Rightarrow> nat \<Rightarrow> nat" where
  "round_up n a = (n + a - 1) div a * a"

lemma round_up_ge: "0 < a \<Longrightarrow> n \<le> round_up n a"
proof -
  assume a: "0 < a"
  have "(n + a - 1) div a * a + (n + a - 1) mod a = n + a - 1" by simp
  moreover have "(n + a - 1) mod a < a" using a by simp
  ultimately show ?thesis unfolding round_up_def using a by linarith
qed

lemma round_up_dvd [simp]: "a dvd round_up n a"
  by (simp add: round_up_def)

lemma round_up_less: "0 < a \<Longrightarrow> round_up n a < n + a"
proof -
  assume a: "0 < a"
  have "(n + a - 1) div a * a + (n + a - 1) mod a = n + a - 1" by simp
  then show ?thesis unfolding round_up_def using a by linarith
qed

section \<open>Sizes, alignments, offsets\<close>

fun alignof :: "ctype \<Rightarrow> nat" where
  "alignof (Scalar n) = n"
| "alignof (Array _ t) = alignof t"
| "alignof (Struct ms) = fold max (map (\<lambda>(_, t). alignof t) ms) 1"
| "alignof (Union ms) = fold max (map (\<lambda>(_, t). alignof t) ms) 1"

text \<open>\<open>layout off ms\<close>: each member's name, offset and size, given sizes and alignments.\<close>

fun layout :: "nat \<Rightarrow> (string \<times> nat \<times> nat) list \<Rightarrow> (string \<times> nat \<times> nat) list" where
  "layout off [] = []"
| "layout off ((x, sz, al) # ms) = (x, round_up off al, sz) # layout (round_up off al + sz) ms"

fun layout_end :: "nat \<Rightarrow> (string \<times> nat \<times> nat) list \<Rightarrow> nat" where
  "layout_end off [] = off"
| "layout_end off ((x, sz, al) # ms) = layout_end (round_up off al + sz) ms"

fun sizeof :: "ctype \<Rightarrow> nat" where
  "sizeof (Scalar n) = n"
| "sizeof (Array n t) = n * sizeof t"
| "sizeof (Struct ms) =
     round_up (layout_end 0 (map (\<lambda>(x, t). (x, sizeof t, alignof t)) ms)) (alignof (Struct ms))"
| "sizeof (Union ms) =
     round_up (fold max (map (\<lambda>(_, t). sizeof t) ms) 0) (alignof (Union ms))"

definition members :: "(string \<times> ctype) list \<Rightarrow> (string \<times> nat \<times> nat) list" where
  "members ms = map (\<lambda>(x, t). (x, sizeof t, alignof t)) ms"

fun fields :: "ctype \<Rightarrow> (string \<times> nat \<times> nat) list" where
  "fields (Struct ms) = layout 0 (members ms)"
| "fields (Union ms) = map (\<lambda>(x, t). (x, 0, sizeof t)) ms"
| "fields _ = []"

definition offsetof :: "ctype \<Rightarrow> string \<Rightarrow> nat option" where
  "offsetof t x = map_option fst (map_of (fields t) x)"

text \<open>Well-formed: scalars have size 1, 2, 4, 8 or 16, arrays and structures are of such types.\<close>

fun wf_ctype :: "ctype \<Rightarrow> bool" where
  "wf_ctype (Scalar n) = (n \<in> {1, 2, 4, 8, 16})"
| "wf_ctype (Array _ t) = wf_ctype t"
| "wf_ctype (Struct ms) = (distinct (map fst ms) \<and> list_all (\<lambda>(_, t). wf_ctype t) ms)"
| "wf_ctype (Union ms) = (distinct (map fst ms) \<and> list_all (\<lambda>(_, t). wf_ctype t) ms)"

section \<open>The layout is sound\<close>

definition align_ok :: "nat \<Rightarrow> bool" where
  "align_ok n \<longleftrightarrow> n \<in> {1, 2, 4, 8, 16}"

lemma fold_max_eq: "fold max xs (a :: nat) = Max (insert a (set xs))"
  using Max.set_eq_fold [of a xs] by simp

lemma align_ok_dvd: "align_ok a \<Longrightarrow> align_ok b \<Longrightarrow> a \<le> b \<Longrightarrow> a dvd b"
  by (auto simp: align_ok_def)

lemma align_ok_members:
  assumes "\<And>m. m \<in> set ms \<Longrightarrow> align_ok (alignof (snd m))"
  shows "align_ok (fold max (map (\<lambda>(_, t). alignof t) ms) 1)"
proof -
  let ?A = "insert 1 (set (map (\<lambda>(_, t). alignof t) ms))"
  have "Max ?A \<in> ?A" by (rule Max_in) auto
  moreover have "align_ok n" if "n \<in> ?A" for n
    using that assms by (force simp: align_ok_def [of "Suc 0"])
  ultimately show ?thesis unfolding fold_max_eq by blast
qed

lemma alignof_ok: "wf_ctype t \<Longrightarrow> align_ok (alignof t)"
proof (induction t rule: alignof.induct)
  case (3 ms)
  then have "\<And>m. m \<in> set ms \<Longrightarrow> align_ok (alignof (snd m))"
    by (auto simp: list_all_iff)
  then show ?case by (simp only: alignof.simps align_ok_members)
next
  case (4 ms)
  then have "\<And>m. m \<in> set ms \<Longrightarrow> align_ok (alignof (snd m))"
    by (auto simp: list_all_iff)
  then show ?case by (simp only: alignof.simps align_ok_members)
qed (simp_all add: align_ok_def)

lemma alignof_pos: "wf_ctype t \<Longrightarrow> 0 < alignof t"
  using alignof_ok [of t] by (auto simp: align_ok_def)

lemma alignof_dvd_sizeof: "wf_ctype t \<Longrightarrow> alignof t dvd sizeof t"
  by (induction t rule: alignof.induct) simp_all

lemma member_align:
  assumes "wf_ctype (Struct ms)" and "(x, t) \<in> set ms"
  shows "alignof t dvd alignof (Struct ms)"
proof (rule align_ok_dvd)
  show "align_ok (alignof t)" using assms by (intro alignof_ok) (auto simp: list_all_iff)
  show "align_ok (alignof (Struct ms))" using assms(1) by (rule alignof_ok)
  show "alignof t \<le> alignof (Struct ms)"
    using assms(2) by (force simp: fold_max_eq intro: Max_ge)
qed

text \<open>
  Members laid out one after the other: in order, without overlap, within the end.
  \<open>before\<close> is the order of two placed members.
\<close>

definition before :: "string \<times> nat \<times> nat \<Rightarrow> string \<times> nat \<times> nat \<Rightarrow> bool" where
  "before a b = (fst (snd a) + snd (snd a) \<le> fst (snd b))"

lemma layout_end_ge: "\<forall>(_, _, al) \<in> set ms. 0 < al \<Longrightarrow> off \<le> layout_end off ms"
proof (induction off ms rule: layout_end.induct)
  case (2 off x sz al ms)
  then show ?case using round_up_ge [of al off] by auto
qed simp

lemma layout_bounds:
  "\<forall>(_, _, al) \<in> set ms. 0 < al \<Longrightarrow> (x, o', sz) \<in> set (layout off ms) \<Longrightarrow>
     off \<le> o' \<and> o' + sz \<le> layout_end off ms"
proof (induction off ms rule: layout.induct)
  case (2 off y s al ms)
  then show ?case using round_up_ge [of al off] layout_end_ge [of ms "round_up off al + s"] by auto
qed simp

lemma layout_sorted:
  assumes "\<forall>(_, _, al) \<in> set ms. 0 < al"
  shows "sorted_wrt before (layout off ms)"
  using assms
proof (induction ms arbitrary: off)
  case (Cons m ms)
  obtain y s al where m: "m = (y, s, al)" by (cases m)
  have "round_up off al + s \<le> o'" if "(x, o', sz) \<in> set (layout (round_up off al + s) ms)" for x o' sz
    using layout_bounds [of ms x o' sz] that Cons.prems by auto
  then show ?case using Cons by (auto simp: m before_def)
qed simp

lemma layout_aligned:
  "(x, o', sz) \<in> set (layout off ms) \<Longrightarrow> \<exists>al. (x, sz, al) \<in> set ms \<and> al dvd o'"
  by (induction off ms rule: layout.induct) (auto simp del: dvd_def)

lemma members_pos: "wf_ctype (Struct ms) \<Longrightarrow> \<forall>(_, _, al) \<in> set (members ms). 0 < al"
  by (fastforce simp: members_def list_all_iff intro: alignof_pos)

lemma struct_fields_sorted: "wf_ctype (Struct ms) \<Longrightarrow> sorted_wrt before (fields (Struct ms))"
  by (simp add: layout_sorted members_pos)

lemma struct_field_inside:
  assumes "wf_ctype (Struct ms)" and "(x, o', sz) \<in> set (fields (Struct ms))"
  shows "o' + sz \<le> sizeof (Struct ms)"
proof -
  have "o' + sz \<le> layout_end 0 (members ms)"
    using assms layout_bounds [OF members_pos] by simp
  also have "\<dots> \<le> round_up (layout_end 0 (members ms)) (alignof (Struct ms))"
    by (rule round_up_ge) (rule alignof_pos [OF assms(1)])
  finally show ?thesis by (simp add: members_def)
qed

lemma struct_field_typed:
  assumes "(x, o', sz) \<in> set (fields (Struct ms))"
  shows "\<exists>t. (x, t) \<in> set ms \<and> sz = sizeof t \<and> alignof t dvd o'"
  using assms layout_aligned [of x o' sz 0 "members ms"] by (auto simp: members_def)

text \<open>The fields of a structure at an aligned address are aligned addresses.\<close>

lemma struct_field_address:
  assumes "wf_ctype (Struct ms)" and "(x, o', sz) \<in> set (fields (Struct ms))"
    and "alignof (Struct ms) dvd a"
  shows "\<exists>t. (x, t) \<in> set ms \<and> sz = sizeof t \<and> alignof t dvd (a + o')"
proof -
  obtain t where t: "(x, t) \<in> set ms" "sz = sizeof t" "alignof t dvd o'"
    using struct_field_typed [OF assms(2)] by blast
  have "alignof t dvd a"
    using member_align [OF assms(1) t(1)] assms(3) by (rule dvd_trans)
  then show ?thesis using t by auto
qed

end
