(* ===== verification/Kernel_Layout.thy ===== *)
theory Kernel_Layout
  imports C_Layout
begin

text \<open>
  The structures of the kernel headers, member by member, as \<open>ctype\<close> values:
  \<^verbatim>\<open>sys/proc.h\<close>, \<^verbatim>\<open>sys/ucred.h\<close>, \<^verbatim>\<open>sys/filedesc.h\<close>, the structures embedded in them, and
  the records that \<^verbatim>\<open>sys/user.h\<close> exports with a size of their own to agree with. The
  layout does not tell signed from unsigned types, nor a pointer's target.
\<close>

named_theorems layout_defs \<open>structures and typedefs\<close>

section \<open>Types\<close>

abbreviation c_char :: ctype where "c_char \<equiv> Scalar 1"
abbreviation c_short :: ctype where "c_short \<equiv> Scalar 2"
abbreviation c_int :: ctype where "c_int \<equiv> Scalar 4"
abbreviation c_long :: ctype where "c_long \<equiv> Scalar 8"
abbreviation c_ptr :: ctype where "c_ptr \<equiv> Scalar 8"

text \<open>Typedefs of \<^verbatim>\<open>sys/_types.h\<close>, \<^verbatim>\<open>sys/types.h\<close> and \<^verbatim>\<open>machine/_types.h\<close>.\<close>

abbreviation pid_t :: ctype where "pid_t \<equiv> c_int"
abbreviation uid_t :: ctype where "uid_t \<equiv> c_int"
abbreviation gid_t :: ctype where "gid_t \<equiv> c_int"
abbreviation lwpid_t :: ctype where "lwpid_t \<equiv> c_int"
abbreviation dev_t :: ctype where "dev_t \<equiv> c_int"
abbreviation fixpt_t :: ctype where "fixpt_t \<equiv> c_int"
abbreviation off_t :: ctype where "off_t \<equiv> c_long"
abbreviation rlim_t :: ctype where "rlim_t \<equiv> c_long"
abbreviation segsz_t :: ctype where "segsz_t \<equiv> c_long"
abbreviation register_t :: ctype where "register_t \<equiv> c_long"
abbreviation vm_size_t :: ctype where "vm_size_t \<equiv> c_long"
abbreviation vm_offset_t :: ctype where "vm_offset_t \<equiv> c_long"
abbreviation time_t :: ctype where "time_t \<equiv> c_long"
abbreviation suseconds_t :: ctype where "suseconds_t \<equiv> c_long"
abbreviation uintptr_t :: ctype where "uintptr_t \<equiv> c_long"
abbreviation size_t :: ctype where "size_t \<equiv> c_long"
abbreviation cap_rights_t :: ctype where "cap_rights_t \<equiv> c_long"
abbreviation sa_family_t :: ctype where "sa_family_t \<equiv> c_char"
abbreviation ndslot_t :: ctype where "ndslot_t \<equiv> c_long"
abbreviation au_id_t :: ctype where "au_id_t \<equiv> c_int"
abbreviation au_asid_t :: ctype where "au_asid_t \<equiv> c_int"
abbreviation au_asflgs_t :: ctype where "au_asflgs_t \<equiv> c_long"

text \<open>A bit-field structure packed into 16 bytes (\<^verbatim>\<open>machine/segments.h\<close>).\<close>

abbreviation segment_descriptor_t :: ctype where "segment_descriptor_t \<equiv> Array 16 c_char"

text \<open>Heads and links of the lists of \<^verbatim>\<open>sys/queue.h\<close>.\<close>

definition SLIST_HEAD_t :: ctype where [layout_defs]:
  "SLIST_HEAD_t = Struct [(''slh_first'', c_ptr)]"

definition SLIST_ENTRY_t :: ctype where [layout_defs]:
  "SLIST_ENTRY_t = Struct [(''sle_next'', c_ptr)]"

definition STAILQ_HEAD_t :: ctype where [layout_defs]:
  "STAILQ_HEAD_t = Struct [(''stqh_first'', c_ptr), (''stqh_last'', c_ptr)]"

definition STAILQ_ENTRY_t :: ctype where [layout_defs]:
  "STAILQ_ENTRY_t = Struct [(''stqe_next'', c_ptr)]"

definition LIST_HEAD_t :: ctype where [layout_defs]:
  "LIST_HEAD_t = Struct [(''lh_first'', c_ptr)]"

definition LIST_ENTRY_t :: ctype where [layout_defs]:
  "LIST_ENTRY_t = Struct [(''le_next'', c_ptr), (''le_prev'', c_ptr)]"

definition TAILQ_HEAD_t :: ctype where [layout_defs]:
  "TAILQ_HEAD_t = Struct [(''tqh_first'', c_ptr), (''tqh_last'', c_ptr)]"

definition TAILQ_ENTRY_t :: ctype where [layout_defs]:
  "TAILQ_ENTRY_t = Struct [(''tqe_next'', c_ptr), (''tqe_prev'', c_ptr)]"

section \<open>Embedded structures\<close>

definition lock_object_t :: ctype where [layout_defs]:
  "lock_object_t =
     Struct [
      (''lo_name'', c_ptr), (''lo_flags'', c_int), (''lo_data'', c_int), (''lo_witness'', c_ptr)]"

definition mtx_t :: ctype where [layout_defs]:
  "mtx_t =
     Struct [
      (''lock_object'', lock_object_t), (''mtx_lock'', uintptr_t)]"

definition sx_t :: ctype where [layout_defs]:
  "sx_t =
     Struct [
      (''lock_object'', lock_object_t), (''sx_lock'', uintptr_t)]"

definition callout_t :: ctype where [layout_defs]:
  "callout_t =
     Struct [
      (''c_links'', Union [
         (''sle'', SLIST_ENTRY_t), (''tqe'', TAILQ_ENTRY_t)]),
      (''c_time'', c_int), (''c_arg'', c_ptr), (''c_func'', c_ptr), (''c_lock'', c_ptr),
      (''c_flags'', c_int), (''c_cpu'', c_int)]"

definition timeval_t :: ctype where [layout_defs]:
  "timeval_t =
     Struct [
      (''tv_sec'', time_t), (''tv_usec'', suseconds_t)]"

definition itimerval_t :: ctype where [layout_defs]:
  "itimerval_t =
     Struct [
      (''it_interval'', timeval_t), (''it_value'', timeval_t)]"

definition rusage_t :: ctype where [layout_defs]:
  "rusage_t =
     Struct [
      (''ru_utime'', timeval_t), (''ru_stime'', timeval_t), (''ru_maxrss'', c_long),
      (''ru_ixrss'', c_long), (''ru_idrss'', c_long), (''ru_isrss'', c_long),
      (''ru_minflt'', c_long), (''ru_majflt'', c_long), (''ru_nswap'', c_long),
      (''ru_inblock'', c_long), (''ru_oublock'', c_long), (''ru_msgsnd'', c_long),
      (''ru_msgrcv'', c_long), (''ru_nsignals'', c_long), (''ru_nvcsw'', c_long),
      (''ru_nivcsw'', c_long)]"

definition sigset_t :: ctype where [layout_defs]:
  "sigset_t =
     Struct [
      (''__bits'', Array 4 c_int)]"

definition sigval_t :: ctype where [layout_defs]:
  "sigval_t =
     Union [
      (''sival_int'', c_int), (''sival_ptr'', c_ptr), (''sigval_int'', c_int),
      (''sigval_ptr'', c_ptr)]"

definition siginfo_t :: ctype where [layout_defs]:
  "siginfo_t =
     Struct [
      (''si_signo'', c_int), (''si_errno'', c_int), (''si_code'', c_int), (''si_pid'', pid_t),
      (''si_uid'', uid_t), (''si_status'', c_int), (''si_addr'', c_ptr),
      (''si_value'', sigval_t),
      (''_reason'', Union [
         (''_fault'', Struct [
            (''_trapno'', c_int)]),
         (''_timer'', Struct [
            (''_timerid'', c_int), (''_overrun'', c_int)]),
         (''_mesgq'', Struct [
            (''_mqd'', c_int)]),
         (''_poll'', Struct [
            (''_band'', c_long)]),
         (''__spare__'', Struct [
            (''__spare1__'', c_long), (''__spare2__'', Array 7 c_int)])])]"

definition stack_t :: ctype where [layout_defs]:
  "stack_t =
     Struct [
      (''ss_sp'', c_ptr), (''ss_size'', size_t), (''ss_flags'', c_int)]"

definition ksiginfo_t :: ctype where [layout_defs]:
  "ksiginfo_t =
     Struct [
      (''ksi_link'', TAILQ_ENTRY_t), (''ksi_info'', siginfo_t), (''ksi_flags'', c_int),
      (''ksi_sigq'', c_ptr)]"

definition sigqueue_t :: ctype where [layout_defs]:
  "sigqueue_t =
     Struct [
      (''sq_signals'', sigset_t), (''sq_kill'', sigset_t), (''sq_list'', TAILQ_HEAD_t),
      (''sq_proc'', c_ptr), (''sq_flags'', c_int)]"

definition osd_t :: ctype where [layout_defs]:
  "osd_t =
     Struct [
      (''osd_nslots'', c_int), (''osd_slots'', c_ptr), (''osd_next'', LIST_ENTRY_t)]"

definition cv_t :: ctype where [layout_defs]:
  "cv_t =
     Struct [
      (''cv_description'', c_ptr), (''cv_waiters'', c_int)]"

definition knlist_t :: ctype where [layout_defs]:
  "knlist_t =
     Struct [
      (''kl_list'', SLIST_HEAD_t), (''kl_lock'', c_ptr), (''kl_unlock'', c_ptr),
      (''kl_assert_locked'', c_ptr), (''kl_assert_unlocked'', c_ptr), (''kl_lockarg'', c_ptr)]"

definition priority_t :: ctype where [layout_defs]:
  "priority_t =
     Struct [
      (''pri_class'', c_char), (''pri_level'', c_char), (''pri_native'', c_char),
      (''pri_user'', c_char)]"

definition au_tid_addr_t :: ctype where [layout_defs]:
  "au_tid_addr_t =
     Struct [
      (''at_port'', dev_t), (''at_type'', c_int), (''at_addr'', Array 4 c_int)]"

definition au_mask_t :: ctype where [layout_defs]:
  "au_mask_t =
     Struct [
      (''am_success'', c_int), (''am_failure'', c_int)]"

definition auditinfo_addr_t :: ctype where [layout_defs]:
  "auditinfo_addr_t =
     Struct [
      (''ai_auid'', au_id_t), (''ai_mask'', au_mask_t), (''ai_termid'', au_tid_addr_t),
      (''ai_asid'', au_asid_t), (''ai_flags'', au_asflgs_t)]"

definition mdthread_t :: ctype where [layout_defs]:
  "mdthread_t =
     Struct [
      (''md_spinlock_count'', c_int), (''md_saved_flags'', register_t)]"

definition mdproc_t :: ctype where [layout_defs]:
  "mdproc_t =
     Struct [
      (''md_ldt'', c_ptr), (''md_ldt_sd'', segment_descriptor_t)]"

section \<open>Processes, threads, credentials, descriptor tables\<close>

definition session_t :: ctype where [layout_defs]:
  "session_t =
     Struct [
      (''s_count'', c_int), (''s_leader'', c_ptr), (''s_ttyvp'', c_ptr), (''s_ttydp'', c_ptr),
      (''s_ttyp'', c_ptr), (''s_sid'', pid_t), (''s_login'', Array 24 c_char),
      (''s_mtx'', mtx_t)]"

definition pgrp_t :: ctype where [layout_defs]:
  "pgrp_t =
     Struct [
      (''pg_hash'', LIST_ENTRY_t), (''pg_members'', LIST_HEAD_t), (''pg_session'', c_ptr),
      (''pg_sigiolst'', SLIST_HEAD_t), (''pg_id'', pid_t), (''pg_jobc'', c_int),
      (''pg_mtx'', mtx_t)]"

definition pargs_t :: ctype where [layout_defs]:
  "pargs_t =
     Struct [
      (''ar_ref'', c_int), (''ar_length'', c_int), (''ar_args'', Array 1 c_char)]"

definition rusage_ext_t :: ctype where [layout_defs]:
  "rusage_ext_t =
     Struct [
      (''rux_runtime'', c_long), (''rux_uticks'', c_long), (''rux_sticks'', c_long),
      (''rux_iticks'', c_long), (''rux_uu'', c_long), (''rux_su'', c_long), (''rux_tu'', c_long)]"

definition thread_t :: ctype where [layout_defs]:
  "thread_t =
     Struct [
      (''td_lock'', c_ptr), (''td_proc'', c_ptr), (''td_plist'', TAILQ_ENTRY_t),
      (''td_runq'', TAILQ_ENTRY_t), (''td_slpq'', TAILQ_ENTRY_t), (''td_lockq'', TAILQ_ENTRY_t),
      (''td_hash'', LIST_ENTRY_t), (''td_cpuset'', c_ptr), (''td_sel'', c_ptr),
      (''td_sleepqueue'', c_ptr), (''td_turnstile'', c_ptr), (''td_umtxq'', c_ptr),
      (''td_tid'', lwpid_t), (''td_sigqueue'', sigqueue_t), (''td_lend_user_pri'', c_char),
      (''td_flags'', c_int), (''td_inhibitors'', c_int), (''td_pflags'', c_int),
      (''td_dupfd'', c_int), (''td_sqqueue'', c_int), (''td_wchan'', c_ptr),
      (''td_wmesg'', c_ptr), (''td_lastcpu'', c_char), (''td_oncpu'', c_char),
      (''td_owepreempt'', c_char), (''td_tsqueue'', c_char), (''td_locks'', c_short),
      (''td_rw_rlocks'', c_short), (''td_lk_slocks'', c_short), (''td_blocked'', c_ptr),
      (''td_lockname'', c_ptr), (''td_contested'', LIST_HEAD_t), (''td_sleeplocks'', c_ptr),
      (''td_intr_nesting_level'', c_int), (''td_pinned'', c_int), (''td_ucred'', c_ptr),
      (''td_estcpu'', c_int), (''td_slptick'', c_int), (''td_blktick'', c_int),
      (''td_swvoltick'', c_int), (''td_ru'', rusage_t), (''td_rux'', rusage_ext_t),
      (''td_incruntime'', c_long), (''td_runtime'', c_long), (''td_pticks'', c_int),
      (''td_sticks'', c_int), (''td_iticks'', c_int), (''td_uticks'', c_int),
      (''td_intrval'', c_int), (''td_oldsigmask'', sigset_t), (''td_sigmask'', sigset_t),
      (''td_generation'', c_int), (''td_sigstk'', stack_t), (''td_xsig'', c_int),
      (''td_profil_addr'', c_long), (''td_profil_ticks'', c_int), (''td_name'', Array 20 c_char),
      (''td_fpop'', c_ptr), (''td_dbgflags'', c_int), (''td_dbgksi'', ksiginfo_t),
      (''td_ng_outbound'', c_int), (''td_osd'', osd_t), (''td_map_def_user'', c_ptr),
      (''td_dbg_forked'', pid_t), (''td_rqindex'', c_char), (''td_base_pri'', c_char),
      (''td_priority'', c_char), (''td_pri_class'', c_char), (''td_user_pri'', c_char),
      (''td_base_user_pri'', c_char), (''td_pcb'', c_ptr), (''td_state'', c_int),
      (''td_retval'', Array 2 register_t), (''td_slpcallout'', callout_t), (''td_frame'', c_ptr),
      (''td_kstack_obj'', c_ptr), (''td_kstack'', vm_offset_t), (''td_kstack_pages'', c_int),
      (''td_critnest'', c_int), (''td_md'', mdthread_t), (''td_sched'', c_ptr),
      (''td_ar'', c_ptr), (''td_lprof'', Array 2 LIST_HEAD_t), (''td_dtrace'', c_ptr),
      (''td_errno'', c_int), (''td_vnet'', c_ptr), (''td_vnet_lpush'', c_ptr),
      (''td_intr_frame'', c_ptr)]"

definition proc_t :: ctype where [layout_defs]:
  "proc_t =
     Struct [
      (''p_list'', LIST_ENTRY_t), (''p_threads'', TAILQ_HEAD_t), (''p_slock'', mtx_t),
      (''p_ucred'', c_ptr), (''p_fd'', c_ptr), (''p_fdtol'', c_ptr), (''p_stats'', c_ptr),
      (''p_limit'', c_ptr), (''p_limco'', callout_t), (''p_sigacts'', c_ptr),
      (''p_flag'', c_int), (''p_state'', c_int), (''p_pid'', pid_t), (''p_hash'', LIST_ENTRY_t),
      (''p_pglist'', LIST_ENTRY_t), (''p_pptr'', c_ptr), (''p_sibling'', LIST_ENTRY_t),
      (''p_children'', LIST_HEAD_t), (''p_mtx'', mtx_t), (''p_ksi'', c_ptr),
      (''p_sigqueue'', sigqueue_t), (''p_oppid'', pid_t), (''p_dbg_child'', c_int),
      (''p_vmspace'', c_ptr), (''p_swtick'', c_int), (''p_realtimer'', itimerval_t),
      (''p_ru'', rusage_t), (''p_rux'', rusage_ext_t), (''p_crux'', rusage_ext_t),
      (''p_profthreads'', c_int), (''p_exitthreads'', c_int), (''p_traceflag'', c_int),
      (''p_tracevp'', c_ptr), (''p_tracecred'', c_ptr), (''p_textvp'', c_ptr),
      (''p_lock'', c_int), (''p_sigiolst'', SLIST_HEAD_t), (''p_sigparent'', c_int),
      (''p_sig'', c_int), (''p_code'', c_long), (''p_stops'', c_int), (''p_stype'', c_int),
      (''p_step'', c_char), (''p_pfsflags'', c_char), (''p_nlminfo'', c_ptr),
      (''p_aioinfo'', c_ptr), (''p_singlethread'', c_ptr), (''p_suspcount'', c_int),
      (''p_xthread'', c_ptr), (''p_boundary_count'', c_int), (''p_pendingcnt'', c_int),
      (''p_itimers'', c_ptr), (''p_procdesc'', c_ptr), (''p_magic'', c_int),
      (''p_osrel'', c_int), (''p_comm'', Array 20 c_char), (''p_pgrp'', c_ptr),
      (''p_sysent'', c_ptr), (''p_args'', c_ptr), (''p_cpulimit'', rlim_t), (''p_nice'', c_char),
      (''p_fibnum'', c_int), (''p_xstat'', c_short), (''p_klist'', knlist_t),
      (''p_numthreads'', c_int), (''p_md'', mdproc_t), (''p_itcallout'', callout_t),
      (''p_acflag'', c_short), (''p_peers'', c_ptr), (''p_leader'', c_ptr),
      (''p_emuldata'', c_ptr), (''p_label'', c_ptr), (''p_sched'', c_ptr),
      (''p_ktr'', STAILQ_HEAD_t), (''p_mqnotifier'', LIST_HEAD_t), (''p_dtrace'', c_ptr),
      (''p_pwait'', cv_t), (''p_dbgwait'', cv_t), (''p_prev_runtime'', c_long),
      (''p_racct'', c_ptr)]"

definition ucred_t :: ctype where [layout_defs]:
  "ucred_t =
     Struct [
      (''cr_ref'', c_int), (''cr_uid'', uid_t), (''cr_ruid'', uid_t), (''cr_svuid'', uid_t),
      (''cr_ngroups'', c_int), (''cr_rgid'', gid_t), (''cr_svgid'', gid_t),
      (''cr_uidinfo'', c_ptr), (''cr_ruidinfo'', c_ptr), (''cr_prison'', c_ptr),
      (''cr_loginclass'', c_ptr), (''cr_flags'', c_int), (''cr_pspare2'', Array 2 c_ptr),
      (''cr_label'', c_ptr), (''cr_audit'', auditinfo_addr_t), (''cr_groups'', c_ptr),
      (''cr_agroups'', c_int)]"

definition xucred_t :: ctype where [layout_defs]:
  "xucred_t =
     Struct [
      (''cr_version'', c_int), (''cr_uid'', uid_t), (''cr_ngroups'', c_short),
      (''cr_groups'', Array 16 gid_t), (''_cr_unused1'', c_ptr)]"

definition filedesc_t :: ctype where [layout_defs]:
  "filedesc_t =
     Struct [
      (''fd_ofiles'', c_ptr), (''fd_ofileflags'', c_ptr), (''fd_cdir'', c_ptr),
      (''fd_rdir'', c_ptr), (''fd_jdir'', c_ptr), (''fd_nfiles'', c_int), (''fd_map'', c_ptr),
      (''fd_lastfile'', c_int), (''fd_freefile'', c_int), (''fd_cmask'', c_short),
      (''fd_refcnt'', c_short), (''fd_holdcnt'', c_short), (''fd_sx'', sx_t),
      (''fd_kqlist'', SLIST_HEAD_t), (''fd_holdleaderscount'', c_int),
      (''fd_holdleaderswakeup'', c_int)]"

definition filedesc_to_leader_t :: ctype where [layout_defs]:
  "filedesc_to_leader_t =
     Struct [
      (''fdl_refcount'', c_int), (''fdl_holdcount'', c_int), (''fdl_wakeup'', c_int),
      (''fdl_leader'', c_ptr), (''fdl_prev'', c_ptr), (''fdl_next'', c_ptr)]"

section \<open>Records exported by \<^verbatim>\<open>sysctl\<close>\<close>

definition sockaddr_storage_t :: ctype where [layout_defs]:
  "sockaddr_storage_t =
     Struct [
      (''ss_len'', c_char), (''ss_family'', sa_family_t), (''__ss_pad1'', Array 6 c_char),
      (''__ss_align'', c_long), (''__ss_pad2'', Array 112 c_char)]"

definition kinfo_proc_t :: ctype where [layout_defs]:
  "kinfo_proc_t =
     Struct [
      (''ki_structsize'', c_int), (''ki_layout'', c_int), (''ki_args'', c_ptr),
      (''ki_paddr'', c_ptr), (''ki_addr'', c_ptr), (''ki_tracep'', c_ptr),
      (''ki_textvp'', c_ptr), (''ki_fd'', c_ptr), (''ki_vmspace'', c_ptr), (''ki_wchan'', c_ptr),
      (''ki_pid'', pid_t), (''ki_ppid'', pid_t), (''ki_pgid'', pid_t), (''ki_tpgid'', pid_t),
      (''ki_sid'', pid_t), (''ki_tsid'', pid_t), (''ki_jobc'', c_short),
      (''ki_spare_short1'', c_short), (''ki_tdev'', dev_t), (''ki_siglist'', sigset_t),
      (''ki_sigmask'', sigset_t), (''ki_sigignore'', sigset_t), (''ki_sigcatch'', sigset_t),
      (''ki_uid'', uid_t), (''ki_ruid'', uid_t), (''ki_svuid'', uid_t), (''ki_rgid'', gid_t),
      (''ki_svgid'', gid_t), (''ki_ngroups'', c_short), (''ki_spare_short2'', c_short),
      (''ki_groups'', Array 16 gid_t), (''ki_size'', vm_size_t), (''ki_rssize'', segsz_t),
      (''ki_swrss'', segsz_t), (''ki_tsize'', segsz_t), (''ki_dsize'', segsz_t),
      (''ki_ssize'', segsz_t), (''ki_xstat'', c_short), (''ki_acflag'', c_short),
      (''ki_pctcpu'', fixpt_t), (''ki_estcpu'', c_int), (''ki_slptime'', c_int),
      (''ki_swtime'', c_int), (''ki_spareint1'', c_int), (''ki_runtime'', c_long),
      (''ki_start'', timeval_t), (''ki_childtime'', timeval_t), (''ki_flag'', c_long),
      (''ki_kiflag'', c_long), (''ki_traceflag'', c_int), (''ki_stat'', c_char),
      (''ki_nice'', c_char), (''ki_lock'', c_char), (''ki_rqindex'', c_char),
      (''ki_oncpu'', c_char), (''ki_lastcpu'', c_char), (''ki_tdname'', Array 17 c_char),
      (''ki_wmesg'', Array 9 c_char), (''ki_login'', Array 18 c_char),
      (''ki_lockname'', Array 9 c_char), (''ki_comm'', Array 20 c_char),
      (''ki_emul'', Array 17 c_char), (''ki_loginclass'', Array 18 c_char),
      (''ki_sparestrings'', Array 50 c_char), (''ki_spareints'', Array 9 c_int),
      (''ki_cr_flags'', c_int), (''ki_jid'', c_int), (''ki_numthreads'', c_int),
      (''ki_tid'', lwpid_t), (''ki_pri'', priority_t), (''ki_rusage'', rusage_t),
      (''ki_rusage_ch'', rusage_t), (''ki_pcb'', c_ptr), (''ki_kstack'', c_ptr),
      (''ki_udata'', c_ptr), (''ki_tdaddr'', c_ptr), (''ki_spareptrs'', Array 6 c_ptr),
      (''ki_sparelongs'', Array 12 c_long), (''ki_sflag'', c_long), (''ki_tdflags'', c_long)]"

definition kinfo_ofile_t :: ctype where [layout_defs]:
  "kinfo_ofile_t =
     Struct [
      (''kf_structsize'', c_int), (''kf_type'', c_int), (''kf_fd'', c_int),
      (''kf_ref_count'', c_int), (''kf_flags'', c_int), (''kf_offset'', off_t),
      (''kf_vnode_type'', c_int), (''kf_sock_domain'', c_int), (''kf_sock_type'', c_int),
      (''kf_sock_protocol'', c_int), (''kf_path'', Array 1024 c_char),
      (''kf_sa_local'', sockaddr_storage_t), (''kf_sa_peer'', sockaddr_storage_t)]"

definition kinfo_file_t :: ctype where [layout_defs]:
  "kinfo_file_t =
     Struct [
      (''kf_structsize'', c_int), (''kf_type'', c_int), (''kf_fd'', c_int),
      (''kf_ref_count'', c_int), (''kf_flags'', c_int), (''kf_pad0'', c_int),
      (''kf_offset'', c_long), (''kf_vnode_type'', c_int), (''kf_sock_domain'', c_int),
      (''kf_sock_type'', c_int), (''kf_sock_protocol'', c_int),
      (''kf_sa_local'', sockaddr_storage_t), (''kf_sa_peer'', sockaddr_storage_t),
      (''kf_un'', Union [
         (''kf_sock'', Struct [
            (''kf_sock_pcb'', c_long), (''kf_sock_inpcb'', c_long),
            (''kf_sock_unpconn'', c_long), (''kf_sock_snd_sb_state'', c_short),
            (''kf_sock_rcv_sb_state'', c_short), (''kf_sock_pad0'', c_int)]),
         (''kf_file'', Struct [
            (''kf_file_fileid'', c_long), (''kf_file_size'', c_long), (''kf_file_fsid'', c_int),
            (''kf_file_rdev'', c_int), (''kf_file_mode'', c_short), (''kf_file_pad0'', c_short),
            (''kf_file_pad1'', c_int)]),
         (''kf_pipe'', Struct [
            (''kf_pipe_addr'', c_long), (''kf_pipe_peer'', c_long),
            (''kf_pipe_buffer_cnt'', c_int), (''kf_pipe_pad0'', Array 3 c_int)]),
         (''kf_pts'', Struct [
            (''kf_pts_dev'', c_int), (''kf_pts_pad0'', Array 7 c_int)]),
         (''kf_proc'', Struct [
            (''kf_pid'', pid_t)])]),
      (''kf_status'', c_short), (''kf_pad1'', c_short), (''_kf_ispare0'', c_int),
      (''kf_cap_rights'', cap_rights_t), (''_kf_ispare'', Array 4 c_int),
      (''kf_path'', Array 1024 c_char)]"

definition kinfo_ovmentry_t :: ctype where [layout_defs]:
  "kinfo_ovmentry_t =
     Struct [
      (''kve_structsize'', c_int), (''kve_type'', c_int), (''kve_start'', c_ptr),
      (''kve_end'', c_ptr), (''kve_flags'', c_int), (''kve_resident'', c_int),
      (''kve_private_resident'', c_int), (''kve_protection'', c_int), (''kve_ref_count'', c_int),
      (''kve_shadow_count'', c_int), (''kve_path'', Array 1024 c_char),
      (''_kve_pspare'', Array 8 c_ptr), (''kve_offset'', off_t), (''kve_fileid'', c_long),
      (''kve_fsid'', dev_t), (''_kve_ispare'', Array 3 c_int)]"

definition kinfo_vmentry_t :: ctype where [layout_defs]:
  "kinfo_vmentry_t =
     Struct [
      (''kve_structsize'', c_int), (''kve_type'', c_int), (''kve_start'', c_long),
      (''kve_end'', c_long), (''kve_offset'', c_long), (''kve_vn_fileid'', c_long),
      (''kve_vn_fsid'', c_int), (''kve_flags'', c_int), (''kve_resident'', c_int),
      (''kve_private_resident'', c_int), (''kve_protection'', c_int), (''kve_ref_count'', c_int),
      (''kve_shadow_count'', c_int), (''kve_vn_type'', c_int), (''kve_vn_size'', c_long),
      (''kve_vn_rdev'', c_int), (''kve_vn_mode'', c_short), (''kve_status'', c_short),
      (''_kve_ispare'', Array 12 c_int), (''kve_path'', Array 1024 c_char)]"

definition kinfo_kstack_t :: ctype where [layout_defs]:
  "kinfo_kstack_t =
     Struct [
      (''kkst_tid'', lwpid_t), (''kkst_state'', c_int), (''kkst_trace'', Array 1024 c_char),
      (''_kkst_ispare'', Array 16 c_int)]"

section \<open>Computed layouts\<close>

lemmas layout_eval = layout_defs offsetof_def members_def round_up_def

lemma kernel_types_wf: "list_all wf_ctype [thread_t, proc_t, ucred_t, filedesc_t, session_t, pgrp_t]"
  by (simp add: layout_defs)

lemma thread_offsets: "offsetof thread_t ''td_lock'' = Some 0" "offsetof thread_t ''td_proc'' = Some 8"
  by (simp_all add: layout_eval)

lemma proc_offsets:
  "offsetof proc_t ''p_list'' = Some 0" "offsetof proc_t ''p_ucred'' = Some 0x40"
  "offsetof proc_t ''p_fd'' = Some 0x48" "offsetof proc_t ''p_pid'' = Some 0xb0"
  by (simp_all add: layout_eval)

lemma ucred_offsets:
  "offsetof ucred_t ''cr_uid'' = Some 4" "offsetof ucred_t ''cr_ruid'' = Some 8"
  "offsetof ucred_t ''cr_svuid'' = Some 12" "offsetof ucred_t ''cr_rgid'' = Some 20"
  "offsetof ucred_t ''cr_svgid'' = Some 24" "offsetof ucred_t ''cr_prison'' = Some 48"
  "offsetof ucred_t ''cr_label'' = Some 88"
  by (simp_all add: layout_eval)

lemma filedesc_offsets:
  "offsetof filedesc_t ''fd_cdir'' = Some 16" "offsetof filedesc_t ''fd_rdir'' = Some 24"
  "offsetof filedesc_t ''fd_jdir'' = Some 32"
  by (simp_all add: layout_eval)

text \<open>
  The structures exported to user programs have the sizes that \<^verbatim>\<open>sys/user.h\<close> and
  \<^verbatim>\<open>machine/proc.h\<close> promise, the check the comment of \<^verbatim>\<open>KINFO_PROC_SIZE\<close> asks for.
\<close>

definition KINFO_PROC_SIZE :: nat where "KINFO_PROC_SIZE = 1088"
definition KINFO_OFILE_SIZE :: nat where "KINFO_OFILE_SIZE = 1328"
definition KINFO_FILE_SIZE :: nat where "KINFO_FILE_SIZE = 1392"
definition KINFO_OVMENTRY_SIZE :: nat where "KINFO_OVMENTRY_SIZE = 1168"
definition KINFO_VMENTRY_SIZE :: nat where "KINFO_VMENTRY_SIZE = 1160"
definition KINFO_KSTACK_SIZE :: nat where "KINFO_KSTACK_SIZE = 1096"

lemma kinfo_proc_size: "sizeof kinfo_proc_t = KINFO_PROC_SIZE"
  by (simp add: layout_eval KINFO_PROC_SIZE_def)

lemma kinfo_ofile_size: "sizeof kinfo_ofile_t = KINFO_OFILE_SIZE"
  by (simp add: layout_eval KINFO_OFILE_SIZE_def)

lemma kinfo_file_size: "sizeof kinfo_file_t = KINFO_FILE_SIZE"
  by (simp add: layout_eval KINFO_FILE_SIZE_def)

lemma kinfo_ovmentry_size: "sizeof kinfo_ovmentry_t = KINFO_OVMENTRY_SIZE"
  by (simp add: layout_eval KINFO_OVMENTRY_SIZE_def)

lemma kinfo_vmentry_size: "sizeof kinfo_vmentry_t = KINFO_VMENTRY_SIZE"
  by (simp add: layout_eval KINFO_VMENTRY_SIZE_def)

lemma kinfo_kstack_size: "sizeof kinfo_kstack_t = KINFO_KSTACK_SIZE"
  by (simp add: layout_eval KINFO_KSTACK_SIZE_def)

end
