(* ===== verification/Kernel_Interface.thy ===== *)
theory Kernel_Interface
  imports Jailbreak Sys_Queue Kernel_Layout
begin

text \<open>
  The jailbreak against the kernel headers it is compiled with. \<^verbatim>\<open>ps4-libjbc/jailbreak.c\<close>
  reads and writes kernel structures by literal offsets and walks the process list by
  literal reads; here these are the members of the structures of \<^verbatim>\<open>sys/proc.h\<close>,
  \<^verbatim>\<open>sys/ucred.h\<close> and \<^verbatim>\<open>sys/filedesc.h\<close>, and the list is a \<^verbatim>\<open>LIST\<close> of \<^verbatim>\<open>sys/queue.h\<close>
  linked through \<^verbatim>\<open>p_list\<close>.
\<close>

section \<open>Members as addresses\<close>

definition field :: "ctype \<Rightarrow> string \<Rightarrow> u64" where
  "field t x = of_nat (the (offsetof t x))"

lemmas field_offsets = field_def thread_offsets proc_offsets ucred_offsets filedesc_offsets

section \<open>The list of all processes\<close>

text \<open>Memory seen as pointer cells, and the head \<^verbatim>\<open>allproc\<close> of the list of processes.\<close>

definition pointer_cells :: "memory \<Rightarrow> cells" where
  "pointer_cells m = (\<lambda>a. load64 m a)"

definition allproc_list :: "memory \<Rightarrow> u64 \<Rightarrow> u64 list \<Rightarrow> bool" where
  "allproc_list m allproc ps \<longleftrightarrow> dlist (field proc_t ''p_list'') (pointer_cells m) allproc ps"

definition p_pid :: "memory \<Rightarrow> u64 \<Rightarrow> u32" where
  "p_pid m p = load32 m (p + field proc_t ''p_pid'')"

text \<open>
  A stretch of the list that ends at the first process with pid 1 is what the walk of
  \<^verbatim>\<open>resolve\<close> needs: its test \<^verbatim>\<open>proc1 != proc\<close> is the kernel's own check of the links.
\<close>

lemma walk_check:
  "QMD_LIST_CHECK_NEXT (field proc_t ''p_list'') (pointer_cells m) p \<longleftrightarrow>
     load64 m p = 0 \<or> load64 m (load64 m p + 8) = p"
  by (auto simp: QMD_LIST_CHECK_NEXT_def pointer_cells_def next_cell_def prev_cell_def field_offsets)

lemma allproc_chain:
  assumes "allproc_list m h (bef @ p # ps @ aft)"
    and "\<forall>x \<in> set (p # ps). heap_range x 0xb4"
    and "\<forall>x \<in> set (butlast (p # ps)). p_pid m x \<noteq> 1" and "p_pid m (last (p # ps)) = 1"
  shows "proc_chain m (p # ps)"
  using assms
proof (induction ps arbitrary: bef p)
  case (Cons q ps)
  have "load64 m p = q" "load64 m (q + 8) = p"
    using Cons.prems(1)
    by (auto simp: allproc_list_def dlist_def pointer_cells_def next_cell_def prev_cell_def
        field_offsets)
  moreover have "proc_chain m (q # ps)"
    using Cons.IH [of "bef @ [p]" q] Cons.prems by simp
  ultimately show ?case using Cons.prems by (simp add: p_pid_def field_offsets)
qed (simp add: p_pid_def field_offsets)

section \<open>A process list in memory\<close>

definition listed_mem :: memory where
  "listed_mem = store (store demo_mem 0xffff900000009000 (le_bytes 8 (0xffff900000001000 :: u64)))
      0xffff900000001008 (le_bytes 8 (0xffff900000009000 :: u64))"

definition listed :: krw where
  "listed = boot plain_cfg listed_mem"

lemma listed_loads:
  "load64 listed_mem 0xffff900000000008 = 0xffff900000001000"
  "load64 listed_mem 0xffff900000001000 = 0xffff900000005000"
  "load64 listed_mem 0xffff900000001008 = 0xffff900000009000"
  "load64 listed_mem 0xffff900000009000 = 0xffff900000001000"
  "load64 listed_mem 0xffff900000005000 = 0"
  "load64 listed_mem 0xffff900000005008 = 0xffff900000001000"
  "load64 listed_mem 0xffff900000005040 = 0xffff900000006000"
  "load64 listed_mem 0xffff900000005048 = 0xffff900000007000"
  "load64 listed_mem 0xffff900000006030 = 0xffffffff81234560"
  "load64 listed_mem 0xffff900000007018 = 0xffff900000008000"
  "load32 listed_mem 0xffff9000000010b0 = 77"
  "load32 listed_mem 0xffff9000000050b0 = 1"
  by (simp_all add: listed_mem_def demo_mem_def load_store_num load_zero)

lemma listed_sel: "mem listed = listed_mem" "gs_td (cfg listed) = 0xffff900000000000"
    "addr_ans (cfg listed) = 0x7f0000000010"
  by (simp_all add: listed_def boot_def plain_cfg_def)

lemma listed_cur: "cur_proc listed = 0xffff900000001000"
  by (simp add: cur_proc_def listed_sel listed_loads)

lemma listed_allproc:
  "allproc_list listed_mem 0xffff900000009000 [0xffff900000001000, 0xffff900000005000]"
  by (simp add: allproc_list_def dlist_def places2_def places_def pointer_cells_def
      next_cell_def prev_cell_def field_offsets listed_loads)

section \<open>Properties\<close>


text \<open>C30. On the kernel's list of all processes, when the caller stands on it before init (pid 1) and
  no process between them has pid 1, \<open>resolve\<close> returns with init's prison and root directory:
  the walk by literal offsets follows \<^verbatim>\<open>p_list\<close> and stops at the right process.\<close>

theorem resolve_on_allproc:
  assumes "krw_ready s" and "statics_ok L s" and "heap_range (gs_td (cfg s) + 8) 8"
    and "allproc_list (mem s) allproc (bef @ cur_proc s # mid @ [init] @ aft)"
    and "\<forall>x \<in> set (cur_proc s # mid @ [init]). heap_range x 0xb4"
    and "\<forall>x \<in> set (cur_proc s # mid). p_pid (mem s) x \<noteq> 1" and "p_pid (mem s) init = 1"
    and "init_ok (mem s) init"
  shows "\<exists>s'. resolve L s = Some (0, s')
     \<and> load64 (mem s') (addr_prison0 L) = init_prison (mem s) init
     \<and> load64 (mem s') (addr_rootvnode L) = init_root (mem s) init"
proof -
  have "proc_chain (mem s) (cur_proc s # mid @ [init])"
    using allproc_chain [of "mem s" allproc bef "cur_proc s" "mid @ [init]" aft] assms(4-7)
    by (simp add: butlast_append)
  then have "init_reachable s (mid @ [init])"
    using assms(3,8) by (simp add: init_reachable_def)
  from resolve_finds_init [OF assms(1,2) this] show ?thesis by auto
qed

theorem resolve_on_allproc_witness:
  "\<exists>s'. resolve demo_layout listed = Some (0, s') \<and> load64 (mem s') 0x7f0000001000 = 0xffffffff81234560
     \<and> load64 (mem s') 0x7f0000001008 = 0xffff900000008000"
proof -
  have 1: "allproc_list (mem listed) 0xffff900000009000 ([] @ cur_proc listed # [] @ [0xffff900000005000] @ [])"
    using listed_allproc by (simp add: listed_sel listed_cur)
  have 2: "statics_ok demo_layout listed"
    by (simp add: statics_ok_def demo_layout_def listed_sel user_range_def user_apart)
  have 3: "krw_ready listed" by (simp add: listed_def boot_ready plain_cfg_ok)
  show ?thesis
    using resolve_on_allproc [OF 3 2 _ 1]
    by (simp add: listed_sel listed_cur listed_loads heap_range_def p_pid_def field_offsets init_ok_def
        init_prison_def init_root_def demo_layout_def)
qed

end
