(* ===== verification/Kernel_Numbers.thy ===== *)
theory Kernel_Numbers
  imports DPI_Prelude
begin

text \<open>
  The numbers of the kernel interface, one table per group of \<^verbatim>\<open>#define\<close>s, in the order of
  the headers, and the macros that compute with them. \<open>number\<close> reads a table as the
  preprocessor would.
\<close>

definition number :: "(string \<times> int) list \<Rightarrow> string \<Rightarrow> int" where
  "number tab x = the (map_of tab x)"

section \<open>System calls\<close>

text \<open>\<^verbatim>\<open>sys/syscall.h\<close>, in three parts.\<close>

definition syscalls_0 :: "(string \<times> int) list" where
  "syscalls_0 =
    [(''SYS_syscall'', 0), (''SYS_exit'', 1), (''SYS_fork'', 2), (''SYS_read'', 3),
     (''SYS_write'', 4), (''SYS_open'', 5), (''SYS_close'', 6), (''SYS_wait4'', 7),
     (''SYS_link'', 9), (''SYS_unlink'', 10), (''SYS_chdir'', 12), (''SYS_fchdir'', 13),
     (''SYS_mknod'', 14), (''SYS_chmod'', 15), (''SYS_chown'', 16), (''SYS_break'', 17),
     (''SYS_freebsd4_getfsstat'', 18), (''SYS_getpid'', 20), (''SYS_mount'', 21),
     (''SYS_unmount'', 22), (''SYS_setuid'', 23), (''SYS_getuid'', 24), (''SYS_geteuid'', 25),
     (''SYS_ptrace'', 26), (''SYS_recvmsg'', 27), (''SYS_sendmsg'', 28), (''SYS_recvfrom'', 29),
     (''SYS_accept'', 30), (''SYS_getpeername'', 31), (''SYS_getsockname'', 32),
     (''SYS_access'', 33), (''SYS_chflags'', 34), (''SYS_fchflags'', 35), (''SYS_sync'', 36),
     (''SYS_kill'', 37), (''SYS_getppid'', 39), (''SYS_dup'', 41), (''SYS_pipe'', 42),
     (''SYS_getegid'', 43), (''SYS_profil'', 44), (''SYS_ktrace'', 45), (''SYS_getgid'', 47),
     (''SYS_getlogin'', 49), (''SYS_setlogin'', 50), (''SYS_acct'', 51),
     (''SYS_sigaltstack'', 53), (''SYS_ioctl'', 54), (''SYS_reboot'', 55), (''SYS_revoke'', 56),
     (''SYS_symlink'', 57), (''SYS_readlink'', 58), (''SYS_execve'', 59), (''SYS_umask'', 60),
     (''SYS_chroot'', 61), (''SYS_msync'', 65), (''SYS_vfork'', 66), (''SYS_sbrk'', 69),
     (''SYS_sstk'', 70), (''SYS_vadvise'', 72), (''SYS_munmap'', 73), (''SYS_mprotect'', 74),
     (''SYS_madvise'', 75), (''SYS_mincore'', 78), (''SYS_getgroups'', 79),
     (''SYS_setgroups'', 80), (''SYS_getpgrp'', 81), (''SYS_setpgid'', 82),
     (''SYS_setitimer'', 83), (''SYS_swapon'', 85), (''SYS_getitimer'', 86),
     (''SYS_getdtablesize'', 89), (''SYS_dup2'', 90), (''SYS_fcntl'', 92), (''SYS_select'', 93),
     (''SYS_fsync'', 95), (''SYS_setpriority'', 96), (''SYS_socket'', 97), (''SYS_connect'', 98),
     (''SYS_getpriority'', 100), (''SYS_bind'', 104), (''SYS_setsockopt'', 105),
     (''SYS_listen'', 106), (''SYS_gettimeofday'', 116), (''SYS_getrusage'', 117),
     (''SYS_getsockopt'', 118), (''SYS_readv'', 120), (''SYS_writev'', 121),
     (''SYS_settimeofday'', 122), (''SYS_fchown'', 123), (''SYS_fchmod'', 124),
     (''SYS_setreuid'', 126), (''SYS_setregid'', 127), (''SYS_rename'', 128),
     (''SYS_flock'', 131), (''SYS_mkfifo'', 132), (''SYS_sendto'', 133), (''SYS_shutdown'', 134),
     (''SYS_socketpair'', 135), (''SYS_mkdir'', 136), (''SYS_rmdir'', 137), (''SYS_utimes'', 138),
     (''SYS_adjtime'', 140), (''SYS_setsid'', 147), (''SYS_quotactl'', 148)]"

definition syscalls_1 :: "(string \<times> int) list" where
  "syscalls_1 =
    [(''SYS_nlm_syscall'', 154), (''SYS_nfssvc'', 155), (''SYS_freebsd4_statfs'', 157),
     (''SYS_freebsd4_fstatfs'', 158), (''SYS_lgetfh'', 160), (''SYS_getfh'', 161),
     (''SYS_freebsd4_getdomainname'', 162), (''SYS_freebsd4_setdomainname'', 163),
     (''SYS_freebsd4_uname'', 164), (''SYS_sysarch'', 165), (''SYS_rtprio'', 166),
     (''SYS_semsys'', 169), (''SYS_msgsys'', 170), (''SYS_shmsys'', 171),
     (''SYS_freebsd6_pread'', 173), (''SYS_freebsd6_pwrite'', 174), (''SYS_setfib'', 175),
     (''SYS_ntp_adjtime'', 176), (''SYS_setgid'', 181), (''SYS_setegid'', 182),
     (''SYS_seteuid'', 183), (''SYS_stat'', 188), (''SYS_fstat'', 189), (''SYS_lstat'', 190),
     (''SYS_pathconf'', 191), (''SYS_fpathconf'', 192), (''SYS_getrlimit'', 194),
     (''SYS_setrlimit'', 195), (''SYS_getdirentries'', 196), (''SYS_freebsd6_mmap'', 197),
     (''SYS___syscall'', 198), (''SYS_freebsd6_lseek'', 199), (''SYS_freebsd6_truncate'', 200),
     (''SYS_freebsd6_ftruncate'', 201), (''SYS___sysctl'', 202), (''SYS_mlock'', 203),
     (''SYS_munlock'', 204), (''SYS_undelete'', 205), (''SYS_futimes'', 206),
     (''SYS_getpgid'', 207), (''SYS_poll'', 209), (''SYS_freebsd7___semctl'', 220),
     (''SYS_semget'', 221), (''SYS_semop'', 222), (''SYS_freebsd7_msgctl'', 224),
     (''SYS_msgget'', 225), (''SYS_msgsnd'', 226), (''SYS_msgrcv'', 227), (''SYS_shmat'', 228),
     (''SYS_freebsd7_shmctl'', 229), (''SYS_shmdt'', 230), (''SYS_shmget'', 231),
     (''SYS_clock_gettime'', 232), (''SYS_clock_settime'', 233), (''SYS_clock_getres'', 234),
     (''SYS_ktimer_create'', 235), (''SYS_ktimer_delete'', 236), (''SYS_ktimer_settime'', 237),
     (''SYS_ktimer_gettime'', 238), (''SYS_ktimer_getoverrun'', 239), (''SYS_nanosleep'', 240),
     (''SYS_ntp_gettime'', 248), (''SYS_minherit'', 250), (''SYS_rfork'', 251),
     (''SYS_openbsd_poll'', 252), (''SYS_issetugid'', 253), (''SYS_lchown'', 254),
     (''SYS_aio_read'', 255), (''SYS_aio_write'', 256), (''SYS_lio_listio'', 257),
     (''SYS_getdents'', 272), (''SYS_lchmod'', 274), (''SYS_netbsd_lchown'', 275),
     (''SYS_lutimes'', 276), (''SYS_netbsd_msync'', 277), (''SYS_nstat'', 278),
     (''SYS_nfstat'', 279), (''SYS_nlstat'', 280), (''SYS_preadv'', 289), (''SYS_pwritev'', 290),
     (''SYS_freebsd4_fhstatfs'', 297), (''SYS_fhopen'', 298), (''SYS_fhstat'', 299),
     (''SYS_modnext'', 300), (''SYS_modstat'', 301), (''SYS_modfnext'', 302),
     (''SYS_modfind'', 303), (''SYS_kldload'', 304), (''SYS_kldunload'', 305),
     (''SYS_kldfind'', 306), (''SYS_kldnext'', 307), (''SYS_kldstat'', 308),
     (''SYS_kldfirstmod'', 309), (''SYS_getsid'', 310), (''SYS_setresuid'', 311),
     (''SYS_setresgid'', 312), (''SYS_aio_return'', 314), (''SYS_aio_suspend'', 315),
     (''SYS_aio_cancel'', 316), (''SYS_aio_error'', 317), (''SYS_oaio_read'', 318),
     (''SYS_oaio_write'', 319), (''SYS_olio_listio'', 320), (''SYS_yield'', 321),
     (''SYS_mlockall'', 324), (''SYS_munlockall'', 325), (''SYS___getcwd'', 326),
     (''SYS_sched_setparam'', 327), (''SYS_sched_getparam'', 328),
     (''SYS_sched_setscheduler'', 329), (''SYS_sched_getscheduler'', 330),
     (''SYS_sched_yield'', 331), (''SYS_sched_get_priority_max'', 332),
     (''SYS_sched_get_priority_min'', 333), (''SYS_sched_rr_get_interval'', 334),
     (''SYS_utrace'', 335), (''SYS_freebsd4_sendfile'', 336), (''SYS_kldsym'', 337),
     (''SYS_jail'', 338), (''SYS_nnpfs_syscall'', 339), (''SYS_sigprocmask'', 340),
     (''SYS_sigsuspend'', 341), (''SYS_freebsd4_sigaction'', 342), (''SYS_sigpending'', 343),
     (''SYS_freebsd4_sigreturn'', 344), (''SYS_sigtimedwait'', 345), (''SYS_sigwaitinfo'', 346),
     (''SYS___acl_get_file'', 347), (''SYS___acl_set_file'', 348), (''SYS___acl_get_fd'', 349),
     (''SYS___acl_set_fd'', 350), (''SYS___acl_delete_file'', 351),
     (''SYS___acl_delete_fd'', 352), (''SYS___acl_aclcheck_file'', 353),
     (''SYS___acl_aclcheck_fd'', 354), (''SYS_extattrctl'', 355), (''SYS_extattr_set_file'', 356),
     (''SYS_extattr_get_file'', 357), (''SYS_extattr_delete_file'', 358),
     (''SYS_aio_waitcomplete'', 359), (''SYS_getresuid'', 360), (''SYS_getresgid'', 361),
     (''SYS_kqueue'', 362), (''SYS_kevent'', 363)]"

definition syscalls_2 :: "(string \<times> int) list" where
  "syscalls_2 =
    [(''SYS_extattr_set_fd'', 371), (''SYS_extattr_get_fd'', 372),
     (''SYS_extattr_delete_fd'', 373), (''SYS___setugid'', 374), (''SYS_eaccess'', 376),
     (''SYS_afs3_syscall'', 377), (''SYS_nmount'', 378), (''SYS___mac_get_proc'', 384),
     (''SYS___mac_set_proc'', 385), (''SYS___mac_get_fd'', 386), (''SYS___mac_get_file'', 387),
     (''SYS___mac_set_fd'', 388), (''SYS___mac_set_file'', 389), (''SYS_kenv'', 390),
     (''SYS_lchflags'', 391), (''SYS_uuidgen'', 392), (''SYS_sendfile'', 393),
     (''SYS_mac_syscall'', 394), (''SYS_getfsstat'', 395), (''SYS_statfs'', 396),
     (''SYS_fstatfs'', 397), (''SYS_fhstatfs'', 398), (''SYS_ksem_close'', 400),
     (''SYS_ksem_post'', 401), (''SYS_ksem_wait'', 402), (''SYS_ksem_trywait'', 403),
     (''SYS_ksem_init'', 404), (''SYS_ksem_open'', 405), (''SYS_ksem_unlink'', 406),
     (''SYS_ksem_getvalue'', 407), (''SYS_ksem_destroy'', 408), (''SYS___mac_get_pid'', 409),
     (''SYS___mac_get_link'', 410), (''SYS___mac_set_link'', 411),
     (''SYS_extattr_set_link'', 412), (''SYS_extattr_get_link'', 413),
     (''SYS_extattr_delete_link'', 414), (''SYS___mac_execve'', 415), (''SYS_sigaction'', 416),
     (''SYS_sigreturn'', 417), (''SYS_getcontext'', 421), (''SYS_setcontext'', 422),
     (''SYS_swapcontext'', 423), (''SYS_swapoff'', 424), (''SYS___acl_get_link'', 425),
     (''SYS___acl_set_link'', 426), (''SYS___acl_delete_link'', 427),
     (''SYS___acl_aclcheck_link'', 428), (''SYS_sigwait'', 429), (''SYS_thr_create'', 430),
     (''SYS_thr_exit'', 431), (''SYS_thr_self'', 432), (''SYS_thr_kill'', 433),
     (''SYS__umtx_lock'', 434), (''SYS__umtx_unlock'', 435), (''SYS_jail_attach'', 436),
     (''SYS_extattr_list_fd'', 437), (''SYS_extattr_list_file'', 438),
     (''SYS_extattr_list_link'', 439), (''SYS_ksem_timedwait'', 441), (''SYS_thr_suspend'', 442),
     (''SYS_thr_wake'', 443), (''SYS_kldunloadf'', 444), (''SYS_audit'', 445),
     (''SYS_auditon'', 446), (''SYS_getauid'', 447), (''SYS_setauid'', 448),
     (''SYS_getaudit'', 449), (''SYS_setaudit'', 450), (''SYS_getaudit_addr'', 451),
     (''SYS_setaudit_addr'', 452), (''SYS_auditctl'', 453), (''SYS__umtx_op'', 454),
     (''SYS_thr_new'', 455), (''SYS_sigqueue'', 456), (''SYS_kmq_open'', 457),
     (''SYS_kmq_setattr'', 458), (''SYS_kmq_timedreceive'', 459), (''SYS_kmq_timedsend'', 460),
     (''SYS_kmq_notify'', 461), (''SYS_kmq_unlink'', 462), (''SYS_abort2'', 463),
     (''SYS_thr_set_name'', 464), (''SYS_aio_fsync'', 465), (''SYS_rtprio_thread'', 466),
     (''SYS_sctp_peeloff'', 471), (''SYS_sctp_generic_sendmsg'', 472),
     (''SYS_sctp_generic_sendmsg_iov'', 473), (''SYS_sctp_generic_recvmsg'', 474),
     (''SYS_pread'', 475), (''SYS_pwrite'', 476), (''SYS_mmap'', 477), (''SYS_lseek'', 478),
     (''SYS_truncate'', 479), (''SYS_ftruncate'', 480), (''SYS_thr_kill2'', 481),
     (''SYS_shm_open'', 482), (''SYS_shm_unlink'', 483), (''SYS_cpuset'', 484),
     (''SYS_cpuset_setid'', 485), (''SYS_cpuset_getid'', 486), (''SYS_cpuset_getaffinity'', 487),
     (''SYS_cpuset_setaffinity'', 488), (''SYS_faccessat'', 489), (''SYS_fchmodat'', 490),
     (''SYS_fchownat'', 491), (''SYS_fexecve'', 492), (''SYS_fstatat'', 493),
     (''SYS_futimesat'', 494), (''SYS_linkat'', 495), (''SYS_mkdirat'', 496),
     (''SYS_mkfifoat'', 497), (''SYS_mknodat'', 498), (''SYS_openat'', 499),
     (''SYS_readlinkat'', 500), (''SYS_renameat'', 501), (''SYS_symlinkat'', 502),
     (''SYS_unlinkat'', 503), (''SYS_posix_openpt'', 504), (''SYS_gssd_syscall'', 505),
     (''SYS_jail_get'', 506), (''SYS_jail_set'', 507), (''SYS_jail_remove'', 508),
     (''SYS_closefrom'', 509), (''SYS___semctl'', 510), (''SYS_msgctl'', 511),
     (''SYS_shmctl'', 512), (''SYS_lpathconf'', 513), (''SYS_cap_new'', 514),
     (''SYS_cap_getrights'', 515), (''SYS_cap_enter'', 516), (''SYS_cap_getmode'', 517),
     (''SYS_pdfork'', 518), (''SYS_pdkill'', 519), (''SYS_pdgetpid'', 520),
     (''SYS_pselect'', 522), (''SYS_getloginclass'', 523), (''SYS_setloginclass'', 524),
     (''SYS_rctl_get_racct'', 525), (''SYS_rctl_get_rules'', 526), (''SYS_rctl_get_limits'', 527),
     (''SYS_rctl_add_rule'', 528), (''SYS_rctl_remove_rule'', 529),
     (''SYS_posix_fallocate'', 530), (''SYS_MAXSYSCALL'', 532)]"

section \<open>Errors\<close>

definition errnos :: "(string \<times> int) list" where
  "errnos =
    [(''EPERM'', 1), (''ENOENT'', 2), (''ESRCH'', 3), (''EINTR'', 4), (''EIO'', 5),
     (''ENXIO'', 6), (''E2BIG'', 7), (''ENOEXEC'', 8), (''EBADF'', 9), (''ECHILD'', 10),
     (''EDEADLK'', 11), (''ENOMEM'', 12), (''EACCES'', 13), (''EFAULT'', 14), (''ENOTBLK'', 15),
     (''EBUSY'', 16), (''EEXIST'', 17), (''EXDEV'', 18), (''ENODEV'', 19), (''ENOTDIR'', 20),
     (''EISDIR'', 21), (''EINVAL'', 22), (''ENFILE'', 23), (''EMFILE'', 24), (''ENOTTY'', 25),
     (''ETXTBSY'', 26), (''EFBIG'', 27), (''ENOSPC'', 28), (''ESPIPE'', 29), (''EROFS'', 30),
     (''EMLINK'', 31), (''EPIPE'', 32), (''EDOM'', 33), (''ERANGE'', 34), (''EAGAIN'', 35),
     (''EWOULDBLOCK'', 35), (''EINPROGRESS'', 36), (''EALREADY'', 37), (''ENOTSOCK'', 38),
     (''EDESTADDRREQ'', 39), (''EMSGSIZE'', 40), (''EPROTOTYPE'', 41), (''ENOPROTOOPT'', 42),
     (''EPROTONOSUPPORT'', 43), (''ESOCKTNOSUPPORT'', 44), (''EOPNOTSUPP'', 45),
     (''ENOTSUP'', 45), (''EPFNOSUPPORT'', 46), (''EAFNOSUPPORT'', 47), (''EADDRINUSE'', 48),
     (''EADDRNOTAVAIL'', 49), (''ENETDOWN'', 50), (''ENETUNREACH'', 51), (''ENETRESET'', 52),
     (''ECONNABORTED'', 53), (''ECONNRESET'', 54), (''ENOBUFS'', 55), (''EISCONN'', 56),
     (''ENOTCONN'', 57), (''ESHUTDOWN'', 58), (''ETOOMANYREFS'', 59), (''ETIMEDOUT'', 60),
     (''ECONNREFUSED'', 61), (''ELOOP'', 62), (''ENAMETOOLONG'', 63), (''EHOSTDOWN'', 64),
     (''EHOSTUNREACH'', 65), (''ENOTEMPTY'', 66), (''EPROCLIM'', 67), (''EUSERS'', 68),
     (''EDQUOT'', 69), (''ESTALE'', 70), (''EREMOTE'', 71), (''EBADRPC'', 72),
     (''ERPCMISMATCH'', 73), (''EPROGUNAVAIL'', 74), (''EPROGMISMATCH'', 75),
     (''EPROCUNAVAIL'', 76), (''ENOLCK'', 77), (''ENOSYS'', 78), (''EFTYPE'', 79),
     (''EAUTH'', 80), (''ENEEDAUTH'', 81), (''EIDRM'', 82), (''ENOMSG'', 83), (''EOVERFLOW'', 84),
     (''ECANCELED'', 85), (''EILSEQ'', 86), (''ENOATTR'', 87), (''EDOOFUS'', 88),
     (''EBADMSG'', 89), (''EMULTIHOP'', 90), (''ENOLINK'', 91), (''EPROTO'', 92),
     (''ENOTCAPABLE'', 93), (''ECAPMODE'', 94), (''ELAST'', 94), (''ERESTART'', - 1),
     (''EJUSTRETURN'', - 2), (''ENOIOCTL'', - 3), (''EDIRIOCTL'', - 4)]"

section \<open>Opening, controlling and mapping files\<close>

definition open_flags :: "(string \<times> int) list" where
  "open_flags =
    [(''O_RDONLY'', 0x0), (''O_WRONLY'', 0x1), (''O_RDWR'', 0x2), (''O_ACCMODE'', 0x3),
     (''FREAD'', 0x1), (''FWRITE'', 0x2), (''O_NONBLOCK'', 0x4), (''O_APPEND'', 0x8),
     (''O_SHLOCK'', 0x10), (''O_EXLOCK'', 0x20), (''O_ASYNC'', 0x40), (''O_FSYNC'', 0x80),
     (''O_SYNC'', 0x80), (''O_NOFOLLOW'', 0x100), (''O_CREAT'', 0x200), (''O_TRUNC'', 0x400),
     (''O_EXCL'', 0x800), (''FHASLOCK'', 0x4000), (''O_NOCTTY'', 0x8000), (''O_DIRECT'', 0x10000),
     (''O_DIRECTORY'', 0x20000), (''O_EXEC'', 0x40000), (''FEXEC'', 0x40000),
     (''O_TTY_INIT'', 0x80000), (''O_CLOEXEC'', 0x100000)]"

definition f_flags :: "(string \<times> int) list" where
  "f_flags =
    [(''FAPPEND'', 0x8), (''FASYNC'', 0x40), (''FFSYNC'', 0x80), (''FNONBLOCK'', 0x4),
     (''FNDELAY'', 0x4), (''O_NDELAY'', 0x4), (''FRDAHEAD'', 0x200)]"

definition at_flags :: "(string \<times> int) list" where
  "at_flags =
    [(''AT_FDCWD'', - 100), (''AT_EACCESS'', 0x100), (''AT_SYMLINK_NOFOLLOW'', 0x200),
     (''AT_SYMLINK_FOLLOW'', 0x400), (''AT_REMOVEDIR'', 0x800)]"

definition fcntl_commands :: "(string \<times> int) list" where
  "fcntl_commands =
    [(''F_DUPFD'', 0), (''F_GETFD'', 1), (''F_SETFD'', 2), (''F_GETFL'', 3), (''F_SETFL'', 4),
     (''F_GETOWN'', 5), (''F_SETOWN'', 6), (''F_OGETLK'', 7), (''F_OSETLK'', 8),
     (''F_OSETLKW'', 9), (''F_DUP2FD'', 10), (''F_GETLK'', 11), (''F_SETLK'', 12),
     (''F_SETLKW'', 13), (''F_SETLK_REMOTE'', 14), (''F_READAHEAD'', 15), (''F_RDAHEAD'', 16),
     (''FD_CLOEXEC'', 1), (''F_RDLCK'', 1), (''F_UNLCK'', 2), (''F_WRLCK'', 3),
     (''F_UNLCKSYS'', 4), (''F_CANCEL'', 5), (''F_WAIT'', 16), (''F_FLOCK'', 32),
     (''F_POSIX'', 64), (''F_REMOTE'', 128), (''F_NOINTR'', 256)]"

definition flock_ops :: "(string \<times> int) list" where
  "flock_ops =
    [(''LOCK_SH'', 1), (''LOCK_EX'', 2), (''LOCK_NB'', 4), (''LOCK_UN'', 8)]"

definition prot_flags :: "(string \<times> int) list" where
  "prot_flags =
    [(''INHERIT_SHARE'', 0x0), (''INHERIT_COPY'', 0x1), (''INHERIT_NONE'', 0x2),
     (''PROT_NONE'', 0x0), (''PROT_READ'', 0x1), (''PROT_WRITE'', 0x2), (''PROT_EXEC'', 0x4)]"

definition map_flags :: "(string \<times> int) list" where
  "map_flags =
    [(''MAP_SHARED'', 0x1), (''MAP_PRIVATE'', 0x2), (''MAP_COPY'', 0x2), (''MAP_FIXED'', 0x10),
     (''MAP_RENAME'', 0x20), (''MAP_NORESERVE'', 0x40), (''MAP_RESERVED0080'', 0x80),
     (''MAP_RESERVED0100'', 0x100), (''MAP_HASSEMAPHORE'', 0x200), (''MAP_STACK'', 0x400),
     (''MAP_NOSYNC'', 0x800), (''MAP_FILE'', 0x0), (''MAP_ANON'', 0x1000),
     (''MAP_ANONYMOUS'', 0x1000), (''MAP_NOCORE'', 0x20000), (''MAP_PREFAULT_READ'', 0x40000),
     (''MCL_CURRENT'', 0x1), (''MCL_FUTURE'', 0x2)]"

definition msync_madvise_flags :: "(string \<times> int) list" where
  "msync_madvise_flags =
    [(''MS_SYNC'', 0), (''MS_ASYNC'', 1), (''MS_INVALIDATE'', 2), (''_MADV_NORMAL'', 0),
     (''_MADV_RANDOM'', 1), (''_MADV_SEQUENTIAL'', 2), (''_MADV_WILLNEED'', 3),
     (''_MADV_DONTNEED'', 4), (''MADV_NORMAL'', 0), (''MADV_RANDOM'', 1),
     (''MADV_SEQUENTIAL'', 2), (''MADV_WILLNEED'', 3), (''MADV_DONTNEED'', 4), (''MADV_FREE'', 5),
     (''MADV_NOSYNC'', 6), (''MADV_AUTOSYNC'', 7), (''MADV_NOCORE'', 8), (''MADV_CORE'', 9),
     (''MADV_PROTECT'', 10)]"

definition mincore_flags :: "(string \<times> int) list" where
  "mincore_flags =
    [(''MINCORE_INCORE'', 0x1), (''MINCORE_REFERENCED'', 0x2), (''MINCORE_MODIFIED'', 0x4),
     (''MINCORE_REFERENCED_OTHER'', 0x8), (''MINCORE_MODIFIED_OTHER'', 0x10),
     (''MINCORE_SUPER'', 0x20)]"

section \<open>Threads and processes\<close>

definition tdf_flags :: "(string \<times> int) list" where
  "tdf_flags =
    [(''TDF_BORROWING'', 0x1), (''TDF_INPANIC'', 0x2), (''TDF_INMEM'', 0x4), (''TDF_SINTR'', 0x8),
     (''TDF_TIMEOUT'', 0x10), (''TDF_IDLETD'', 0x20), (''TDF_CANSWAP'', 0x40),
     (''TDF_SLEEPABORT'', 0x80), (''TDF_KTH_SUSP'', 0x100), (''TDF_UNUSED09'', 0x200),
     (''TDF_BOUNDARY'', 0x400), (''TDF_ASTPENDING'', 0x800), (''TDF_TIMOFAIL'', 0x1000),
     (''TDF_SBDRY'', 0x2000), (''TDF_UPIBLOCKED'', 0x4000), (''TDF_NEEDSUSPCHK'', 0x8000),
     (''TDF_NEEDRESCHED'', 0x10000), (''TDF_NEEDSIGCHK'', 0x20000), (''TDF_NOLOAD'', 0x40000),
     (''TDF_UNUSED19'', 0x80000), (''TDF_THRWAKEUP'', 0x100000), (''TDF_UNUSED21'', 0x200000),
     (''TDF_SWAPINREQ'', 0x400000), (''TDF_UNUSED23'', 0x800000), (''TDF_SCHED0'', 0x1000000),
     (''TDF_SCHED1'', 0x2000000), (''TDF_SCHED2'', 0x4000000), (''TDF_SCHED3'', 0x8000000),
     (''TDF_ALRMPEND'', 0x10000000), (''TDF_PROFPEND'', 0x20000000),
     (''TDF_MACPEND'', 0x40000000)]"

definition tdb_flags :: "(string \<times> int) list" where
  "tdb_flags =
    [(''TDB_SUSPEND'', 0x1), (''TDB_XSIG'', 0x2), (''TDB_USERWR'', 0x4), (''TDB_SCE'', 0x8),
     (''TDB_SCX'', 0x10), (''TDB_EXEC'', 0x20), (''TDB_FORK'', 0x40), (''TDB_STOPATFORK'', 0x80)]"

definition tdp_flags :: "(string \<times> int) list" where
  "tdp_flags =
    [(''TDP_OLDMASK'', 0x1), (''TDP_INKTR'', 0x2), (''TDP_INKTRACE'', 0x4),
     (''TDP_BUFNEED'', 0x8), (''TDP_COWINPROGRESS'', 0x10), (''TDP_ALTSTACK'', 0x20),
     (''TDP_DEADLKTREAT'', 0x40), (''TDP_NOFAULTING'', 0x80), (''TDP_NOSLEEPING'', 0x100),
     (''TDP_OWEUPC'', 0x200), (''TDP_ITHREAD'', 0x400), (''TDP_UNUSED800'', 0x800),
     (''TDP_SCHED1'', 0x1000), (''TDP_SCHED2'', 0x2000), (''TDP_SCHED3'', 0x4000),
     (''TDP_SCHED4'', 0x8000), (''TDP_GEOM'', 0x10000), (''TDP_SOFTDEP'', 0x20000),
     (''TDP_NORUNNINGBUF'', 0x40000), (''TDP_WAKEUP'', 0x80000), (''TDP_INBDFLUSH'', 0x100000),
     (''TDP_KTHREAD'', 0x200000), (''TDP_CALLCHAIN'', 0x400000), (''TDP_IGNSUSP'', 0x800000),
     (''TDP_AUDITREC'', 0x1000000)]"

definition tdi_flags :: "(string \<times> int) list" where
  "tdi_flags =
    [(''TDI_SUSPENDED'', 0x1), (''TDI_SLEEPING'', 0x2), (''TDI_SWAPPED'', 0x4),
     (''TDI_LOCK'', 0x8), (''TDI_IWAIT'', 0x10)]"

definition p_flags :: "(string \<times> int) list" where
  "p_flags =
    [(''P_ADVLOCK'', 0x1), (''P_CONTROLT'', 0x2), (''P_KTHREAD'', 0x4), (''P_FOLLOWFORK'', 0x8),
     (''P_PPWAIT'', 0x10), (''P_PROFIL'', 0x20), (''P_STOPPROF'', 0x40), (''P_HADTHREADS'', 0x80),
     (''P_SUGID'', 0x100), (''P_SYSTEM'', 0x200), (''P_SINGLE_EXIT'', 0x400),
     (''P_TRACED'', 0x800), (''P_WAITED'', 0x1000), (''P_WEXIT'', 0x2000), (''P_EXEC'', 0x4000),
     (''P_WKILLED'', 0x8000), (''P_CONTINUED'', 0x10000), (''P_STOPPED_SIG'', 0x20000),
     (''P_STOPPED_TRACE'', 0x40000), (''P_STOPPED_SINGLE'', 0x80000), (''P_PROTECTED'', 0x100000),
     (''P_SIGEVENT'', 0x200000), (''P_SINGLE_BOUNDARY'', 0x400000), (''P_HWPMC'', 0x800000),
     (''P_JAILED'', 0x1000000), (''P_INEXEC'', 0x4000000), (''P_STATCHILD'', 0x8000000),
     (''P_INMEM'', 0x10000000), (''P_SWAPPINGOUT'', 0x20000000), (''P_SWAPPINGIN'', 0x40000000)]"

definition p_stats :: "(string \<times> int) list" where
  "p_stats =
    [(''SIDL'', 1), (''SRUN'', 2), (''SSLEEP'', 3), (''SSTOP'', 4), (''SZOMB'', 5),
     (''SWAIT'', 6), (''SLOCK'', 7)]"

definition switch_types :: "(string \<times> int) list" where
  "switch_types =
    [(''SW_TYPE_MASK'', 255), (''SWT_NONE'', 0), (''SWT_PREEMPT'', 1), (''SWT_OWEPREEMPT'', 2),
     (''SWT_TURNSTILE'', 3), (''SWT_SLEEPQ'', 4), (''SWT_SLEEPQTIMO'', 5),
     (''SWT_RELINQUISH'', 6), (''SWT_NEEDRESCHED'', 7), (''SWT_IDLE'', 8), (''SWT_IWAIT'', 9),
     (''SWT_SUSPEND'', 10), (''SWT_REMOTEPREEMPT'', 11), (''SWT_REMOTEWAKEIDLE'', 12),
     (''SWT_COUNT'', 13), (''SW_VOL'', 256), (''SW_INVOL'', 512), (''SW_PREEMPT'', 1024)]"

section \<open>Records exported by sysctl\<close>

definition kf_types :: "(string \<times> int) list" where
  "kf_types =
    [(''KF_TYPE_NONE'', 0), (''KF_TYPE_VNODE'', 1), (''KF_TYPE_SOCKET'', 2),
     (''KF_TYPE_PIPE'', 3), (''KF_TYPE_FIFO'', 4), (''KF_TYPE_KQUEUE'', 5),
     (''KF_TYPE_CRYPTO'', 6), (''KF_TYPE_MQUEUE'', 7), (''KF_TYPE_SHM'', 8), (''KF_TYPE_SEM'', 9),
     (''KF_TYPE_PTS'', 10), (''KF_TYPE_PROCDESC'', 12), (''KF_TYPE_UNKNOWN'', 255)]"

definition kf_vtypes :: "(string \<times> int) list" where
  "kf_vtypes =
    [(''KF_VTYPE_VNON'', 0), (''KF_VTYPE_VREG'', 1), (''KF_VTYPE_VDIR'', 2),
     (''KF_VTYPE_VBLK'', 3), (''KF_VTYPE_VCHR'', 4), (''KF_VTYPE_VLNK'', 5),
     (''KF_VTYPE_VSOCK'', 6), (''KF_VTYPE_VFIFO'', 7), (''KF_VTYPE_VBAD'', 8),
     (''KF_VTYPE_UNKNOWN'', 255), (''KF_FD_TYPE_CWD'', - 1), (''KF_FD_TYPE_ROOT'', - 2),
     (''KF_FD_TYPE_JAIL'', - 3), (''KF_FD_TYPE_TRACE'', - 4), (''KF_FD_TYPE_TEXT'', - 5),
     (''KF_FD_TYPE_CTTY'', - 6)]"

definition kf_flags :: "(string \<times> int) list" where
  "kf_flags =
    [(''KF_FLAG_READ'', 0x1), (''KF_FLAG_WRITE'', 0x2), (''KF_FLAG_APPEND'', 0x4),
     (''KF_FLAG_ASYNC'', 0x8), (''KF_FLAG_FSYNC'', 0x10), (''KF_FLAG_NONBLOCK'', 0x20),
     (''KF_FLAG_DIRECT'', 0x40), (''KF_FLAG_HASLOCK'', 0x80), (''KF_FLAG_SHLOCK'', 0x100),
     (''KF_FLAG_EXLOCK'', 0x200), (''KF_FLAG_NOFOLLOW'', 0x400), (''KF_FLAG_CREAT'', 0x800),
     (''KF_FLAG_TRUNC'', 0x1000), (''KF_FLAG_EXCL'', 0x2000), (''KF_FLAG_EXEC'', 0x4000),
     (''KF_FLAG_CAPABILITY'', 0x8000)]"

definition kvme_constants :: "(string \<times> int) list" where
  "kvme_constants =
    [(''KVME_TYPE_NONE'', 0), (''KVME_TYPE_DEFAULT'', 1), (''KVME_TYPE_VNODE'', 2),
     (''KVME_TYPE_SWAP'', 3), (''KVME_TYPE_DEVICE'', 4), (''KVME_TYPE_PHYS'', 5),
     (''KVME_TYPE_DEAD'', 6), (''KVME_TYPE_SG'', 7), (''KVME_TYPE_UNKNOWN'', 255),
     (''KVME_PROT_READ'', 1), (''KVME_PROT_WRITE'', 2), (''KVME_PROT_EXEC'', 4),
     (''KVME_FLAG_COW'', 1), (''KVME_FLAG_NEEDS_COPY'', 2), (''KVME_FLAG_NOCOREDUMP'', 4)]"
section \<open>The system calls of the payload\<close>

text \<open>
  The stubs of \<^verbatim>\<open>ps4-libjbc/utils.c\<close> with the numbers written there, and the number that
  \<^verbatim>\<open>kexec\<close> of \<^verbatim>\<open>kernelrw.c\<close> loads, against the kernel's table: the six stubs call what
  their names say, and \<^verbatim>\<open>kexec\<close> uses a number the kernel leaves unassigned, which the
  jailbroken kernel gives a meaning.
\<close>

definition syscall_stubs :: "(string \<times> int) list" where
  "syscall_stubs =
     [(''chdir'', 12), (''unmount'', 22), (''mkdir'', 136), (''rmdir'', 137), (''getcwd'', 326),
      (''nmount'', 378)]"

definition kexec_number :: int where "kexec_number = 11"

definition kernel_name :: "string \<Rightarrow> string" where
  "kernel_name x = (if x = ''getcwd'' then ''SYS___getcwd'' else ''SYS_'' @ x)"

lemma syscall_stubs_numbers:
  "map_of syscalls_0 (kernel_name ''chdir'') = map_of syscall_stubs ''chdir''"
  "map_of syscalls_0 (kernel_name ''unmount'') = map_of syscall_stubs ''unmount''"
  "map_of syscalls_0 (kernel_name ''mkdir'') = map_of syscall_stubs ''mkdir''"
  "map_of syscalls_0 (kernel_name ''rmdir'') = map_of syscall_stubs ''rmdir''"
  "map_of syscalls_1 (kernel_name ''getcwd'') = map_of syscall_stubs ''getcwd''"
  "map_of syscalls_2 (kernel_name ''nmount'') = map_of syscall_stubs ''nmount''"
  by (simp_all add: syscall_stubs_def kernel_name_def syscalls_0_def syscalls_1_def
      syscalls_2_def
      map_of_Cons_code del: map_of.simps)

lemma kexec_unassigned:
  "list_all (\<lambda>n. n \<noteq> kexec_number) (map snd syscalls_0 @ map snd syscalls_1 @ map snd syscalls_2)"
  unfolding syscalls_0_def syscalls_1_def syscalls_2_def list.map snd_conv
  by (simp add: kexec_number_def)

end
