(* ===== verification/Socket_Interface.thy ===== *)
theory Socket_Interface
  imports Kernel_Layout Kernel_Numbers
begin

text \<open>
  The socket interface of \<^verbatim>\<open>sys/socket.h\<close>: its numbers, its structures, and the macros that
  build and walk the control data of a message. The walk is a loop over
  \<^verbatim>\<open>CMSG_FIRSTHDR\<close> and \<^verbatim>\<open>CMSG_NXTHDR\<close>, as every receiver of control messages writes it.
\<close>

abbreviation socklen_t :: ctype where "socklen_t \<equiv> c_int"

section \<open>Numbers\<close>

definition sock_types :: "(string \<times> int) list" where
  "sock_types =
    [(''SOCK_STREAM'', 1), (''SOCK_DGRAM'', 2), (''SOCK_RAW'', 3), (''SOCK_RDM'', 4),
     (''SOCK_SEQPACKET'', 5)]"

definition so_flags :: "(string \<times> int) list" where
  "so_flags =
    [(''SO_DEBUG'', 0x1), (''SO_ACCEPTCONN'', 0x2), (''SO_REUSEADDR'', 0x4),
     (''SO_KEEPALIVE'', 0x8), (''SO_DONTROUTE'', 0x10), (''SO_BROADCAST'', 0x20),
     (''SO_USELOOPBACK'', 0x40), (''SO_LINGER'', 0x80), (''SO_OOBINLINE'', 0x100),
     (''SO_REUSEPORT'', 0x200), (''SO_TIMESTAMP'', 0x400), (''SO_NOSIGPIPE'', 0x800),
     (''SO_ACCEPTFILTER'', 0x1000), (''SO_BINTIME'', 0x2000), (''SO_NO_OFFLOAD'', 0x4000),
     (''SO_NO_DDP'', 0x8000)]"

definition so_options :: "(string \<times> int) list" where
  "so_options =
    [(''SO_SNDBUF'', 0x1001), (''SO_RCVBUF'', 0x1002), (''SO_SNDLOWAT'', 0x1003),
     (''SO_RCVLOWAT'', 0x1004), (''SO_SNDTIMEO'', 0x1005), (''SO_RCVTIMEO'', 0x1006),
     (''SO_ERROR'', 0x1007), (''SO_TYPE'', 0x1008), (''SO_LABEL'', 0x1009),
     (''SO_PEERLABEL'', 0x1010), (''SO_LISTENQLIMIT'', 0x1011), (''SO_LISTENQLEN'', 0x1012),
     (''SO_LISTENINCQLEN'', 0x1013), (''SO_SETFIB'', 0x1014), (''SO_USER_COOKIE'', 0x1015)]"

definition address_families :: "(string \<times> int) list" where
  "address_families =
    [(''AF_UNSPEC'', 0), (''AF_LOCAL'', 1), (''AF_UNIX'', 1), (''AF_INET'', 2),
     (''AF_IMPLINK'', 3), (''AF_PUP'', 4), (''AF_CHAOS'', 5), (''AF_NETBIOS'', 6),
     (''AF_ISO'', 7), (''AF_OSI'', 7), (''AF_ECMA'', 8), (''AF_DATAKIT'', 9), (''AF_CCITT'', 10),
     (''AF_SNA'', 11), (''AF_DECnet'', 12), (''AF_DLI'', 13), (''AF_LAT'', 14),
     (''AF_HYLINK'', 15), (''AF_APPLETALK'', 16), (''AF_ROUTE'', 17), (''AF_LINK'', 18),
     (''pseudo_AF_XTP'', 19), (''AF_COIP'', 20), (''AF_CNT'', 21), (''pseudo_AF_RTIP'', 22),
     (''AF_IPX'', 23), (''AF_SIP'', 24), (''pseudo_AF_PIP'', 25), (''AF_ISDN'', 26),
     (''AF_E164'', 26), (''pseudo_AF_KEY'', 27), (''AF_INET6'', 28), (''AF_NATM'', 29),
     (''AF_ATM'', 30), (''pseudo_AF_HDRCMPLT'', 31), (''AF_NETGRAPH'', 32), (''AF_SLOW'', 33),
     (''AF_SCLUSTER'', 34), (''AF_ARP'', 35), (''AF_BLUETOOTH'', 36), (''AF_IEEE80211'', 37),
     (''AF_MAX'', 38), (''AF_VENDOR00'', 39), (''AF_VENDOR01'', 41), (''AF_VENDOR02'', 43),
     (''AF_VENDOR03'', 45), (''AF_VENDOR04'', 47), (''AF_VENDOR05'', 49), (''AF_VENDOR06'', 51),
     (''AF_VENDOR07'', 53), (''AF_VENDOR08'', 55), (''AF_VENDOR09'', 57), (''AF_VENDOR10'', 59),
     (''AF_VENDOR11'', 61), (''AF_VENDOR12'', 63), (''AF_VENDOR13'', 65), (''AF_VENDOR14'', 67),
     (''AF_VENDOR15'', 69), (''AF_VENDOR16'', 71)]"

definition protocol_families :: "(string \<times> int) list" where
  "protocol_families =
    [(''PF_UNSPEC'', 0), (''PF_LOCAL'', 1), (''PF_UNIX'', 1), (''PF_INET'', 2),
     (''PF_IMPLINK'', 3), (''PF_PUP'', 4), (''PF_CHAOS'', 5), (''PF_NETBIOS'', 6),
     (''PF_ISO'', 7), (''PF_OSI'', 7), (''PF_ECMA'', 8), (''PF_DATAKIT'', 9), (''PF_CCITT'', 10),
     (''PF_SNA'', 11), (''PF_DECnet'', 12), (''PF_DLI'', 13), (''PF_LAT'', 14),
     (''PF_HYLINK'', 15), (''PF_APPLETALK'', 16), (''PF_ROUTE'', 17), (''PF_LINK'', 18),
     (''PF_XTP'', 19), (''PF_COIP'', 20), (''PF_CNT'', 21), (''PF_SIP'', 24), (''PF_IPX'', 23),
     (''PF_RTIP'', 22), (''PF_PIP'', 25), (''PF_ISDN'', 26), (''PF_KEY'', 27), (''PF_INET6'', 28),
     (''PF_NATM'', 29), (''PF_ATM'', 30), (''PF_NETGRAPH'', 32), (''PF_SLOW'', 33),
     (''PF_SCLUSTER'', 34), (''PF_ARP'', 35), (''PF_BLUETOOTH'', 36), (''PF_MAX'', 38)]"

definition net_rt :: "(string \<times> int) list" where
  "net_rt =
    [(''NET_RT_DUMP'', 1), (''NET_RT_FLAGS'', 2), (''NET_RT_IFLIST'', 3),
     (''NET_RT_IFMALIST'', 4), (''NET_RT_MAXID'', 5)]"

definition msg_flags :: "(string \<times> int) list" where
  "msg_flags =
    [(''MSG_OOB'', 0x1), (''MSG_PEEK'', 0x2), (''MSG_DONTROUTE'', 0x4), (''MSG_EOR'', 0x8),
     (''MSG_TRUNC'', 0x10), (''MSG_CTRUNC'', 0x20), (''MSG_WAITALL'', 0x40),
     (''MSG_NOTIFICATION'', 0x2000), (''MSG_DONTWAIT'', 0x80), (''MSG_EOF'', 0x100),
     (''MSG_NBIO'', 0x4000), (''MSG_COMPAT'', 0x8000), (''MSG_SOCALLBCK'', 0x10000),
     (''MSG_NOSIGNAL'', 0x20000)]"

definition scm_types :: "(string \<times> int) list" where
  "scm_types =
    [(''SCM_RIGHTS'', 1), (''SCM_TIMESTAMP'', 2), (''SCM_CREDS'', 3), (''SCM_BINTIME'', 4)]"

definition shutdown_howto :: "(string \<times> int) list" where
  "shutdown_howto =
    [(''SHUT_RD'', 0), (''SHUT_WR'', 1), (''SHUT_RDWR'', 2), (''PRU_FLUSH_RD'', 0),
     (''PRU_FLUSH_WR'', 1), (''PRU_FLUSH_RDWR'', 2)]"

text \<open>The names of the second level of the \<^verbatim>\<open>net\<close> sysctls; the first entry is null.\<close>

definition ctl_net_names :: "string list" where
  "ctl_net_names =
    ['''', ''unix'', ''inet'', ''implink'', ''pup'', ''chaos'', ''xerox_ns'', ''iso'', ''emca'',
     ''datakit'', ''ccitt'', ''ibm_sna'', ''decnet'', ''dec_dli'', ''lat'', ''hylink'',
     ''appletalk'', ''route'', ''link_layer'', ''xtp'', ''coip'', ''cnt'', ''rtip'', ''ipx'',
     ''sip'', ''pip'', ''isdn'', ''key'', ''inet6'', ''natm'', ''atm'', ''hdrcomplete'',
     ''netgraph'', ''snp'', ''scp'']"

section \<open>Structures\<close>

definition linger_t :: ctype where [layout_defs]:
  "linger_t =
     Struct [
      (''l_onoff'', c_int), (''l_linger'', c_int)]"

definition accept_filter_arg_t :: ctype where [layout_defs]:
  "accept_filter_arg_t =
     Struct [
      (''af_name'', Array 16 c_char), (''af_arg'', Array 240 c_char)]"

definition sockaddr_t :: ctype where [layout_defs]:
  "sockaddr_t =
     Struct [
      (''sa_len'', c_char), (''sa_family'', sa_family_t), (''sa_data'', Array 14 c_char)]"

definition sockproto_t :: ctype where [layout_defs]:
  "sockproto_t =
     Struct [
      (''sp_family'', c_short), (''sp_protocol'', c_short)]"

definition msghdr_t :: ctype where [layout_defs]:
  "msghdr_t =
     Struct [
      (''msg_name'', c_ptr), (''msg_namelen'', socklen_t), (''msg_iov'', c_ptr),
      (''msg_iovlen'', c_int), (''msg_control'', c_ptr), (''msg_controllen'', socklen_t),
      (''msg_flags'', c_int)]"

definition cmsghdr_t :: ctype where [layout_defs]:
  "cmsghdr_t =
     Struct [
      (''cmsg_len'', socklen_t), (''cmsg_level'', c_int), (''cmsg_type'', c_int)]"

definition cmsgcred_t :: ctype where [layout_defs]:
  "cmsgcred_t =
     Struct [
      (''cmcred_pid'', pid_t), (''cmcred_uid'', uid_t), (''cmcred_euid'', uid_t),
      (''cmcred_gid'', gid_t), (''cmcred_ngroups'', c_short),
      (''cmcred_groups'', Array 16 gid_t)]"

definition sockcred_t :: ctype where [layout_defs]:
  "sockcred_t =
     Struct [
      (''sc_uid'', uid_t), (''sc_euid'', uid_t), (''sc_gid'', gid_t), (''sc_egid'', gid_t),
      (''sc_ngroups'', c_int), (''sc_groups'', Array 1 gid_t)]"

definition osockaddr_t :: ctype where [layout_defs]:
  "osockaddr_t =
     Struct [
      (''sa_family'', c_short), (''sa_data'', Array 14 c_char)]"

definition omsghdr_t :: ctype where [layout_defs]:
  "omsghdr_t =
     Struct [
      (''msg_name'', c_ptr), (''msg_namelen'', c_int), (''msg_iov'', c_ptr),
      (''msg_iovlen'', c_int), (''msg_accrights'', c_ptr), (''msg_accrightslen'', c_int)]"

definition sf_hdtr_t :: ctype where [layout_defs]:
  "sf_hdtr_t =
     Struct [
      (''headers'', c_ptr), (''hdr_cnt'', c_int), (''trailers'', c_ptr), (''trl_cnt'', c_int)]"

lemma protocol_families_are_address_families:
  "list_all (\<lambda>(x, y). number protocol_families x = number address_families y)
     [(''PF_UNSPEC'', ''AF_UNSPEC''), (''PF_UNIX'', ''AF_UNIX''), (''PF_LOCAL'', ''AF_LOCAL''),
      (''PF_INET'', ''AF_INET''), (''PF_INET6'', ''AF_INET6''), (''PF_ROUTE'', ''AF_ROUTE'')]"
  by (simp add: number_def protocol_families_def address_families_def)

text \<open>The table of names ends before the families do.\<close>

lemma ctl_net_names_short: "int (length ctl_net_names) < number address_families ''AF_MAX''"
  by (simp add: ctl_net_names_def number_def address_families_def)

section \<open>Control messages\<close>

text \<open>\<open>_ALIGN\<close> of \<^verbatim>\<open>x86/_align.h\<close>: up to the next multiple of \<^verbatim>\<open>sizeof(register_t)\<close>.\<close>

definition ALIGN :: "u64 \<Rightarrow> u64" where
  "ALIGN p = (p + 7) AND NOT 7"

record msghdr =
  msg_control :: u64
  msg_controllen :: u32

definition sizeof_cmsghdr :: u64 where
  "sizeof_cmsghdr = of_nat (sizeof cmsghdr_t)"

definition CMSG_DATA :: "u64 \<Rightarrow> u64" where
  "CMSG_DATA cmsg = cmsg + ALIGN sizeof_cmsghdr"

definition CMSG_FIRSTHDR :: "msghdr \<Rightarrow> u64" where
  "CMSG_FIRSTHDR mhdr =
     (if ucast (msg_controllen mhdr) \<ge> sizeof_cmsghdr then msg_control mhdr else 0)"

text \<open>The length of a message is its first member.\<close>

definition cmsg_len :: "memory \<Rightarrow> u64 \<Rightarrow> u32" where
  "cmsg_len m cmsg = load32 m cmsg"

definition CMSG_NXTHDR :: "memory \<Rightarrow> msghdr \<Rightarrow> u64 \<Rightarrow> u64" where
  "CMSG_NXTHDR m mhdr cmsg =
     (if cmsg = 0 then CMSG_FIRSTHDR mhdr
      else if cmsg + ALIGN (ucast (cmsg_len m cmsg)) + ALIGN sizeof_cmsghdr
                > msg_control mhdr + ucast (msg_controllen mhdr)
      then 0
      else cmsg + ALIGN (ucast (cmsg_len m cmsg)))"

definition CMSG_SPACE :: "u64 \<Rightarrow> u64" where
  "CMSG_SPACE l = ALIGN sizeof_cmsghdr + ALIGN l"

definition CMSG_LEN :: "u64 \<Rightarrow> u64" where
  "CMSG_LEN l = ALIGN sizeof_cmsghdr + l"

definition SOCKCREDSIZE :: "u64 \<Rightarrow> u64" where
  "SOCKCREDSIZE ngrps = of_nat (sizeof sockcred_t) + of_nat (sizeof gid_t) * (ngrps - 1)"

text \<open>The loop of a receiver: the addresses of the headers it visits.\<close>

partial_function (option) cmsg_walk :: "memory \<Rightarrow> msghdr \<Rightarrow> u64 \<Rightarrow> u64 list option" where
  "cmsg_walk m mhdr cmsg =
     (if cmsg = 0 then Some []
      else do { cs \<leftarrow> cmsg_walk m mhdr (CMSG_NXTHDR m mhdr cmsg); Some (cmsg # cs) })"

definition cmsg_headers :: "memory \<Rightarrow> msghdr \<Rightarrow> u64 list option" where
  "cmsg_headers m mhdr = cmsg_walk m mhdr (CMSG_FIRSTHDR mhdr)"

lemma sizeof_cmsghdr: "sizeof_cmsghdr = 12"
  by (simp add: sizeof_cmsghdr_def layout_defs layout_eval)

lemma unat_add_small: "unat x + unat y < 2 ^ 64 \<Longrightarrow> unat (x + y :: u64) = unat x + unat y"
  by (simp add: unat_word_ariths)

lemma unat_ALIGN: "unat x + 7 < 2 ^ 64 \<Longrightarrow> unat (ALIGN x) = (unat x + 7) div 8 * 8"
proof -
  assume x: "unat x + 7 < 2 ^ 64"
  have m: "(7 :: u64) = mask 3" by (simp add: mask_eq_exp_minus_1)
  have a: "ALIGN x = push_bit 3 (drop_bit 3 (x + 7))"
    unfolding ALIGN_def m by (rule bit_word_eqI) (auto simp: bit_simps)
  have s: "unat (x + 7) = unat x + 7" using unat_add_small [of x 7] x by simp
  have "(unat x + 7) div 8 * 8 \<le> unat x + 7" by (rule div_times_less_eq_dividend)
  then have "(unat x + 7) div 8 * 8 < 2 ^ 64" using x by linarith
  then show ?thesis
    by (simp add: a push_bit_eq_mult drop_bit_eq_div unat_word_ariths unat_div s)
qed

text \<open>Lengths as natural numbers: the space of a message with \<open>l\<close> bytes of data.\<close>

definition space :: "nat \<Rightarrow> nat" where
  "space l = 16 + (l + 7) div 8 * 8"

lemma ALIGN_header: "ALIGN sizeof_cmsghdr = 16"
  by (simp add: sizeof_cmsghdr ALIGN_def)

lemma CMSG_SPACE_space:
  assumes "l + 7 < 2 ^ 32"
  shows "unat (CMSG_SPACE (of_nat l)) = space l"
proof -
  have l: "unat (of_nat l :: u64) = l" using assms by simp
  have "(l + 7) div 8 * 8 \<le> l + 7" by (rule div_times_less_eq_dividend)
  then have "unat (16 :: u64) + unat (ALIGN (of_nat l)) < 2 ^ 64"
    using unat_ALIGN [of "of_nat l"] assms l by simp
  from unat_add_small [OF this] show ?thesis
    using unat_ALIGN [of "of_nat l"] assms l by (simp add: CMSG_SPACE_def ALIGN_header space_def)
qed

text \<open>A buffer filled as \<open>CMSG_SPACE\<close> and \<open>CMSG_LEN\<close> prescribe, for data of the lengths \<open>ls\<close>.\<close>

primrec cmsgs_at :: "memory \<Rightarrow> u64 \<Rightarrow> nat list \<Rightarrow> bool" where
  "cmsgs_at m p [] = True"
| "cmsgs_at m p (l # ls) =
     (unat (cmsg_len m p) = unat (CMSG_LEN (of_nat l)) \<and> cmsgs_at m (p + CMSG_SPACE (of_nat l)) ls)"

primrec cmsg_addresses :: "u64 \<Rightarrow> nat list \<Rightarrow> u64 list" where
  "cmsg_addresses p [] = []"
| "cmsg_addresses p (l # ls) = p # cmsg_addresses (p + CMSG_SPACE (of_nat l)) ls"

lemma space_gt: "l + 16 \<le> space l" "16 \<le> space l"
  by (simp_all add: space_def)

lemma ALIGN_len:
  assumes "unat (cmsg_len m p) = unat (CMSG_LEN (of_nat l))" and "space l < 2 ^ 32 - 7"
  shows "ALIGN (ucast (cmsg_len m p)) = CMSG_SPACE (of_nat l)"
proof -
  have l: "l + 23 < 2 ^ 32" using space_gt(1) [of l] assms(2) by linarith
  then have "unat (CMSG_LEN (of_nat l)) = 16 + l"
    using unat_add_small [of 16 "of_nat l"] by (simp add: CMSG_LEN_def ALIGN_header)
  then have u: "unat (ucast (cmsg_len m p) :: u64) = 16 + l"
    using assms(1) l by (simp add: unsigned_ucast_eq take_bit_nat_eq_self)
  have "unat (ALIGN (ucast (cmsg_len m p))) = (16 + l + 7) div 8 * 8"
    using unat_ALIGN [of "ucast (cmsg_len m p)"] l by (simp add: u)
  also have "\<dots> = (2 + (l + 7) div 8) * 8"
  proof -
    have "16 + l + 7 = l + 7 + 2 * 8" by simp
    then show ?thesis by (simp only: div_mult_self1)
  qed
  also have "\<dots> = unat (CMSG_SPACE (of_nat l))"
    using CMSG_SPACE_space [of l] l by (simp add: space_def)
  finally show ?thesis by (rule unsigned_word_eqI)
qed

lemma cmsg_next:
  assumes len: "unat (cmsg_len m p) = unat (CMSG_LEN (of_nat l))" and sp: "space l < 2 ^ 32 - 7"
    and e: "unat p + space l \<le> unat e" "unat e + 16 < 2 ^ 64"
    and mhdr: "e = msg_control mhdr + ucast (msg_controllen mhdr)" and "p \<noteq> 0"
  shows "CMSG_NXTHDR m mhdr p = (if unat p + space l + 16 > unat e then 0 else p + CMSG_SPACE (of_nat l))"
    and "unat (p + CMSG_SPACE (of_nat l)) = unat p + space l"
proof -
  have l: "l + 7 < 2 ^ 32" using space_gt(1) [of l] sp by linarith
  show n: "unat (p + CMSG_SPACE (of_nat l)) = unat p + space l"
    using unat_add_small [of p "CMSG_SPACE (of_nat l)"] CMSG_SPACE_space [OF l] e by simp
  then have "unat (p + CMSG_SPACE (of_nat l) + 16) = unat p + space l + 16"
    using unat_add_small [of "p + CMSG_SPACE (of_nat l)" 16] e by simp
  then show "CMSG_NXTHDR m mhdr p = (if unat p + space l + 16 > unat e then 0 else p + CMSG_SPACE (of_nat l))"
    using assms(6) by (simp add: CMSG_NXTHDR_def ALIGN_len [OF len sp] ALIGN_header mhdr [symmetric] word_less_nat_alt)
qed

lemma cmsg_walk_zero [simp]: "cmsg_walk m mhdr 0 = Some []"
  by (simp add: cmsg_walk.simps)

lemma cmsg_walk_visits:
  assumes "cmsgs_at m p (l # ls)" and "unat p + sum_list (map space (l # ls)) = unat e"
    and "sum_list (map space (l # ls)) < 2 ^ 32 - 7" and "unat e + 16 < 2 ^ 64"
    and "p \<noteq> 0" and mhdr: "e = msg_control mhdr + ucast (msg_controllen mhdr)"
  shows "cmsg_walk m mhdr p = Some (cmsg_addresses p (l # ls))"
  using assms(1-5)
proof (induction ls arbitrary: p l)
  case Nil
  have "CMSG_NXTHDR m mhdr p = 0"
    using cmsg_next(1) [of m p l e mhdr] Nil mhdr by simp
  then show ?case using Nil.prems(5) by (simp add: cmsg_walk.simps [of m mhdr p])
next
  case (Cons k ls)
  let ?q = "p + CMSG_SPACE (of_nat l)"
  have len: "unat (cmsg_len m p) = unat (CMSG_LEN (of_nat l))" and sp: "space l < 2 ^ 32 - 7"
    and e: "unat p + space l \<le> unat e" "unat p + space l + 16 \<le> unat e"
    using Cons.prems space_gt(2) [of k] by simp_all
  note nxt = cmsg_next [OF len sp e(1) Cons.prems(4) mhdr Cons.prems(5)]
  have "?q \<noteq> 0" using nxt(2) space_gt(2) [of l] by (metis add_is_0 not_numeral_le_zero unat_0)
  then have "cmsg_walk m mhdr ?q = Some (cmsg_addresses ?q (k # ls))"
    using Cons.IH [of ?q k] Cons.prems nxt(2) by simp
  moreover have "CMSG_NXTHDR m mhdr p = ?q" using nxt(1) e(2) by simp
  ultimately show ?case using Cons.prems(5) by (simp add: cmsg_walk.simps [of m mhdr p])
qed

text \<open>A length of 0 makes the next header the same one: the walk never ends.\<close>

lemma cmsg_zero_stuck:
  assumes "cmsg_len m p = 0" and "p + 16 \<le> msg_control mhdr + ucast (msg_controllen mhdr)" and "p \<noteq> 0"
  shows "cmsg_walk m mhdr p = None"
proof -
  have n: "CMSG_NXTHDR m mhdr p = p"
    using assms by (auto simp: CMSG_NXTHDR_def ALIGN_header ALIGN_def [of 0])
  have "cmsg_walk m mhdr q = Some cs \<Longrightarrow> q \<noteq> 0 \<longrightarrow> CMSG_NXTHDR m mhdr q \<noteq> q" for q cs
  proof (induction m mhdr q cs rule: cmsg_walk.raw_induct [rotated, consumes 1, case_names step])
    case (step walk m mhdr q cs)
    then show ?case by (cases "walk m mhdr (CMSG_NXTHDR m mhdr q)") (auto split: if_splits)
  qed
  then show ?thesis using n assms(3) by (cases "cmsg_walk m mhdr p") auto
qed

section \<open>Properties\<close>

definition two_messages :: memory where
  "two_messages = store (store (\<lambda>_. 0) 0x1000 (le_bytes 4 (20 :: u32))) 0x1018 (le_bytes 4 (32 :: u32))"

lemma two_messages_loads: "load32 two_messages 0x1000 = 20" "load32 two_messages 0x1018 = 32"
  by (simp_all add: two_messages_def load_store_num)

text \<open>C35. Control data laid out with \<open>CMSG_SPACE\<close> and \<open>CMSG_LEN\<close> is walked to its end: for any number
  of messages of any lengths whose sum is the length of the buffer, the loop over
  \<open>CMSG_FIRSTHDR\<close> and \<open>CMSG_NXTHDR\<close> ends after visiting each header once, in order.\<close>

theorem cmsg_walk_complete:
  assumes "cmsgs_at m (msg_control mhdr) ls" and "unat (msg_controllen mhdr) = sum_list (map space ls)"
    and "sum_list (map space ls) < 2 ^ 32 - 7"
    and "unat (msg_control mhdr) + sum_list (map space ls) + 16 < 2 ^ 64" and "msg_control mhdr \<noteq> 0"
  shows "cmsg_headers m mhdr = Some (cmsg_addresses (msg_control mhdr) ls)"
proof (cases ls)
  case Nil
  then have "msg_controllen mhdr = 0" using assms(2) by (simp add: unat_eq_0)
  then show ?thesis by (simp add: Nil cmsg_headers_def CMSG_FIRSTHDR_def sizeof_cmsghdr)
next
  case (Cons l ls')
  let ?len = "ucast (msg_controllen mhdr) :: u64"
  have u: "unat ?len = sum_list (map space ls)"
    using assms(2,3) by (simp add: unsigned_ucast_eq take_bit_nat_eq_self)
  then have e: "unat (msg_control mhdr + ?len) = unat (msg_control mhdr) + sum_list (map space ls)"
    using unat_add_small [of "msg_control mhdr" ?len] assms(4) by simp
  have "sizeof_cmsghdr \<le> ?len"
    using space_gt(2) [of l] u by (simp add: sizeof_cmsghdr word_le_nat_alt Cons)
  then have "CMSG_FIRSTHDR mhdr = msg_control mhdr" by (simp add: CMSG_FIRSTHDR_def)
  then show ?thesis
    using cmsg_walk_visits [of m "msg_control mhdr" l ls' "msg_control mhdr + ?len" mhdr] assms e
    by (simp add: cmsg_headers_def Cons)
qed

theorem cmsg_walk_complete_witness:
  "cmsg_headers two_messages \<lparr>msg_control = 0x1000, msg_controllen = 56\<rparr> = Some [0x1000, 0x1018]"
proof -
  have s: "CMSG_SPACE 4 = 24" "CMSG_SPACE 16 = 32" "CMSG_LEN 4 = 20" "CMSG_LEN 16 = 32"
    by (simp_all add: CMSG_SPACE_def CMSG_LEN_def ALIGN_header) (simp_all add: ALIGN_def)
  show ?thesis
    using cmsg_walk_complete [of two_messages "\<lparr>msg_control = 0x1000, msg_controllen = 56\<rparr>" "[4, 16]"]
    by (simp add: s cmsg_len_def two_messages_loads space_def)
qed

end
