(* ===== verification/Inet_Interface.thy ===== *)
theory Inet_Interface
  imports Socket_Interface
begin

text \<open>
  The Internet side of the socket interface, \<^verbatim>\<open>netinet/in.h\<close> and \<^verbatim>\<open>netinet6/in6.h\<close>, which
  \<^verbatim>\<open>info.c\<close> includes: the numbers of protocols, ports, options and \<^verbatim>\<open>sysctl\<close> variables, and
  the structures.
\<close>

section \<open>Protocols and ports\<close>

definition ip_protocols_posix :: "(string \<times> int) list" where
  "ip_protocols_posix =
    [(''IPPROTO_IP'', 0), (''IPPROTO_ICMP'', 1), (''IPPROTO_TCP'', 6), (''IPPROTO_UDP'', 17)]"

definition ip_protocols :: "(string \<times> int) list" where
  "ip_protocols =
    [(''IPPROTO_HOPOPTS'', 0), (''IPPROTO_IGMP'', 2), (''IPPROTO_GGP'', 3), (''IPPROTO_IPV4'', 4),
     (''IPPROTO_IPIP'', 4), (''IPPROTO_ST'', 7), (''IPPROTO_EGP'', 8), (''IPPROTO_PIGP'', 9),
     (''IPPROTO_RCCMON'', 10), (''IPPROTO_NVPII'', 11), (''IPPROTO_PUP'', 12),
     (''IPPROTO_ARGUS'', 13), (''IPPROTO_EMCON'', 14), (''IPPROTO_XNET'', 15),
     (''IPPROTO_CHAOS'', 16), (''IPPROTO_MUX'', 18), (''IPPROTO_MEAS'', 19),
     (''IPPROTO_HMP'', 20), (''IPPROTO_PRM'', 21), (''IPPROTO_IDP'', 22),
     (''IPPROTO_TRUNK1'', 23), (''IPPROTO_TRUNK2'', 24), (''IPPROTO_LEAF1'', 25),
     (''IPPROTO_LEAF2'', 26), (''IPPROTO_RDP'', 27), (''IPPROTO_IRTP'', 28), (''IPPROTO_TP'', 29),
     (''IPPROTO_BLT'', 30), (''IPPROTO_NSP'', 31), (''IPPROTO_INP'', 32), (''IPPROTO_SEP'', 33),
     (''IPPROTO_3PC'', 34), (''IPPROTO_IDPR'', 35), (''IPPROTO_XTP'', 36), (''IPPROTO_DDP'', 37),
     (''IPPROTO_CMTP'', 38), (''IPPROTO_TPXX'', 39), (''IPPROTO_IL'', 40), (''IPPROTO_IPV6'', 41),
     (''IPPROTO_SDRP'', 42), (''IPPROTO_ROUTING'', 43), (''IPPROTO_FRAGMENT'', 44),
     (''IPPROTO_IDRP'', 45), (''IPPROTO_RSVP'', 46), (''IPPROTO_GRE'', 47),
     (''IPPROTO_MHRP'', 48), (''IPPROTO_BHA'', 49), (''IPPROTO_ESP'', 50), (''IPPROTO_AH'', 51),
     (''IPPROTO_INLSP'', 52), (''IPPROTO_SWIPE'', 53), (''IPPROTO_NHRP'', 54),
     (''IPPROTO_MOBILE'', 55), (''IPPROTO_TLSP'', 56), (''IPPROTO_SKIP'', 57),
     (''IPPROTO_ICMPV6'', 58), (''IPPROTO_NONE'', 59), (''IPPROTO_DSTOPTS'', 60),
     (''IPPROTO_AHIP'', 61), (''IPPROTO_CFTP'', 62), (''IPPROTO_HELLO'', 63),
     (''IPPROTO_SATEXPAK'', 64), (''IPPROTO_KRYPTOLAN'', 65), (''IPPROTO_RVD'', 66),
     (''IPPROTO_IPPC'', 67), (''IPPROTO_ADFS'', 68), (''IPPROTO_SATMON'', 69),
     (''IPPROTO_VISA'', 70), (''IPPROTO_IPCV'', 71), (''IPPROTO_CPNX'', 72),
     (''IPPROTO_CPHB'', 73), (''IPPROTO_WSN'', 74), (''IPPROTO_PVP'', 75),
     (''IPPROTO_BRSATMON'', 76), (''IPPROTO_ND'', 77), (''IPPROTO_WBMON'', 78),
     (''IPPROTO_WBEXPAK'', 79), (''IPPROTO_EON'', 80), (''IPPROTO_VMTP'', 81),
     (''IPPROTO_SVMTP'', 82), (''IPPROTO_VINES'', 83), (''IPPROTO_TTP'', 84),
     (''IPPROTO_IGP'', 85), (''IPPROTO_DGP'', 86), (''IPPROTO_TCF'', 87), (''IPPROTO_IGRP'', 88),
     (''IPPROTO_OSPFIGP'', 89), (''IPPROTO_SRPC'', 90), (''IPPROTO_LARP'', 91),
     (''IPPROTO_MTP'', 92), (''IPPROTO_AX25'', 93), (''IPPROTO_IPEIP'', 94),
     (''IPPROTO_MICP'', 95), (''IPPROTO_SCCSP'', 96), (''IPPROTO_ETHERIP'', 97),
     (''IPPROTO_ENCAP'', 98), (''IPPROTO_APES'', 99), (''IPPROTO_GMTP'', 100),
     (''IPPROTO_IPCOMP'', 108), (''IPPROTO_SCTP'', 132), (''IPPROTO_MH'', 135),
     (''IPPROTO_PIM'', 103), (''IPPROTO_CARP'', 112), (''IPPROTO_PGM'', 113),
     (''IPPROTO_PFSYNC'', 240), (''IPPROTO_OLD_DIVERT'', 254), (''IPPROTO_MAX'', 256),
     (''IPPROTO_DONE'', 257), (''IPPROTO_DIVERT'', 258), (''IPPROTO_SEND'', 259),
     (''IPPROTO_SPACER'', 32767)]"

definition ip_ports :: "(string \<times> int) list" where
  "ip_ports =
    [(''IPPORT_RESERVED'', 1024), (''IPPORT_EPHEMERALFIRST'', 10000),
     (''IPPORT_EPHEMERALLAST'', 65535), (''IPPORT_HIFIRSTAUTO'', 49152),
     (''IPPORT_HILASTAUTO'', 65535), (''IPPORT_RESERVEDSTART'', 600), (''IPPORT_MAX'', 65535)]"

definition ip6_ports :: "(string \<times> int) list" where
  "ip6_ports =
    [(''IPV6PORT_RESERVED'', 1024), (''IPV6PORT_ANONMIN'', 49152), (''IPV6PORT_ANONMAX'', 65535),
     (''IPV6PORT_RESERVEDMIN'', 600), (''IPV6PORT_RESERVEDMAX'', 1023)]"

section \<open>Options\<close>

text \<open>Names that the headers disable (\<^verbatim>\<open>#if 0\<close>, \<^verbatim>\<open>notyet\<close>) are left out; those under \<^verbatim>\<open>_KERNEL\<close> and its
  absence are both listed.\<close>

definition ip_options :: "(string \<times> int) list" where
  "ip_options =
    [(''IP_OPTIONS'', 1), (''IP_HDRINCL'', 2), (''IP_TOS'', 3), (''IP_TTL'', 4),
     (''IP_RECVOPTS'', 5), (''IP_RECVRETOPTS'', 6), (''IP_RECVDSTADDR'', 7),
     (''IP_SENDSRCADDR'', 7), (''IP_RETOPTS'', 8), (''IP_MULTICAST_IF'', 9),
     (''IP_MULTICAST_TTL'', 10), (''IP_MULTICAST_LOOP'', 11), (''IP_ADD_MEMBERSHIP'', 12),
     (''IP_DROP_MEMBERSHIP'', 13), (''IP_MULTICAST_VIF'', 14), (''IP_RSVP_ON'', 15),
     (''IP_RSVP_OFF'', 16), (''IP_RSVP_VIF_ON'', 17), (''IP_RSVP_VIF_OFF'', 18),
     (''IP_PORTRANGE'', 19), (''IP_RECVIF'', 20), (''IP_IPSEC_POLICY'', 21), (''IP_FAITH'', 22),
     (''IP_ONESBCAST'', 23), (''IP_BINDANY'', 24), (''IP_FW_TABLE_ADD'', 40),
     (''IP_FW_TABLE_DEL'', 41), (''IP_FW_TABLE_FLUSH'', 42), (''IP_FW_TABLE_GETSIZE'', 43),
     (''IP_FW_TABLE_LIST'', 44), (''IP_FW3'', 48), (''IP_DUMMYNET3'', 49), (''IP_FW_ADD'', 50),
     (''IP_FW_DEL'', 51), (''IP_FW_FLUSH'', 52), (''IP_FW_ZERO'', 53), (''IP_FW_GET'', 54),
     (''IP_FW_RESETLOG'', 55), (''IP_FW_NAT_CFG'', 56), (''IP_FW_NAT_DEL'', 57),
     (''IP_FW_NAT_GET_CONFIG'', 58), (''IP_FW_NAT_GET_LOG'', 59), (''IP_DUMMYNET_CONFIGURE'', 60),
     (''IP_DUMMYNET_DEL'', 61), (''IP_DUMMYNET_FLUSH'', 62), (''IP_DUMMYNET_GET'', 64),
     (''IP_RECVTTL'', 65), (''IP_MINTTL'', 66), (''IP_DONTFRAG'', 67),
     (''IP_ADD_SOURCE_MEMBERSHIP'', 70), (''IP_DROP_SOURCE_MEMBERSHIP'', 71),
     (''IP_BLOCK_SOURCE'', 72), (''IP_UNBLOCK_SOURCE'', 73), (''IP_MSFILTER'', 74),
     (''MCAST_JOIN_GROUP'', 80), (''MCAST_LEAVE_GROUP'', 81), (''MCAST_JOIN_SOURCE_GROUP'', 82),
     (''MCAST_LEAVE_SOURCE_GROUP'', 83), (''MCAST_BLOCK_SOURCE'', 84),
     (''MCAST_UNBLOCK_SOURCE'', 85)]"

definition ip_limits :: "(string \<times> int) list" where
  "ip_limits =
    [(''IP_DEFAULT_MULTICAST_TTL'', 1), (''IP_DEFAULT_MULTICAST_LOOP'', 1),
     (''IP_MIN_MEMBERSHIPS'', 31), (''IP_MAX_MEMBERSHIPS'', 4095),
     (''IP_MAX_SOURCE_FILTER'', 1024), (''IP_MAX_GROUP_SRC_FILTER'', 512),
     (''IP_MAX_SOCK_SRC_FILTER'', 128), (''IP_MAX_SOCK_MUTE_FILTER'', 128)]"

definition ip_modes :: "(string \<times> int) list" where
  "ip_modes =
    [(''MCAST_UNDEFINED'', 0), (''MCAST_INCLUDE'', 1), (''MCAST_EXCLUDE'', 2),
     (''IP_PORTRANGE_DEFAULT'', 0), (''IP_PORTRANGE_HIGH'', 1), (''IP_PORTRANGE_LOW'', 2)]"

definition ip6_options :: "(string \<times> int) list" where
  "ip6_options =
    [(''IPV6_SOCKOPT_RESERVED1'', 3), (''IPV6_UNICAST_HOPS'', 4), (''IPV6_MULTICAST_IF'', 9),
     (''IPV6_MULTICAST_HOPS'', 10), (''IPV6_MULTICAST_LOOP'', 11), (''IPV6_JOIN_GROUP'', 12),
     (''IPV6_LEAVE_GROUP'', 13), (''IPV6_PORTRANGE'', 14), (''ICMP6_FILTER'', 18),
     (''IPV6_2292PKTINFO'', 19), (''IPV6_2292HOPLIMIT'', 20), (''IPV6_2292NEXTHOP'', 21),
     (''IPV6_2292HOPOPTS'', 22), (''IPV6_2292DSTOPTS'', 23), (''IPV6_2292RTHDR'', 24),
     (''IPV6_2292PKTOPTIONS'', 25), (''IPV6_CHECKSUM'', 26), (''IPV6_V6ONLY'', 27),
     (''IPV6_BINDV6ONLY'', 27), (''IPV6_IPSEC_POLICY'', 28), (''IPV6_FAITH'', 29),
     (''IPV6_FW_ADD'', 30), (''IPV6_FW_DEL'', 31), (''IPV6_FW_FLUSH'', 32),
     (''IPV6_FW_ZERO'', 33), (''IPV6_FW_GET'', 34), (''IPV6_RTHDRDSTOPTS'', 35),
     (''IPV6_RECVPKTINFO'', 36), (''IPV6_RECVHOPLIMIT'', 37), (''IPV6_RECVRTHDR'', 38),
     (''IPV6_RECVHOPOPTS'', 39), (''IPV6_RECVDSTOPTS'', 40), (''IPV6_RECVRTHDRDSTOPTS'', 41),
     (''IPV6_USE_MIN_MTU'', 42), (''IPV6_RECVPATHMTU'', 43), (''IPV6_PATHMTU'', 44),
     (''IPV6_PKTINFO'', 46), (''IPV6_HOPLIMIT'', 47), (''IPV6_NEXTHOP'', 48),
     (''IPV6_HOPOPTS'', 49), (''IPV6_DSTOPTS'', 50), (''IPV6_RTHDR'', 51),
     (''IPV6_RECVTCLASS'', 57), (''IPV6_AUTOFLOWLABEL'', 59), (''IPV6_TCLASS'', 61),
     (''IPV6_DONTFRAG'', 62), (''IPV6_PREFER_TEMPADDR'', 63), (''IPV6_BINDANY'', 64),
     (''IPV6_MSFILTER'', 74)]"

definition ip6_limits :: "(string \<times> int) list" where
  "ip6_limits =
    [(''IPV6_RTHDR_LOOSE'', 0), (''IPV6_RTHDR_STRICT'', 1), (''IPV6_RTHDR_TYPE_0'', 0),
     (''IPV6_DEFAULT_MULTICAST_HOPS'', 1), (''IPV6_DEFAULT_MULTICAST_LOOP'', 1),
     (''IPV6_MIN_MEMBERSHIPS'', 31), (''IPV6_MAX_MEMBERSHIPS'', 4095),
     (''IPV6_MAX_GROUP_SRC_FILTER'', 512), (''IPV6_MAX_SOCK_SRC_FILTER'', 128)]"

definition ip6_portrange :: "(string \<times> int) list" where
  "ip6_portrange =
    [(''IPV6_PORTRANGE_DEFAULT'', 0), (''IPV6_PORTRANGE_HIGH'', 1), (''IPV6_PORTRANGE_LOW'', 2)]"

definition ip_ctl :: "(string \<times> int) list" where
  "ip_ctl =
    [(''IPCTL_FORWARDING'', 1), (''IPCTL_SENDREDIRECTS'', 2), (''IPCTL_DEFTTL'', 3),
     (''IPCTL_RTEXPIRE'', 5), (''IPCTL_RTMINEXPIRE'', 6), (''IPCTL_RTMAXCACHE'', 7),
     (''IPCTL_SOURCEROUTE'', 8), (''IPCTL_DIRECTEDBROADCAST'', 9), (''IPCTL_INTRQMAXLEN'', 10),
     (''IPCTL_INTRQDROPS'', 11), (''IPCTL_STATS'', 12), (''IPCTL_ACCEPTSOURCEROUTE'', 13),
     (''IPCTL_FASTFORWARDING'', 14), (''IPCTL_KEEPFAITH'', 15), (''IPCTL_GIF_TTL'', 16),
     (''IPCTL_MAXID'', 17)]"

definition ip6_ctl :: "(string \<times> int) list" where
  "ip6_ctl =
    [(''IPV6CTL_FORWARDING'', 1), (''IPV6CTL_SENDREDIRECTS'', 2), (''IPV6CTL_DEFHLIM'', 3),
     (''IPV6CTL_FORWSRCRT'', 5), (''IPV6CTL_STATS'', 6), (''IPV6CTL_MRTSTATS'', 7),
     (''IPV6CTL_MRTPROTO'', 8), (''IPV6CTL_MAXFRAGPACKETS'', 9), (''IPV6CTL_SOURCECHECK'', 10),
     (''IPV6CTL_SOURCECHECK_LOGINT'', 11), (''IPV6CTL_ACCEPT_RTADV'', 12),
     (''IPV6CTL_KEEPFAITH'', 13), (''IPV6CTL_LOG_INTERVAL'', 14), (''IPV6CTL_HDRNESTLIMIT'', 15),
     (''IPV6CTL_DAD_COUNT'', 16), (''IPV6CTL_AUTO_FLOWLABEL'', 17),
     (''IPV6CTL_DEFMCASTHLIM'', 18), (''IPV6CTL_GIF_HLIM'', 19), (''IPV6CTL_KAME_VERSION'', 20),
     (''IPV6CTL_USE_DEPRECATED'', 21), (''IPV6CTL_RR_PRUNE'', 22), (''IPV6CTL_V6ONLY'', 24),
     (''IPV6CTL_RTEXPIRE'', 25), (''IPV6CTL_RTMINEXPIRE'', 26), (''IPV6CTL_RTMAXCACHE'', 27),
     (''IPV6CTL_USETEMPADDR'', 32), (''IPV6CTL_TEMPPLTIME'', 33), (''IPV6CTL_TEMPVLTIME'', 34),
     (''IPV6CTL_AUTO_LINKLOCAL'', 35), (''IPV6CTL_RIP6STATS'', 36),
     (''IPV6CTL_PREFER_TEMPADDR'', 37), (''IPV6CTL_ADDRCTLPOLICY'', 38),
     (''IPV6CTL_USE_DEFAULTZONE'', 39), (''IPV6CTL_MAXFRAGS'', 41), (''IPV6CTL_MCAST_PMTU'', 44),
     (''IPV6CTL_STEALTH'', 45), (''ICMPV6CTL_ND6_ONLINKNSRFC4861'', 47),
     (''IPV6CTL_NO_RADR'', 48), (''IPV6CTL_NORBIT_RAIF'', 49), (''IPV6CTL_RFC6204W3'', 50),
     (''IPV6CTL_MAXID'', 51)]"

text \<open>The names that \<^verbatim>\<open>sysctl\<close> gives to protocols and to variables, by index; the empty string is a
  null entry.\<close>

definition ctl_ipproto_names :: "string list" where
  "ctl_ipproto_names =
    [''ip'', ''icmp'', ''igmp'', ''ggp'', '''', '''', ''tcp'', '''', ''egp'', '''', '''', '''',
     ''pup'', '''', '''', '''', '''', ''udp'', '''', '''', '''', '''', ''idp'', '''', '''',
     '''', '''', '''', '''', '''', '''', '''', '''', '''', '''', '''', '''', '''', '''', '''',
     '''', '''', '''', '''', '''', '''', '''', '''', '''', '''', '''', ''ipsec'', '''', '''',
     '''', '''', '''', '''', '''', '''', '''', '''', '''', '''', '''', '''', '''', '''', '''',
     '''', '''', '''', '''', '''', '''', '''', '''', '''', '''', '''', '''', '''', '''', '''',
     '''', '''', '''', '''', '''', '''', '''', '''', '''', '''', '''', '''', '''', '''', '''',
     '''', '''', '''', '''', ''pim'']"

definition ipctl_names :: "string list" where
  "ipctl_names =
    ['''', ''forwarding'', ''redirect'', ''ttl'', ''mtu'', ''rtexpire'', ''rtminexpire'',
     ''rtmaxcache'', ''sourceroute'', ''directed-broadcast'', ''intr-queue-maxlen'',
     ''intr-queue-drops'', ''stats'', ''accept_sourceroute'', ''fastforwarding'']"

section \<open>Structures\<close>

definition in_addr_t :: ctype where [layout_defs]:
  "in_addr_t =
     Struct [
      (''s_addr'', c_int)]"

definition sockaddr_in_t :: ctype where [layout_defs]:
  "sockaddr_in_t =
     Struct [
      (''sin_len'', c_char), (''sin_family'', sa_family_t), (''sin_port'', c_short),
      (''sin_addr'', in_addr_t), (''sin_zero'', Array 8 c_char)]"

definition ip_mreq_t :: ctype where [layout_defs]:
  "ip_mreq_t =
     Struct [
      (''imr_multiaddr'', in_addr_t), (''imr_interface'', in_addr_t)]"

definition ip_mreqn_t :: ctype where [layout_defs]:
  "ip_mreqn_t =
     Struct [
      (''imr_multiaddr'', in_addr_t), (''imr_address'', in_addr_t), (''imr_ifindex'', c_int)]"

definition ip_mreq_source_t :: ctype where [layout_defs]:
  "ip_mreq_source_t =
     Struct [
      (''imr_multiaddr'', in_addr_t), (''imr_sourceaddr'', in_addr_t),
      (''imr_interface'', in_addr_t)]"

definition group_req_t :: ctype where [layout_defs]:
  "group_req_t =
     Struct [
      (''gr_interface'', c_int), (''gr_group'', sockaddr_storage_t)]"

definition group_source_req_t :: ctype where [layout_defs]:
  "group_source_req_t =
     Struct [
      (''gsr_interface'', c_int), (''gsr_group'', sockaddr_storage_t),
      (''gsr_source'', sockaddr_storage_t)]"

definition msfilterreq_t :: ctype where [layout_defs]:
  "msfilterreq_t =
     Struct [
      (''msfr_ifindex'', c_int), (''msfr_fmode'', c_int), (''msfr_nsrcs'', c_int),
      (''msfr_group'', sockaddr_storage_t), (''msfr_srcs'', c_ptr)]"

definition in6_addr_t :: ctype where [layout_defs]:
  "in6_addr_t =
     Struct [
      (''__u6_addr'', Union [
         (''__u6_addr8'', Array 16 c_char), (''__u6_addr16'', Array 8 c_short),
         (''__u6_addr32'', Array 4 c_int)])]"

definition sockaddr_in6_t :: ctype where [layout_defs]:
  "sockaddr_in6_t =
     Struct [
      (''sin6_len'', c_char), (''sin6_family'', sa_family_t), (''sin6_port'', c_short),
      (''sin6_flowinfo'', c_int), (''sin6_addr'', in6_addr_t), (''sin6_scope_id'', c_int)]"

definition route_in6_t :: ctype where [layout_defs]:
  "route_in6_t =
     Struct [
      (''ro_rt'', c_ptr), (''ro_lle'', c_ptr), (''ro_ia6'', c_ptr), (''ro_flags'', c_int),
      (''ro_dst'', sockaddr_in6_t)]"

definition ipv6_mreq_t :: ctype where [layout_defs]:
  "ipv6_mreq_t =
     Struct [
      (''ipv6mr_multiaddr'', in6_addr_t), (''ipv6mr_interface'', c_int)]"

definition in6_pktinfo_t :: ctype where [layout_defs]:
  "in6_pktinfo_t =
     Struct [
      (''ipi6_addr'', in6_addr_t), (''ipi6_ifindex'', c_int)]"

definition ip6_mtuinfo_t :: ctype where [layout_defs]:
  "ip6_mtuinfo_t =
     Struct [
      (''ip6m_addr'', sockaddr_in6_t), (''ip6m_mtu'', c_int)]"

text \<open>
  Every structure is well formed; both socket addresses fit the storage structure and have their
  length, family and port where the generic address has its length and family.
\<close>

lemma inet_types_wf:
  "list_all wf_ctype [sockaddr_in_t, ip_mreqn_t, group_source_req_t, msfilterreq_t, sockaddr_in6_t,
     route_in6_t, ipv6_mreq_t, in6_pktinfo_t, ip6_mtuinfo_t]"
  by (simp add: layout_defs)

lemma sockaddr_in_offsets:
  "offsetof sockaddr_in_t ''sin_family'' = offsetof sockaddr_t ''sa_family''"
  "offsetof sockaddr_in6_t ''sin6_family'' = offsetof sockaddr_t ''sa_family''"
  "offsetof sockaddr_in_t ''sin_port'' = Some 2" "offsetof sockaddr_in6_t ''sin6_port'' = Some 2"
  "offsetof sockaddr_in_t ''sin_addr'' = Some 4" "offsetof sockaddr_in6_t ''sin6_addr'' = Some 8"
  by (simp_all add: layout_defs layout_eval)

lemma sockaddr_in_sizes:
  "sizeof sockaddr_in_t = 16" "sizeof sockaddr_in6_t = 28"
  "sizeof sockaddr_in_t = sizeof sockaddr_t" "sizeof sockaddr_in6_t \<le> sizeof sockaddr_storage_t"
  by (simp_all add: layout_defs layout_eval)

text \<open>
  Names stand at the index of the protocol or variable they name. The table of the IP variables
  ends before the largest of them.
\<close>

lemma ctl_ipproto_names_at:
  "ctl_ipproto_names ! nat (number ip_protocols_posix ''IPPROTO_ICMP'') = ''icmp''"
  "ctl_ipproto_names ! nat (number ip_protocols_posix ''IPPROTO_TCP'') = ''tcp''"
  "ctl_ipproto_names ! nat (number ip_protocols_posix ''IPPROTO_UDP'') = ''udp''"
  "ctl_ipproto_names ! nat (number ip_protocols ''IPPROTO_IGMP'') = ''igmp''"
  "ctl_ipproto_names ! nat (number ip_protocols ''IPPROTO_AH'') = ''ipsec''"
  "ctl_ipproto_names ! nat (number ip_protocols ''IPPROTO_PIM'') = ''pim''"
  by (simp_all add: number_def ip_protocols_posix_def ip_protocols_def ctl_ipproto_names_def
      map_of_Cons_code del: map_of.simps)

lemma ipctl_names_at:
  "ipctl_names ! nat (number ip_ctl ''IPCTL_DEFTTL'') = ''ttl''"
  "ipctl_names ! nat (number ip_ctl ''IPCTL_STATS'') = ''stats''"
  "ipctl_names ! nat (number ip_ctl ''IPCTL_FASTFORWARDING'') = ''fastforwarding''"
  by (simp_all add: number_def ip_ctl_def ipctl_names_def)

lemma ipctl_names_short: "int (length ipctl_names) \<le> number ip_ctl ''IPCTL_KEEPFAITH''"
  by (simp add: number_def ip_ctl_def ipctl_names_def)

end
