(* ===== verification/Inet_Address.thy ===== *)
theory Inet_Address
  imports Inet_Interface Byte_Order
begin

text \<open>
  Internet addresses: the classes and special ranges of IPv4 (\<^verbatim>\<open>netinet/in.h\<close>), the classes,
  scopes and well-known addresses of IPv6 (\<^verbatim>\<open>netinet6/in6.h\<close>). The macros test masked bits; the
  specification is in ranges of addresses, written as one writes them: four numbers for IPv4,
  sixteen bytes in network order for IPv6.
\<close>

named_theorems class_defs \<open>address classes\<close>

section \<open>IPv4 addresses, in host order\<close>

definition IN_CLASSA :: "u32 \<Rightarrow> bool" where [class_defs]:
  "IN_CLASSA i \<longleftrightarrow> i AND 0x80000000 = 0"

definition IN_CLASSA_NET :: u32 where "IN_CLASSA_NET = 0xff000000"
definition IN_CLASSA_NSHIFT :: nat where "IN_CLASSA_NSHIFT = 24"
definition IN_CLASSA_HOST :: u32 where "IN_CLASSA_HOST = 0x00ffffff"
definition IN_CLASSA_MAX :: nat where "IN_CLASSA_MAX = 128"

definition IN_CLASSB :: "u32 \<Rightarrow> bool" where [class_defs]:
  "IN_CLASSB i \<longleftrightarrow> i AND 0xc0000000 = 0x80000000"

definition IN_CLASSB_NET :: u32 where "IN_CLASSB_NET = 0xffff0000"
definition IN_CLASSB_NSHIFT :: nat where "IN_CLASSB_NSHIFT = 16"
definition IN_CLASSB_HOST :: u32 where "IN_CLASSB_HOST = 0x0000ffff"
definition IN_CLASSB_MAX :: nat where "IN_CLASSB_MAX = 65536"

definition IN_CLASSC :: "u32 \<Rightarrow> bool" where [class_defs]:
  "IN_CLASSC i \<longleftrightarrow> i AND 0xe0000000 = 0xc0000000"

definition IN_CLASSC_NET :: u32 where "IN_CLASSC_NET = 0xffffff00"
definition IN_CLASSC_NSHIFT :: nat where "IN_CLASSC_NSHIFT = 8"
definition IN_CLASSC_HOST :: u32 where "IN_CLASSC_HOST = 0x000000ff"

definition IN_CLASSD :: "u32 \<Rightarrow> bool" where [class_defs]:
  "IN_CLASSD i \<longleftrightarrow> i AND 0xf0000000 = 0xe0000000"

definition IN_CLASSD_NET :: u32 where "IN_CLASSD_NET = 0xf0000000"
definition IN_CLASSD_NSHIFT :: nat where "IN_CLASSD_NSHIFT = 28"
definition IN_CLASSD_HOST :: u32 where "IN_CLASSD_HOST = 0x0fffffff"

definition IN_MULTICAST :: "u32 \<Rightarrow> bool" where [class_defs]:
  "IN_MULTICAST i \<longleftrightarrow> IN_CLASSD i"

definition IN_EXPERIMENTAL :: "u32 \<Rightarrow> bool" where [class_defs]:
  "IN_EXPERIMENTAL i \<longleftrightarrow> i AND 0xf0000000 = 0xf0000000"

definition IN_BADCLASS :: "u32 \<Rightarrow> bool" where [class_defs]:
  "IN_BADCLASS i \<longleftrightarrow> i AND 0xf0000000 = 0xf0000000"

definition IN_LINKLOCAL :: "u32 \<Rightarrow> bool" where [class_defs]:
  "IN_LINKLOCAL i \<longleftrightarrow> i AND 0xffff0000 = 0xa9fe0000"

definition IN_LOOPBACK :: "u32 \<Rightarrow> bool" where [class_defs]:
  "IN_LOOPBACK i \<longleftrightarrow> i AND 0xff000000 = 0x7f000000"

definition IN_ZERONET :: "u32 \<Rightarrow> bool" where [class_defs]:
  "IN_ZERONET i \<longleftrightarrow> i AND 0xff000000 = 0"

definition IN_PRIVATE :: "u32 \<Rightarrow> bool" where [class_defs]:
  "IN_PRIVATE i \<longleftrightarrow> i AND 0xff000000 = 0x0a000000 \<or> i AND 0xfff00000 = 0xac100000 \<or>
     i AND 0xffff0000 = 0xc0a80000"

definition IN_LOCAL_GROUP :: "u32 \<Rightarrow> bool" where [class_defs]:
  "IN_LOCAL_GROUP i \<longleftrightarrow> i AND 0xffffff00 = 0xe0000000"

definition IN_ANY_LOCAL :: "u32 \<Rightarrow> bool" where [class_defs]:
  "IN_ANY_LOCAL i \<longleftrightarrow> IN_LINKLOCAL i \<or> IN_LOCAL_GROUP i"

text \<open>The well-known addresses.\<close>

definition inaddrs :: "(string \<times> u32) list" where
  "inaddrs =
     [(''INADDR_LOOPBACK'', 0x7f000001), (''INADDR_NONE'', 0xffffffff),
      (''INADDR_UNSPEC_GROUP'', 0xe0000000), (''INADDR_ALLHOSTS_GROUP'', 0xe0000001),
      (''INADDR_ALLRTRS_GROUP'', 0xe0000002), (''INADDR_ALLRPTS_GROUP'', 0xe0000016),
      (''INADDR_CARP_GROUP'', 0xe0000012), (''INADDR_PFSYNC_GROUP'', 0xe00000f0),
      (''INADDR_ALLMDNS_GROUP'', 0xe00000fb), (''INADDR_MAX_LOCAL_GROUP'', 0xe00000ff),
      (''IN_LOOPBACKNET'', 127), (''IN_RFC3021_MASK'', 0xfffffffe)]"

definition INADDR_ANY :: u32 where "INADDR_ANY = 0x00000000"
definition INADDR_BROADCAST :: u32 where "INADDR_BROADCAST = 0xffffffff"

definition INADDR :: "string \<Rightarrow> u32" where
  "INADDR x = the (map_of inaddrs x)"

section \<open>Masks are ranges\<close>

definition dotted :: "u8 \<Rightarrow> u8 \<Rightarrow> u8 \<Rightarrow> u8 \<Rightarrow> u32" where
  "dotted a b c d = le_word [d, c, b, a]"

lemma and_not_mask: "i AND NOT (mask k) = push_bit k (drop_bit k i)" for i :: "'a::len word"
  by (rule bit_word_eqI) (auto simp: bit_simps)

lemma drop_push_drop: "drop_bit k (push_bit k (drop_bit k i)) = drop_bit k i" for i :: "'a::len word"
  by (rule bit_word_eqI) (auto simp: bit_simps dest: bit_imp_le_length)

lemma unat_drop: "unat (drop_bit k w) = unat w div 2 ^ k" for w :: "'a::len word"
  using unat_drop_bit_eq [of k w] drop_bit_eq_div [of k "unat w"] by simp

lemma div_range:
  fixes a c d :: nat
  assumes "c mod d = 0" and "0 < d"
  shows "a div d = c div d \<longleftrightarrow> c \<le> a \<and> a < c + d"
proof -
  obtain q where c: "c = q * d" using assms(1) by (metis mod_0_imp_dvd dvdE mult.commute)
  show ?thesis
  proof
    assume "a div d = c div d"
    then have "a div d = q" using c assms(2) by simp
    then show "c \<le> a \<and> a < c + d"
      using div_mult_mod_eq [of a d] mod_less_divisor [OF assms(2), of a] by (simp add: c)
  next
    assume "c \<le> a \<and> a < c + d"
    then show "a div d = c div d" using c assms(2) by (auto intro: div_nat_eqI simp: algebra_simps)
  qed
qed

lemma masked_range:
  fixes i c M :: "'a::len word"
  assumes "M = NOT (mask k)" and "take_bit k c = 0"
  shows "i AND M = c \<longleftrightarrow> unat c \<le> unat i \<and> unat i < unat c + 2 ^ k"
proof -
  have "c AND NOT (mask k) = c"
  proof (rule bit_word_eqI)
    have "\<not> bit (take_bit k c) n" for n using assms(2) by simp
    then show "bit (c AND NOT (mask k)) n = bit c n" if "n < LENGTH('a)" for n
      using that by (auto simp: bit_simps)
  qed
  then have c: "c = push_bit k (drop_bit k c)" by (simp add: and_not_mask)
  have "i AND M = c \<longleftrightarrow> drop_bit k i = drop_bit k c"
    unfolding assms(1) and_not_mask using c drop_push_drop by metis
  also have "\<dots> \<longleftrightarrow> unat i div 2 ^ k = unat c div 2 ^ k"
    unfolding word_eq_iff_unsigned [where ?'a = nat] unat_drop by (rule refl)
  also have "\<dots> \<longleftrightarrow> unat c \<le> unat i \<and> unat i < unat c + 2 ^ k"
  proof (rule div_range)
    have "unat (take_bit k c) = take_bit k (unat c)" by (rule unsigned_take_bit_eq)
    then show "unat c mod 2 ^ k = 0" using assms(2) by (simp add: take_bit_eq_mod)
  qed simp
  finally show ?thesis .
qed

lemma prefix_masks:
  "(0xff000000 :: u32) = NOT (mask 24)" "(0xffff0000 :: u32) = NOT (mask 16)"
  "(0xffffff00 :: u32) = NOT (mask 8)" "(0xf0000000 :: u32) = NOT (mask 28)"
  "(0xe0000000 :: u32) = NOT (mask 29)" "(0xc0000000 :: u32) = NOT (mask 30)"
  "(0x80000000 :: u32) = NOT (mask 31)" "(0xfff00000 :: u32) = NOT (mask 20)"
  by code_simp+

lemmas prefix_ranges = prefix_masks [THEN masked_range]

lemmas range_eval = prefix_ranges atLeastAtMost_iff word_le_nat_alt dotted_def

lemma class_ranges:
  "IN_CLASSA i \<longleftrightarrow> i \<in> {dotted 0 0 0 0 .. dotted 127 255 255 255}"
  "IN_CLASSB i \<longleftrightarrow> i \<in> {dotted 128 0 0 0 .. dotted 191 255 255 255}"
  "IN_CLASSC i \<longleftrightarrow> i \<in> {dotted 192 0 0 0 .. dotted 223 255 255 255}"
  "IN_CLASSD i \<longleftrightarrow> i \<in> {dotted 224 0 0 0 .. dotted 239 255 255 255}"
  "IN_EXPERIMENTAL i \<longleftrightarrow> i \<in> {dotted 240 0 0 0 .. dotted 255 255 255 255}"
  using unat_less_32 [of i] by (auto simp: class_defs range_eval)

lemma special_ranges:
  "IN_LINKLOCAL i \<longleftrightarrow> i \<in> {dotted 169 254 0 0 .. dotted 169 254 255 255}"
  "IN_LOOPBACK i \<longleftrightarrow> i \<in> {dotted 127 0 0 0 .. dotted 127 255 255 255}"
  "IN_ZERONET i \<longleftrightarrow> i \<in> {dotted 0 0 0 0 .. dotted 0 255 255 255}"
  "IN_LOCAL_GROUP i \<longleftrightarrow> i \<in> {dotted 224 0 0 0 .. dotted 224 0 0 255}"
  "IN_PRIVATE i \<longleftrightarrow> i \<in> {dotted 10 0 0 0 .. dotted 10 255 255 255}
     \<union> {dotted 172 16 0 0 .. dotted 172 31 255 255} \<union> {dotted 192 168 0 0 .. dotted 192 168 255 255}"
  by (auto simp: class_defs range_eval)


text \<open>Of the five classes every address has one; the special ranges lie where they should.\<close>

lemma one_class:
  "length (filter (\<lambda>c. c i) [IN_CLASSA, IN_CLASSB, IN_CLASSC, IN_CLASSD, IN_EXPERIMENTAL]) = 1"
  using unat_less_32 [of i] by (auto simp: class_defs range_eval)

lemma special_classes:
  "IN_ZERONET i \<Longrightarrow> IN_CLASSA i" "IN_LOOPBACK i \<Longrightarrow> IN_CLASSA i"
  "IN_LINKLOCAL i \<Longrightarrow> IN_CLASSB i" "IN_LOCAL_GROUP i \<Longrightarrow> IN_MULTICAST i"
  "IN_PRIVATE i \<Longrightarrow> \<not> IN_MULTICAST i \<and> \<not> IN_LOOPBACK i \<and> \<not> IN_ANY_LOCAL i \<and> \<not> IN_ZERONET i"
  "IN_BADCLASS i \<longleftrightarrow> IN_EXPERIMENTAL i"
  using unat_less_32 [of i] by (auto simp: class_defs range_eval)

text \<open>The well-known groups are local groups; the loopback address is on the loopback net.\<close>

lemma well_known:
  "IN_LOOPBACK (INADDR ''INADDR_LOOPBACK'')" "INADDR ''INADDR_LOOPBACK'' = dotted 127 0 0 1"
  "drop_bit IN_CLASSA_NSHIFT (INADDR ''INADDR_LOOPBACK'') = INADDR ''IN_LOOPBACKNET''"
  "INADDR ''INADDR_ALLHOSTS_GROUP'' = dotted 224 0 0 1" "INADDR ''INADDR_ALLMDNS_GROUP'' = dotted 224 0 0 251"
  "list_all (\<lambda>g. IN_LOCAL_GROUP (INADDR g))
     [''INADDR_UNSPEC_GROUP'', ''INADDR_ALLHOSTS_GROUP'', ''INADDR_ALLRTRS_GROUP'', ''INADDR_ALLRPTS_GROUP'',
      ''INADDR_CARP_GROUP'', ''INADDR_PFSYNC_GROUP'', ''INADDR_ALLMDNS_GROUP'', ''INADDR_MAX_LOCAL_GROUP'']"
  by (simp_all add: INADDR_def inaddrs_def class_defs dotted_def IN_CLASSA_NSHIFT_def)

text \<open>Network and host part of an address: they partition it, and the network number of a class
  A or B address is below the limit of the class.\<close>

lemma all_ones: "(0xffffffff :: u32) = - 1"
  by code_simp

lemma net_host_split:
  "(i AND IN_CLASSA_NET) OR (i AND IN_CLASSA_HOST) = i" "IN_CLASSA_NET AND IN_CLASSA_HOST = 0"
  "(i AND IN_CLASSB_NET) OR (i AND IN_CLASSB_HOST) = i" "IN_CLASSB_NET AND IN_CLASSB_HOST = 0"
  "(i AND IN_CLASSC_NET) OR (i AND IN_CLASSC_HOST) = i" "IN_CLASSC_NET AND IN_CLASSC_HOST = 0"
  "(i AND IN_CLASSD_NET) OR (i AND IN_CLASSD_HOST) = i" "IN_CLASSD_NET AND IN_CLASSD_HOST = 0"
  unfolding bit.conj_disj_distrib [symmetric]
  by (simp_all add: IN_CLASSA_NET_def IN_CLASSA_HOST_def IN_CLASSB_NET_def IN_CLASSB_HOST_def
      IN_CLASSC_NET_def IN_CLASSC_HOST_def IN_CLASSD_NET_def IN_CLASSD_HOST_def all_ones)

lemma net_numbers:
  "IN_CLASSA i \<Longrightarrow> unat (drop_bit IN_CLASSA_NSHIFT i) < IN_CLASSA_MAX"
  "unat (drop_bit IN_CLASSB_NSHIFT i) < IN_CLASSB_MAX"
  using unat_less_32 [of i]
  by (simp_all add: class_defs range_eval unat_drop IN_CLASSA_NSHIFT_def
      IN_CLASSA_MAX_def IN_CLASSB_NSHIFT_def IN_CLASSB_MAX_def less_mult_imp_div_less)


section \<open>Comparisons and the length fields of a packet\<close>

text \<open>Addresses in packets and socket addresses are in network order.\<close>

definition in_hosteq :: "u32 \<Rightarrow> u32 \<Rightarrow> bool" where
  "in_hosteq s t \<longleftrightarrow> s = t"

definition in_nullhost :: "u32 \<Rightarrow> bool" where
  "in_nullhost x \<longleftrightarrow> x = INADDR_ANY"

definition in_allhosts :: "u32 \<Rightarrow> bool" where
  "in_allhosts x \<longleftrightarrow> x = htonl True (INADDR ''INADDR_ALLHOSTS_GROUP'')"

record ip_hdr =
  ip_len :: u16
  ip_off :: u16

definition SET_NET_IPLEN :: "ip_hdr \<Rightarrow> ip_hdr" where
  "SET_NET_IPLEN h_ip =
     (let h_ip = h_ip\<lparr>ip_len := htons False (ip_len h_ip)\<rparr>
      in h_ip\<lparr>ip_off := htons False (ip_off h_ip)\<rparr>)"

definition SET_HOST_IPLEN :: "ip_hdr \<Rightarrow> ip_hdr" where
  "SET_HOST_IPLEN h_ip =
     (let h_ip = h_ip\<lparr>ip_len := ntohs False (ip_len h_ip)\<rparr>
      in h_ip\<lparr>ip_off := ntohs False (ip_off h_ip)\<rparr>)"

lemma iplen_inverse: "SET_HOST_IPLEN (SET_NET_IPLEN h) = h" "SET_NET_IPLEN (SET_HOST_IPLEN h) = h"
  by (simp_all add: SET_HOST_IPLEN_def SET_NET_IPLEN_def Let_def ntohs_htons)
    (simp add: ntohs_def htons_def bswap_bytes)

lemma host_in_order:
  "in_nullhost (htonl c i) \<longleftrightarrow> i = 0" "in_allhosts (htonl c i) \<longleftrightarrow> i = dotted 224 0 0 1"
  "in_hosteq (htonl c i) (htonl c j) \<longleftrightarrow> i = j"
proof -
  have inj: "htonl c i = htonl d j \<longleftrightarrow> i = j" for c d i j
  proof
    assume "htonl c i = htonl d j"
    then have "ntohl c (htonl c i) = ntohl c (htonl d j)" by (rule arg_cong)
    then show "i = j" by (simp only: ntohl_htonl)
  next
    assume "i = j"
    then show "htonl c i = htonl d j" by (simp only: htonl_def bswap_bytes)
  qed
  have any: "INADDR_ANY = htonl c 0"
    by (simp add: INADDR_ANY_def htonl_def bswap_bytes le_bytes_def rev_map map_replicate_const [symmetric]
        numeral_nat)
  show "in_nullhost (htonl c i) \<longleftrightarrow> i = 0" by (simp only: in_nullhost_def any inj)
  show "in_allhosts (htonl c i) \<longleftrightarrow> i = dotted 224 0 0 1"
    by (simp add: in_allhosts_def inj well_known)
  show "in_hosteq (htonl c i) (htonl c j) \<longleftrightarrow> i = j" by (simp add: in_hosteq_def inj)
qed

section \<open>IPv6 addresses, as sixteen bytes\<close>

type_synonym in6_addr = "u8 list"

text \<open>\<open>s6_addr\<close> is a byte; \<open>s6_addr32\<close> the four bytes from an offset on, read as the macros do
  through a pointer to \<^verbatim>\<open>u_int32_t\<close>.\<close>

definition s6_addr :: "in6_addr \<Rightarrow> nat \<Rightarrow> u8" where
  "s6_addr a k = a ! k"

definition s6_addr32 :: "in6_addr \<Rightarrow> nat \<Rightarrow> u32" where
  "s6_addr32 a k = le_word (take 4 (drop k a))"

definition IN6MASK0 :: in6_addr where
  "IN6MASK0 = [0, 0, 0, 0, 0, 0, 0, 0, 0, 0, 0, 0, 0, 0, 0, 0]"

definition IN6MASK32 :: in6_addr where
  "IN6MASK32 = [0xff, 0xff, 0xff, 0xff, 0x00, 0x00, 0x00, 0x00,
     0x00, 0x00, 0x00, 0x00, 0x00, 0x00, 0x00, 0x00]"

definition IN6MASK64 :: in6_addr where
  "IN6MASK64 = [0xff, 0xff, 0xff, 0xff, 0xff, 0xff, 0xff, 0xff,
     0x00, 0x00, 0x00, 0x00, 0x00, 0x00, 0x00, 0x00]"

definition IN6MASK96 :: in6_addr where
  "IN6MASK96 = [0xff, 0xff, 0xff, 0xff, 0xff, 0xff, 0xff, 0xff,
     0xff, 0xff, 0xff, 0xff, 0x00, 0x00, 0x00, 0x00]"

definition IN6MASK128 :: in6_addr where
  "IN6MASK128 = [0xff, 0xff, 0xff, 0xff, 0xff, 0xff, 0xff, 0xff,
     0xff, 0xff, 0xff, 0xff, 0xff, 0xff, 0xff, 0xff]"

definition IN6ADDR_ANY_INIT :: in6_addr where
  "IN6ADDR_ANY_INIT = [0x00, 0x00, 0x00, 0x00, 0x00, 0x00, 0x00, 0x00,
     0x00, 0x00, 0x00, 0x00, 0x00, 0x00, 0x00, 0x00]"

definition IN6ADDR_LOOPBACK_INIT :: in6_addr where
  "IN6ADDR_LOOPBACK_INIT = [0x00, 0x00, 0x00, 0x00, 0x00, 0x00, 0x00, 0x00,
     0x00, 0x00, 0x00, 0x00, 0x00, 0x00, 0x00, 0x01]"

definition IN6ADDR_NODELOCAL_ALLNODES_INIT :: in6_addr where
  "IN6ADDR_NODELOCAL_ALLNODES_INIT = [0xff, 0x01, 0x00, 0x00, 0x00, 0x00, 0x00, 0x00,
     0x00, 0x00, 0x00, 0x00, 0x00, 0x00, 0x00, 0x01]"

definition IN6ADDR_INTFACELOCAL_ALLNODES_INIT :: in6_addr where
  "IN6ADDR_INTFACELOCAL_ALLNODES_INIT = [0xff, 0x01, 0x00, 0x00, 0x00, 0x00, 0x00, 0x00,
     0x00, 0x00, 0x00, 0x00, 0x00, 0x00, 0x00, 0x01]"

definition IN6ADDR_LINKLOCAL_ALLNODES_INIT :: in6_addr where
  "IN6ADDR_LINKLOCAL_ALLNODES_INIT = [0xff, 0x02, 0x00, 0x00, 0x00, 0x00, 0x00, 0x00,
     0x00, 0x00, 0x00, 0x00, 0x00, 0x00, 0x00, 0x01]"

definition IN6ADDR_LINKLOCAL_ALLROUTERS_INIT :: in6_addr where
  "IN6ADDR_LINKLOCAL_ALLROUTERS_INIT = [0xff, 0x02, 0x00, 0x00, 0x00, 0x00, 0x00, 0x00,
     0x00, 0x00, 0x00, 0x00, 0x00, 0x00, 0x00, 0x02]"

definition IN6ADDR_LINKLOCAL_ALLV2ROUTERS_INIT :: in6_addr where
  "IN6ADDR_LINKLOCAL_ALLV2ROUTERS_INIT = [0xff, 0x02, 0x00, 0x00, 0x00, 0x00, 0x00, 0x00,
     0x00, 0x00, 0x00, 0x00, 0x00, 0x00, 0x00, 0x16]"

text \<open>Constants for comparisons of whole words and half words, on this little-endian machine.\<close>

definition IPV6_ADDR_INT32 :: "(string \<times> u32) list" where
  "IPV6_ADDR_INT32 =
     [(''ONE'', 0x01000000), (''TWO'', 0x02000000), (''MNL'', 0x000001ff), (''MLL'', 0x000002ff),
      (''SMP'', 0xffff0000)]"

definition IPV6_ADDR_INT16 :: "(string \<times> u16) list" where
  "IPV6_ADDR_INT16 = [(''ULL'', 0x80fe), (''USL'', 0xc0fe), (''MLL'', 0x02ff)]"

text \<open>The values of the other branch, for big-endian machines.\<close>

definition IPV6_ADDR_INT32_BE :: "(string \<times> u32) list" where
  "IPV6_ADDR_INT32_BE =
     [(''ONE'', 1), (''TWO'', 2), (''MNL'', 0xff010000), (''MLL'', 0xff020000), (''SMP'', 0x0000ffff)]"

definition IPV6_ADDR_INT16_BE :: "(string \<times> u16) list" where
  "IPV6_ADDR_INT16_BE = [(''ULL'', 0xfe80), (''USL'', 0xfec0), (''MLL'', 0xff02)]"

lemma addr_int_order:
  "IPV6_ADDR_INT32 = map (\<lambda>(x, v). (x, htonl True v)) IPV6_ADDR_INT32_BE"
  "IPV6_ADDR_INT16 = map (\<lambda>(x, v). (x, htons True v)) IPV6_ADDR_INT16_BE"
  by code_simp+

definition IN6_ARE_ADDR_EQUAL :: "in6_addr \<Rightarrow> in6_addr \<Rightarrow> bool" where
  "IN6_ARE_ADDR_EQUAL a b \<longleftrightarrow> take 16 a = take 16 b"

definition IN6_IS_ADDR_UNSPECIFIED :: "in6_addr \<Rightarrow> bool" where [class_defs]:
  "IN6_IS_ADDR_UNSPECIFIED a \<longleftrightarrow>
     s6_addr32 a 0 = 0 \<and> s6_addr32 a 4 = 0 \<and> s6_addr32 a 8 = 0 \<and> s6_addr32 a 12 = 0"

definition IN6_IS_ADDR_LOOPBACK :: "in6_addr \<Rightarrow> bool" where [class_defs]:
  "IN6_IS_ADDR_LOOPBACK a \<longleftrightarrow>
     s6_addr32 a 0 = 0 \<and> s6_addr32 a 4 = 0 \<and> s6_addr32 a 8 = 0 \<and> s6_addr32 a 12 = ntohl True 1"

definition IN6_IS_ADDR_V4COMPAT :: "in6_addr \<Rightarrow> bool" where [class_defs]:
  "IN6_IS_ADDR_V4COMPAT a \<longleftrightarrow>
     s6_addr32 a 0 = 0 \<and> s6_addr32 a 4 = 0 \<and> s6_addr32 a 8 = 0 \<and>
     s6_addr32 a 12 \<noteq> 0 \<and> s6_addr32 a 12 \<noteq> ntohl True 1"

definition IN6_IS_ADDR_V4MAPPED :: "in6_addr \<Rightarrow> bool" where [class_defs]:
  "IN6_IS_ADDR_V4MAPPED a \<longleftrightarrow>
     s6_addr32 a 0 = 0 \<and> s6_addr32 a 4 = 0 \<and> s6_addr32 a 8 = ntohl True 0x0000ffff"

definition IPV6_ADDR_SCOPE :: "(string \<times> u8) list" where
  "IPV6_ADDR_SCOPE =
     [(''NODELOCAL'', 0x01), (''INTFACELOCAL'', 0x01), (''LINKLOCAL'', 0x02), (''SITELOCAL'', 0x05),
      (''ORGLOCAL'', 0x08), (''GLOBAL'', 0x0e)]"

definition IN6_IS_ADDR_LINKLOCAL :: "in6_addr \<Rightarrow> bool" where [class_defs]:
  "IN6_IS_ADDR_LINKLOCAL a \<longleftrightarrow> s6_addr a 0 = 0xfe \<and> s6_addr a 1 AND 0xc0 = 0x80"

definition IN6_IS_ADDR_SITELOCAL :: "in6_addr \<Rightarrow> bool" where [class_defs]:
  "IN6_IS_ADDR_SITELOCAL a \<longleftrightarrow> s6_addr a 0 = 0xfe \<and> s6_addr a 1 AND 0xc0 = 0xc0"

definition IN6_IS_ADDR_MULTICAST :: "in6_addr \<Rightarrow> bool" where [class_defs]:
  "IN6_IS_ADDR_MULTICAST a \<longleftrightarrow> s6_addr a 0 = 0xff"

definition IPV6_ADDR_MC_SCOPE :: "in6_addr \<Rightarrow> u8" where [class_defs]:
  "IPV6_ADDR_MC_SCOPE a = s6_addr a 1 AND 0x0f"

text \<open>The tests for the six scopes, by the name of the scope.\<close>

definition IN6_IS_ADDR_MC :: "string \<Rightarrow> in6_addr \<Rightarrow> bool" where [class_defs]:
  "IN6_IS_ADDR_MC sc a \<longleftrightarrow>
     IN6_IS_ADDR_MULTICAST a \<and> IPV6_ADDR_MC_SCOPE a = the (map_of IPV6_ADDR_SCOPE sc)"

definition IN6_IS_SCOPE_LINKLOCAL :: "in6_addr \<Rightarrow> bool" where [class_defs]:
  "IN6_IS_SCOPE_LINKLOCAL a \<longleftrightarrow> IN6_IS_ADDR_LINKLOCAL a \<or> IN6_IS_ADDR_MC ''LINKLOCAL'' a"

definition IN6_IS_SCOPE_EMBED :: "in6_addr \<Rightarrow> bool" where [class_defs]:
  "IN6_IS_SCOPE_EMBED a \<longleftrightarrow> IN6_IS_ADDR_LINKLOCAL a \<or> IN6_IS_ADDR_MC ''LINKLOCAL'' a \<or>
     IN6_IS_ADDR_MC ''INTFACELOCAL'' a"

text \<open>Lifetimes of an interface's address, in seconds since its last update.\<close>

record in6_ifaddr =
  ia6_updatetime :: u64
  ia6t_pltime :: u32
  ia6t_vltime :: u32

definition ND6_INFINITE_LIFETIME :: u32 where "ND6_INFINITE_LIFETIME = 0xffffffff"

definition IFA6_IS_DEPRECATED :: "u64 \<Rightarrow> in6_ifaddr \<Rightarrow> bool" where
  "IFA6_IS_DEPRECATED time_second a \<longleftrightarrow>
     ia6t_pltime a \<noteq> ND6_INFINITE_LIFETIME \<and>
     (ucast (time_second - ia6_updatetime a) :: u32) > ia6t_pltime a"

definition IFA6_IS_INVALID :: "u64 \<Rightarrow> in6_ifaddr \<Rightarrow> bool" where
  "IFA6_IS_INVALID time_second a \<longleftrightarrow>
     ia6t_vltime a \<noteq> ND6_INFINITE_LIFETIME \<and>
     (ucast (time_second - ia6_updatetime a) :: u32) > ia6t_vltime a"

section \<open>Word tests are byte patterns\<close>

lemma le_word_inject:
  assumes "length bs = 4" and "length cs = 4"
  shows "(le_word bs :: u32) = le_word cs \<longleftrightarrow> bs = cs"
proof
  assume "(le_word bs :: u32) = le_word cs"
  then have "le_bytes 4 (le_word bs :: u32) = le_bytes 4 (le_word cs :: u32)" by (rule arg_cong)
  then show "bs = cs" using assms by simp
qed simp

lemma word_patterns:
  "(0 :: u32) = le_word [0, 0, 0, 0]" "ntohl True 1 = le_word [0, 0, 0, 1]"
  "ntohl True 0xffff = le_word [0, 0, 0xff, 0xff]"
  by code_simp+

lemma addr32_pattern:
  assumes "length a = 16" and "length bs = 4" and "k + 4 \<le> 16"
  shows "s6_addr32 a k = le_word bs \<longleftrightarrow> take 4 (drop k a) = bs"
  using assms by (simp add: s6_addr32_def le_word_inject)

lemma quads:
  assumes "length a = 16"
  shows "a = take 4 (drop 0 a) @ take 4 (drop 4 a) @ take 4 (drop 8 a) @ take 4 (drop 12 a)"
    and "take 12 a = take 4 (drop 0 a) @ take 4 (drop 4 a) @ take 4 (drop 8 a)"
proof -
  have t: "take (4 + n) (drop k a) = take 4 (drop k a) @ take n (drop (k + 4) a)" for n k
    using take_add [of 4 n "drop k a"] by (simp add: add.commute)
  show "take 12 a = take 4 (drop 0 a) @ take 4 (drop 4 a) @ take 4 (drop 8 a)"
    using t [of 8 0] t [of 4 4] by simp
  moreover have "drop 12 a = take 4 (drop 12 a)" using assms by simp
  ultimately show "a = take 4 (drop 0 a) @ take 4 (drop 4 a) @ take 4 (drop 8 a) @ take 4 (drop 12 a)"
    using append_take_drop_id [of 12 a] by (metis append.assoc)
qed

lemma append_eq_quads:
  assumes "length a = 16" and "length p = 4" "length q = 4" "length r = 4"
  shows "length t = 4 \<Longrightarrow> a = p @ q @ r @ t \<longleftrightarrow> take 4 (drop 0 a) = p \<and> take 4 (drop 4 a) = q \<and>
     take 4 (drop 8 a) = r \<and> take 4 (drop 12 a) = t"
    and "take 12 a = p @ q @ r \<longleftrightarrow> take 4 (drop 0 a) = p \<and> take 4 (drop 4 a) = q \<and>
     take 4 (drop 8 a) = r"
  using assms by (subst quads [OF assms(1)], simp)+

lemma in6_patterns:
  assumes "length a = 16"
  shows "IN6_IS_ADDR_UNSPECIFIED a \<longleftrightarrow> a = IN6ADDR_ANY_INIT"
    and "IN6_IS_ADDR_LOOPBACK a \<longleftrightarrow> a = IN6ADDR_LOOPBACK_INIT"
    and "IN6_IS_ADDR_V4MAPPED a \<longleftrightarrow> take 12 a = replicate 10 0 @ [0xff, 0xff]"
    and "IN6_IS_ADDR_V4COMPAT a \<longleftrightarrow>
           take 12 a = replicate 12 0 \<and> a \<noteq> IN6ADDR_ANY_INIT \<and> a \<noteq> IN6ADDR_LOOPBACK_INIT"
proof -
  have z: "(replicate 12 0 :: u8 list) = [0, 0, 0, 0] @ [0, 0, 0, 0] @ [0, 0, 0, 0]"
    "replicate 10 0 @ [0xff, 0xff :: u8] = [0, 0, 0, 0] @ [0, 0, 0, 0] @ [0, 0, 0xff, 0xff]"
    "IN6ADDR_ANY_INIT = [0, 0, 0, 0] @ [0, 0, 0, 0] @ [0, 0, 0, 0] @ [0, 0, 0, 0]"
    "IN6ADDR_LOOPBACK_INIT = [0, 0, 0, 0] @ [0, 0, 0, 0] @ [0, 0, 0, 0] @ [0, 0, 0, 1]"
    by (simp_all add: IN6ADDR_ANY_INIT_def IN6ADDR_LOOPBACK_INIT_def numeral_nat)
  note eqs = append_eq_quads [OF assms, of "[0, 0, 0, 0]" "[0, 0, 0, 0]"]
  have w: "s6_addr32 a k = 0 \<longleftrightarrow> take 4 (drop k a) = [0, 0, 0, 0]"
    "s6_addr32 a k = ntohl True 1 \<longleftrightarrow> take 4 (drop k a) = [0, 0, 0, 1]"
    "s6_addr32 a k = ntohl True 0xffff \<longleftrightarrow> take 4 (drop k a) = [0, 0, 0xff, 0xff]" if "k + 4 \<le> 16" for k
    by (subst word_patterns, rule addr32_pattern; use assms that in simp)+
  show "IN6_IS_ADDR_UNSPECIFIED a \<longleftrightarrow> a = IN6ADDR_ANY_INIT"
    by (simp add: IN6_IS_ADDR_UNSPECIFIED_def w z(3) eqs(1) del: append.simps)
  show "IN6_IS_ADDR_LOOPBACK a \<longleftrightarrow> a = IN6ADDR_LOOPBACK_INIT"
    by (simp add: IN6_IS_ADDR_LOOPBACK_def w z(4) eqs(1) del: append.simps)
  show "IN6_IS_ADDR_V4MAPPED a \<longleftrightarrow> take 12 a = replicate 10 0 @ [0xff, 0xff]"
    by (simp add: IN6_IS_ADDR_V4MAPPED_def w z(2) eqs(2) del: append.simps)
  show "IN6_IS_ADDR_V4COMPAT a \<longleftrightarrow>
      take 12 a = replicate 12 0 \<and> a \<noteq> IN6ADDR_ANY_INIT \<and> a \<noteq> IN6ADDR_LOOPBACK_INIT"
    by (simp add: IN6_IS_ADDR_V4COMPAT_def w z(1,3,4) eqs del: append.simps) blast
qed


text \<open>Unicast scopes are prefixes of ten bits, multicast scopes the low four bits of the second byte.\<close>

definition in6_prefix10 :: "in6_addr \<Rightarrow> nat" where
  "in6_prefix10 a = (unat (a ! 0) * 256 + unat (a ! 1)) div 64"

lemma unat_less_8: "unat (w :: u8) < 256"
  using unsigned_less [where 'a = nat, of w] by simp

lemma prefix10_bytes:
  fixes x y :: nat
  assumes "y < 256"
  shows "(x * 256 + y) div 64 = 0x3fa \<longleftrightarrow> x = 254 \<and> 128 \<le> y \<and> y < 192"
    and "(x * 256 + y) div 64 = 0x3fb \<longleftrightarrow> x = 254 \<and> 192 \<le> y \<and> y < 256"
proof -
  have "(x * 256 + y) div 64 = 4 * x + y div 64"
    using div_mult_self3 [of 64 y "4 * x"] by (simp add: add.commute)
  moreover have "4 * x + q = 0x3fa \<longleftrightarrow> x = 254 \<and> q = 2" "4 * x + q = 0x3fb \<longleftrightarrow> x = 254 \<and> q = 3"
    if "q < 4" for q
    using that by (auto; arith)+
  moreover have "y div 64 < 4" using assms by (simp add: less_mult_imp_div_less)
  moreover have "y div 64 = 2 \<longleftrightarrow> 128 \<le> y \<and> y < 192" "y div 64 = 3 \<longleftrightarrow> 192 \<le> y \<and> y < 256"
    using div_range [of 128 64 y] div_range [of 192 64 y] by simp_all
  ultimately show "(x * 256 + y) div 64 = 0x3fa \<longleftrightarrow> x = 254 \<and> 128 \<le> y \<and> y < 192"
    "(x * 256 + y) div 64 = 0x3fb \<longleftrightarrow> x = 254 \<and> 192 \<le> y \<and> y < 256"
    by simp_all
qed

lemma byte_mask: "(0xc0 :: u8) = NOT (mask 6)"
  by code_simp

lemma in6_scopes:
  "IN6_IS_ADDR_LINKLOCAL a \<longleftrightarrow> in6_prefix10 a = 0x3fa"
  "IN6_IS_ADDR_SITELOCAL a \<longleftrightarrow> in6_prefix10 a = 0x3fb"
proof -
  have num: "a ! 0 = 0xfe \<longleftrightarrow> unat (a ! 0) = 254"
    by (simp add: word_eq_iff_unsigned [where ?'a = nat])
  have "IN6_IS_ADDR_LINKLOCAL a \<longleftrightarrow> unat (a ! 0) = 254 \<and> 128 \<le> unat (a ! 1) \<and> unat (a ! 1) < 192"
    "IN6_IS_ADDR_SITELOCAL a \<longleftrightarrow> unat (a ! 0) = 254 \<and> 192 \<le> unat (a ! 1) \<and> unat (a ! 1) < 256"
    by (simp_all add: class_defs s6_addr_def num byte_mask [THEN masked_range])
  then show "IN6_IS_ADDR_LINKLOCAL a \<longleftrightarrow> in6_prefix10 a = 0x3fa"
    "IN6_IS_ADDR_SITELOCAL a \<longleftrightarrow> in6_prefix10 a = 0x3fb"
    using prefix10_bytes [OF unat_less_8 [of "a ! 1"], of "unat (a ! 0)"] by (simp_all only: in6_prefix10_def)
qed

lemma in6_multicast:
  "IN6_IS_ADDR_MULTICAST a \<longleftrightarrow> unat (a ! 0) = 255"
  "unat (IPV6_ADDR_MC_SCOPE a) = unat (a ! 1) mod 16"
proof -
  show "IN6_IS_ADDR_MULTICAST a \<longleftrightarrow> unat (a ! 0) = 255"
    by (simp add: class_defs s6_addr_def word_eq_iff_unsigned [where ?'a = nat])
  have m: "(0x0f :: u8) = mask 4" by code_simp
  have "IPV6_ADDR_MC_SCOPE a = take_bit 4 (a ! 1)"
    by (simp only: IPV6_ADDR_MC_SCOPE_def s6_addr_def m take_bit_eq_mask)
  then show "unat (IPV6_ADDR_MC_SCOPE a) = unat (a ! 1) mod 16"
    by (simp only: unsigned_take_bit_eq) (simp add: take_bit_eq_mod)
qed

text \<open>A network mask of \<open>n\<close> bytes is \<open>n\<close> bytes of ones; the well-known groups have their scope.\<close>

lemma in6_masks:
  "map (\<lambda>n. replicate n 0xff @ replicate (16 - n) 0) [0, 4, 8, 12, 16] =
     [IN6MASK0, IN6MASK32, IN6MASK64, IN6MASK96, IN6MASK128]"
  by (simp add: IN6MASK0_def IN6MASK32_def IN6MASK64_def IN6MASK96_def IN6MASK128_def numeral_nat)

lemma in6_well_known:
  "IN6_IS_ADDR_MC ''NODELOCAL'' IN6ADDR_NODELOCAL_ALLNODES_INIT"
  "IN6_IS_ADDR_MC ''INTFACELOCAL'' IN6ADDR_INTFACELOCAL_ALLNODES_INIT"
  "list_all (\<lambda>a. IN6_IS_SCOPE_LINKLOCAL a \<and> IN6_IS_SCOPE_EMBED a)
     [IN6ADDR_LINKLOCAL_ALLNODES_INIT, IN6ADDR_LINKLOCAL_ALLROUTERS_INIT, IN6ADDR_LINKLOCAL_ALLV2ROUTERS_INIT]"
  by code_simp+

text \<open>Within 136 years of its last update the age of an address is compared as it is; then the
  32-bit difference starts again at 0.\<close>

lemma ifa6_age:
  assumes "unat (ia6_updatetime a) \<le> unat now"
  shows "IFA6_IS_DEPRECATED now a \<longleftrightarrow> ia6t_pltime a \<noteq> ND6_INFINITE_LIFETIME \<and>
           unat (ia6t_pltime a) < (unat now - unat (ia6_updatetime a)) mod 2 ^ 32"
    and "IFA6_IS_INVALID now a \<longleftrightarrow> ia6t_vltime a \<noteq> ND6_INFINITE_LIFETIME \<and>
           unat (ia6t_vltime a) < (unat now - unat (ia6_updatetime a)) mod 2 ^ 32"
proof -
  have "unat (now - ia6_updatetime a) = unat now - unat (ia6_updatetime a)"
    using assms by (simp add: unat_sub word_le_nat_alt)
  then have "unat (ucast (now - ia6_updatetime a) :: u32) = (unat now - unat (ia6_updatetime a)) mod 2 ^ 32"
    by (simp add: unsigned_ucast_eq take_bit_eq_mod)
  then show "IFA6_IS_DEPRECATED now a \<longleftrightarrow> ia6t_pltime a \<noteq> ND6_INFINITE_LIFETIME \<and>
           unat (ia6t_pltime a) < (unat now - unat (ia6_updatetime a)) mod 2 ^ 32"
    "IFA6_IS_INVALID now a \<longleftrightarrow> ia6t_vltime a \<noteq> ND6_INFINITE_LIFETIME \<and>
           unat (ia6t_vltime a) < (unat now - unat (ia6_updatetime a)) mod 2 ^ 32"
    by (simp_all add: IFA6_IS_DEPRECATED_def IFA6_IS_INVALID_def word_less_nat_alt)
qed

section \<open>Properties\<close>

text \<open>The mask tests of \<^verbatim>\<open>netinet/in.h\<close> are the ranges of addresses of their names, and every
  IPv4 address is in exactly one of the classes A to E.\<close>

lemma ipv4_classes:
  "(IN_CLASSA i \<longleftrightarrow> i \<in> {dotted 0 0 0 0 .. dotted 127 255 255 255})
   \<and> (IN_CLASSB i \<longleftrightarrow> i \<in> {dotted 128 0 0 0 .. dotted 191 255 255 255})
   \<and> (IN_CLASSC i \<longleftrightarrow> i \<in> {dotted 192 0 0 0 .. dotted 223 255 255 255})
   \<and> (IN_MULTICAST i \<longleftrightarrow> i \<in> {dotted 224 0 0 0 .. dotted 239 255 255 255})
   \<and> (IN_BADCLASS i \<longleftrightarrow> i \<in> {dotted 240 0 0 0 .. dotted 255 255 255 255})
   \<and> (IN_LOOPBACK i \<longleftrightarrow> i \<in> {dotted 127 0 0 0 .. dotted 127 255 255 255})
   \<and> (IN_PRIVATE i \<longleftrightarrow> i \<in> {dotted 10 0 0 0 .. dotted 10 255 255 255}
        \<union> {dotted 172 16 0 0 .. dotted 172 31 255 255} \<union> {dotted 192 168 0 0 .. dotted 192 168 255 255})
   \<and> (IN_ANY_LOCAL i \<longleftrightarrow> i \<in> {dotted 169 254 0 0 .. dotted 169 254 255 255}
        \<union> {dotted 224 0 0 0 .. dotted 224 0 0 255})
   \<and> length (filter (\<lambda>c. c i) [IN_CLASSA, IN_CLASSB, IN_CLASSC, IN_CLASSD, IN_EXPERIMENTAL]) = 1"
  using one_class [of i] special_classes(6) [of i]
  by (simp only: class_ranges special_ranges IN_MULTICAST_def IN_ANY_LOCAL_def Un_iff)

text \<open>Of the seven kinds no address is of two: each is told by its bytes.\<close>

lemma in6_kinds_bytes:
  assumes "length a = 16"
  shows "IN6_IS_ADDR_UNSPECIFIED a \<Longrightarrow> s6_addr a 0 = 0 \<and> s6_addr32 a 8 = 0 \<and> s6_addr32 a 12 = 0"
    and "IN6_IS_ADDR_LOOPBACK a \<Longrightarrow> s6_addr a 0 = 0 \<and> s6_addr32 a 8 = 0 \<and> s6_addr32 a 12 = ntohl True 1"
    and "IN6_IS_ADDR_V4COMPAT a \<Longrightarrow> s6_addr a 0 = 0 \<and> s6_addr32 a 8 = 0 \<and>
           s6_addr32 a 12 \<noteq> 0 \<and> s6_addr32 a 12 \<noteq> ntohl True 1"
    and "IN6_IS_ADDR_V4MAPPED a \<Longrightarrow> s6_addr a 0 = 0 \<and> s6_addr32 a 8 = ntohl True 0xffff"
proof -
  have "s6_addr a 0 = 0" if "s6_addr32 a 0 = 0"
    using that addr32_pattern [OF assms, of "[0, 0, 0, 0]" 0] word_patterns(1) assms
    by (cases a) (auto simp: s6_addr_def)
  then show "IN6_IS_ADDR_UNSPECIFIED a \<Longrightarrow> s6_addr a 0 = 0 \<and> s6_addr32 a 8 = 0 \<and> s6_addr32 a 12 = 0"
    "IN6_IS_ADDR_LOOPBACK a \<Longrightarrow> s6_addr a 0 = 0 \<and> s6_addr32 a 8 = 0 \<and> s6_addr32 a 12 = ntohl True 1"
    "IN6_IS_ADDR_V4COMPAT a \<Longrightarrow> s6_addr a 0 = 0 \<and> s6_addr32 a 8 = 0 \<and>
           s6_addr32 a 12 \<noteq> 0 \<and> s6_addr32 a 12 \<noteq> ntohl True 1"
    "IN6_IS_ADDR_V4MAPPED a \<Longrightarrow> s6_addr a 0 = 0 \<and> s6_addr32 a 8 = ntohl True 0xffff"
    unfolding class_defs by blast+
qed

lemma in6_one_kind:
  assumes "length a = 16"
  shows "length (filter (\<lambda>c. c a) [IN6_IS_ADDR_UNSPECIFIED, IN6_IS_ADDR_LOOPBACK, IN6_IS_ADDR_V4COMPAT,
        IN6_IS_ADDR_V4MAPPED, IN6_IS_ADDR_LINKLOCAL, IN6_IS_ADDR_SITELOCAL, IN6_IS_ADDR_MULTICAST]) \<le> 1"
proof -
  have n: "ntohl True 1 \<noteq> 0" "ntohl True 0xffff \<noteq> 0" by code_simp+
  have "s6_addr a 0 = 0xfe" if "IN6_IS_ADDR_LINKLOCAL a \<or> IN6_IS_ADDR_SITELOCAL a"
    using that by (auto simp: class_defs)
  moreover have "s6_addr a 0 = 0xff" if "IN6_IS_ADDR_MULTICAST a" using that by (simp add: class_defs)
  moreover have "\<not> (IN6_IS_ADDR_LINKLOCAL a \<and> IN6_IS_ADDR_SITELOCAL a)" by (simp add: in6_scopes)
  ultimately show ?thesis
    using in6_kinds_bytes [OF assms] n
    by (cases "s6_addr a 0 = 0"; cases "IN6_IS_ADDR_MULTICAST a"; cases "IN6_IS_ADDR_V4MAPPED a") auto
qed

text \<open>The tests of \<^verbatim>\<open>netinet6/in6.h\<close> on words and bytes recognise the addresses of their names:
  the unspecified and the loopback address, the two embeddings of IPv4, the link-local and
  site-local prefixes of ten bits, multicast and its link scope; and no address is of two of the
  seven kinds.\<close>

lemma in6_classes:
  assumes "length a = 16"
  shows "(IN6_IS_ADDR_UNSPECIFIED a \<longleftrightarrow> a = IN6ADDR_ANY_INIT)
   \<and> (IN6_IS_ADDR_LOOPBACK a \<longleftrightarrow> a = IN6ADDR_LOOPBACK_INIT)
   \<and> (IN6_IS_ADDR_V4MAPPED a \<longleftrightarrow> take 12 a = replicate 10 0 @ [0xff, 0xff])
   \<and> (IN6_IS_ADDR_V4COMPAT a \<longleftrightarrow>
        take 12 a = replicate 12 0 \<and> a \<noteq> IN6ADDR_ANY_INIT \<and> a \<noteq> IN6ADDR_LOOPBACK_INIT)
   \<and> (IN6_IS_ADDR_LINKLOCAL a \<longleftrightarrow> in6_prefix10 a = 0x3fa)
   \<and> (IN6_IS_ADDR_SITELOCAL a \<longleftrightarrow> in6_prefix10 a = 0x3fb)
   \<and> (IN6_IS_SCOPE_LINKLOCAL a \<longleftrightarrow>
        in6_prefix10 a = 0x3fa \<or> unat (a ! 0) = 255 \<and> unat (a ! 1) mod 16 = 2)
   \<and> length (filter (\<lambda>c. c a) [IN6_IS_ADDR_UNSPECIFIED, IN6_IS_ADDR_LOOPBACK, IN6_IS_ADDR_V4COMPAT,
        IN6_IS_ADDR_V4MAPPED, IN6_IS_ADDR_LINKLOCAL, IN6_IS_ADDR_SITELOCAL, IN6_IS_ADDR_MULTICAST]) \<le> 1"
  using in6_patterns [OF assms] in6_scopes [of a] in6_one_kind [OF assms] in6_multicast [of a]
  by (simp only: IN6_IS_SCOPE_LINKLOCAL_def IN6_IS_ADDR_MC_def)
    (simp add: IPV6_ADDR_SCOPE_def word_eq_iff_unsigned [where ?'a = nat])

lemma in6_classes_witness:
  "IN6_IS_ADDR_LINKLOCAL [0xfe, 0x80, 0, 0, 0, 0, 0, 0, 0, 0, 0, 0, 0, 0, 0, 1] \<and> \<not> IN6_IS_ADDR_V4MAPPED [0xfe, 0x80, 0, 0, 0, 0, 0, 0, 0, 0, 0, 0, 0, 0, 0, 1]"
proof -
  let ?a = "[0xfe, 0x80, 0, 0, 0, 0, 0, 0, 0, 0, 0, 0, 0, 0, 0, 1] :: in6_addr"
  have l: "length ?a = 16" by simp
  have "in6_prefix10 ?a = 0x3fa" by (simp add: in6_prefix10_def)
  moreover have "hd (take 12 ?a) \<noteq> hd (replicate 10 0 @ [0xff, 0xff])" by simp
  then have "take 12 ?a \<noteq> replicate 10 0 @ [0xff, 0xff]" by (rule contrapos_nn) (rule arg_cong)
  ultimately show ?thesis using in6_classes [OF l] by blast
qed

end
