(* ===== verification/Thread_State.thy ===== *)
theory Thread_State
  imports Kernel_Numbers
begin

text \<open>
  The thread and process macros of \<^verbatim>\<open>sys/proc.h\<close> that change state: the inhibitors of a
  thread and its scheduling state, the private flags that a kernel routine sets and
  restores, the hold count of a process; and the lookup of an open file of
  \<^verbatim>\<open>sys/filedesc.h\<close>.
\<close>

section \<open>Thread states and inhibitors\<close>

datatype td_state = TDS_INACTIVE | TDS_INHIBITED | TDS_CAN_RUN | TDS_RUNQ | TDS_RUNNING

record thread =
  td_state :: td_state
  td_inhibitors :: u32
  td_flags :: u32
  td_pflags :: u32
  td_wchan :: u64

definition TDI :: "string \<Rightarrow> u32" where
  "TDI x = word_of_int (number tdi_flags x)"

definition TDF :: "string \<Rightarrow> u32" where
  "TDF x = word_of_int (number tdf_flags x)"

definition TD_IS_SLEEPING :: "thread \<Rightarrow> bool" where
  "TD_IS_SLEEPING td = (td_inhibitors td AND TDI ''TDI_SLEEPING'' \<noteq> 0)"

definition TD_ON_SLEEPQ :: "thread \<Rightarrow> bool" where
  "TD_ON_SLEEPQ td = (td_wchan td \<noteq> 0)"

definition TD_IS_SUSPENDED :: "thread \<Rightarrow> bool" where
  "TD_IS_SUSPENDED td = (td_inhibitors td AND TDI ''TDI_SUSPENDED'' \<noteq> 0)"

definition TD_IS_SWAPPED :: "thread \<Rightarrow> bool" where
  "TD_IS_SWAPPED td = (td_inhibitors td AND TDI ''TDI_SWAPPED'' \<noteq> 0)"

definition TD_ON_LOCK :: "thread \<Rightarrow> bool" where
  "TD_ON_LOCK td = (td_inhibitors td AND TDI ''TDI_LOCK'' \<noteq> 0)"

definition TD_AWAITING_INTR :: "thread \<Rightarrow> bool" where
  "TD_AWAITING_INTR td = (td_inhibitors td AND TDI ''TDI_IWAIT'' \<noteq> 0)"

definition TD_IS_RUNNING :: "thread \<Rightarrow> bool" where
  "TD_IS_RUNNING td = (td_state td = TDS_RUNNING)"

definition TD_ON_RUNQ :: "thread \<Rightarrow> bool" where
  "TD_ON_RUNQ td = (td_state td = TDS_RUNQ)"

definition TD_CAN_RUN :: "thread \<Rightarrow> bool" where
  "TD_CAN_RUN td = (td_state td = TDS_CAN_RUN)"

definition TD_IS_INHIBITED :: "thread \<Rightarrow> bool" where
  "TD_IS_INHIBITED td = (td_state td = TDS_INHIBITED)"

definition TD_ON_UPILOCK :: "thread \<Rightarrow> bool" where
  "TD_ON_UPILOCK td = (td_flags td AND TDF ''TDF_UPIBLOCKED'' \<noteq> 0)"

definition TD_IS_IDLETHREAD :: "thread \<Rightarrow> bool" where
  "TD_IS_IDLETHREAD td = (td_flags td AND TDF ''TDF_IDLETD'' \<noteq> 0)"

definition TD_SET_INHIB :: "u32 \<Rightarrow> thread \<Rightarrow> thread" where
  "TD_SET_INHIB inhib td =
     (let td = td\<lparr>td_state := TDS_INHIBITED\<rparr>
      in td\<lparr>td_inhibitors := td_inhibitors td OR inhib\<rparr>)"

text \<open>The assignment in the second operand of \<^verbatim>\<open>&&\<close> is made only when the first holds.\<close>

definition TD_CLR_INHIB :: "u32 \<Rightarrow> thread \<Rightarrow> thread" where
  "TD_CLR_INHIB inhib td =
     (if td_inhibitors td AND inhib \<noteq> 0
      then (let td = td\<lparr>td_inhibitors := td_inhibitors td AND NOT inhib\<rparr>
            in if td_inhibitors td = 0 then td\<lparr>td_state := TDS_CAN_RUN\<rparr> else td)
      else td)"

definition TD_SET_RUNNING :: "thread \<Rightarrow> thread" where
  "TD_SET_RUNNING td = td\<lparr>td_state := TDS_RUNNING\<rparr>"

definition TD_SET_RUNQ :: "thread \<Rightarrow> thread" where
  "TD_SET_RUNQ td = td\<lparr>td_state := TDS_RUNQ\<rparr>"

definition TD_SET_CAN_RUN :: "thread \<Rightarrow> thread" where
  "TD_SET_CAN_RUN td = td\<lparr>td_state := TDS_CAN_RUN\<rparr>"

text \<open>The macros of the five reasons are the two general ones at its flag.\<close>

definition inhibitors :: "string list" where
  "inhibitors = [''TDI_SLEEPING'', ''TDI_SWAPPED'', ''TDI_LOCK'', ''TDI_SUSPENDED'', ''TDI_IWAIT'']"

definition TD_SET :: "string \<Rightarrow> thread \<Rightarrow> thread" where
  "TD_SET x = TD_SET_INHIB (TDI x)"

definition TD_CLR :: "string \<Rightarrow> thread \<Rightarrow> thread" where
  "TD_CLR x = TD_CLR_INHIB (TDI x)"

text \<open>
  A thread's life: reasons come and go in any order; only a thread that can run is put
  on a run queue or runs, and one that runs may be put back.
\<close>

inductive td_step :: "thread \<Rightarrow> thread \<Rightarrow> bool" where
  set: "x \<in> set inhibitors \<Longrightarrow> td_step td (TD_SET x td)"
| clr: "x \<in> set inhibitors \<Longrightarrow> td_step td (TD_CLR x td)"
| runq: "TD_CAN_RUN td \<or> TD_IS_RUNNING td \<Longrightarrow> td_step td (TD_SET_RUNQ td)"
| run: "TD_CAN_RUN td \<or> TD_ON_RUNQ td \<Longrightarrow> td_step td (TD_SET_RUNNING td)"
| can_run: "TD_IS_RUNNING td \<or> TD_ON_RUNQ td \<Longrightarrow> td_step td (TD_SET_CAN_RUN td)"

definition td_ok :: "thread \<Rightarrow> bool" where
  "td_ok td \<longleftrightarrow> (TD_IS_INHIBITED td \<longleftrightarrow> td_inhibitors td \<noteq> 0)"

lemma TDI_values:
  "TDI ''TDI_SUSPENDED'' = 1" "TDI ''TDI_SLEEPING'' = 2" "TDI ''TDI_SWAPPED'' = 4"
  "TDI ''TDI_LOCK'' = 8" "TDI ''TDI_IWAIT'' = 16"
  by (simp_all add: TDI_def number_def tdi_flags_def)

lemma TDI_nonzero: "x \<in> set inhibitors \<Longrightarrow> TDI x \<noteq> 0"
  by (auto simp: inhibitors_def TDI_values)

lemma or_nonzero: "b \<noteq> 0 \<Longrightarrow> a OR b \<noteq> (0 :: u32)"
proof
  assume "b \<noteq> 0" "a OR b = 0"
  then show False by (metis bit_eq_iff bit_or_iff bit_0_eq bot_apply bot_bool_def)
qed

lemma td_ok_step: "td_step td td' \<Longrightarrow> td_ok td \<Longrightarrow> td_ok td'"
proof (induction rule: td_step.induct)
  case (set x td)
  then show ?case
    by (simp add: td_ok_def TD_SET_def TD_SET_INHIB_def TD_IS_INHIBITED_def Let_def or_nonzero TDI_nonzero)
next
  case (clr x td)
  then show ?case
    by (auto simp: td_ok_def TD_CLR_def TD_CLR_INHIB_def TD_IS_INHIBITED_def Let_def)
qed (auto simp: td_ok_def TD_IS_INHIBITED_def TD_SET_RUNQ_def TD_SET_RUNNING_def TD_SET_CAN_RUN_def
       TD_CAN_RUN_def TD_IS_RUNNING_def TD_ON_RUNQ_def)

lemma td_ok_reachable: "td_step\<^sup>*\<^sup>* td td' \<Longrightarrow> td_ok td \<Longrightarrow> td_ok td'"
  by (induction rule: rtranclp_induct) (auto intro: td_ok_step)

text \<open>However the reasons to wait come and go, a thread is inhibited exactly while one of
  them is left, so a thread that runs, or waits for a processor, is neither asleep nor
  suspended nor swapped out nor blocked on a lock nor waiting for an interrupt.\<close>
lemma running_not_inhibited:
  assumes "td_step\<^sup>*\<^sup>* td td'" and "td_inhibitors td = 0" and "\<not> TD_IS_INHIBITED td"
  shows "(TD_IS_INHIBITED td' \<longleftrightarrow> td_inhibitors td' \<noteq> 0) \<and>
     \<not> ((TD_IS_RUNNING td' \<or> TD_ON_RUNQ td' \<or> TD_CAN_RUN td') \<and>
        (TD_IS_SLEEPING td' \<or> TD_IS_SUSPENDED td' \<or> TD_IS_SWAPPED td' \<or> TD_ON_LOCK td' \<or>
         TD_AWAITING_INTR td'))"
proof -
  have "td_ok td'" using td_ok_reachable [OF assms(1)] assms(2,3) by (simp add: td_ok_def)
  then show ?thesis
    by (auto simp: td_ok_def TD_IS_INHIBITED_def TD_IS_RUNNING_def TD_ON_RUNQ_def TD_CAN_RUN_def
        TD_IS_SLEEPING_def TD_IS_SUSPENDED_def TD_IS_SWAPPED_def TD_ON_LOCK_def TD_AWAITING_INTR_def)
qed

definition demo_thread :: thread where
  "demo_thread = \<lparr>td_state = TDS_RUNNING, td_inhibitors = 0, td_flags = 0, td_pflags = 0, td_wchan = 0\<rparr>"

text \<open>A thread that goes to sleep, is suspended meanwhile and wakes up stays inhibited.\<close>

lemma running_not_inhibited_witness:
  "TD_IS_INHIBITED (TD_CLR ''TDI_SLEEPING'' (TD_SET ''TDI_SUSPENDED'' (TD_SET ''TDI_SLEEPING'' demo_thread)))"
proof -
  let ?a = "TD_SET ''TDI_SLEEPING'' demo_thread"
  let ?b = "TD_SET ''TDI_SUSPENDED'' ?a"
  let ?c = "TD_CLR ''TDI_SLEEPING'' ?b"
  have "td_step demo_thread ?a" "td_step ?a ?b" "td_step ?b ?c"
    by (auto simp: inhibitors_def intro: td_step.intros)
  then have "td_step\<^sup>*\<^sup>* demo_thread ?c"
    by (meson rtranclp.rtrancl_into_rtrancl rtranclp.rtrancl_refl)
  moreover have "td_inhibitors ?c \<noteq> 0"
    by (simp add: demo_thread_def TD_SET_def TD_CLR_def TD_SET_INHIB_def TD_CLR_INHIB_def TDI_values)
  ultimately show ?thesis
    using running_not_inhibited [of demo_thread ?c] by (simp add: demo_thread_def TD_IS_INHIBITED_def)
qed

section \<open>Private flags\<close>

text \<open>\<open>curthread_pflags_set\<close> gives the value to restore, with the thread.\<close>

definition curthread_pflags_set :: "u32 \<Rightarrow> thread \<Rightarrow> u32 \<times> thread" where
  "curthread_pflags_set flags td =
     (let save = NOT flags OR (td_pflags td AND flags)
      in (save, td\<lparr>td_pflags := td_pflags td OR flags\<rparr>))"

definition curthread_pflags_restore :: "u32 \<Rightarrow> thread \<Rightarrow> thread" where
  "curthread_pflags_restore save td = td\<lparr>td_pflags := td_pflags td AND save\<rparr>"

lemma pflags_nest:
  assumes "curthread_pflags_set flags td = (save, td1)"
    and "td_pflags td2 AND flags = flags"
  shows "td_pflags (curthread_pflags_restore save td2) AND flags = td_pflags td AND flags"
    and "td_pflags (curthread_pflags_restore save td2) AND NOT flags = td_pflags td2 AND NOT flags"
proof -
  have f: "bit flags n \<Longrightarrow> bit (td_pflags td2) n" for n
    using arg_cong [OF assms(2), of "\<lambda>w. bit w n"] by (auto simp: bit_and_iff)
  have s: "save = NOT flags OR (td_pflags td AND flags)"
    using assms(1) by (simp add: curthread_pflags_set_def Let_def)
  show "td_pflags (curthread_pflags_restore save td2) AND flags = td_pflags td AND flags"
    "td_pflags (curthread_pflags_restore save td2) AND NOT flags = td_pflags td2 AND NOT flags"
    unfolding s curthread_pflags_restore_def
    by (auto intro!: bit_word_eqI simp: bit_simps f)
qed

section \<open>Holding a process\<close>

record proc =
  p_flag :: u32
  p_lock :: u32

datatype event = Faultin | Wakeup

definition P :: "string \<Rightarrow> u32" where
  "P x = word_of_int (number p_flags x)"

text \<open>\<open>_PHOLD\<close> and \<open>_PRELE\<close>, under the process lock; the second component is what they call.\<close>

definition PHOLD :: "proc \<Rightarrow> proc \<times> event list" where
  "PHOLD p =
     (let p = p\<lparr>p_lock := p_lock p + 1\<rparr>
      in (p, if p_flag p AND P ''P_INMEM'' = 0 then [Faultin] else []))"

definition PRELE :: "proc \<Rightarrow> proc \<times> event list" where
  "PRELE p =
     (let p = p\<lparr>p_lock := p_lock p - 1\<rparr>
      in (p, if p_flag p AND P ''P_WEXIT'' \<noteq> 0 \<and> p_lock p = 0 then [Wakeup] else []))"

lemma PRELE_PHOLD: "fst (PRELE (fst (PHOLD p))) = p"
  by (simp add: PRELE_def PHOLD_def Let_def)

text \<open>An exiting process is woken when its last holder leaves.\<close>

lemma PRELE_wakes:
  "snd (PRELE p) = [Wakeup] \<longleftrightarrow> p_flag p AND P ''P_WEXIT'' \<noteq> 0 \<and> p_lock p = 1"
  by (auto simp: PRELE_def Let_def)

section \<open>Open flags\<close>

definition FFLAGS :: "int \<Rightarrow> int" where "FFLAGS oflags = oflags + 1"
definition OFLAGS :: "int \<Rightarrow> int" where "OFLAGS fflags = fflags - 1"

text \<open>The three access modes become independent read and write bits.\<close>

lemma FFLAGS_modes:
  "FFLAGS (number open_flags ''O_RDONLY'') = number open_flags ''FREAD''"
  "FFLAGS (number open_flags ''O_WRONLY'') = number open_flags ''FWRITE''"
  "FFLAGS (number open_flags ''O_RDWR'') = number open_flags ''FREAD'' + number open_flags ''FWRITE''"
  "OFLAGS (FFLAGS x) = x"
  by (simp_all add: FFLAGS_def OFLAGS_def number_def open_flags_def)

section \<open>Descriptors\<close>

record filedesc =
  fd_nfiles :: int
  fd_ofiles :: "u64 list"

definition fget_locked :: "filedesc \<Rightarrow> int \<Rightarrow> u64 option" where
  "fget_locked fdp fd =
     (if fd < 0 \<or> fd \<ge> fd_nfiles fdp then Some 0
      else if nat fd < length (fd_ofiles fdp) then Some (fd_ofiles fdp ! nat fd) else None)"

lemma fget_locked_defined: "fd_nfiles fdp \<le> int (length (fd_ofiles fdp)) \<Longrightarrow> fget_locked fdp fd \<noteq> None"
  by (auto simp: fget_locked_def)

end
