(* ===== verification/Sys_Time.thy ===== *)
theory Sys_Time
  imports DPI_Prelude
begin

text \<open>
  Time arithmetic of \<^verbatim>\<open>sys/time.h\<close>: binary times of 64 bits of seconds and 64 bits of
  fraction, and the timevals and timespecs of the system calls. All members are 64-bit
  words; seconds, microseconds and nanoseconds are read as signed (\<^const>\<open>sint\<close>), where
  a signed overflow, undefined in C, wraps.
\<close>

record bintime =
  bt_sec :: u64
  bt_frac :: u64

record timespec =
  ts_sec :: u64
  ts_nsec :: u64

record timeval =
  tv_sec :: u64
  tv_usec :: u64

section \<open>Binary time\<close>

definition bintime_addx :: "bintime \<Rightarrow> u64 \<Rightarrow> bintime" where
  "bintime_addx bt x =
     (let u = bt_frac bt; bt = bt\<lparr>bt_frac := bt_frac bt + x\<rparr>
      in if u > bt_frac bt then bt\<lparr>bt_sec := bt_sec bt + 1\<rparr> else bt)"

definition bintime_add :: "bintime \<Rightarrow> bintime \<Rightarrow> bintime" where
  "bintime_add bt bt2 =
     (let u = bt_frac bt; bt = bt\<lparr>bt_frac := bt_frac bt + bt_frac bt2\<rparr>;
          bt = (if u > bt_frac bt then bt\<lparr>bt_sec := bt_sec bt + 1\<rparr> else bt)
      in bt\<lparr>bt_sec := bt_sec bt + bt_sec bt2\<rparr>)"

definition bintime_sub :: "bintime \<Rightarrow> bintime \<Rightarrow> bintime" where
  "bintime_sub bt bt2 =
     (let u = bt_frac bt; bt = bt\<lparr>bt_frac := bt_frac bt - bt_frac bt2\<rparr>;
          bt = (if u < bt_frac bt then bt\<lparr>bt_sec := bt_sec bt - 1\<rparr> else bt)
      in bt\<lparr>bt_sec := bt_sec bt - bt_sec bt2\<rparr>)"

definition bintime_mul :: "bintime \<Rightarrow> u32 \<Rightarrow> bintime" where
  "bintime_mul bt x =
     (let p1 = (bt_frac bt AND 0xffffffff) * ucast x;
          p2 = drop_bit 32 (bt_frac bt) * ucast x + drop_bit 32 p1;
          bt = bt\<lparr>bt_sec := bt_sec bt * ucast x\<rparr>;
          bt = bt\<lparr>bt_sec := bt_sec bt + drop_bit 32 p2\<rparr>
      in bt\<lparr>bt_frac := push_bit 32 p2 OR (p1 AND 0xffffffff)\<rparr>)"

definition bintime_clear :: "bintime \<Rightarrow> bintime" where
  "bintime_clear a = a\<lparr>bt_frac := 0, bt_sec := 0\<rparr>"

definition bintime_isset :: "bintime \<Rightarrow> bool" where
  "bintime_isset a = (bt_sec a \<noteq> 0 \<or> bt_frac a \<noteq> 0)"

text \<open>The operator \<open>cmp\<close> of the macro, at the signed type of the seconds and the unsigned
  one of the fraction.\<close>

definition bintime_cmp :: "(u64 \<Rightarrow> u64 \<Rightarrow> bool) \<Rightarrow> (u64 \<Rightarrow> u64 \<Rightarrow> bool) \<Rightarrow> bintime \<Rightarrow> bintime \<Rightarrow> bool" where
  "bintime_cmp cmp_sec cmp_frac a b =
     (if bt_sec a = bt_sec b then cmp_frac (bt_frac a) (bt_frac b) else cmp_sec (bt_sec a) (bt_sec b))"

text \<open>The number a binary time stands for, in units of \<open>2\<^sup>-\<^sup>6\<^sup>4\<close> seconds, modulo \<open>2\<^sup>1\<^sup>2\<^sup>8\<close>.\<close>

definition bintime_value :: "bintime \<Rightarrow> nat" where
  "bintime_value bt = unat (bt_sec bt) * 2 ^ 64 + unat (bt_frac bt)"

lemma low_word: "unat (w AND 0xffffffff :: u64) = unat w mod 2 ^ 32"
proof -
  have "(0xffffffff :: u64) = mask 32" by (simp add: mask_eq_exp_minus_1)
  then have "w AND 0xffffffff = w mod 2 ^ 32" by (simp only: take_bit_eq_mask [symmetric] take_bit_eq_mod)
  then show ?thesis by (simp add: unat_mod)
qed

lemma high_word: "unat (drop_bit 32 w :: u64) = unat w div 2 ^ 32"
  by (simp add: drop_bit_eq_div unat_div)

lemma unat_add64: "unat (a + b :: u64) = (unat a + unat b) mod 2 ^ 64"
  by (simp add: unat_word_ariths)

lemma unat_mul64: "unat (a * b :: u64) = (unat a * unat b) mod 2 ^ 64"
  by (simp add: unat_word_ariths)

text \<open>Only the low 64 bits of the seconds count.\<close>

lemma sec_mod: "((s mod 2 ^ 64) * 2 ^ 64 + f) mod 2 ^ 128 = (s * 2 ^ 64 + f) mod (2 ^ 128 :: nat)"
proof -
  have "(s mod 2 ^ 64) * 2 ^ 64 = (s * 2 ^ 64) mod (2 ^ 64 * 2 ^ 64 :: nat)"
    by (simp only: mult_mod_left)
  then have "(s mod 2 ^ 64) * 2 ^ 64 = (s * 2 ^ 64) mod (2 ^ 128 :: nat)" by simp
  then show ?thesis by (simp only: mod_add_left_eq)
qed

lemma carry_iff: "(a :: u64) > a + b \<longleftrightarrow> 2 ^ 64 \<le> unat a + unat b"
  using unat_less_64 [of a] unat_less_64 [of b]
  by (auto simp: word_less_nat_alt unat_add64 mod_if)

lemma frac_add: "unat (a :: u64) + unat b = unat (a + b) + (if a > a + b then 2 ^ 64 else 0)"
proof (cases "unat a + unat b < 2 ^ 64")
  case True
  then show ?thesis by (simp only: carry_iff unat_add64) simp
next
  case False
  then have "(unat a + unat b) mod 2 ^ 64 = unat a + unat b - 2 ^ 64"
    using unat_less_64 [of a] unat_less_64 [of b] by (simp add: le_mod_geq)
  then show ?thesis using False by (simp only: carry_iff unat_add64) simp
qed

lemma bintime_add_value:
  "bintime_value (bintime_add a b) mod 2 ^ 128 = (bintime_value a + bintime_value b) mod 2 ^ 128"
proof -
  let ?c = "if bt_frac a > bt_frac a + bt_frac b then 1 else 0 :: nat"
  have "unat (bt_sec (bintime_add a b)) = (unat (bt_sec a) + ?c + unat (bt_sec b)) mod 2 ^ 64"
    by (simp add: bintime_add_def Let_def unat_add64 mod_simps)
  moreover have "bt_frac (bintime_add a b) = bt_frac a + bt_frac b"
    by (simp add: bintime_add_def Let_def)
  ultimately have "bintime_value (bintime_add a b) mod 2 ^ 128 =
      ((unat (bt_sec a) + ?c + unat (bt_sec b)) * 2 ^ 64 + unat (bt_frac a + bt_frac b)) mod 2 ^ 128"
    by (simp only: bintime_value_def sec_mod)
  also have "(unat (bt_sec a) + ?c + unat (bt_sec b)) * 2 ^ 64 + unat (bt_frac a + bt_frac b) =
      bintime_value a + bintime_value b"
    using frac_add [of "bt_frac a" "bt_frac b"] by (simp add: bintime_value_def algebra_simps)
  finally show ?thesis .
qed


lemma bintime_addx_value:
  "bintime_value (bintime_addx a x) mod 2 ^ 128 = (bintime_value a + unat x) mod 2 ^ 128"
  using bintime_add_value [of a "\<lparr>bt_sec = 0, bt_frac = x\<rparr>"]
  by (simp add: bintime_add_def bintime_addx_def Let_def bintime_value_def)

text \<open>Subtraction undoes addition, hence is subtraction of the values.\<close>

lemma bintime_add_sub: "bintime_add (bintime_sub a b) b = a"
  by (cases a; cases b) (auto simp: bintime_add_def bintime_sub_def Let_def algebra_simps word_less_nat_alt)

lemma bintime_sub_value:
  "(bintime_value (bintime_sub a b) + bintime_value b) mod 2 ^ 128 = bintime_value a mod 2 ^ 128"
  using bintime_add_value [of "bintime_sub a b" b] by (simp add: bintime_add_sub)

lemma bintime_mul_value:
  "bintime_value (bintime_mul a x) mod 2 ^ 128 = (bintime_value a * unat x) mod 2 ^ 128"
proof -
  let ?f = "unat (bt_frac a)" and ?x = "unat x"
  let ?l = "?f mod 2 ^ 32" and ?h = "?f div 2 ^ 32"
  have x: "?x < 2 ^ 32" by (rule unat_less_32)
  have h: "?h < 2 ^ 32" using unat_less_64 [of "bt_frac a"] by (simp add: div_less_iff_less_mult)
  have l: "?l < 2 ^ 32" by simp
  define p1 where "p1 = (bt_frac a AND 0xffffffff) * ucast x"
  define p2 where "p2 = drop_bit 32 (bt_frac a) * ucast x + drop_bit 32 p1"
  have "?x < 2 ^ 64" using x by simp
  then have ux: "unat (ucast x :: u64) = ?x" by (simp add: unsigned_ucast_eq take_bit_nat_eq_self)
  have lx: "?l * ?x \<le> (2 ^ 32 - 1) * (2 ^ 32 - 1)" by (intro mult_le_mono) (use l x in linarith)+
  then have 1: "unat p1 = ?l * ?x" by (simp add: p1_def unat_mul64 low_word ux)
  have hx: "?h * ?x \<le> (2 ^ 32 - 1) * (2 ^ 32 - 1)" by (intro mult_le_mono) (use h x in linarith)+
  have q: "unat p1 div 2 ^ 32 < 2 ^ 32" using unat_less_64 [of p1] by (simp add: div_less_iff_less_mult)
  have 2: "unat p2 = ?h * ?x + unat p1 div 2 ^ 32"
    using hx q by (simp add: p2_def unat_add64 unat_mul64 high_word ux)
  have prod: "?f * ?x = unat p2 * 2 ^ 32 + unat p1 mod 2 ^ 32"
  proof -
    have "?f * ?x = (?h * 2 ^ 32 + ?l) * ?x" by (simp only: div_mult_mod_eq)
    also have "\<dots> = ?h * ?x * 2 ^ 32 + unat p1" unfolding 1 by (simp only: add_mult_distrib add_mult_distrib2 ac_simps)
    also have "unat p1 = unat p1 div 2 ^ 32 * 2 ^ 32 + unat p1 mod 2 ^ 32" by simp
    finally show ?thesis by (simp add: 2 algebra_simps)
  qed
  have sec: "unat (bt_sec (bintime_mul a x)) = (unat (bt_sec a) * ?x + unat p2 div 2 ^ 32) mod 2 ^ 64"
    by (simp add: bintime_mul_def Let_def p1_def [symmetric] p2_def [symmetric] unat_add64 unat_mul64
        high_word ux mod_simps)
  have frac: "unat (bt_frac (bintime_mul a x)) = unat p2 mod 2 ^ 32 * 2 ^ 32 + unat p1 mod 2 ^ 32"
  proof -
    have m: "(0xffffffff :: u64) = mask 32" by (simp add: mask_eq_exp_minus_1)
    have o: "push_bit 32 p2 OR (p1 AND 0xffffffff) = push_bit 32 p2 + (p1 AND 0xffffffff)"
      unfolding m by (rule disjunctive_add [symmetric]) (auto simp: bit_simps)
    have u: "unat (push_bit 32 p2) = unat p2 mod 2 ^ 32 * 2 ^ 32"
    proof -
      have "unat (push_bit 32 p2) = unat p2 * 2 ^ 32 mod (2 ^ 32 * 2 ^ 32)"
        by (simp add: push_bit_eq_mult unat_mul64)
      also have "\<dots> = unat p2 mod 2 ^ 32 * 2 ^ 32" by (simp only: mult_mod_left)
      finally show ?thesis .
    qed
    have "unat p2 mod 2 ^ 32 < 2 ^ 32" "unat p1 mod 2 ^ 32 < 2 ^ 32" by (simp_all del: power.simps)
    then have "unat p2 mod 2 ^ 32 * 2 ^ 32 + unat p1 mod 2 ^ 32 < 2 ^ 64" by simp
    then show ?thesis
      by (simp add: bintime_mul_def Let_def p1_def [symmetric] p2_def [symmetric] o unat_add64 u low_word)
  qed
  have "bintime_value (bintime_mul a x) mod 2 ^ 128 =
      ((unat (bt_sec a) * ?x + unat p2 div 2 ^ 32) * 2 ^ 64 + unat (bt_frac (bintime_mul a x))) mod 2 ^ 128"
    by (simp only: bintime_value_def sec sec_mod)
  also have "(unat (bt_sec a) * ?x + unat p2 div 2 ^ 32) * 2 ^ 64 + unat (bt_frac (bintime_mul a x)) =
      bintime_value a * ?x"
  proof -
    have "unat p2 div 2 ^ 32 * 2 ^ 64 + unat p2 mod 2 ^ 32 * 2 ^ 32 = unat p2 * 2 ^ 32"
    proof -
      have "(unat p2 div 2 ^ 32 * 2 ^ 32 + unat p2 mod 2 ^ 32) * 2 ^ 32 = unat p2 * 2 ^ 32"
        by (simp only: div_mult_mod_eq)
      then show ?thesis unfolding add_mult_distrib by simp
    qed
    then show ?thesis using prod by (simp add: bintime_value_def frac algebra_simps)
  qed
  finally show ?thesis .
qed


text \<open>Comparison is that of the numbers, the seconds read as signed.\<close>

lemma seconds_dominate:
  fixes s t f g :: int
  assumes "s < t" and "f < 2 ^ 64" and "0 \<le> g"
  shows "s * 2 ^ 64 + f < t * 2 ^ 64 + g"
proof -
  have "(s + 1) * 2 ^ 64 \<le> t * 2 ^ 64" using assms(1) by (intro mult_right_mono) simp_all
  then show ?thesis using assms(2,3) by (simp add: distrib_right)
qed

lemma bintime_cmp_less:
  "bintime_cmp (<s) (<) a b \<longleftrightarrow>
     sint (bt_sec a) * 2 ^ 64 + uint (bt_frac a) < sint (bt_sec b) * 2 ^ 64 + uint (bt_frac b)"
proof -
  have f: "0 \<le> uint (bt_frac c) \<and> uint (bt_frac c) < 2 ^ 64" for c
    using unsigned_less [where 'a = int, of "bt_frac c"] by simp
  show ?thesis
  proof (cases "bt_sec a = bt_sec b")
    case False
    then have "sint (bt_sec a) < sint (bt_sec b) \<or> sint (bt_sec b) < sint (bt_sec a)"
      by (meson linorder_neqE_linordered_idom signed_word_eqI)
    then show ?thesis
    proof (elim disjE)
      assume s: "sint (bt_sec a) < sint (bt_sec b)"
      have "sint (bt_sec a) * 2 ^ 64 + uint (bt_frac a) < sint (bt_sec b) * 2 ^ 64 + uint (bt_frac b)"
        using f by (intro seconds_dominate [OF s]) simp_all
      then show ?thesis using s by (simp add: bintime_cmp_def False word_sless_alt)
    next
      assume s: "sint (bt_sec b) < sint (bt_sec a)"
      have "sint (bt_sec b) * 2 ^ 64 + uint (bt_frac b) < sint (bt_sec a) * 2 ^ 64 + uint (bt_frac a)"
        using f by (intro seconds_dominate [OF s]) simp_all
      then show ?thesis using s by (simp add: bintime_cmp_def False word_sless_alt)
    qed
  qed (simp add: bintime_cmp_def word_less_def)
qed

section \<open>Conversions\<close>

definition bintime2timespec :: "bintime \<Rightarrow> timespec" where
  "bintime2timespec bt =
     \<lparr>ts_sec = bt_sec bt,
      ts_nsec = drop_bit 32 (1000000000 * ucast (ucast (drop_bit 32 (bt_frac bt)) :: u32))\<rparr>"

definition timespec2bintime :: "timespec \<Rightarrow> bintime" where
  "timespec2bintime ts = \<lparr>bt_sec = ts_sec ts, bt_frac = ts_nsec ts * 18446744073\<rparr>"

definition bintime2timeval :: "bintime \<Rightarrow> timeval" where
  "bintime2timeval bt =
     \<lparr>tv_sec = bt_sec bt,
      tv_usec = drop_bit 32 (1000000 * ucast (ucast (drop_bit 32 (bt_frac bt)) :: u32))\<rparr>"

definition timeval2bintime :: "timeval \<Rightarrow> bintime" where
  "timeval2bintime tv = \<lparr>bt_sec = tv_sec tv, bt_frac = tv_usec tv * 18446744073709\<rparr>"

text \<open>Half of a 64-bit fraction, scaled by at most \<open>2\<^sup>3\<^sup>2\<close>: no product overflows.\<close>

lemma scaled_frac:
  assumes "unat k < 2 ^ 32"
  shows "unat (drop_bit 32 (k * ucast (ucast (drop_bit 32 (f :: u64)) :: u32)) :: u64)
    = unat k * (unat f div 2 ^ 32) div 2 ^ 32"
proof -
  have f: "unat f div 2 ^ 32 < 2 ^ 32"
    using unat_less_64 [of f] by (simp add: div_less_iff_less_mult)
  have "unat (ucast (ucast (drop_bit 32 f) :: u32) :: u64) = take_bit 32 (unat f div 2 ^ 32)"
    by (simp add: unsigned_ucast_eq high_word unsigned_take_bit_eq)
  then have u: "unat (ucast (ucast (drop_bit 32 f) :: u32) :: u64) = unat f div 2 ^ 32"
    using f by (simp add: take_bit_nat_eq_self)
  have "unat k * (unat f div 2 ^ 32) \<le> (2 ^ 32 - 1) * (2 ^ 32 - 1)"
    by (intro mult_le_mono) (use assms f in linarith)+
  then have "unat k * (unat f div 2 ^ 32) < 2 ^ 64" by simp
  then show ?thesis by (simp add: high_word unat_mul64 u)
qed

lemma bintime2timespec_nsec:
  "unat (ts_nsec (bintime2timespec bt)) = 1000000000 * (unat (bt_frac bt) div 2 ^ 32) div 2 ^ 32"
  using scaled_frac [of 1000000000] by (simp add: bintime2timespec_def)

lemma bintime2timeval_usec:
  "unat (tv_usec (bintime2timeval bt)) = 1000000 * (unat (bt_frac bt) div 2 ^ 32) div 2 ^ 32"
  using scaled_frac [of 1000000] by (simp add: bintime2timeval_def)


text \<open>
  A time of day that goes through a binary time comes back unchanged or one unit less:
  the constants are rounded down, and so is the conversion back.
\<close>

lemma scale_bounds:
  fixes q x y n :: nat
  assumes "q * 2 ^ 32 + x + y = n * 2 ^ 64" and "x \<le> 2 ^ 31 * 2 ^ 32" and "y \<le> 2 ^ 31 * 2 ^ 31"
  shows "q \<le> n * 2 ^ 32" and "n * 2 ^ 32 \<le> q + 2 ^ 32"
  using assms by simp_all

lemma frac_scale:
  fixes n r :: nat
  assumes r: "r * c + d = 2 ^ 64" and d: "d < r" and n: "n < r" and big: "r \<le> 2 ^ 31"
  shows "r * (n * c div 2 ^ 32) div 2 ^ 32 \<le> n \<and> n \<le> r * (n * c div 2 ^ 32) div 2 ^ 32 + 1"
proof -
  define q where "q = n * c div 2 ^ 32"
  have nc: "n * c = q * 2 ^ 32 + n * c mod 2 ^ 32" by (simp add: q_def)
  have m: "n * c mod 2 ^ 32 < 2 ^ 32" by simp
  have "r * (n * c) + n * d = n * 2 ^ 64" using r by (metis mult.assoc mult.commute distrib_left)
  moreover have "r * (n * c) = r * q * 2 ^ 32 + r * (n * c mod 2 ^ 32)"
    by (subst nc) (simp only: distrib_left mult.assoc)
  ultimately have e: "r * q * 2 ^ 32 + r * (n * c mod 2 ^ 32) + n * d = n * 2 ^ 64" by linarith
  have "r * (n * c mod 2 ^ 32) \<le> 2 ^ 31 * 2 ^ 32" by (intro mult_le_mono) (use big m in linarith)+
  moreover have "n * d \<le> 2 ^ 31 * 2 ^ 31" by (intro mult_le_mono) (use big n d in linarith)+
  ultimately have "r * q \<le> n * 2 ^ 32" "n * 2 ^ 32 \<le> r * q + 2 ^ 32"
    using scale_bounds [OF e] by blast+
  then have "r * q div 2 ^ 32 \<le> n" "n \<le> (r * q + 2 ^ 32) div 2 ^ 32"
    using div_le_mono [of "r * q" "n * 2 ^ 32" "2 ^ 32"] div_le_mono [of "n * 2 ^ 32" "r * q + 2 ^ 32" "2 ^ 32"]
    by simp_all
  then show ?thesis unfolding q_def [symmetric] by simp
qed

lemma timespec_roundtrip:
  assumes "unat (ts_nsec ts) < 1000000000"
  shows "ts_sec (bintime2timespec (timespec2bintime ts)) = ts_sec ts"
    and "unat (ts_nsec (bintime2timespec (timespec2bintime ts))) \<in> {unat (ts_nsec ts) - 1, unat (ts_nsec ts)}"
proof -
  let ?n = "unat (ts_nsec ts)"
  have "?n * 18446744073 < 2 ^ 64" using assms by simp
  then have "unat (bt_frac (timespec2bintime ts)) = ?n * 18446744073"
    by (simp add: timespec2bintime_def unat_mul64)
  then show "unat (ts_nsec (bintime2timespec (timespec2bintime ts))) \<in> {?n - 1, ?n}"
    using frac_scale [of 1000000000 18446744073 709551616 ?n] assms
    by (simp add: bintime2timespec_nsec) linarith
qed (simp add: bintime2timespec_def timespec2bintime_def)

lemma timeval_roundtrip:
  assumes "unat (tv_usec tv) < 1000000"
  shows "tv_sec (bintime2timeval (timeval2bintime tv)) = tv_sec tv"
    and "unat (tv_usec (bintime2timeval (timeval2bintime tv))) \<in> {unat (tv_usec tv) - 1, unat (tv_usec tv)}"
proof -
  let ?n = "unat (tv_usec tv)"
  have "?n * 18446744073709 < 2 ^ 64" using assms by simp
  then have "unat (bt_frac (timeval2bintime tv)) = ?n * 18446744073709"
    by (simp add: timeval2bintime_def unat_mul64)
  then show "unat (tv_usec (bintime2timeval (timeval2bintime tv))) \<in> {?n - 1, ?n}"
    using frac_scale [of 1000000 18446744073709 551616 ?n] assms
    by (simp add: bintime2timeval_usec) linarith
qed (simp add: bintime2timeval_def timeval2bintime_def)

section \<open>Adding and subtracting times\<close>

definition timespecadd :: "timespec \<Rightarrow> timespec \<Rightarrow> timespec" where
  "timespecadd vvp uvp =
     (let vvp = vvp\<lparr>ts_sec := ts_sec vvp + ts_sec uvp\<rparr>;
          vvp = vvp\<lparr>ts_nsec := ts_nsec vvp + ts_nsec uvp\<rparr>
      in if 1000000000 \<le>s ts_nsec vvp
         then vvp\<lparr>ts_sec := ts_sec vvp + 1, ts_nsec := ts_nsec vvp - 1000000000\<rparr> else vvp)"

definition timespecsub :: "timespec \<Rightarrow> timespec \<Rightarrow> timespec" where
  "timespecsub vvp uvp =
     (let vvp = vvp\<lparr>ts_sec := ts_sec vvp - ts_sec uvp\<rparr>;
          vvp = vvp\<lparr>ts_nsec := ts_nsec vvp - ts_nsec uvp\<rparr>
      in if ts_nsec vvp <s 0
         then vvp\<lparr>ts_sec := ts_sec vvp - 1, ts_nsec := ts_nsec vvp + 1000000000\<rparr> else vvp)"

definition timespeccmp :: "(u64 \<Rightarrow> u64 \<Rightarrow> bool) \<Rightarrow> timespec \<Rightarrow> timespec \<Rightarrow> bool" where
  "timespeccmp cmp tvp uvp =
     (if ts_sec tvp = ts_sec uvp then cmp (ts_nsec tvp) (ts_nsec uvp) else cmp (ts_sec tvp) (ts_sec uvp))"

definition timeradd :: "timeval \<Rightarrow> timeval \<Rightarrow> timeval" where
  "timeradd tvp uvp =
     (let vvp = \<lparr>tv_sec = tv_sec tvp + tv_sec uvp, tv_usec = tv_usec tvp + tv_usec uvp\<rparr>
      in if 1000000 \<le>s tv_usec vvp
         then vvp\<lparr>tv_sec := tv_sec vvp + 1, tv_usec := tv_usec vvp - 1000000\<rparr> else vvp)"

definition timersub :: "timeval \<Rightarrow> timeval \<Rightarrow> timeval" where
  "timersub tvp uvp =
     (let vvp = \<lparr>tv_sec = tv_sec tvp - tv_sec uvp, tv_usec = tv_usec tvp - tv_usec uvp\<rparr>
      in if tv_usec vvp <s 0
         then vvp\<lparr>tv_sec := tv_sec vvp - 1, tv_usec := tv_usec vvp + 1000000\<rparr> else vvp)"

definition timercmp :: "(u64 \<Rightarrow> u64 \<Rightarrow> bool) \<Rightarrow> timeval \<Rightarrow> timeval \<Rightarrow> bool" where
  "timercmp cmp tvp uvp =
     (if tv_sec tvp = tv_sec uvp then cmp (tv_usec tvp) (tv_usec uvp) else cmp (tv_sec tvp) (tv_sec uvp))"

text \<open>Normalised times: the part below a second is a proper fraction of one.\<close>

definition timespec_ok :: "timespec \<Rightarrow> bool" where
  "timespec_ok ts \<longleftrightarrow> 0 \<le> sint (ts_nsec ts) \<and> sint (ts_nsec ts) < 1000000000"

definition timeval_ok :: "timeval \<Rightarrow> bool" where
  "timeval_ok tv \<longleftrightarrow> 0 \<le> sint (tv_usec tv) \<and> sint (tv_usec tv) < 1000000"

definition timespec_value :: "timespec \<Rightarrow> int" where
  "timespec_value ts = sint (ts_sec ts) * 1000000000 + sint (ts_nsec ts)"

definition timeval_value :: "timeval \<Rightarrow> int" where
  "timeval_value tv = sint (tv_sec tv) * 1000000 + sint (tv_usec tv)"

lemma sint_add64:
  "- (2 ^ 63) \<le> sint a + sint b \<Longrightarrow> sint a + sint b < 2 ^ 63 \<Longrightarrow> sint (a + b :: u64) = sint a + sint b"
  by (simp add: sint_word_ariths signed_take_bit_int_eq_self)

lemma sint_sub64:
  "- (2 ^ 63) \<le> sint a - sint b \<Longrightarrow> sint a - sint b < 2 ^ 63 \<Longrightarrow> sint (a - b :: u64) = sint a - sint b"
  by (simp add: sint_word_ariths signed_take_bit_int_eq_self)

text \<open>Seconds that leave room for a sum and a carry.\<close>

definition secs_ok :: "u64 \<Rightarrow> bool" where
  "secs_ok s \<longleftrightarrow> - (2 ^ 62) < sint s \<and> sint s < 2 ^ 62 - 1"

lemma timeradd_value:
  assumes "timeval_ok a" and "timeval_ok b" and "secs_ok (tv_sec a)" and "secs_ok (tv_sec b)"
  shows "timeval_ok (timeradd a b) \<and> timeval_value (timeradd a b) = timeval_value a + timeval_value b"
  using assms
  by (simp add: timeradd_def Let_def timeval_ok_def timeval_value_def secs_ok_def word_sle_eq
      sint_add64 sint_sub64)

lemma timersub_value:
  assumes "timeval_ok a" and "timeval_ok b" and "secs_ok (tv_sec a)" and "secs_ok (tv_sec b)"
  shows "timeval_ok (timersub a b) \<and> timeval_value (timersub a b) = timeval_value a - timeval_value b"
  using assms
  by (simp add: timersub_def Let_def timeval_ok_def timeval_value_def secs_ok_def word_sless_alt
      sint_add64 sint_sub64)

lemma timespecadd_value:
  assumes "timespec_ok a" and "timespec_ok b" and "secs_ok (ts_sec a)" and "secs_ok (ts_sec b)"
  shows "timespec_ok (timespecadd a b) \<and> timespec_value (timespecadd a b) = timespec_value a + timespec_value b"
  using assms
  by (simp add: timespecadd_def Let_def timespec_ok_def timespec_value_def secs_ok_def word_sle_eq
      sint_add64 sint_sub64)

lemma timespecsub_value:
  assumes "timespec_ok a" and "timespec_ok b" and "secs_ok (ts_sec a)" and "secs_ok (ts_sec b)"
  shows "timespec_ok (timespecsub a b) \<and> timespec_value (timespecsub a b) = timespec_value a - timespec_value b"
  using assms
  by (simp add: timespecsub_def Let_def timespec_ok_def timespec_value_def secs_ok_def word_sless_alt
      sint_add64 sint_sub64)

lemma timercmp_less:
  assumes "timeval_ok a" and "timeval_ok b"
  shows "timercmp (<s) a b \<longleftrightarrow> timeval_value a < timeval_value b"
proof (cases "tv_sec a = tv_sec b")
  case False
  then have "sint (tv_sec a) < sint (tv_sec b) \<or> sint (tv_sec b) < sint (tv_sec a)"
    by (meson linorder_neqE_linordered_idom signed_word_eqI)
  then show ?thesis
    using False assms by (auto simp: timercmp_def timeval_value_def timeval_ok_def word_sless_alt)
qed (simp add: timercmp_def timeval_value_def word_sless_alt)

section \<open>Properties\<close>

text \<open>Binary times compute as the 128-bit numbers of units of \<open>2\<^sup>-\<^sup>6\<^sup>4\<close> seconds they stand for:
  the carry found by comparing the old and the new fraction, the borrow, and the product put
  together from two 32-bit halves are those of addition, subtraction and multiplication modulo
  \<open>2\<^sup>1\<^sup>2\<^sup>8\<close>.\<close>

lemma bintime_computes:
  "bintime_value (bintime_add a b) mod 2 ^ 128 = (bintime_value a + bintime_value b) mod 2 ^ 128
   \<and> bintime_value (bintime_addx a x) mod 2 ^ 128 = (bintime_value a + unat x) mod 2 ^ 128
   \<and> (bintime_value (bintime_sub a b) + bintime_value b) mod 2 ^ 128 = bintime_value a mod 2 ^ 128
   \<and> bintime_value (bintime_mul a k) mod 2 ^ 128 = (bintime_value a * unat k) mod 2 ^ 128"
  by (simp only: bintime_add_value bintime_addx_value bintime_sub_value bintime_mul_value)

end
