(* ===== verification/Sys_Inline.thy ===== *)
theory Sys_Inline
  imports C_Strings
begin

text \<open>
  Small routines that the headers define in line: descriptor sets (\<^verbatim>\<open>sys/select.h\<close>), the
  multiplicative and the Fowler-Noll-Vo hashes (\<^verbatim>\<open>sys/hash.h\<close>, \<^verbatim>\<open>sys/fnv_hash.h\<close>), and
  the minima, maxima, absolute values and the CRC of \<^verbatim>\<open>sys/libkern.h\<close>. An access outside
  an array or past the end of a buffer is \<^term>\<open>None\<close>.
\<close>

section \<open>Descriptor sets\<close>

type_synonym fd_set = "u64 list"

definition FD_SETSIZE :: nat where
  "FD_SETSIZE = 1024"

definition NFDBITS :: nat where
  "NFDBITS = 8 * 8"

definition howmany :: "nat \<Rightarrow> nat \<Rightarrow> nat" where
  "howmany x y = (x + (y - 1)) div y"

definition fdset_mask :: "nat \<Rightarrow> u64" where
  "fdset_mask n = push_bit (n mod NFDBITS) 1"

definition FD_SET :: "nat \<Rightarrow> fd_set \<Rightarrow> fd_set option" where
  "FD_SET n p =
     (if n div NFDBITS < length p
      then Some (p[n div NFDBITS := p ! (n div NFDBITS) OR fdset_mask n]) else None)"

definition FD_CLR :: "nat \<Rightarrow> fd_set \<Rightarrow> fd_set option" where
  "FD_CLR n p =
     (if n div NFDBITS < length p
      then Some (p[n div NFDBITS := p ! (n div NFDBITS) AND NOT (fdset_mask n)]) else None)"

definition FD_ISSET :: "nat \<Rightarrow> fd_set \<Rightarrow> bool option" where
  "FD_ISSET n p =
     (if n div NFDBITS < length p then Some (p ! (n div NFDBITS) AND fdset_mask n \<noteq> 0) else None)"

definition FD_COPY :: "fd_set \<Rightarrow> fd_set \<Rightarrow> fd_set" where
  "FD_COPY f t = f"

text \<open>The loop of \<^verbatim>\<open>FD_ZERO\<close> counts \<^verbatim>\<open>_n\<close> down to 0.\<close>

fun zero_loop :: "nat \<Rightarrow> fd_set \<Rightarrow> fd_set option" where
  "zero_loop 0 p = Some p"
| "zero_loop (Suc n) p = (if n < length p then zero_loop n (p[n := 0]) else None)"

definition FD_ZERO :: "fd_set \<Rightarrow> fd_set option" where
  "FD_ZERO p = zero_loop (howmany FD_SETSIZE NFDBITS) p"

definition fd_set_ok :: "fd_set \<Rightarrow> bool" where
  "fd_set_ok p \<longleftrightarrow> length p = howmany FD_SETSIZE NFDBITS"

text \<open>The set of descriptors that a value of the type stands for.\<close>

definition fds :: "fd_set \<Rightarrow> nat set" where
  "fds p = {n. n < FD_SETSIZE \<and> bit (p ! (n div NFDBITS)) (n mod NFDBITS)}"

lemma fd_index: "fd_set_ok p \<Longrightarrow> n div NFDBITS < length p \<longleftrightarrow> n < FD_SETSIZE"
  by (auto simp: fd_set_ok_def howmany_def FD_SETSIZE_def NFDBITS_def)

lemma bit_fdset_mask: "bit (fdset_mask n) k \<longleftrightarrow> k = n mod NFDBITS"
  by (auto simp: fdset_mask_def NFDBITS_def bit_exp_iff push_bit_of_1)

lemma fd_same: "m div NFDBITS = n div NFDBITS \<and> m mod NFDBITS = n mod NFDBITS \<longleftrightarrow> m = n"
  by (metis div_mult_mod_eq)

lemma FD_ISSET_fds: "fd_set_ok p \<Longrightarrow> n < FD_SETSIZE \<Longrightarrow> FD_ISSET n p = Some (n \<in> fds p)"
proof -
  assume "fd_set_ok p" "n < FD_SETSIZE"
  moreover have "(w AND fdset_mask n \<noteq> 0) = bit w (n mod NFDBITS)" for w
    by (metis (no_types, opaque_lifting) bit_and_iff bit_eq_iff bit_fdset_mask bit_0_eq bot_apply bot_bool_def zero_and_eq)
  ultimately show ?thesis by (simp add: FD_ISSET_def fd_index fds_def)
qed

lemma fds_update:
  assumes "fd_set_ok p" and "n < FD_SETSIZE"
  shows "m \<in> fds (p[n div NFDBITS := w]) \<longleftrightarrow>
     (if m div NFDBITS = n div NFDBITS then bit w (m mod NFDBITS) \<and> m < FD_SETSIZE else m \<in> fds p)"
proof -
  have "n div NFDBITS < length p" using assms fd_index by simp
  then show ?thesis by (cases "m div NFDBITS = n div NFDBITS") (auto simp: fds_def)
qed

lemma FD_SET_fds:
  assumes "fd_set_ok p" and "n < FD_SETSIZE"
  shows "\<exists>p'. FD_SET n p = Some p' \<and> fd_set_ok p' \<and> fds p' = insert n (fds p)"
proof -
  have "fds (p[n div NFDBITS := p ! (n div NFDBITS) OR fdset_mask n]) = insert n (fds p)"
  proof (rule set_eqI)
    show "m \<in> fds (p[n div NFDBITS := p ! (n div NFDBITS) OR fdset_mask n]) \<longleftrightarrow> m \<in> insert n (fds p)" for m
      using assms(2) fd_same [of m n]
      by (simp add: fds_update [OF assms] bit_or_iff bit_fdset_mask) (auto simp: fds_def)
  qed
  then show ?thesis using assms fd_index [OF assms(1), of n] by (simp add: FD_SET_def fd_set_ok_def)
qed

lemma FD_CLR_fds:
  assumes "fd_set_ok p" and "n < FD_SETSIZE"
  shows "\<exists>p'. FD_CLR n p = Some p' \<and> fd_set_ok p' \<and> fds p' = fds p - {n}"
proof -
  have "fds (p[n div NFDBITS := p ! (n div NFDBITS) AND NOT (fdset_mask n)]) = fds p - {n}"
  proof (rule set_eqI)
    have "m mod NFDBITS < 64" for m by (simp add: NFDBITS_def)
    then show "m \<in> fds (p[n div NFDBITS := p ! (n div NFDBITS) AND NOT (fdset_mask n)]) \<longleftrightarrow> m \<in> fds p - {n}" for m
      using fd_same [of m n]
      by (simp add: fds_update [OF assms] bit_and_iff bit_not_iff bit_fdset_mask) (auto simp: fds_def)
  qed
  then show ?thesis using assms fd_index [OF assms(1), of n] by (simp add: FD_CLR_def fd_set_ok_def)
qed

lemma zero_loop_zeroes:
  "n \<le> length p \<Longrightarrow> zero_loop n p = Some (replicate n 0 @ drop n p)"
proof (induction n arbitrary: p)
  case (Suc n)
  then have "zero_loop (Suc n) p = Some (replicate n 0 @ drop n (p[n := 0]))" by simp
  moreover have "drop n (p[n := 0]) = 0 # drop (Suc n) p"
    using Suc.prems by (metis Cons_nth_drop_Suc Suc_le_eq drop_update_cancel length_list_update lessI nth_list_update_eq)
  ultimately show ?case by (simp add: replicate_app_Cons_same)
qed simp

lemma FD_ZERO_fds:
  assumes "fd_set_ok p"
  shows "\<exists>p'. FD_ZERO p = Some p' \<and> fd_set_ok p' \<and> fds p' = {}"
proof -
  have "FD_ZERO p = Some (replicate (howmany FD_SETSIZE NFDBITS) 0)"
    using zero_loop_zeroes [of "howmany FD_SETSIZE NFDBITS" p] assms by (simp add: FD_ZERO_def fd_set_ok_def)
  moreover have "n div NFDBITS < howmany FD_SETSIZE NFDBITS" if "n < FD_SETSIZE" for n
    using that by (auto simp: howmany_def FD_SETSIZE_def NFDBITS_def)
  ultimately show ?thesis by (simp add: fd_set_ok_def fds_def)
qed

text \<open>A descriptor that the set has no bit for writes outside it.\<close>

lemma FD_SET_outside: "fd_set_ok p \<Longrightarrow> FD_SETSIZE \<le> n \<Longrightarrow> FD_SET n p = None"
  by (simp add: FD_SET_def fd_index)

section \<open>The multiplicative hash\<close>

definition HASHINIT :: u32 where
  "HASHINIT = 5381"

definition HASHSTEP :: "u32 \<Rightarrow> u8 \<Rightarrow> u32" where
  "HASHSTEP x c = (push_bit 5 x + x) + ucast c"

text \<open>The buffer from \<^verbatim>\<open>p\<close> on; running past its end is undefined.\<close>

fun hash32_buf :: "u8 list \<Rightarrow> nat \<Rightarrow> u32 \<Rightarrow> u32 option" where
  "hash32_buf p 0 hash = Some hash"
| "hash32_buf [] (Suc len) hash = None"
| "hash32_buf (c # p) (Suc len) hash = hash32_buf p len (HASHSTEP hash c)"

fun hash32_str :: "u8 list \<Rightarrow> u32 \<Rightarrow> u32 option" where
  "hash32_str [] hash = None"
| "hash32_str (c # p) hash = (if c \<noteq> 0 then hash32_str p (HASHSTEP hash c) else Some hash)"

fun hash32_strn :: "u8 list \<Rightarrow> nat \<Rightarrow> u32 \<Rightarrow> u32 option" where
  "hash32_strn [] len hash = None"
| "hash32_strn (c # p) len hash =
     (if c \<noteq> 0 \<and> len \<noteq> 0 then hash32_strn p (len - 1) (HASHSTEP hash c) else Some hash)"

text \<open>\<open>end\<close> is an \<^verbatim>\<open>int\<close>, compared with the promoted character; the second result is the
position left in \<^verbatim>\<open>*ep\<close>, counted from \<open>i\<close>.\<close>

fun hash32_stre :: "u8 list \<Rightarrow> u32 \<Rightarrow> nat \<Rightarrow> u32 \<Rightarrow> (u32 \<times> nat) option" where
  "hash32_stre [] stop i hash = None"
| "hash32_stre (c # p) stop i hash =
     (if c \<noteq> 0 \<and> ucast c \<noteq> stop then hash32_stre p stop (Suc i) (HASHSTEP hash c) else Some (hash, i))"

fun hash32_strne :: "u8 list \<Rightarrow> nat \<Rightarrow> u32 \<Rightarrow> nat \<Rightarrow> u32 \<Rightarrow> (u32 \<times> nat) option" where
  "hash32_strne [] len stop i hash = None"
| "hash32_strne (c # p) len stop i hash =
     (if c \<noteq> 0 \<and> ucast c \<noteq> stop \<and> len \<noteq> 0
      then hash32_strne p (len - 1) stop (Suc i) (HASHSTEP hash c) else Some (hash, i))"

text \<open>All are the step folded over a part of the buffer.\<close>

lemma hash32_buf_fold:
  "hash32_buf p len hash = (if len \<le> length p then Some (fold (\<lambda>c h. HASHSTEP h c) (take len p) hash) else None)"
  by (induction p len hash rule: hash32_buf.induct) auto

lemma hash32_str_fold:
  "hash32_str p hash = (if 0 \<in> set p then Some (fold (\<lambda>c h. HASHSTEP h c) (c_str p) hash) else None)"
  by (induction p hash rule: hash32_str.induct) (auto simp: c_str_def)

lemma hash32_strn_fold:
  "0 \<in> set p \<Longrightarrow> hash32_strn p len hash = Some (fold (\<lambda>c h. HASHSTEP h c) (take len (c_str p)) hash)"
proof (induction p len hash rule: hash32_strn.induct)
  case (2 c p len hash)
  then show ?case by (cases len) (auto simp: c_str_def)
qed simp

lemma hash32_stre_fold:
  "0 \<in> set p \<Longrightarrow> hash32_stre p stop i hash =
     Some (fold (\<lambda>c h. HASHSTEP h c) (takeWhile (\<lambda>c. ucast c \<noteq> stop) (c_str p)) hash,
       i + length (takeWhile (\<lambda>c. ucast c \<noteq> stop) (c_str p)))"
  by (induction p stop i hash rule: hash32_stre.induct) (auto simp: c_str_def)

lemma hash32_strne_fold:
  "0 \<in> set p \<Longrightarrow> hash32_strne p len stop i hash =
     Some (fold (\<lambda>c h. HASHSTEP h c) (take len (takeWhile (\<lambda>c. ucast c \<noteq> stop) (c_str p))) hash,
       i + length (take len (takeWhile (\<lambda>c. ucast c \<noteq> stop) (c_str p))))"
proof (induction p len stop i hash rule: hash32_strne.induct)
  case (2 c p len stop i hash)
  then show ?case by (cases len) (auto simp: c_str_def)
qed simp

text \<open>Extending a hash is hashing the concatenation.\<close>

lemma hash32_buf_extend:
  "hash32_buf xs (length xs) h = Some h' \<Longrightarrow> hash32_buf (xs @ ys) (length xs + length ys) h = hash32_buf ys (length ys) h'"
  by (auto simp: hash32_buf_fold)

section \<open>The Fowler-Noll-Vo hash\<close>

definition FNV1_32_INIT :: u32 where "FNV1_32_INIT = 33554467"
definition FNV1_64_INIT :: u64 where "FNV1_64_INIT = 0xcbf29ce484222325"
definition FNV_32_PRIME :: u32 where "FNV_32_PRIME = 0x01000193"
definition FNV_64_PRIME :: u64 where "FNV_64_PRIME = 0x100000001b3"

fun fnv_32_buf :: "u8 list \<Rightarrow> nat \<Rightarrow> u32 \<Rightarrow> u32 option" where
  "fnv_32_buf s 0 hval = Some hval"
| "fnv_32_buf [] (Suc len) hval = None"
| "fnv_32_buf (c # s) (Suc len) hval = fnv_32_buf s len ((hval * FNV_32_PRIME) XOR ucast c)"

fun fnv_32_str :: "u8 list \<Rightarrow> u32 \<Rightarrow> u32 option" where
  "fnv_32_str [] hval = None"
| "fnv_32_str (c # s) hval =
     (if c \<noteq> 0 then fnv_32_str s ((hval * FNV_32_PRIME) XOR ucast c) else Some hval)"

fun fnv_64_buf :: "u8 list \<Rightarrow> nat \<Rightarrow> u64 \<Rightarrow> u64 option" where
  "fnv_64_buf s 0 hval = Some hval"
| "fnv_64_buf [] (Suc len) hval = None"
| "fnv_64_buf (c # s) (Suc len) hval = fnv_64_buf s len ((hval * FNV_64_PRIME) XOR ucast c)"

fun fnv_64_str :: "u8 list \<Rightarrow> u64 \<Rightarrow> u64 option" where
  "fnv_64_str [] hval = None"
| "fnv_64_str (c # s) hval =
     (if c \<noteq> 0 then fnv_64_str s ((hval * FNV_64_PRIME) XOR ucast c) else Some hval)"

text \<open>A string hashes as the buffer of its characters.\<close>

lemma fnv_32_str_buf: "0 \<in> set s \<Longrightarrow> fnv_32_str s h = fnv_32_buf s (length (c_str s)) h"
  by (induction s arbitrary: h) (auto simp: c_str_def)

lemma fnv_64_str_buf: "0 \<in> set s \<Longrightarrow> fnv_64_str s h = fnv_64_buf s (length (c_str s)) h"
  by (induction s arbitrary: h) (auto simp: c_str_def)

lemma hash32_str_buf: "0 \<in> set s \<Longrightarrow> hash32_str s h = hash32_buf s (length (c_str s)) h"
  by (induction s arbitrary: h) (auto simp: c_str_def)

section \<open>Minima, maxima, absolute values, CRC\<close>

text \<open>Signed types compare with \<^verbatim>\<open><s\<close>, unsigned ones with \<^verbatim>\<open><\<close>.\<close>

definition imax :: "u32 \<Rightarrow> u32 \<Rightarrow> u32" where "imax a b = (if b <s a then a else b)"
definition imin :: "u32 \<Rightarrow> u32 \<Rightarrow> u32" where "imin a b = (if a <s b then a else b)"
definition lmax :: "u64 \<Rightarrow> u64 \<Rightarrow> u64" where "lmax a b = (if b <s a then a else b)"
definition lmin :: "u64 \<Rightarrow> u64 \<Rightarrow> u64" where "lmin a b = (if a <s b then a else b)"
definition umax :: "u32 \<Rightarrow> u32 \<Rightarrow> u32" where "umax a b = (if a > b then a else b)"
definition umin :: "u32 \<Rightarrow> u32 \<Rightarrow> u32" where "umin a b = (if a < b then a else b)"
definition qmax :: "u64 \<Rightarrow> u64 \<Rightarrow> u64" where "qmax a b = (if b <s a then a else b)"
definition qmin :: "u64 \<Rightarrow> u64 \<Rightarrow> u64" where "qmin a b = (if a <s b then a else b)"
definition ulmax :: "u64 \<Rightarrow> u64 \<Rightarrow> u64" where "ulmax a b = (if a > b then a else b)"
definition ulmin :: "u64 \<Rightarrow> u64 \<Rightarrow> u64" where "ulmin a b = (if a < b then a else b)"
definition omax :: "u64 \<Rightarrow> u64 \<Rightarrow> u64" where "omax a b = (if b <s a then a else b)"
definition omin :: "u64 \<Rightarrow> u64 \<Rightarrow> u64" where "omin a b = (if a <s b then a else b)"

definition abs_int :: "u32 \<Rightarrow> u32" where "abs_int a = (if a <s 0 then - a else a)"
definition labs :: "u64 \<Rightarrow> u64" where "labs a = (if a <s 0 then - a else a)"
definition qabs :: "u64 \<Rightarrow> u64" where "qabs a = (if a <s 0 then - a else a)"

lemma min_max_values:
  "sint (imax a b) = max (sint a) (sint b)" "sint (imin a b) = min (sint a) (sint b)"
  "sint (lmax x y) = max (sint x) (sint y)" "sint (lmin x y) = min (sint x) (sint y)"
  "umax a b = max a b" "umin a b = min a b" "ulmax x y = max x y" "ulmin x y = min x y"
  by (auto simp: imax_def imin_def lmax_def lmin_def umax_def umin_def ulmax_def ulmin_def word_sless_alt)

text \<open>The least integer is its own absolute value: the negation overflows.\<close>

lemma abs_int_least: "abs_int 0x80000000 = 0x80000000"
  by code_simp

text \<open>The table \<^verbatim>\<open>crc32_tab\<close> is not in the repository: an argument.\<close>

fun crc32_raw :: "(u8 \<Rightarrow> u32) \<Rightarrow> u8 list \<Rightarrow> nat \<Rightarrow> u32 \<Rightarrow> u32 option" where
  "crc32_raw tab p 0 crc = Some crc"
| "crc32_raw tab [] (Suc n) crc = None"
| "crc32_raw tab (c # p) (Suc n) crc =
     crc32_raw tab p n (tab (ucast ((crc XOR ucast c) AND 0xFF)) XOR drop_bit 8 crc)"

definition crc32 :: "(u8 \<Rightarrow> u32) \<Rightarrow> u8 list \<Rightarrow> nat \<Rightarrow> u32 option" where
  "crc32 tab p n = do { crc \<leftarrow> crc32_raw tab p n (NOT 0); Some (crc XOR NOT 0) }"

lemma crc32_raw_append:
  "length xs = n \<Longrightarrow> crc32_raw tab (xs @ ys) (n + k) c =
     Option.bind (crc32_raw tab xs n c) (crc32_raw tab ys k)"
  by (induction xs arbitrary: n c) auto

end
