(* ===== verification/Byte_Source.thy ===== *)
theory Byte_Source
  imports DPI_Prelude
begin

text \<open>
  The streams of the host application. A .NET stream is its state with four operations:
  the length, the position, setting the position, and reading at most so many bytes. An
  operation that throws, or never returns, gives \<^term>\<open>None\<close>. The wrappers of the
  application are functions from the operations of the wrapped stream to operations.

  Locale \<open>byte_source\<close> is the contract all of them share: the state stands for a
  sequence of bytes and a position in it, a read delivers a prefix of what follows the
  position and advances it, and delivers nothing only at the end. Short reads are allowed,
  as they are for files and sockets. Positions and lengths are below \<open>2 ^ 63\<close>, the range
  of \<^verbatim>\<open>long\<close>, and are modelled as integers.
\<close>

record 's stream_ops =
  get_length :: "'s \<Rightarrow> int"
  get_position :: "'s \<Rightarrow> int"
  set_position :: "int \<Rightarrow> 's \<Rightarrow> 's option"
  stream_read :: "nat \<Rightarrow> 's \<Rightarrow> (u8 list \<times> 's) option"

text \<open>Where an offset leads, from a position in a stream of a length.\<close>

datatype seek_origin = Begin | Current | End

definition seek_target :: "int \<Rightarrow> int \<Rightarrow> int \<Rightarrow> seek_origin \<Rightarrow> int" where
  "seek_target len pos offset origin =
     (case origin of Begin \<Rightarrow> offset | Current \<Rightarrow> pos + offset | End \<Rightarrow> len + offset)"

section \<open>Clients\<close>

text \<open>Reads of given sizes one after the other, and reading to the end as \<^verbatim>\<open>CopyTo\<close> does.\<close>

primrec reads :: "'s stream_ops \<Rightarrow> nat list \<Rightarrow> 's \<Rightarrow> (u8 list \<times> 's) option" where
  "reads ops [] s = Some ([], s)"
| "reads ops (n # ns) s = do {
     (bs, s) \<leftarrow> stream_read ops n s;
     (cs, s) \<leftarrow> reads ops ns s;
     Some (bs @ cs, s) }"

partial_function (option) drain :: "'s stream_ops \<Rightarrow> nat \<Rightarrow> 's \<Rightarrow> (u8 list \<times> 's) option" where
  "drain ops n s = do {
     (bs, s) \<leftarrow> stream_read ops n s;
     if bs = [] then Some ([], s)
     else do { (cs, s) \<leftarrow> drain ops n s; Some (bs @ cs, s) } }"

text \<open>A client that goes back and forth: for each request, a position and the sizes read from there.\<close>

primrec requests :: "'s stream_ops \<Rightarrow> (int \<times> nat list) list \<Rightarrow> 's \<Rightarrow> u8 list list option" where
  "requests ops [] s = Some []"
| "requests ops (r # rs) s = do {
     s \<leftarrow> set_position ops (fst r) s;
     (bs, s) \<leftarrow> reads ops (snd r) s;
     bss \<leftarrow> requests ops rs s;
     Some (bs # bss) }"

text \<open>What a request may deliver: bytes from its position on, as many as it asked for or fewer.\<close>

definition delivers :: "u8 list \<Rightarrow> int \<times> nat list \<Rightarrow> u8 list \<Rightarrow> bool" where
  "delivers bs r out \<longleftrightarrow> length out \<le> sum_list (snd r) \<and> out = take (length out) (drop (nat (fst r)) bs)
     \<and> (out = [] \<longrightarrow> sum_list (snd r) = 0)"

lemma take_drop_append:
  assumes "bs = take (length bs) (drop k xs)" and "cs = take (length cs) (drop (k + length bs) xs)"
  shows "bs @ cs = take (length (bs @ cs)) (drop k xs)"
  using assms take_add [of "length bs" "length cs" "drop k xs"] by (simp add: add.commute)

locale byte_source =
  fixes ops :: "'s stream_ops" and ok :: "'s \<Rightarrow> bool" and content :: "'s \<Rightarrow> u8 list"
  assumes length: "ok s \<Longrightarrow> get_length ops s = int (length (content s))"
    and position: "ok s \<Longrightarrow> 0 \<le> get_position ops s \<and> get_position ops s \<le> int (length (content s))"
    and read: "ok s \<Longrightarrow> n < 2 ^ 31 \<Longrightarrow> \<exists>bs s'. stream_read ops n s = Some (bs, s') \<and> ok s' \<and> content s' = content s
      \<and> length bs \<le> n \<and> bs = take (length bs) (drop (nat (get_position ops s)) (content s))
      \<and> get_position ops s' = get_position ops s + int (length bs)
      \<and> (bs = [] \<longrightarrow> n = 0 \<or> get_position ops s = int (length (content s)))"
    and seek: "ok s \<Longrightarrow> 0 \<le> p \<Longrightarrow> p \<le> int (length (content s)) \<Longrightarrow>
      \<exists>s'. set_position ops p s = Some s' \<and> ok s' \<and> content s' = content s
         \<and> (p < int (length (content s)) \<longrightarrow> get_position ops s' = p)"
begin

lemma readE:
  assumes "ok s" and "n < 2 ^ 31"
  obtains bs s' where "stream_read ops n s = Some (bs, s')" "ok s'" "content s' = content s"
    "length bs \<le> n" "bs = take (length bs) (drop (nat (get_position ops s)) (content s))"
    "get_position ops s' = get_position ops s + int (length bs)"
    "bs = [] \<Longrightarrow> n = 0 \<or> get_position ops s = int (length (content s))"
proof -
  note read [where n = n, OF assms]
  then show ?thesis using that by blast
qed

text \<open>Whatever sizes a client asks for, it gets the bytes in order and without a gap.\<close>

lemma reads_prefix:
  "ok s \<Longrightarrow> (\<And>n. n \<in> set ns \<Longrightarrow> n < 2 ^ 31) \<Longrightarrow> \<exists>bs s'. reads ops ns s = Some (bs, s') \<and> ok s' \<and> content s' = content s
     \<and> bs = take (length bs) (drop (nat (get_position ops s)) (content s))
     \<and> get_position ops s' = get_position ops s + int (length bs) \<and> length bs \<le> sum_list ns
     \<and> (bs = [] \<longrightarrow> sum_list ns = 0 \<or> get_position ops s = int (length (content s)))"
proof (induction ns arbitrary: s)
  case (Cons n ns)
  obtain bs s1 where 1: "stream_read ops n s = Some (bs, s1)" "ok s1" "content s1 = content s"
    "bs = take (length bs) (drop (nat (get_position ops s)) (content s))"
    "get_position ops s1 = get_position ops s + int (length bs)" "length bs \<le> n"
    "bs = [] \<Longrightarrow> n = 0 \<or> get_position ops s = int (length (content s))"
    by (rule readE [where n = n, OF Cons.prems(1)]) (use Cons.prems(2) in auto)
  obtain cs s2 where 2: "reads ops ns s1 = Some (cs, s2)" "ok s2" "content s2 = content s"
    "cs = take (length cs) (drop (nat (get_position ops s1)) (content s))"
    "get_position ops s2 = get_position ops s1 + int (length cs)" "length cs \<le> sum_list ns"
    "cs = [] \<longrightarrow> sum_list ns = 0 \<or> get_position ops s1 = int (length (content s))"
    using Cons.IH [OF 1(2)] Cons.prems(2) 1(3) by auto
  have p: "nat (get_position ops s1) = nat (get_position ops s) + length bs"
    using 1(5) position [OF Cons.prems(1)] by (simp add: nat_add_distrib)
  have eq: "bs @ cs = take (length (bs @ cs)) (drop (nat (get_position ops s)) (content s))"
    by (rule take_drop_append [OF 1(4)]) (use 2(4) in \<open>unfold p\<close>)
  have "reads ops (n # ns) s = Some (bs @ cs, s2)"
    and "get_position ops s2 = get_position ops s + int (length (bs @ cs))"
    using 1(1,5) 2(1,5) by simp_all
  moreover have "length (bs @ cs) \<le> sum_list (n # ns)" using 1(6) 2(6) by simp
  moreover have "bs @ cs = [] \<longrightarrow> sum_list (n # ns) = 0 \<or> get_position ops s = int (length (content s))"
    using 1(5,7) 2(7) by auto
  ultimately show ?case using eq 2(2,3) by blast
qed simp

lemma requests_deliver:
  "ok s \<Longrightarrow> list_all (\<lambda>r. 0 \<le> fst r \<and> fst r < int (length (content s)) \<and> list_all (\<lambda>n. n < 2 ^ 31) (snd r)) rs \<Longrightarrow>
   \<exists>outs. requests ops rs s = Some outs \<and> list_all2 (delivers (content s)) rs outs"
proof (induction rs arbitrary: s)
  case (Cons r rs)
  have r: "0 \<le> fst r" "fst r < int (length (content s))" "\<And>n. n \<in> set (snd r) \<Longrightarrow> n < 2 ^ 31"
    using Cons.prems(2) by (simp_all add: list_all_iff)
  obtain s1 where 1: "set_position ops (fst r) s = Some s1" "ok s1" "content s1 = content s"
    "get_position ops s1 = fst r"
    using seek [OF Cons.prems(1) r(1)] r(2) by auto
  from reads_prefix [OF 1(2) r(3)] obtain bs s2 where 2: "reads ops (snd r) s1 = Some (bs, s2)" "ok s2"
    "content s2 = content s" "delivers (content s) r bs"
    unfolding 1(3,4) delivers_def using r(2) by fastforce
  obtain outs where "requests ops rs s2 = Some outs" "list_all2 (delivers (content s)) rs outs"
    using Cons.IH [OF 2(2)] Cons.prems(2) 2(3) by auto
  then show ?case using 1(1) 2(1,4) by simp
qed simp

lemma drain_all:
  "ok s \<Longrightarrow> 0 < n \<Longrightarrow> n < 2 ^ 31 \<Longrightarrow> \<exists>s'. drain ops n s = Some (drop (nat (get_position ops s)) (content s), s')"
proof (induction "length (content s) - nat (get_position ops s)" arbitrary: s rule: less_induct)
  case less
  let ?p = "nat (get_position ops s)"
  obtain bs s1 where 1: "stream_read ops n s = Some (bs, s1)" "ok s1" "content s1 = content s"
    "bs = take (length bs) (drop ?p (content s))"
    "get_position ops s1 = get_position ops s + int (length bs)"
    "bs = [] \<Longrightarrow> n = 0 \<or> get_position ops s = int (length (content s))"
    by (rule readE [where n = n, OF less.prems(1)]) (use less.prems(3) in auto)
  show ?case
  proof (cases "bs = []")
    case True
    then have "?p = length (content s)" using 1(6) less.prems(2) by simp
    then show ?thesis using 1(1) True by (simp add: drain.simps [of ops n s])
  next
    case False
    have p1: "nat (get_position ops s1) = ?p + length bs"
      using 1(5) position [OF less.prems(1)] by (simp add: nat_add_distrib)
    have "?p < length (content s)"
      using False 1(4) by (metis drop_all leI take_Nil)
    then have "length (content s1) - nat (get_position ops s1) < length (content s) - ?p"
      using False p1 1(3) by (cases bs) auto
    then obtain s' where "drain ops n s1 = Some (drop (?p + length bs) (content s), s')"
      using less.hyps [OF _ 1(2) less.prems(2,3)] p1 1(3) by auto
    moreover have "bs @ drop (?p + length bs) (content s) = drop ?p (content s)"
      using append_take_drop_id [of "length bs" "drop ?p (content s)"] 1(4) by (simp add: add.commute)
    ultimately show ?thesis using 1(1) False by (simp add: drain.simps [of ops n s])
  qed
qed

end

section \<open>Files and connections\<close>

text \<open>
  A stream of the platform (\<^verbatim>\<open>FileStream\<close>, \<^verbatim>\<open>MemoryStream\<close>, a connection) over its bytes.
  The platform may deliver less than asked for: \<open>grants\<close> bounds the reads to come, and a
  read that can deliver something delivers at least one byte.
\<close>

record source =
  bytes :: "u8 list"
  at :: int
  grants :: "nat list"

definition source_read :: "nat \<Rightarrow> source \<Rightarrow> (u8 list \<times> source) option" where
  "source_read n s =
     (let limit = (case grants s of [] \<Rightarrow> n | g # _ \<Rightarrow> min n (Suc g));
          bs = take limit (drop (nat (at s)) (bytes s))
      in Some (bs, s\<lparr>at := at s + int (length bs), grants := tl (grants s)\<rparr>))"

definition source_seek :: "int \<Rightarrow> source \<Rightarrow> source option" where
  "source_seek p s = (if p < 0 then None else Some (s\<lparr>at := p\<rparr>))"

definition source_ops :: "source stream_ops" where
  "source_ops = \<lparr>get_length = \<lambda>s. int (length (bytes s)), get_position = at,
     set_position = source_seek, stream_read = source_read\<rparr>"

definition source_ok :: "source \<Rightarrow> bool" where
  "source_ok s \<longleftrightarrow> 0 \<le> at s \<and> at s \<le> int (length (bytes s))"

definition open_source :: "u8 list \<Rightarrow> source" where
  "open_source bs = \<lparr>bytes = bs, at = 0, grants = []\<rparr>"

lemma source_read_spec:
  assumes "source_ok s"
  shows "\<exists>bs s'. source_read n s = Some (bs, s') \<and> source_ok s' \<and> bytes s' = bytes s
    \<and> length bs \<le> n \<and> bs = take (length bs) (drop (nat (at s)) (bytes s))
    \<and> at s' = at s + int (length bs) \<and> (bs = [] \<longrightarrow> n = 0 \<or> at s = int (length (bytes s)))"
  using assms by (cases "grants s") (auto simp: source_read_def source_ok_def Let_def min_def)

interpretation source: byte_source source_ops source_ok bytes
proof unfold_locales
  fix s :: source and n :: nat
  assume "source_ok s"
  then show "\<exists>bs s'. stream_read source_ops n s = Some (bs, s') \<and> source_ok s' \<and> bytes s' = bytes s
      \<and> length bs \<le> n \<and> bs = take (length bs) (drop (nat (get_position source_ops s)) (bytes s))
      \<and> get_position source_ops s' = get_position source_ops s + int (length bs)
      \<and> (bs = [] \<longrightarrow> n = 0 \<or> get_position source_ops s = int (length (bytes s)))"
    using source_read_spec [of s n] by (simp add: source_ops_def)
qed (auto simp: source_ops_def source_ok_def source_seek_def)

end
