(* ===== verification/Seekable_Stream.thy ===== *)
theory Seekable_Stream
  imports Byte_Source
begin

text \<open>
  IO/ReadSeekableStream.cs: a stream that can only be read forward, made seekable by keeping in
  a temporary file what was read of it. The file always holds the input's bytes up to where the
  input stands. A read behind that point comes from the file, a read past it first copies what
  lies between; past the end of the input it throws. The wrapper implements the contract
  \<open>byte_source\<close>.
\<close>

record 's seekable =
  input :: 's
  temp_file :: "u8 list"
  read_position :: int
  input_position :: int
  report_length :: "int option"

definition seekable_new :: "'s \<Rightarrow> int option \<Rightarrow> 's seekable" where
  "seekable_new s len = \<lparr>input = s, temp_file = [], read_position = 0, input_position = 0, report_length = len\<rparr>"

definition NetworkBufferSize :: nat where
  "NetworkBufferSize = 1024 * 1024"

definition chunk :: "nat \<Rightarrow> nat" where
  "chunk n = (if NetworkBufferSize < n then NetworkBufferSize else n)"

text \<open>The loop of \<^verbatim>\<open>Copy\<close>, and the one that skips input: read until so much is read or nothing comes.\<close>

partial_function (option) copy_loop :: "'s stream_ops \<Rightarrow> nat \<Rightarrow> 's \<Rightarrow> (u8 list \<times> 's) option" where
  "copy_loop ops n s = do {
     (bs, s) \<leftarrow> stream_read ops (chunk n) s;
     if bs = [] then Some ([], s)
     else do { (cs, s) \<leftarrow> copy_loop ops (n - length bs) s; Some (bs @ cs, s) } }"

definition skip_input :: "bool \<Rightarrow> 's stream_ops \<Rightarrow> nat \<Rightarrow> 's \<Rightarrow> 's option" where
  "skip_input can_seek ops n s =
     (if can_seek then set_position ops (get_position ops s + int n) s
      else map_option snd (copy_loop ops n s))"

definition seekable_read ::
    "bool \<Rightarrow> 's stream_ops \<Rightarrow> nat \<Rightarrow> 's seekable \<Rightarrow> (u8 list \<times> 's seekable) option" where
  "seekable_read can_seek ops n r =
     (if read_position r < int (length (temp_file r)) then
        if read_position r < 0 then None
        else do {
          let bs = take n (drop (nat (read_position r)) (temp_file r));
          let r = r\<lparr>read_position := read_position r + int (length bs)\<rparr>;
          s \<leftarrow> (if input_position r < read_position r
               then skip_input can_seek ops (nat (read_position r - input_position r)) (input r)
               else Some (input r));
          Some (bs, r\<lparr>input := s\<rparr>) }
      else do {
        r \<leftarrow> (if input_position r < read_position r then do {
               (cs, s) \<leftarrow> copy_loop ops (nat (read_position r - input_position r)) (input r);
               Some (r\<lparr>input := s, temp_file := temp_file r @ cs,
                 input_position := input_position r + int (length cs)\<rparr>) }
             else Some r);
        if read_position r \<noteq> input_position r then None
        else do {
          (bs, s) \<leftarrow> stream_read ops n (input r);
          Some (bs, r\<lparr>input := s, temp_file := temp_file r @ bs,
            read_position := read_position r + int (length bs),
            input_position := input_position r + int (length bs)\<rparr>) } })"

definition seekable_length :: "'s stream_ops \<Rightarrow> 's seekable \<Rightarrow> int" where
  "seekable_length ops r = (case report_length r of Some n \<Rightarrow> n | None \<Rightarrow> get_length ops (input r))"

text \<open>\<^verbatim>\<open>Seek\<close> from the end counts from the end of the input, whatever length is reported.\<close>

definition seekable_seek :: "'s stream_ops \<Rightarrow> int \<Rightarrow> seek_origin \<Rightarrow> 's seekable \<Rightarrow> int \<times> 's seekable" where
  "seekable_seek ops offset origin r =
     (let p = seek_target (get_length ops (input r)) (read_position r) offset origin
      in (p, r\<lparr>read_position := p\<rparr>))"

definition seekable_ops :: "bool \<Rightarrow> 's stream_ops \<Rightarrow> 's seekable stream_ops" where
  "seekable_ops can_seek ops = \<lparr>get_length = seekable_length ops, get_position = read_position,
     set_position = \<lambda>p r. Some (r\<lparr>read_position := p\<rparr>), stream_read = seekable_read can_seek ops\<rparr>"

section \<open>The wrapper implements the contract\<close>

text \<open>
  The temporary file is a prefix of the input, as long as what was read of it; a length that is
  reported is the input's.
\<close>

definition buffered :: "'s stream_ops \<Rightarrow> ('s \<Rightarrow> bool) \<Rightarrow> ('s \<Rightarrow> u8 list) \<Rightarrow> 's seekable \<Rightarrow> bool" where
  "buffered ops ok content r \<longleftrightarrow> ok (input r) \<and> get_position ops (input r) = input_position r
     \<and> temp_file r = take (nat (input_position r)) (content (input r))
     \<and> report_length r \<in> {None, Some (int (length (content (input r))))}"

definition seekable_ok :: "'s stream_ops \<Rightarrow> ('s \<Rightarrow> bool) \<Rightarrow> ('s \<Rightarrow> u8 list) \<Rightarrow> 's seekable \<Rightarrow> bool" where
  "seekable_ok ops ok content r \<longleftrightarrow> buffered ops ok content r
     \<and> 0 \<le> read_position r \<and> read_position r \<le> int (length (content (input r)))"

lemma chunk_bounds: "chunk n \<le> n" "chunk n < 2 ^ 31" "0 < n \<Longrightarrow> 0 < chunk n"
  by (auto simp: chunk_def NetworkBufferSize_def)

context byte_source
begin

lemma copy_loop_spec:
  "ok s \<Longrightarrow> \<exists>s'. copy_loop ops n s = Some (take n (drop (nat (get_position ops s)) (content s)), s')
     \<and> ok s' \<and> content s' = content s
     \<and> get_position ops s' = get_position ops s + int (length (take n (drop (nat (get_position ops s)) (content s))))"
proof (induction n arbitrary: s rule: less_induct)
  case (less n)
  let ?p = "nat (get_position ops s)"
  obtain bs s1 where 1: "stream_read ops (chunk n) s = Some (bs, s1)" "ok s1" "content s1 = content s"
    "length bs \<le> chunk n" "bs = take (length bs) (drop ?p (content s))"
    "get_position ops s1 = get_position ops s + int (length bs)"
    "bs = [] \<Longrightarrow> chunk n = 0 \<or> get_position ops s = int (length (content s))"
    by (rule readE [where n = "chunk n", OF less.prems chunk_bounds(2)]) blast
  show ?case
  proof (cases "bs = []")
    case True
    then have "take n (drop ?p (content s)) = []"
      using 1(7) chunk_bounds(3) [of n] by (cases n) auto
    moreover have "copy_loop ops n s = Some ([], s1)"
      using 1(1) True by (simp add: copy_loop.simps [of ops n s])
    ultimately show ?thesis using 1(2,3,6) True by (metis add.right_neutral list.size(3) of_nat_0)
  next
    case False
    have len: "length bs \<le> n" using 1(4) chunk_bounds(1) [of n] by linarith
    have smaller: "n - length bs < n" using False len by (cases bs) auto
    have p1: "nat (get_position ops s1) = ?p + length bs"
      using 1(6) position [OF less.prems] by (simp add: nat_add_distrib)
    obtain s2 where 2: "copy_loop ops (n - length bs) s1
        = Some (take (n - length bs) (drop (?p + length bs) (content s)), s2)"
      "ok s2" "content s2 = content s"
      "get_position ops s2 = get_position ops s1 + int (length (take (n - length bs) (drop (?p + length bs) (content s))))"
      using less.IH [OF smaller 1(2)] unfolding p1 1(3) by blast
    have eq: "take n (drop ?p (content s)) = bs @ take (n - length bs) (drop (?p + length bs) (content s))"
      using take_add [of "length bs" "n - length bs" "drop ?p (content s)"] 1(5) len by (simp add: add.commute)
    have "copy_loop ops n s = Some (take n (drop ?p (content s)), s2)"
      unfolding eq using 1(1) 2(1) False by (subst copy_loop.simps) simp
    moreover have "get_position ops s2 = get_position ops s + int (length (take n (drop ?p (content s))))"
      unfolding eq using 2(4) 1(6) by simp
    ultimately show ?thesis using 2(2,3) by blast
  qed
qed

text \<open>Before a read past the input: the file catches up with the position, as far as there is input.\<close>

lemma catch_up:
  assumes r: "buffered ops ok content r" and ahead: "input_position r < read_position r"
  obtains cs s where "copy_loop ops (nat (read_position r - input_position r)) (input r) = Some (cs, s)"
    "buffered ops ok content (r\<lparr>input := s, temp_file := temp_file r @ cs, input_position := input_position r + int (length cs)\<rparr>)"
    "content s = content (input r)"
    "input_position r + int (length cs) = min (read_position r) (int (length (content (input r))))"
proof -
  let ?c = "content (input r)" and ?k = "nat (read_position r - input_position r)"
  have ok: "ok (input r)" "get_position ops (input r) = input_position r"
    using r by (simp_all add: buffered_def)
  have pos: "0 \<le> input_position r" "input_position r \<le> int (length ?c)"
    using position [OF ok(1)] ok(2) by auto
  define cs where "cs = take ?k (drop (nat (input_position r)) ?c)"
  obtain s where s: "copy_loop ops ?k (input r) = Some (cs, s)" "ok s" "content s = ?c"
    "get_position ops s = input_position r + int (length cs)"
    using copy_loop_spec [OF ok(1), of ?k] ok(2) by (auto simp: cs_def)
  have "cs = take (length cs) (drop (nat (input_position r)) ?c)" by (simp add: cs_def min_def)
  then have "temp_file r @ cs = take (nat (input_position r) + length cs) ?c"
    using r by (simp only: buffered_def take_add)
  then have "buffered ops ok content (r\<lparr>input := s, temp_file := temp_file r @ cs, input_position := input_position r + int (length cs)\<rparr>)"
    using r s pos by (auto simp: buffered_def nat_add_distrib)
  moreover have "input_position r + int (length cs) = min (read_position r) (int (length ?c))"
    using ahead pos by (simp add: cs_def min_def) linarith
  ultimately show ?thesis using that s by blast
qed

lemma seekable_read_spec:
  assumes r: "seekable_ok ops ok content r" and n: "n < 2 ^ 31"
  shows "\<exists>bs r'. seekable_read can_seek ops n r = Some (bs, r') \<and> seekable_ok ops ok content r'
    \<and> content (input r') = content (input r) \<and> length bs \<le> n
    \<and> bs = take (length bs) (drop (nat (read_position r)) (content (input r)))
    \<and> read_position r' = read_position r + int (length bs)
    \<and> (bs = [] \<longrightarrow> n = 0 \<or> read_position r = int (length (content (input r))))"

proof -
  let ?c = "content (input r)"
  have b: "buffered ops ok content r" and rp: "0 \<le> read_position r" "read_position r \<le> int (length ?c)"
    using r by (simp_all add: seekable_ok_def)
  have ip: "0 \<le> input_position r" "input_position r \<le> int (length ?c)"
    using position [of "input r"] b by (auto simp: buffered_def)
  have kept: "temp_file r = take (nat (input_position r)) ?c" "length (temp_file r) = nat (input_position r)"
    using b ip by (simp_all add: buffered_def)
  show ?thesis
  proof (cases "read_position r < int (length (temp_file r))")
    case True
    define bs where "bs = take n (drop (nat (read_position r)) (temp_file r))"
    have len: "length bs \<le> n" "read_position r + int (length bs) \<le> input_position r"
      using True rp ip kept(2) by (auto simp: bs_def)
    have "bs = take (length bs) (drop (nat (read_position r)) ?c)"
      using rp ip by (simp add: bs_def kept(1) drop_take min_def)
    moreover have "bs = [] \<longrightarrow> n = 0" using True rp by (simp add: bs_def) linarith
    moreover have "seekable_read can_seek ops n r = Some (bs, r\<lparr>read_position := read_position r + int (length bs)\<rparr>)"
      using True rp len(2) by (simp add: seekable_read_def bs_def [symmetric] Let_def)
    moreover have "seekable_ok ops ok content (r\<lparr>read_position := read_position r + int (length bs)\<rparr>)"
      using b rp ip len(2) by (simp add: seekable_ok_def buffered_def)
    ultimately show ?thesis using len(1)
      by (intro exI [of _ bs] exI [of _ "r\<lparr>read_position := read_position r + int (length bs)\<rparr>"]) simp
  next
    case False
    then have ahead: "input_position r \<le> read_position r" using kept(2) ip by simp
    obtain r1 where r1: "(if input_position r < read_position r then do {
               (cs, s) \<leftarrow> copy_loop ops (nat (read_position r - input_position r)) (input r);
               Some (r\<lparr>input := s, temp_file := temp_file r @ cs,
                 input_position := input_position r + int (length cs)\<rparr>) }
             else Some r) = Some r1"
      "buffered ops ok content r1" "content (input r1) = ?c" "input_position r1 = read_position r"
      "read_position r1 = read_position r"
    proof (cases "input_position r < read_position r")
      case True
      obtain cs s where "copy_loop ops (nat (read_position r - input_position r)) (input r) = Some (cs, s)"
        "buffered ops ok content (r\<lparr>input := s, temp_file := temp_file r @ cs, input_position := input_position r + int (length cs)\<rparr>)"
        "content s = ?c" "input_position r + int (length cs) = min (read_position r) (int (length ?c))"
        by (rule catch_up [OF b True])
      then show ?thesis
        using that [of "r\<lparr>input := s, temp_file := temp_file r @ cs, input_position := input_position r + int (length cs)\<rparr>"]
          True rp by simp
    next
      case False
      then have "input_position r = read_position r" using ahead by simp
      then show ?thesis by (intro that [of r] b) simp_all
    qed
    have in1: "ok (input r1)" "get_position ops (input r1) = read_position r"
      using r1(2,4) by (simp_all add: buffered_def)
    obtain bs s where 1: "stream_read ops n (input r1) = Some (bs, s)" "ok s" "content s = ?c"
      "length bs \<le> n" "bs = take (length bs) (drop (nat (read_position r)) ?c)"
      "get_position ops s = read_position r + int (length bs)"
      "bs = [] \<Longrightarrow> n = 0 \<or> read_position r = int (length ?c)"
      using readE [where n = n, OF in1(1) n] unfolding in1(2) r1(3) by metis
    let ?r = "r1\<lparr>input := s, temp_file := temp_file r1 @ bs, read_position := read_position r + int (length bs),
      input_position := read_position r + int (length bs)\<rparr>"
    have "seekable_read can_seek ops n r = Some (bs, ?r)"
      using False r1(1,4,5) 1(1) by (simp add: seekable_read_def)
    moreover have "temp_file r1 @ bs = take (nat (read_position r) + length bs) ?c"
      using r1(2,3,4) 1(5) by (simp only: buffered_def take_add)
    then have "buffered ops ok content ?r"
      using r1(2,3) 1(2,3,6) rp by (simp add: buffered_def nat_add_distrib)
    then have "seekable_ok ops ok content ?r"
      using position [OF 1(2)] 1(3,6) by (simp add: seekable_ok_def)
    ultimately show ?thesis using 1(3,4,5,7) by (intro exI [of _ bs] exI [of _ ?r]) simp
  qed
qed

text \<open>Past the end of the input, a read throws.\<close>

lemma seekable_read_past_end:
  assumes b: "buffered ops ok content r" and p: "int (length (content (input r))) < read_position r"
  shows "seekable_read can_seek ops n r = None"
proof -
  have ip: "0 \<le> input_position r" "input_position r \<le> int (length (content (input r)))"
    using position [of "input r"] b by (auto simp: buffered_def)
  have ahead: "input_position r < read_position r" "\<not> read_position r < int (length (temp_file r))"
    using b ip p by (auto simp: buffered_def)
  obtain cs s where "copy_loop ops (nat (read_position r - input_position r)) (input r) = Some (cs, s)"
    "input_position r + int (length cs) = min (read_position r) (int (length (content (input r))))"
    by (rule catch_up [OF b ahead(1)])
  then show ?thesis using ahead p by (simp add: seekable_read_def)
qed

lemma seekable_byte_source:
  "byte_source (seekable_ops can_seek ops) (seekable_ok ops ok content) (\<lambda>r. content (input r))"
proof unfold_locales
  fix r :: "'s seekable" and n :: nat
  assume r: "seekable_ok ops ok content r" and n: "n < 2 ^ 31"
  show "\<exists>bs r'. stream_read (seekable_ops can_seek ops) n r = Some (bs, r') \<and> seekable_ok ops ok content r'
      \<and> content (input r') = content (input r) \<and> length bs \<le> n
      \<and> bs = take (length bs) (drop (nat (get_position (seekable_ops can_seek ops) r)) (content (input r)))
      \<and> get_position (seekable_ops can_seek ops) r' = get_position (seekable_ops can_seek ops) r + int (length bs)
      \<and> (bs = [] \<longrightarrow> n = 0 \<or> get_position (seekable_ops can_seek ops) r = int (length (content (input r))))"
    using seekable_read_spec [OF r n] by (simp add: seekable_ops_def)
qed (auto simp: seekable_ops_def seekable_ok_def buffered_def seekable_length_def length)

lemma seekable_new_ok:
  "ok s \<Longrightarrow> get_position ops s = 0 \<Longrightarrow> len \<in> {None, Some (int (length (content s)))} \<Longrightarrow>
     seekable_ok ops ok content (seekable_new s len)"
  by (simp add: seekable_ok_def buffered_def seekable_new_def)

end



end
