(* ===== verification/Segmented_Stream.thy ===== *)
theory Segmented_Stream
  imports Byte_Source
begin

text \<open>
  IO/SegmentedStream.cs: a file downloaded by several tasks at once, read while it arrives.
  The state is what the lock protects: the segments, the file written, the offset a reader
  waits for, and what the monitor has chosen. Tasks, monitor and readers interleave: an
  action is what one of them does without giving up control (the body of one lock, or a step
  outside it), a run is any sequence of actions, and an action that is not possible in a
  state changes nothing. A task's reading of its connection is one action with its look at
  the length, as the bytes read depend on nothing that changes in between.
\<close>

record segment =
  seg_offset :: int
  seg_length :: int
  seg_downloaded :: int
  seg_pending :: "u8 list"

record download =
  segments :: "segment list"
  buffer_file :: "u8 list"
  priority_offset :: "int option"
  split_choice :: "nat option"
  split_remaining :: "int option"
  cancelled :: bool

abbreviation seg_end :: "segment \<Rightarrow> int" where
  "seg_end s \<equiv> seg_offset s + seg_length s"

definition is_completed :: "segment \<Rightarrow> bool" where
  "is_completed s \<longleftrightarrow> seg_length s \<le> seg_downloaded s"

definition new_segment :: "int \<Rightarrow> int \<Rightarrow> segment" where
  "new_segment offset len = \<lparr>seg_offset = offset, seg_length = len, seg_downloaded = 0, seg_pending = []\<rparr>"

text \<open>The file is made as long as the source; what it holds before is \<open>junk\<close>.\<close>

definition start_download :: "u8 list \<Rightarrow> download" where
  "start_download junk = \<lparr>segments = [new_segment 0 (int (length junk))], buffer_file = junk,
     priority_offset = None, split_choice = None, split_remaining = None, cancelled = False\<rparr>"

section \<open>Tasks\<close>

definition set_segment :: "nat \<Rightarrow> segment \<Rightarrow> download \<Rightarrow> download" where
  "set_segment i s d = d\<lparr>segments := (segments d)[i := s]\<rparr>"

text \<open>
  \<^verbatim>\<open>DownloadSegmentAsync\<close>: read at most a buffer of what is left of the segment (the
  connection delivers at most \<open>n\<close> bytes of it), write it at the segment's position, or lose it
  to an error.
\<close>

definition fetch_segment :: "u8 list \<Rightarrow> int \<Rightarrow> nat \<Rightarrow> nat \<Rightarrow> download \<Rightarrow> download" where
  "fetch_segment src buf i n d =
     (if i < length (segments d) \<and> \<not> cancelled d then
        let s = segments d ! i in
        if seg_pending s = [] \<and> seg_downloaded s < seg_length s then
          let to_read = min buf (seg_length s - seg_downloaded s)
          in set_segment i (s\<lparr>seg_pending := take (min n (nat to_read))
               (drop (nat (seg_offset s + seg_downloaded s)) src)\<rparr>) d
        else d
      else d)"

definition write_at :: "int \<Rightarrow> u8 list \<Rightarrow> u8 list \<Rightarrow> u8 list" where
  "write_at p bs xs = take (nat p) xs @ bs @ drop (nat p + length bs) xs"

definition store_segment :: "nat \<Rightarrow> download \<Rightarrow> download" where
  "store_segment i d =
     (if i < length (segments d) then
        let s = segments d ! i in
        (set_segment i (s\<lparr>seg_downloaded := seg_downloaded s + int (length (seg_pending s)), seg_pending := []\<rparr>) d)
          \<lparr>buffer_file := write_at (seg_offset s + seg_downloaded s) (seg_pending s) (buffer_file d)\<rparr>
      else d)"

definition fail_segment :: "nat \<Rightarrow> download \<Rightarrow> download" where
  "fail_segment i d =
     (if i < length (segments d) then set_segment i ((segments d ! i)\<lparr>seg_pending := []\<rparr>) d else d)"

section \<open>Monitor\<close>

definition total_progress :: "download \<Rightarrow> int" where
  "total_progress d = sum_list (map seg_downloaded (segments d))"

text \<open>The first of the best by a key among those that qualify.\<close>

fun first_best :: "(segment \<Rightarrow> bool) \<Rightarrow> (segment \<Rightarrow> int) \<Rightarrow> nat \<Rightarrow> segment list \<Rightarrow> nat option" where
  "first_best P key i [] = None"
| "first_best P key i (s # ss) =
     (if P s \<and> (\<forall>t \<in> set ss. P t \<longrightarrow> key t \<le> key s) then Some i else first_best P key (Suc i) ss)"

text \<open>\<^verbatim>\<open>CreateSegmentAtOffsetUnsafe\<close>: cut the segment being downloaded that holds the offset.\<close>

definition create_segment_at :: "int \<Rightarrow> download \<Rightarrow> download option" where
  "create_segment_at p d =
     (if p \<le> 0 \<or> int (length (buffer_file d)) \<le> p then None
      else if list_ex (\<lambda>s. \<not> is_completed s \<and> seg_offset s = p) (segments d) then None
      else case first_best (\<lambda>s. \<not> is_completed s \<and> seg_offset s < p \<and> p < seg_end s)
             (\<lambda>s. - seg_offset s) 0 (segments d) of
        None \<Rightarrow> None
      | Some i \<Rightarrow>
          let s = segments d ! i in
          if p \<le> seg_offset s + seg_downloaded s \<or> seg_end s - p \<le> 0 then None
          else Some (d\<lparr>segments := (segments d)[i := s\<lparr>seg_length := p - seg_offset s\<rparr>]
                 @ [new_segment p (seg_end s - p)]\<rparr>))"

definition min_split :: int where
  "min_split = 2 * 1024 * 1024"

text \<open>The segment with most left to download, if that is enough to be worth a split.\<close>

definition choose_split :: "download \<Rightarrow> download" where
  "choose_split d =
     (case first_best (\<lambda>s. \<not> is_completed s) (\<lambda>s. seg_length s - seg_downloaded s) 0 (segments d) of
        None \<Rightarrow> d
      | Some i \<Rightarrow>
          if seg_length (segments d ! i) - seg_downloaded (segments d ! i) < min_split then d
          else d\<lparr>split_choice := Some i\<rparr>)"

text \<open>
  One round of \<^verbatim>\<open>MonitorTasksAsync\<close>: under the lock, serve a reader's request or choose a
  segment; outside it, measure what is left of the segment; under the lock again, split it.
\<close>

definition monitor_look :: "int \<Rightarrow> download \<Rightarrow> download" where
  "monitor_look concurrency d =
     (if cancelled d \<or> split_choice d \<noteq> None \<or> int (length (buffer_file d)) \<le> total_progress d then d
      else
        let active = int (length (filter (\<lambda>s. \<not> is_completed s) (segments d)));
            (made, active, d) =
              (case priority_offset d of
                 Some p \<Rightarrow>
                   if active < concurrency + 1 then
                     (case create_segment_at p d of
                        Some d \<Rightarrow> (True, active + 1, d\<lparr>priority_offset := None\<rparr>)
                      | None \<Rightarrow> (False, active, d\<lparr>priority_offset := None\<rparr>))
                   else (False, active, d)
               | None \<Rightarrow> (False, active, d))
        in if active < concurrency \<and> \<not> made then
             choose_split d
           else d)"

definition monitor_measure :: "download \<Rightarrow> download" where
  "monitor_measure d =
     (case (split_choice d, split_remaining d) of
        (Some i, None) \<Rightarrow>
          d\<lparr>split_remaining := Some (seg_length (segments d ! i) - seg_downloaded (segments d ! i))\<rparr>
      | _ \<Rightarrow> d)"

text \<open>C# division rounds towards zero.\<close>

definition half :: "int \<Rightarrow> int" where
  "half n = (if n < 0 then - (- n div 2) else n div 2)"

definition monitor_split :: "download \<Rightarrow> download" where
  "monitor_split d =
     (case (split_choice d, split_remaining d) of
        (Some i, Some r) \<Rightarrow>
          let s = segments d ! i; size = half r
          in d\<lparr>segments := (segments d)[i := s\<lparr>seg_length := seg_length s - size\<rparr>]
                 @ [new_segment (seg_end s - size) size],
               split_choice := None, split_remaining := None\<rparr>
      | _ \<Rightarrow> d)"

section \<open>Readers\<close>

definition request_priority :: "int \<Rightarrow> download \<Rightarrow> download" where
  "request_priority p d =
     (if p \<le> 0 \<or> int (length (buffer_file d)) \<le> p then d
      else case priority_offset d of
        None \<Rightarrow> d\<lparr>priority_offset := Some p\<rparr>
      | Some q \<Rightarrow> if p < q then d\<lparr>priority_offset := Some p\<rparr> else d)"

text \<open>The loop of \<^verbatim>\<open>GetContiguousAvailableBytesUnsafe\<close>, from one segment to the one after it.\<close>

definition holds :: "int \<Rightarrow> segment \<Rightarrow> bool" where
  "holds p s \<longleftrightarrow> seg_offset s \<le> p \<and> p < seg_end s"

function available_end :: "segment list \<Rightarrow> int \<Rightarrow> int \<Rightarrow> int" where
  "available_end segs target p =
     (if p < target then
        (case find (holds p) segs of
           None \<Rightarrow> p
         | Some s \<Rightarrow>
             let e = min (seg_offset s + seg_downloaded s) (seg_end s) in
             if e \<le> p then p else available_end segs target (min e target))
      else p)"
  by pat_completeness auto
termination
  by (relation "measure (\<lambda>(_, target, p). nat (target - p))") auto

declare available_end.simps [simp del]

definition contiguous_available :: "int \<Rightarrow> int \<Rightarrow> download \<Rightarrow> int" where
  "contiguous_available p n d =
     (if n \<le> 0 \<or> int (length (buffer_file d)) \<le> p then 0
      else available_end (segments d) (min (int (length (buffer_file d))) (p + n)) p - p)"

text \<open>\<^verbatim>\<open>ReadAt\<close>: the count it reads for, when it stops waiting, and the read under the lock.\<close>

definition clamped_count :: "int \<Rightarrow> int \<Rightarrow> download \<Rightarrow> int" where
  "clamped_count p n d = max 0 (min n (int (length (buffer_file d)) - p))"

definition finished :: "download \<Rightarrow> bool" where
  "finished d \<longleftrightarrow> int (length (buffer_file d)) \<le> total_progress d
     \<and> (cancelled d \<or> list_all is_completed (segments d))"

definition stops_waiting :: "int \<Rightarrow> int \<Rightarrow> download \<Rightarrow> bool" where
  "stops_waiting p n d \<longleftrightarrow> n \<le> contiguous_available p n d \<or> finished d"

definition read_now :: "int \<Rightarrow> int \<Rightarrow> download \<Rightarrow> u8 list" where
  "read_now p n d =
     (let available = contiguous_available p n d;
          n = (if available < n \<and> 0 < available then available else n)
      in if n \<le> 0 then [] else take (nat n) (drop (nat p) (buffer_file d)))"

text \<open>
  The positions of readers: \<^verbatim>\<open>Read\<close> of the stream and of its readers (IO/SegmentedStreamReader.cs)
  moves on by what it read, \<^verbatim>\<open>Seek\<close> of a reader stays inside the file.
\<close>

definition read_next :: "int \<Rightarrow> int \<Rightarrow> download \<Rightarrow> u8 list \<times> int" where
  "read_next pos n d =
     (let bs = read_now pos (clamped_count pos n d) d in (bs, pos + int (length bs)))"

definition reader_seek :: "int \<Rightarrow> seek_origin \<Rightarrow> int \<Rightarrow> download \<Rightarrow> int" where
  "reader_seek offset origin pos d =
     (let len = int (length (buffer_file d));
          p = seek_target len pos offset origin;
          p = (if p < 0 then 0 else p)
      in if len < p then len else p)"

definition scan_progress :: "download \<Rightarrow> int" where
  "scan_progress d =
     fst (foldl (\<lambda>(progress, going) s.
       if \<not> going \<or> progress < seg_offset s then (progress, False)
       else (max progress (seg_offset s + seg_downloaded s), is_completed s))
     (0, True) (sort_key seg_offset (segments d)))"

section \<open>Runs\<close>

datatype action = Task_read nat nat | Task_write nat | Task_fail nat | Monitor_look | Monitor_measure | Monitor_split | Reader_ask int | Cancel_all

fun step :: "u8 list \<Rightarrow> int \<Rightarrow> int \<Rightarrow> action \<Rightarrow> download \<Rightarrow> download" where
  "step src buf conc (Task_read i n) d = fetch_segment src buf i n d"
| "step src buf conc (Task_write i) d = store_segment i d"
| "step src buf conc (Task_fail i) d = fail_segment i d"
| "step src buf conc Monitor_look d = monitor_look conc d"
| "step src buf conc Monitor_measure d = monitor_measure d"
| "step src buf conc Monitor_split d = monitor_split d"
| "step src buf conc (Reader_ask p) d = request_priority p d"
| "step src buf conc Cancel_all d = d\<lparr>cancelled := True\<rparr>"

definition run :: "u8 list \<Rightarrow> int \<Rightarrow> int \<Rightarrow> action list \<Rightarrow> download \<Rightarrow> download" where
  "run src buf conc acts d = foldl (\<lambda>d a. step src buf conc a d) d acts"

section \<open>What the tasks write\<close>

text \<open>The places where the file already is the source.\<close>

definition agree :: "u8 list \<Rightarrow> u8 list \<Rightarrow> nat set" where
  "agree src xs = {j. j < length src \<and> xs ! j = src ! j}"

lemma length_write_at [simp]: "nat p + length bs \<le> length xs \<Longrightarrow> length (write_at p bs xs) = length xs"
  by (simp add: write_at_def)

lemma nth_write_at:
  "nat p + length bs \<le> length xs \<Longrightarrow>
     write_at p bs xs ! j = (if nat p \<le> j \<and> j < nat p + length bs then bs ! (j - nat p) else xs ! j)"
  by (auto simp: write_at_def nth_append)

lemma agree_write_at:
  assumes "nat p + length bs \<le> length src" "length xs = length src"
    and "bs = take (length bs) (drop (nat p) src)"
  shows "agree src (write_at p bs xs) = agree src xs \<union> {nat p..<nat p + length bs}"
proof -
  have "bs ! (j - nat p) = src ! j" if "nat p \<le> j" "j < nat p + length bs" for j
  proof -
    have "bs ! (j - nat p) = take (length bs) (drop (nat p) src) ! (j - nat p)"
      using assms(3) by simp
    also have "\<dots> = src ! j" using that assms(1) by simp
    finally show ?thesis .
  qed
  then show ?thesis using assms(1,2) by (auto simp: agree_def nth_write_at)
qed

lemma agree_slice:
  assumes "{nat p..<nat p + k} \<subseteq> agree src xs" "length xs = length src" "nat p + k \<le> length src"
  shows "take k (drop (nat p) xs) = take k (drop (nat p) src)"
  using assms by (intro nth_equalityI) (auto simp: agree_def subset_iff)

lemma agree_all: "length xs = length src \<Longrightarrow> {..<length src} \<subseteq> agree src xs \<Longrightarrow> xs = src"
  by (intro nth_equalityI) (auto simp: agree_def)

definition seg_ok :: "u8 list \<Rightarrow> int \<Rightarrow> u8 list \<Rightarrow> segment \<Rightarrow> bool" where
  "seg_ok src buf xs s \<longleftrightarrow> 0 \<le> seg_offset s \<and> 0 \<le> seg_length s \<and> 0 \<le> seg_downloaded s
     \<and> seg_end s \<le> int (length src)
     \<and> seg_offset s + seg_downloaded s + int (length (seg_pending s)) \<le> int (length src)
     \<and> int (length (seg_pending s)) \<le> buf
     \<and> seg_pending s = take (length (seg_pending s)) (drop (nat (seg_offset s + seg_downloaded s)) src)
     \<and> {nat (seg_offset s)..<nat (seg_offset s + seg_downloaded s)} \<subseteq> agree src xs"

text \<open>The segment the monitor is about to split has room for what its task has read.\<close>

definition choice_ok :: "download \<Rightarrow> bool" where
  "choice_ok d \<longleftrightarrow>
     (case split_choice d of
        None \<Rightarrow> split_remaining d = None
      | Some i \<Rightarrow> i < length (segments d)
          \<and> seg_downloaded (segments d ! i) + int (length (seg_pending (segments d ! i))) \<le> seg_length (segments d ! i)
          \<and> (case split_remaining d of None \<Rightarrow> True | Some r \<Rightarrow> 0 \<le> r \<and> r \<le> seg_length (segments d ! i)))"

text \<open>Every offset of the file is in exactly one segment.\<close>

definition partitioned :: "nat \<Rightarrow> segment list \<Rightarrow> bool" where
  "partitioned n segs \<longleftrightarrow> (\<forall>p. 0 \<le> p \<and> p < int n \<longrightarrow> length (filter (holds p) segs) = 1)"

definition download_ok :: "u8 list \<Rightarrow> int \<Rightarrow> download \<Rightarrow> bool" where
  "download_ok src buf d \<longleftrightarrow> length (buffer_file d) = length src
     \<and> list_all (seg_ok src buf (buffer_file d)) (segments d) \<and> choice_ok d
     \<and> partitioned (length src) (segments d)"

lemma seg_ok_mono: "seg_ok src buf xs s \<Longrightarrow> agree src xs \<subseteq> agree src ys \<Longrightarrow> seg_ok src buf ys s"
  by (auto simp: seg_ok_def)

lemma list_all_update: "list_all P xs \<Longrightarrow> P y \<Longrightarrow> list_all P (xs[i := y])"
  by (auto simp: list_all_iff dest: set_update_subset_insert [THEN subsetD])

lemma partitioned_same:
  assumes "partitioned n segs" "i < length segs" "seg_offset s = seg_offset (segs ! i)" "seg_length s = seg_length (segs ! i)"
  shows "partitioned n (segs[i := s])"
proof -
  have same: "holds p s = holds p (segs ! i)" for p using assms(3,4) by (simp add: holds_def)
  have "length (filter (holds p) (segs[i := s])) = length (filter (holds p) segs)" for p
    using filter_update [OF assms(2), of "holds p" s] same [of p] by simp
  then show ?thesis using assms(1) by (simp add: partitioned_def)
qed

text \<open>Cutting a segment in two.\<close>

lemma partitioned_cut:
  assumes "partitioned n segs" "i < length segs" "0 \<le> k" "k \<le> seg_length (segs ! i)"
    and "seg_offset s = seg_offset (segs ! i)" "seg_length s = k"
    and "t = new_segment (seg_offset (segs ! i) + k) (seg_length (segs ! i) - k)"
  shows "partitioned n (segs[i := s] @ [t])"
proof -
  have one: "(if holds p s then 1 else 0) + (if holds p t then 1 else 0) = (if holds p (segs ! i) then 1 else (0::nat))" for p
    using assms(3-7) by (auto simp: holds_def new_segment_def)
  have "length (filter (holds p) (segs[i := s] @ [t])) = length (filter (holds p) segs)" for p
    using filter_update [OF assms(2), of "holds p" s] one [of p] by (simp split: if_splits)
  then show ?thesis using assms(1) by (simp add: partitioned_def)
qed

lemma start_ok:
  assumes "length junk = length src" "0 \<le> buf"
  shows "download_ok src buf (start_download junk)"
  using assms by (auto simp: download_ok_def start_download_def new_segment_def seg_ok_def choice_ok_def
      partitioned_def holds_def)

section \<open>Every step keeps the invariant\<close>

lemma fetch_ok:
  assumes d: "download_ok src buf d" and buf: "0 \<le> buf"
  shows "download_ok src buf (fetch_segment src buf i n d)"
proof (cases "i < length (segments d) \<and> \<not> cancelled d \<and> seg_pending (segments d ! i) = []
    \<and> seg_downloaded (segments d ! i) < seg_length (segments d ! i)")
  case True
  define s where "s = segments d ! i"
  define k where "k = min buf (seg_length s - seg_downloaded s)"
  define bs where "bs = take (min n (nat k)) (drop (nat (seg_offset s + seg_downloaded s)) src)"
  have f: "fetch_segment src buf i n d = set_segment i (s\<lparr>seg_pending := bs\<rparr>) d"
    using True by (simp add: fetch_segment_def s_def k_def bs_def Let_def)
  have s: "seg_ok src buf (buffer_file d) s"
    using d True by (simp add: download_ok_def s_def list_all_length)
  have k: "0 \<le> k" "k \<le> buf" "seg_downloaded s + k \<le> seg_length s"
    using True buf by (auto simp: k_def s_def)
  have len: "int (length bs) \<le> k" using k by (simp add: bs_def)
  have "bs = take (length bs) (drop (nat (seg_offset s + seg_downloaded s)) src)"
    by (simp add: bs_def min_def)
  then have "seg_ok src buf (buffer_file d) (s\<lparr>seg_pending := bs\<rparr>)"
    using s k len by (auto simp: seg_ok_def)
  moreover have "choice_ok (set_segment i (s\<lparr>seg_pending := bs\<rparr>) d)"
    using d True k len
    by (auto simp: download_ok_def choice_ok_def set_segment_def nth_list_update s_def split: option.splits)
  moreover have "partitioned (length src) ((segments d)[i := s\<lparr>seg_pending := bs\<rparr>])"
    using d True by (intro partitioned_same) (auto simp: download_ok_def s_def)
  ultimately show ?thesis using d unfolding f
    by (simp add: download_ok_def set_segment_def list_all_update)
next
  case False
  then have "fetch_segment src buf i n d = d" by (auto simp: fetch_segment_def Let_def)
  then show ?thesis using d by simp
qed

lemma store_ok:
  assumes d: "download_ok src buf d"
  shows "download_ok src buf (store_segment i d)"
    and "agree src (buffer_file d) \<subseteq> agree src (buffer_file (store_segment i d))"
proof -
  have "download_ok src buf (store_segment i d)
      \<and> agree src (buffer_file d) \<subseteq> agree src (buffer_file (store_segment i d))"
  proof (cases "i < length (segments d)")
    case True
    define s where "s = segments d ! i"
    define p where "p = seg_offset s + seg_downloaded s"
    define bs where "bs = seg_pending s"
    define t where "t = s\<lparr>seg_downloaded := seg_downloaded s + int (length bs), seg_pending := []\<rparr>"
    define ys where "ys = write_at p bs (buffer_file d)"
    have f: "store_segment i d = (set_segment i t d)\<lparr>buffer_file := ys\<rparr>"
      using True by (simp add: store_segment_def s_def p_def bs_def t_def ys_def Let_def)
    have s: "seg_ok src buf (buffer_file d) s"
      using d True by (simp add: download_ok_def s_def list_all_length)
    have len: "length (buffer_file d) = length src" using d by (simp add: download_ok_def)
    have room: "nat p + length bs \<le> length src" "0 \<le> p" using s by (auto simp: seg_ok_def p_def bs_def)
    have more: "agree src ys = agree src (buffer_file d) \<union> {nat p..<nat p + length bs}"
      unfolding ys_def by (rule agree_write_at [OF room(1) len]) (use s in \<open>simp add: seg_ok_def p_def bs_def\<close>)
    have "nat (seg_offset t + seg_downloaded t) = nat p + length bs"
      using room(2) by (simp add: t_def p_def nat_add_distrib)
    moreover have "{nat (seg_offset s)..<nat p + length bs}
        \<subseteq> {nat (seg_offset s)..<nat p} \<union> {nat p..<nat p + length bs}" by auto
    ultimately have "seg_ok src buf ys t"
      using s more by (auto simp: seg_ok_def t_def p_def bs_def)
    moreover have "list_all (seg_ok src buf ys) (segments d)"
      using d more seg_ok_mono [of src buf "buffer_file d" _ ys] by (auto simp: download_ok_def list_all_iff)
    moreover have "choice_ok (set_segment i t d\<lparr>buffer_file := ys\<rparr>)"
      using d True by (auto simp: download_ok_def choice_ok_def set_segment_def nth_list_update s_def t_def bs_def
          split: option.splits)
    moreover have "partitioned (length src) ((segments d)[i := t])"
      using d True by (intro partitioned_same) (auto simp: download_ok_def s_def t_def)
    moreover have "length ys = length src" using room len by (simp add: ys_def)
    ultimately show ?thesis using more unfolding f
      by (simp add: download_ok_def set_segment_def list_all_update)
  next
    case False
    then show ?thesis using d by (simp add: store_segment_def)
  qed
  then show "download_ok src buf (store_segment i d)"
    and "agree src (buffer_file d) \<subseteq> agree src (buffer_file (store_segment i d))" by simp_all
qed

lemma fail_ok:
  assumes d: "download_ok src buf d" and buf: "0 \<le> buf"
  shows "download_ok src buf (fail_segment i d)"
proof (cases "i < length (segments d)")
  case True
  define s where "s = segments d ! i"
  have "seg_ok src buf (buffer_file d) s"
    using d True by (simp add: download_ok_def s_def list_all_length)
  then have "seg_ok src buf (buffer_file d) (s\<lparr>seg_pending := []\<rparr>)"
    using buf by (auto simp: seg_ok_def)
  moreover have "choice_ok (set_segment i (s\<lparr>seg_pending := []\<rparr>) d)"
    using d True by (auto simp: download_ok_def choice_ok_def set_segment_def nth_list_update s_def split: option.splits)
  moreover have "partitioned (length src) ((segments d)[i := s\<lparr>seg_pending := []\<rparr>])"
    using d True by (intro partitioned_same) (auto simp: download_ok_def s_def)
  ultimately show ?thesis using d True
    by (simp add: fail_segment_def download_ok_def set_segment_def list_all_update s_def)
qed (use d in \<open>simp add: fail_segment_def\<close>)

lemma first_best_Some:
  "first_best P key i ss = Some j \<Longrightarrow> i \<le> j \<and> j < i + length ss \<and> P (ss ! (j - i))"
  by (induction P key i ss rule: first_best.induct) (auto split: if_splits simp: Suc_diff_le)

text \<open>The cut that both the reader's request and the split of the largest segment make.\<close>

lemma cut_ok:
  assumes d: "list_all (seg_ok src buf (buffer_file d)) (segments d)" "partitioned (length src) (segments d)"
    and i: "i < length (segments d)" "0 \<le> k" "k \<le> seg_length (segments d ! i)" and buf: "0 \<le> buf"
  defines "segs \<equiv> (segments d)[i := (segments d ! i)\<lparr>seg_length := k\<rparr>]
      @ [new_segment (seg_offset (segments d ! i) + k) (seg_length (segments d ! i) - k)]"
  shows "list_all (seg_ok src buf (buffer_file d)) segs" and "partitioned (length src) segs"
proof -
  have s: "seg_ok src buf (buffer_file d) (segments d ! i)"
    using d(1) i(1) by (simp add: list_all_length)
  have "seg_ok src buf (buffer_file d) ((segments d ! i)\<lparr>seg_length := k\<rparr>)"
    using s i(2,3) by (auto simp: seg_ok_def)
  moreover have "seg_ok src buf (buffer_file d)
      (new_segment (seg_offset (segments d ! i) + k) (seg_length (segments d ! i) - k))"
    using s i(2,3) buf by (auto simp: seg_ok_def new_segment_def)
  ultimately show "list_all (seg_ok src buf (buffer_file d)) segs"
    using d(1) by (simp add: segs_def list_all_update)
  show "partitioned (length src) segs"
    unfolding segs_def by (rule partitioned_cut [OF d(2) i(1-3)]) simp_all
qed

lemma create_segment_cut:
  assumes "create_segment_at p d = Some d'"
  obtains i k where "i < length (segments d)" "0 \<le> k" "k \<le> seg_length (segments d ! i)"
    "d' = d\<lparr>segments := (segments d)[i := (segments d ! i)\<lparr>seg_length := k\<rparr>]
      @ [new_segment (seg_offset (segments d ! i) + k) (seg_length (segments d ! i) - k)]\<rparr>"
proof -
  from assms obtain i where i: "first_best (\<lambda>s. \<not> is_completed s \<and> seg_offset s < p \<and> p < seg_end s)
      (\<lambda>s. - seg_offset s) 0 (segments d) = Some i"
    and d': "d' = d\<lparr>segments := (segments d)[i := (segments d ! i)\<lparr>seg_length := p - seg_offset (segments d ! i)\<rparr>]
      @ [new_segment p (seg_end (segments d ! i) - p)]\<rparr>"
    by (auto simp: create_segment_at_def Let_def split: if_splits option.splits)
  from first_best_Some [OF i] have "i < length (segments d)" "seg_offset (segments d ! i) < p"
    "p < seg_end (segments d ! i)" by auto
  then show ?thesis using that [of i "p - seg_offset (segments d ! i)"] d' by (simp add: algebra_simps)
qed

lemma create_segment_ok:
  assumes d: "download_ok src buf d" "split_choice d = None" "0 \<le> buf" and c: "create_segment_at p d = Some d'"
  shows "download_ok src buf d' \<and> buffer_file d' = buffer_file d \<and> split_choice d' = None"
proof -
  from c obtain i k where x: "i < length (segments d)" "0 \<le> k" "k \<le> seg_length (segments d ! i)"
    "d' = d\<lparr>segments := (segments d)[i := (segments d ! i)\<lparr>seg_length := k\<rparr>]
      @ [new_segment (seg_offset (segments d ! i) + k) (seg_length (segments d ! i) - k)]\<rparr>"
    by (rule create_segment_cut)
  have "list_all (seg_ok src buf (buffer_file d)) (segments d)" "partitioned (length src) (segments d)"
    using d(1) by (simp_all add: download_ok_def)
  from cut_ok [OF this x(1-3) d(3)] show ?thesis
    using d(1,2) x(4) by (simp add: download_ok_def choice_ok_def)
qed

lemma download_ok_forget [simp]:
  "download_ok src buf (d\<lparr>priority_offset := q\<rparr>) = download_ok src buf d"
  "download_ok src buf (d\<lparr>cancelled := c\<rparr>) = download_ok src buf d"
  by (auto simp: download_ok_def choice_ok_def split: option.split)

lemma choose_split_ok:
  assumes e: "download_ok src buf e" "split_choice e = None" and buf: "buf \<le> min_split"
  shows "download_ok src buf (choose_split e)" and "buffer_file (choose_split e) = buffer_file e"
proof -
  show "download_ok src buf (choose_split e)"
  proof (cases "first_best (\<lambda>s. \<not> is_completed s) (\<lambda>s. seg_length s - seg_downloaded s) 0 (segments e)")
    case (Some i)
    from first_best_Some [OF this] have i: "i < length (segments e)" by simp
    then have "seg_ok src buf (buffer_file e) (segments e ! i)"
      using e(1) by (simp add: download_ok_def list_all_length)
    then have "int (length (seg_pending (segments e ! i))) \<le> buf" by (simp add: seg_ok_def)
    then show ?thesis using Some i e buf by (auto simp: choose_split_def download_ok_def choice_ok_def)
  qed (use e in \<open>simp add: choose_split_def\<close>)
  show "buffer_file (choose_split e) = buffer_file e"
    by (simp add: choose_split_def split: option.split)
qed

lemma look_ok:
  assumes d: "download_ok src buf d" and buf: "0 \<le> buf" "buf \<le> min_split"
  shows "download_ok src buf (monitor_look conc d) \<and> buffer_file (monitor_look conc d) = buffer_file d"
proof (cases "cancelled d \<or> split_choice d \<noteq> None \<or> int (length (buffer_file d)) \<le> total_progress d")
  case True
  then show ?thesis using d by (auto simp: monitor_look_def)
next
  case False
  then have none: "split_choice d = None" by simp
  note same = choose_split_ok [OF d none buf(2)]
  show ?thesis
  proof (cases "priority_offset d")
    case None
    then show ?thesis using False d same by (simp add: monitor_look_def Let_def)
  next
    case (Some p)
    have pr: "download_ok src buf (d\<lparr>priority_offset := None\<rparr>)" "split_choice (d\<lparr>priority_offset := None\<rparr>) = None"
      using d none by simp_all
    show ?thesis
    proof (cases "create_segment_at p d")
      case c: (Some d')
      show ?thesis using False Some c d create_segment_ok [OF d none buf(1) c] same
        by (simp add: monitor_look_def Let_def)
    next
      case c: None
      show ?thesis using False Some c d pr same choose_split_ok [OF pr buf(2)]
        by (simp add: monitor_look_def Let_def)
    qed
  qed
qed

lemma measure_ok:
  assumes "download_ok src buf d"
  shows "download_ok src buf (monitor_measure d) \<and> buffer_file (monitor_measure d) = buffer_file d"
proof -
  have "0 \<le> seg_downloaded (segments d ! i)" if "i < length (segments d)" for i
    using assms that by (simp add: download_ok_def list_all_length seg_ok_def)
  then show ?thesis using assms
    by (auto simp: monitor_measure_def download_ok_def choice_ok_def split: option.splits)
qed

lemma half_bounds: "0 \<le> r \<Longrightarrow> 0 \<le> half r \<and> half r \<le> r"
  by (simp add: half_def)

lemma split_ok:
  assumes d: "download_ok src buf d" and buf: "0 \<le> buf"
  shows "download_ok src buf (monitor_split d) \<and> buffer_file (monitor_split d) = buffer_file d"
proof (cases "\<exists>i r. split_choice d = Some i \<and> split_remaining d = Some r")
  case True
  then obtain i r where ir: "split_choice d = Some i" "split_remaining d = Some r" by blast
  let ?k = "seg_length (segments d ! i) - half r"
  have i: "i < length (segments d)" "0 \<le> r" "r \<le> seg_length (segments d ! i)"
    using d ir by (simp_all add: download_ok_def choice_ok_def)
  then have k: "0 \<le> ?k" "?k \<le> seg_length (segments d ! i)" using half_bounds [OF i(2)] by auto
  have "list_all (seg_ok src buf (buffer_file d)) (segments d)" "partitioned (length src) (segments d)"
    using d by (simp_all add: download_ok_def)
  note cut = cut_ok [OF this i(1) k buf]
  have "monitor_split d = d\<lparr>segments := (segments d)[i := (segments d ! i)\<lparr>seg_length := ?k\<rparr>]
      @ [new_segment (seg_offset (segments d ! i) + ?k) (seg_length (segments d ! i) - ?k)],
      split_choice := None, split_remaining := None\<rparr>"
    using ir by (simp add: monitor_split_def Let_def algebra_simps)
  then show ?thesis using cut d by (simp add: download_ok_def choice_ok_def)
next
  case False
  then have "monitor_split d = d" by (auto simp: monitor_split_def split: option.splits)
  then show ?thesis using d by simp
qed

lemma ask_ok:
  "download_ok src buf d \<Longrightarrow> download_ok src buf (request_priority p d) \<and> buffer_file (request_priority p d) = buffer_file d"
  by (auto simp: request_priority_def download_ok_def choice_ok_def split: option.splits)

lemma fetch_file: "buffer_file (fetch_segment src buf i n d) = buffer_file d"
  by (simp add: fetch_segment_def set_segment_def Let_def)

lemma fail_file: "buffer_file (fail_segment i d) = buffer_file d"
  by (simp add: fail_segment_def set_segment_def)

lemma step_ok:
  assumes "download_ok src buf d" "0 \<le> buf" "buf \<le> min_split"
  shows "download_ok src buf (step src buf conc a d) \<and> agree src (buffer_file d) \<subseteq> agree src (buffer_file (step src buf conc a d))"
proof (cases a)
  case Cancel_all
  then show ?thesis using assms by simp
qed (use assms fetch_ok fetch_file store_ok fail_ok fail_file look_ok measure_ok split_ok ask_ok in auto)

lemma run_ok:
  "download_ok src buf d \<Longrightarrow> 0 \<le> buf \<Longrightarrow> buf \<le> min_split \<Longrightarrow>
   download_ok src buf (run src buf conc acts d) \<and> agree src (buffer_file d) \<subseteq> agree src (buffer_file (run src buf conc acts d))"
proof (induction acts arbitrary: d)
  case (Cons a acts)
  from step_ok [OF Cons.prems, of conc a] Cons.IH [OF _ Cons.prems(2,3), of "step src buf conc a d"]
  show ?case by (auto simp: run_def)
qed (simp add: run_def)

section \<open>What readers see\<close>

lemma available_end_agree:
  "list_all (seg_ok src buf xs) segs \<Longrightarrow> 0 \<le> p \<Longrightarrow>
     p \<le> available_end segs target p \<and> (p \<le> target \<longrightarrow> available_end segs target p \<le> target)
     \<and> {nat p..<nat (available_end segs target p)} \<subseteq> agree src xs"
proof (induction segs target p rule: available_end.induct)
  case (1 segs target p)
  show ?case
  proof (cases "\<exists>s. p < target \<and> find (holds p) segs = Some s \<and> p < min (seg_offset s + seg_downloaded s) (seg_end s)")
    case True
    then obtain s where s: "p < target" "find (holds p) segs = Some s"
      "p < min (seg_offset s + seg_downloaded s) (seg_end s)" by blast
    define q where "q = min (min (seg_offset s + seg_downloaded s) (seg_end s)) target"
    have eq: "available_end segs target p = available_end segs target q"
      using s by (subst available_end.simps) (simp add: q_def Let_def not_le [symmetric] del: min_less_iff_conj)
    have "s \<in> set segs" "seg_offset s \<le> p"
      using s(2) by (auto simp: find_Some_iff holds_def)
    then have ok: "{nat (seg_offset s)..<nat (seg_offset s + seg_downloaded s)} \<subseteq> agree src xs"
      using 1(2) by (auto simp: list_all_iff seg_ok_def)
    have "nat (seg_offset s) \<le> nat p" "nat q \<le> nat (seg_offset s + seg_downloaded s)"
      using \<open>seg_offset s \<le> p\<close> by (auto simp: q_def intro: nat_mono)
    then have "{nat p..<nat q} \<subseteq> agree src xs"
      using ok by (meson atLeastLessThan_subset_iff ivl_subset order_trans)
    moreover have "q \<le> available_end segs target q \<and> (q \<le> target \<longrightarrow> available_end segs target q \<le> target)
        \<and> {nat q..<nat (available_end segs target q)} \<subseteq> agree src xs"
      unfolding q_def by (rule "1.IH" [OF s(1,2) refl]) (use s 1(2,3) in auto)
    moreover have "p < q" "q \<le> target" using s by (auto simp: q_def)
    moreover have "{nat p..<nat (available_end segs target q)}
        \<subseteq> {nat p..<nat q} \<union> {nat q..<nat (available_end segs target q)}" by auto
    ultimately show ?thesis unfolding eq by auto
  next
    case False
    then have "available_end segs target p = p"
      by (subst available_end.simps) (auto simp: Let_def split: option.splits)
    then show ?thesis by simp
  qed
qed

lemma find_partitioned:
  assumes "partitioned n segs" "0 \<le> p" "p < int n"
  obtains s where "find (holds p) segs = Some s" "s \<in> set segs" "holds p s"
proof -
  have "filter (holds p) segs \<noteq> []" using assms by (auto simp: partitioned_def)
  then have "find (holds p) segs \<noteq> None" by (auto simp: find_None_iff filter_empty_conv)
  then obtain s where "find (holds p) segs = Some s" by blast
  moreover from this have "s \<in> set segs" "holds p s" by (auto simp: find_Some_iff)
  ultimately show ?thesis using that by blast
qed

text \<open>When every segment is complete, everything is available.\<close>

lemma available_end_complete:
  "list_all is_completed segs \<Longrightarrow> partitioned n segs \<Longrightarrow> 0 \<le> p \<Longrightarrow> p \<le> target \<Longrightarrow> target \<le> int n \<Longrightarrow>
     available_end segs target p = target"
proof (induction segs target p rule: available_end.induct)
  case (1 segs target p)
  show ?case
  proof (cases "p < target")
    case True
    obtain s where s: "find (holds p) segs = Some s" "s \<in> set segs" "holds p s"
      by (rule find_partitioned [OF 1(3,4)]) (use True 1(6) in auto)
    have "min (seg_offset s + seg_downloaded s) (seg_end s) = seg_end s"
      using s(2) 1(2) by (auto simp: list_all_iff is_completed_def)
    moreover have "p < seg_end s" using s(3) by (simp add: holds_def)
    ultimately show ?thesis
      using "1.IH" [OF True s(1) refl] True s(1) 1(2-6) by (subst available_end.simps) (simp add: Let_def)
  qed (use 1(5) in \<open>simp add: available_end.simps\<close>)
qed

lemma contiguous_agree:
  assumes "download_ok src buf d" "0 \<le> p" "p < int (length src)" "n \<le> int (length src) - p"
  shows "0 \<le> contiguous_available p n d"
    and "0 < n \<Longrightarrow> contiguous_available p n d \<le> n"
    and "{nat p..<nat (p + contiguous_available p n d)} \<subseteq> agree src (buffer_file d)"
proof -
  note a = available_end_agree [of src buf "buffer_file d" "segments d" p "min (int (length (buffer_file d))) (p + n)"]
  have ok: "list_all (seg_ok src buf (buffer_file d)) (segments d)" "length (buffer_file d) = length src"
    using assms(1) by (simp_all add: download_ok_def)
  show "0 \<le> contiguous_available p n d" "0 < n \<Longrightarrow> contiguous_available p n d \<le> n"
    "{nat p..<nat (p + contiguous_available p n d)} \<subseteq> agree src (buffer_file d)"
    using a ok assms(2-4) by (auto simp: contiguous_available_def)
qed

lemma complete_available:
  assumes "download_ok src buf d" "list_all is_completed (segments d)" "0 \<le> p" "0 < n" "p + n \<le> int (length src)"
  shows "contiguous_available p n d = n"
  using available_end_complete [of "segments d" "length src" p "p + n"] assms
  by (simp add: download_ok_def contiguous_available_def)

lemma complete_file:
  assumes "download_ok src buf d" "list_all is_completed (segments d)"
  shows "buffer_file d = src"
proof -
  have "j \<in> agree src (buffer_file d)" if "j < length src" for j
  proof -
    obtain s where s: "s \<in> set (segments d)" "holds (int j) s"
      by (rule find_partitioned [of "length src" "segments d" "int j"]) (use assms(1) \<open>j < length src\<close> in \<open>auto simp: download_ok_def\<close>)
    then have "nat (seg_offset s) \<le> j" "j < nat (seg_offset s + seg_downloaded s)"
      using assms(2) by (auto simp: list_all_iff is_completed_def holds_def)
    moreover have "{nat (seg_offset s)..<nat (seg_offset s + seg_downloaded s)} \<subseteq> agree src (buffer_file d)"
      using s(1) assms(1) by (simp add: download_ok_def list_all_iff seg_ok_def)
    ultimately show ?thesis by (intro subsetD [of _ "agree src (buffer_file d)"]) auto
  qed
  then show ?thesis using assms(1) agree_all [of "buffer_file d" src] by (auto simp: download_ok_def)
qed

lemma read_now_agree:
  assumes d: "download_ok src buf d" and n: "0 \<le> p" "0 < n" "p + n \<le> int (length src)"
    and there: "{nat p..<nat (p + n)} \<subseteq> agree src (buffer_file d)"
  shows "\<exists>k. 0 < k \<and> k \<le> nat n \<and> read_now p n d = take k (drop (nat p) src)"
proof -
  define k where "k = (if contiguous_available p n d < n \<and> 0 < contiguous_available p n d
      then contiguous_available p n d else n)"
  have k: "0 < k" "k \<le> n" using n(2) by (auto simp: k_def)
  have len: "length (buffer_file d) = length src" using d by (simp add: download_ok_def)
  have "{nat p..<nat p + nat k} \<subseteq> {nat p..<nat (p + n)}" using k n by auto
  then have "take (nat k) (drop (nat p) (buffer_file d)) = take (nat k) (drop (nat p) src)"
    using there k n len by (intro agree_slice) auto
  moreover have "read_now p n d = take (nat k) (drop (nat p) (buffer_file d))"
    using k(1) by (simp add: read_now_def Let_def k_def)
  ultimately show ?thesis using k by (intro exI [of _ "nat k"]) auto
qed

lemma scan_agree:
  assumes "list_all (seg_ok src buf xs) segs" "0 \<le> q" "q \<le> int (length src)" "{..<nat q} \<subseteq> agree src xs"
  shows "0 \<le> fst (foldl (\<lambda>(progress, going) s.
       if \<not> going \<or> progress < seg_offset s then (progress, False)
       else (max progress (seg_offset s + seg_downloaded s), is_completed s)) (q, going) segs)
    \<and> fst (foldl (\<lambda>(progress, going) s.
       if \<not> going \<or> progress < seg_offset s then (progress, False)
       else (max progress (seg_offset s + seg_downloaded s), is_completed s)) (q, going) segs) \<le> int (length src)
    \<and> {..<nat (fst (foldl (\<lambda>(progress, going) s.
       if \<not> going \<or> progress < seg_offset s then (progress, False)
       else (max progress (seg_offset s + seg_downloaded s), is_completed s)) (q, going) segs))} \<subseteq> agree src xs"
  using assms
proof (induction segs arbitrary: q going)
  case (Cons s segs)
  show ?case
  proof (cases "\<not> going \<or> q < seg_offset s")
    case True
    then show ?thesis using Cons by auto
  next
    case False
    let ?q = "max q (seg_offset s + seg_downloaded s)"
    have s: "seg_ok src buf xs s" using Cons.prems(1) by simp
    have "0 \<le> ?q" "?q \<le> int (length src)" using s Cons.prems(2,3) by (auto simp: seg_ok_def)
    moreover have "{..<nat ?q} \<subseteq> {..<nat q} \<union> {nat (seg_offset s)..<nat (seg_offset s + seg_downloaded s)}"
      using False by auto
    then have "{..<nat ?q} \<subseteq> agree src xs" using s Cons.prems(4) by (auto simp: seg_ok_def)
    ultimately show ?thesis using Cons.IH [of ?q "is_completed s"] Cons.prems(1) False by auto
  qed
qed simp

section \<open>Completion\<close>

definition rest :: "segment \<Rightarrow> nat" where
  "rest s = nat (seg_length s - seg_downloaded s)"

definition sweep :: "nat \<Rightarrow> nat \<Rightarrow> action list" where
  "sweep n k = concat (map (\<lambda>i. [Task_read i n, Task_write i]) [0..<k])"

lemma run_append: "run src buf conc (acts @ bs) d = run src buf conc bs (run src buf conc acts d)"
  by (simp add: run_def)

text \<open>A segment's task that reads once and writes what it read gets at least a byte further.\<close>

lemma advance:
  assumes d: "download_ok src buf d" "0 < buf" "0 < n" "\<not> cancelled d" and i: "i < length (segments d)"
  defines "d' \<equiv> store_segment i (fetch_segment src buf i n d)"
  shows "\<exists>t. segments d' = (segments d)[i := t] \<and> rest t \<le> rest (segments d ! i) - 1 \<and> \<not> cancelled d'"
proof -
  define s where "s = segments d ! i"
  have s: "seg_ok src buf (buffer_file d) s" using d(1) i by (simp add: download_ok_def list_all_length s_def)
  show ?thesis
  proof (cases "seg_pending s = [] \<and> seg_downloaded s < seg_length s")
    case True
    define bs where "bs = take (min n (nat (min buf (seg_length s - seg_downloaded s))))
      (drop (nat (seg_offset s + seg_downloaded s)) src)"
    have "seg_offset s + seg_downloaded s < int (length src)" "0 \<le> seg_offset s + seg_downloaded s"
      using s True by (auto simp: seg_ok_def)
    then have "bs \<noteq> []" using True d(2,3) by (auto simp: bs_def)
    then obtain m where m: "length bs = Suc m" by (cases bs) auto
    have "segments d' = (segments d)[i := s\<lparr>seg_downloaded := seg_downloaded s + int (length bs), seg_pending := []\<rparr>]"
      and "\<not> cancelled d'"
      using True d(4) i by (simp_all add: d'_def fetch_segment_def store_segment_def set_segment_def s_def bs_def Let_def)
    then show ?thesis
      by (intro exI [of _ "s\<lparr>seg_downloaded := seg_downloaded s + int (length bs), seg_pending := []\<rparr>"])
        (auto simp: rest_def s_def m)
  next
    case False
    then have f: "fetch_segment src buf i n d = d" by (auto simp: fetch_segment_def s_def Let_def)
    have "segments d' = (segments d)[i := s\<lparr>seg_downloaded := seg_downloaded s + int (length (seg_pending s)), seg_pending := []\<rparr>]"
      and "\<not> cancelled d'"
      using d(4) i by (simp_all add: d'_def f store_segment_def set_segment_def s_def Let_def)
    moreover have "seg_pending s = [] \<Longrightarrow> rest s = 0" using False by (auto simp: rest_def)
    ultimately show ?thesis
      by (intro exI [of _ "s\<lparr>seg_downloaded := seg_downloaded s + int (length (seg_pending s)), seg_pending := []\<rparr>"])
        (cases "seg_pending s", auto simp: rest_def s_def)
  qed
qed

lemma sweep_advances:
  assumes "download_ok src buf d" "0 < buf" "buf \<le> min_split" "0 < n" "\<not> cancelled d" "k \<le> length (segments d)"
  shows "let d' = run src buf conc (sweep n k) d in
    download_ok src buf d' \<and> \<not> cancelled d' \<and> length (segments d') = length (segments d)
    \<and> (\<forall>j < length (segments d). rest (segments d' ! j) \<le> rest (segments d ! j) - (if j < k then 1 else 0))"
  using assms(6)
proof (induction k)
  case 0
  then show ?case using assms(1,5) by (simp add: sweep_def run_def)
next
  case (Suc k)
  define e where "e = run src buf conc (sweep n k) d"
  have e: "download_ok src buf e" "\<not> cancelled e" "length (segments e) = length (segments d)"
    "\<And>j. j < length (segments d) \<Longrightarrow> rest (segments e ! j) \<le> rest (segments d ! j) - (if j < k then 1 else 0)"
    using Suc by (simp_all add: e_def Let_def)
  define f where "f = store_segment k (fetch_segment src buf k n e)"
  have run: "run src buf conc (sweep n (Suc k)) d = f"
    by (simp add: sweep_def run_append e_def f_def) (simp add: run_def)
  have "k < length (segments e)" using e(3) Suc.prems by simp
  from advance [OF e(1) assms(2,4) e(2) this] obtain t where t: "segments f = (segments e)[k := t]"
    "rest t \<le> rest (segments e ! k) - 1" "\<not> cancelled f" by (auto simp: f_def)
  have "download_ok src buf f"
    unfolding f_def using assms(2) by (intro store_ok(1) fetch_ok e(1)) simp
  moreover have "rest (segments f ! j) \<le> rest (segments d ! j) - (if j < Suc k then 1 else 0)"
    if "j < length (segments d)" for j
    using t(1,2) e(3) e(4) [OF that] that by (auto simp: nth_list_update less_Suc_eq)
  ultimately show ?case using t(1,3) e(3) by (simp add: run Let_def)
qed

lemma sweeps_advance:
  assumes "download_ok src buf d" "0 < buf" "buf \<le> min_split" "0 < n" "\<not> cancelled d"
  shows "let d' = run src buf conc (concat (replicate m (sweep n (length (segments d))))) d in
    download_ok src buf d' \<and> \<not> cancelled d' \<and> length (segments d') = length (segments d)
    \<and> (\<forall>j < length (segments d). rest (segments d' ! j) \<le> rest (segments d ! j) - m)"
proof (induction m)
  case 0
  then show ?case using assms(1,5) by (simp add: run_def)
next
  case (Suc m)
  define e where "e = run src buf conc (concat (replicate m (sweep n (length (segments d))))) d"
  have e: "download_ok src buf e" "\<not> cancelled e" "length (segments e) = length (segments d)"
    "\<And>j. j < length (segments d) \<Longrightarrow> rest (segments e ! j) \<le> rest (segments d ! j) - m"
    using Suc by (simp_all add: e_def Let_def)
  have run: "run src buf conc (concat (replicate (Suc m) (sweep n (length (segments d))))) d
      = run src buf conc (sweep n (length (segments d))) e"
    unfolding e_def run_append [symmetric] by (simp add: replicate_append_same [symmetric] del: replicate_append_same)
  have "length (segments d) \<le> length (segments e)" using e(3) by simp
  note sw = sweep_advances [OF e(1) assms(2-4) e(2) this, of conc, unfolded Let_def]
  have "rest (segments (run src buf conc (sweep n (length (segments d))) e) ! j) \<le> rest (segments d ! j) - Suc m"
    if j: "j < length (segments d)" for j
  proof -
    have "rest (segments (run src buf conc (sweep n (length (segments d))) e) ! j) \<le> rest (segments e ! j) - 1"
      using sw j e(3) by auto
    then show ?thesis using e(4) [OF j] by linarith
  qed
  then show ?case unfolding run Let_def using sw e(3) by simp
qed

section \<open>Properties\<close>

lemma started_run_ok:
  assumes "length junk = length src" "0 < buf" "buf \<le> min_split"
  shows "download_ok src buf (run src buf conc acts (start_download junk))"
  using run_ok [OF start_ok [OF assms(1)]] assms by simp



text \<open>C9. Whatever the interleaving of a download, every offset of the file stays in exactly one
  segment, everything a segment counts as downloaded is in the file, and so is everything that
  the scan reports; a download all of whose segments are complete has the source in its file.\<close>

theorem segmented_download_invariant:
  assumes "length junk = length src" and "0 < buf" and "buf \<le> min_split"
    and "d = run src buf conc acts (start_download junk)"
  shows "(\<forall>p. 0 \<le> p \<and> p < int (length src) \<longrightarrow> length (filter (holds p) (segments d)) = 1)
    \<and> list_all (\<lambda>s. take (nat (seg_downloaded s)) (drop (nat (seg_offset s)) (buffer_file d))
         = take (nat (seg_downloaded s)) (drop (nat (seg_offset s)) src)) (segments d)
    \<and> take (nat (scan_progress d)) (buffer_file d) = take (nat (scan_progress d)) src
    \<and> (list_all is_completed (segments d) \<longrightarrow> buffer_file d = src)"
proof -
  have d: "download_ok src buf d" unfolding assms(4) by (rule started_run_ok [OF assms(1-3)])
  have len: "length (buffer_file d) = length src" using d by (simp add: download_ok_def)
  have "take (nat (seg_downloaded s)) (drop (nat (seg_offset s)) (buffer_file d))
      = take (nat (seg_downloaded s)) (drop (nat (seg_offset s)) src)" if "s \<in> set (segments d)" for s
  proof -
    have s: "seg_ok src buf (buffer_file d) s" using d that by (simp add: download_ok_def list_all_iff)
    then have "nat (seg_offset s + seg_downloaded s) = nat (seg_offset s) + nat (seg_downloaded s)"
      by (simp add: seg_ok_def nat_add_distrib)
    with s show ?thesis by (intro agree_slice [OF _ len]) (auto simp: seg_ok_def)
  qed
  moreover have "list_all (seg_ok src buf (buffer_file d)) (sort_key seg_offset (segments d))"
    using d by (simp add: download_ok_def list_all_iff)
  from scan_agree [OF this, of 0 True] have scan: "0 \<le> scan_progress d" "scan_progress d \<le> int (length src)"
    "{..<nat (scan_progress d)} \<subseteq> agree src (buffer_file d)" by (simp_all add: scan_progress_def)
  have "take (nat (scan_progress d)) (buffer_file d) = take (nat (scan_progress d)) src"
    using agree_slice [of 0 "nat (scan_progress d)" src "buffer_file d"] scan len
    by (auto simp: atLeast0LessThan)
  ultimately show ?thesis
    using d complete_file [OF d] by (auto simp: download_ok_def partitioned_def list_all_iff)
qed

theorem segmented_download_invariant_witness:
  "let d = run [5, 6, 7] 2 4 [Task_read 0 1, Task_write 0, Reader_ask 2, Monitor_look] (start_download [0, 0, 0]) in
     length (segments d) = 2 \<and> length (filter (holds 2) (segments d)) = 1 \<and> scan_progress d = 1
     \<and> take 1 (buffer_file d) = [5]"
proof -
  have "length (segments (run [5, 6, 7] 2 4 [Task_read 0 1, Task_write 0, Reader_ask 2, Monitor_look] (start_download [0, 0, 0]))) = 2"
    "scan_progress (run [5, 6, 7] 2 4 [Task_read 0 1, Task_write 0, Reader_ask 2, Monitor_look] (start_download [0, 0, 0])) = 1"
    by code_simp+
  with segmented_download_invariant [OF _ _ _ refl, where src = "[5, 6, 7]" and junk = "[0, 0, 0]" and buf = 2
      and conc = 4 and acts = "[Task_read 0 1, Task_write 0, Reader_ask 2, Monitor_look]"]
  show ?thesis by (simp add: min_split_def Let_def)
qed

text \<open>C11. From wherever a download that was not cancelled has come, if every task gets its turn often
  enough, with a connection that delivers something, all segments complete and the file is the
  source.\<close>

theorem segmented_download_completes:
  assumes "length junk = length src" and "0 < buf" and "buf \<le> min_split" and "0 < n"
    and "d = run src buf conc acts (start_download junk)" and "\<not> cancelled d"
  shows "let d' = run src buf conc (concat (replicate (length src) (sweep n (length (segments d))))) d in
    list_all is_completed (segments d') \<and> buffer_file d' = src"
proof -
  have d: "download_ok src buf d" unfolding assms(5) by (rule started_run_ok [OF assms(1-3)])
  define e where "e = run src buf conc (concat (replicate (length src) (sweep n (length (segments d))))) d"
  have e: "download_ok src buf e" "length (segments e) = length (segments d)"
    "\<And>j. j < length (segments d) \<Longrightarrow> rest (segments e ! j) \<le> rest (segments d ! j) - length src"
    using sweeps_advance [OF d assms(2-4,6), where m = "length src" and conc = conc] by (simp_all add: e_def Let_def)
  have "rest (segments d ! j) \<le> length src" if "j < length (segments d)" for j
    using d that by (auto simp: download_ok_def list_all_length seg_ok_def rest_def)
  then have all: "list_all is_completed (segments e)"
    using e(2,3) by (force simp: list_all_length rest_def is_completed_def)
  moreover have "buffer_file e = src" by (rule complete_file [OF e(1) all])
  ultimately show ?thesis by (simp add: Let_def e_def [symmetric])
qed

theorem segmented_download_completes_witness:
  "let d' = run [5, 6, 7] 2 4 (concat (replicate 3 (sweep 1 2)))
      (run [5, 6, 7] 2 4 [Reader_ask 2, Monitor_look, Task_read 0 1] (start_download [0, 0, 0]))
   in list_all is_completed (segments d') \<and> buffer_file d' = [5, 6, 7]"
proof -
  have "\<not> cancelled (run [5, 6, 7] 2 4 [Reader_ask 2, Monitor_look, Task_read 0 1] (start_download [0, 0, 0]))"
    "length (segments (run [5, 6, 7] 2 4 [Reader_ask 2, Monitor_look, Task_read 0 1] (start_download [0, 0, 0]))) = 2"
    by code_simp+
  with segmented_download_completes [OF _ _ _ _ refl this(1), where n = 1]
  show ?thesis by (simp add: min_split_def Let_def numeral_3_eq_3)
qed


end
