(* ===== verification/Net_Strings.thy ===== *)
theory Net_Strings
  imports Main
begin

text \<open>
  What the host application uses of the .NET string library, on strings of the first 256
  code points: \<^verbatim>\<open>Trim\<close>, \<^verbatim>\<open>ToLowerInvariant\<close>, \<^verbatim>\<open>IndexOf\<close>, \<^verbatim>\<open>StartsWith\<close>, comparison without
  regard to case, \<^verbatim>\<open>long.TryParse\<close> and the printing of a \<^verbatim>\<open>long\<close>. Cultures are the
  invariant one.
\<close>

named_theorems net_string_simps \<open>strings of the library\<close>

abbreviation code :: "char \<Rightarrow> nat" where
  "code c \<equiv> of_char c"

definition is_white :: "char \<Rightarrow> bool" where
  "is_white c \<longleftrightarrow> (9 \<le> code c \<and> code c \<le> 13) \<or> code c = 32 \<or> code c = 0x85 \<or> code c = 0xA0"

definition trim :: "string \<Rightarrow> string" where
  "trim s = rev (dropWhile is_white (rev (dropWhile is_white s)))"

definition is_white_string :: "string \<Rightarrow> bool" where
  "is_white_string s \<longleftrightarrow> list_all is_white s"

definition lower_char :: "char \<Rightarrow> char" where
  "lower_char c =
     (if (65 \<le> code c \<and> code c \<le> 90) \<or> (0xC0 \<le> code c \<and> code c \<le> 0xDE \<and> code c \<noteq> 0xD7)
      then char_of (code c + 32) else c)"

definition to_lower :: "string \<Rightarrow> string" where
  "to_lower s = map lower_char s"

definition equals_ignore_case :: "string \<Rightarrow> string \<Rightarrow> bool" where
  "equals_ignore_case s t \<longleftrightarrow> to_lower s = to_lower t"

primrec index_of :: "char \<Rightarrow> string \<Rightarrow> nat option" where
  "index_of c [] = None"
| "index_of c (x # xs) = (if x = c then Some 0 else map_option Suc (index_of c xs))"

definition starts_with :: "string \<Rightarrow> string \<Rightarrow> bool" where
  "starts_with p s \<longleftrightarrow> take (length p) s = p"

definition ends_with :: "string \<Rightarrow> string \<Rightarrow> bool" where
  "ends_with p s \<longleftrightarrow> starts_with (rev p) (rev s)"

section \<open>Trimming and searching\<close>

lemma index_of_append [net_string_simps]:
  "c \<notin> set xs \<Longrightarrow> index_of c (xs @ c # ys) = Some (length xs)"
  by (induction xs) auto

lemma index_of_None_iff [net_string_simps]: "index_of c s = None \<longleftrightarrow> c \<notin> set s"
  by (induction s) auto

lemma index_of_SomeD:
  "index_of c s = Some i \<Longrightarrow> i < length s \<and> s = take i s @ c # drop (Suc i) s \<and> c \<notin> set (take i s)"
  by (induction s arbitrary: i) (auto split: if_splits)

lemma dropWhile_tight:
  "s = [] \<or> \<not> P (hd s) \<Longrightarrow> dropWhile P s = s"
  by (cases s) auto

text \<open>A string is tight when there is nothing to trim.\<close>

definition tight :: "string \<Rightarrow> bool" where
  "tight s \<longleftrightarrow> s = [] \<or> (\<not> is_white (hd s) \<and> \<not> is_white (last s))"

lemma trim_tight [net_string_simps]: "tight s \<Longrightarrow> trim s = s"
  by (cases "s = []") (auto simp: trim_def tight_def dropWhile_tight hd_rev)

lemma tight_trim: "tight (trim s)"
proof (cases "trim s = []")
  case False
  define t where "t = dropWhile is_white s"
  have ne: "dropWhile is_white (rev t) \<noteq> []" using False by (simp add: trim_def t_def)
  then have "\<not> is_white (hd (dropWhile is_white (rev t)))" by (rule hd_dropWhile)
  then have last: "\<not> is_white (last (trim s))" using ne by (simp add: trim_def t_def last_rev)
  obtain k where k: "rev t = k @ dropWhile is_white (rev t)"
    by (metis takeWhile_dropWhile_id)
  then have "t = trim s @ rev k" unfolding trim_def t_def [symmetric] by (metis rev_append rev_rev_ident)
  then have "hd (trim s) = hd t" "t \<noteq> []" using False by auto
  then have "\<not> is_white (hd (trim s))" using hd_dropWhile [of is_white s] by (simp add: t_def)
  with last show ?thesis by (simp add: tight_def)
qed (simp add: tight_def)

lemma trim_trim [simp]: "trim (trim s) = trim s"
  by (rule trim_tight) (rule tight_trim)

lemma trim_Nil [simp]: "trim [] = []"
  by (simp add: trim_def)

lemma is_white_string_trim: "is_white_string s \<longleftrightarrow> trim s = []"
proof -
  have "(\<forall>c \<in> set (dropWhile is_white s). is_white c) \<longleftrightarrow> dropWhile is_white s = []"
    using hd_dropWhile [of is_white s] by (cases "dropWhile is_white s") (simp_all del: dropWhile_eq_Nil_conv)
  then show ?thesis
    by (simp add: trim_def is_white_string_def list_all_iff del: dropWhile_eq_Nil_conv)
      (simp add: dropWhile_eq_Nil_conv)
qed

lemma is_white_string_Nil [simp]: "is_white_string []"
  by (simp add: is_white_string_def)

section \<open>Numbers\<close>

definition is_digit :: "char \<Rightarrow> bool" where
  "is_digit c \<longleftrightarrow> 48 \<le> code c \<and> code c \<le> 57"

definition digit_char :: "nat \<Rightarrow> char" where
  "digit_char d = char_of (48 + d)"

definition digits_value :: "string \<Rightarrow> nat" where
  "digits_value s = foldl (\<lambda>a c. 10 * a + (code c - 48)) 0 s"

definition number_white :: "char \<Rightarrow> bool" where
  "number_white c \<longleftrightarrow> (9 \<le> code c \<and> code c \<le> 13) \<or> code c = 32"

definition read_sign :: "string \<Rightarrow> bool \<times> string" where
  "read_sign s =
     (case s of [] \<Rightarrow> (False, [])
      | c # cs \<Rightarrow> if c = CHR ''-'' then (True, cs) else if c = CHR ''+'' then (False, cs) else (False, s))"

text \<open>\<^verbatim>\<open>long.TryParse\<close>: white space, a sign, digits, white space, then nothing but null characters.\<close>

definition parse_long :: "string \<Rightarrow> int option" where
  "parse_long s =
     (let (neg, t) = read_sign (dropWhile number_white s);
          ds = takeWhile is_digit t;
          rest = dropWhile number_white (dropWhile is_digit t);
          n = (if neg then - int (digits_value ds) else int (digits_value ds))
      in if ds = [] \<or> \<not> list_all (\<lambda>c. code c = 0) rest \<or> n < - (2 ^ 63) \<or> 2 ^ 63 \<le> n then None
         else Some n)"

fun print_nat :: "nat \<Rightarrow> string" where
  "print_nat n = (if n < 10 then [digit_char n] else print_nat (n div 10) @ [digit_char (n mod 10)])"

definition print_long :: "int \<Rightarrow> string" where
  "print_long n = (if n < 0 then CHR ''-'' # print_nat (nat (- n)) else print_nat (nat n))"

declare print_nat.simps [simp del]

lemma code_digit_char [simp]: "d < 10 \<Longrightarrow> code (digit_char d) = 48 + d"
  by (simp add: digit_char_def)

lemma digits_value_append [simp]:
  "d < 10 \<Longrightarrow> digits_value (s @ [digit_char d]) = 10 * digits_value s + d"
  by (simp add: digits_value_def)

lemma is_digit_digit_char [simp]: "d < 10 \<Longrightarrow> is_digit (digit_char d)"
  by (simp add: is_digit_def)

lemma print_nat_digits: "list_all is_digit (print_nat n)"
  by (induction n rule: print_nat.induct) (subst print_nat.simps, simp)

lemma print_nat_Nil [simp]: "print_nat n \<noteq> []"
  by (subst print_nat.simps) simp

lemma digits_value_print [simp]: "digits_value (print_nat n) = n"
proof (induction n rule: print_nat.induct)
  case (1 n)
  show ?case
  proof (cases "n < 10")
    case True
    then show ?thesis by (subst print_nat.simps) (simp add: digits_value_def)
  next
    case False
    then show ?thesis by (subst print_nat.simps) (simp add: 1)
  qed
qed

text \<open>A printed number holds no character that ranges and lines are split at.\<close>

definition number_char :: "char \<Rightarrow> bool" where
  "number_char c \<longleftrightarrow> is_digit c \<or> c = CHR ''-''"

lemma is_digit_not_white: "is_digit c \<Longrightarrow> \<not> is_white c \<and> \<not> number_white c"
  by (auto simp: is_digit_def is_white_def number_white_def)

lemma print_nat_tight: "tight (print_nat n)"
proof -
  have "is_digit (hd (print_nat n))" "is_digit (last (print_nat n))"
    using print_nat_digits [of n] by (auto simp: list_all_iff)
  then show ?thesis by (simp add: tight_def is_digit_not_white)
qed

lemma print_nat_no_char: "\<not> is_digit c \<Longrightarrow> c \<notin> set (print_nat n)"
  using print_nat_digits [of n] by (auto simp: list_all_iff)

lemma read_sign_digit: "s \<noteq> [] \<Longrightarrow> is_digit (hd s) \<Longrightarrow> read_sign s = (False, s)"
  by (cases s) (auto simp: read_sign_def is_digit_def)

lemma takeWhile_digits: "takeWhile is_digit (print_nat n) = print_nat n"
  using print_nat_digits [of n] by (simp add: list_all_iff)

lemma dropWhile_digits: "dropWhile is_digit (print_nat n) = []"
  using print_nat_digits [of n] by (simp add: list_all_iff)

lemma parse_print_nat [net_string_simps]:
  assumes "int n < 2 ^ 63"
  shows "parse_long (print_nat n) = Some (int n)"
proof -
  have d: "is_digit (hd (print_nat n))" using print_nat_digits [of n] by (auto simp: list_all_iff)
  then have "dropWhile number_white (print_nat n) = print_nat n"
    by (intro dropWhile_tight) (simp add: is_digit_not_white)
  then show ?thesis
    using assms d by (simp add: parse_long_def Let_def read_sign_digit takeWhile_digits dropWhile_digits)
qed

lemma parse_print_long:
  assumes "- (2 ^ 63) \<le> n" "n < 2 ^ 63"
  shows "parse_long (print_long n) = Some n"
proof (cases "n < 0")
  case True
  have "dropWhile number_white (print_long n) = print_long n"
    using True by (simp add: print_long_def number_white_def)
  then show ?thesis
    using assms True by (simp add: parse_long_def Let_def read_sign_def print_long_def takeWhile_digits
        dropWhile_digits)
next
  case False
  then show ?thesis using parse_print_nat [of "nat n"] assms by (simp add: print_long_def)
qed

lemma parse_long_range: "parse_long s = Some n \<Longrightarrow> - (2 ^ 63) \<le> n \<and> n < 2 ^ 63"
  by (auto simp: parse_long_def Let_def split: if_splits prod.splits)

end
