(* ===== verification/Ini_Config.thy ===== *)
theory Ini_Config
  imports Net_Strings "HOL-Library.AList"
begin

text \<open>
  Others/Ini.cs: the settings file as its lines. Reading takes the first entry of a group
  whose name matches; writing replaces that entry, or adds a line after the last entry of the
  group, or adds the group at the end. The lines stand for a list of entries, each a group, a
  name and a value; in terms of it a write is an update at one key.
\<close>

record ini =
  ini_lines :: "string list"
  updated :: bool

definition norm :: "string \<Rightarrow> string" where
  "norm s = to_lower (trim s)"

definition is_comment :: "string \<Rightarrow> bool" where
  "is_comment l \<longleftrightarrow> starts_with ''//'' l \<or> starts_with '';'' l \<or> starts_with ''!'' l"

definition is_header :: "string \<Rightarrow> bool" where
  "is_header l \<longleftrightarrow> starts_with ''['' l \<and> ends_with '']'' l"

definition header_group :: "string \<Rightarrow> string" where
  "header_group l = norm (take (length l - 2) (drop 1 l))"

definition entry_name :: "string \<Rightarrow> string" where
  "entry_name l = norm (takeWhile (\<lambda>c. c \<noteq> CHR ''='') l)"

definition entry_value :: "string \<Rightarrow> string" where
  "entry_value l = trim (tl (dropWhile (\<lambda>c. c \<noteq> CHR ''='') l))"

section \<open>Reading\<close>

fun get_value :: "string \<Rightarrow> string \<Rightarrow> string option \<Rightarrow> string list \<Rightarrow> string option" where
  "get_value name grp cur [] = None"
| "get_value name grp cur (l # ls) =
     (if is_comment l then get_value name grp cur ls
      else if is_header l then get_value name grp (Some (header_group l)) ls
      else if CHR ''='' \<notin> set l then get_value name grp cur ls
      else if cur \<noteq> Some (norm grp) then get_value name grp cur ls
      else if entry_name l \<noteq> norm name then get_value name grp cur ls
      else Some (entry_value l))"

definition GetValue :: "ini \<Rightarrow> string \<Rightarrow> string \<Rightarrow> string option" where
  "GetValue i name grp = get_value name grp None (ini_lines i)"

definition GetBooleanValue :: "ini \<Rightarrow> string \<Rightarrow> string \<Rightarrow> bool" where
  "GetBooleanValue i name grp =
     (case map_option to_lower (GetValue i name grp) of
        None \<Rightarrow> False
      | Some v \<Rightarrow> v = ''true'' \<or> v = ''1'' \<or> v = ''yes'')"

text \<open>\<^verbatim>\<open>GetValues\<close>: the dictionary of a grp, where a later entry replaces an earlier one.\<close>

fun get_values :: "string \<Rightarrow> string option \<Rightarrow> string list \<Rightarrow> (string \<times> string) list \<Rightarrow> (string \<times> string) list" where
  "get_values grp cur [] result = result"
| "get_values grp cur (l # ls) result =
     (if is_comment l then get_values grp cur ls result
      else if is_header l then get_values grp (Some (header_group l)) ls result
      else if CHR ''='' \<notin> set l then get_values grp cur ls result
      else if cur \<noteq> Some (norm grp) then get_values grp cur ls result
      else get_values grp cur ls (AList.update (entry_name l) (entry_value l) result))"

definition GetValues :: "ini \<Rightarrow> string \<Rightarrow> (string \<times> string) list option" where
  "GetValues i grp =
     (let result = get_values grp None (ini_lines i) [] in if result = [] then None else Some result)"

section \<open>Writing\<close>

text \<open>The loop of \<^verbatim>\<open>SetValue\<close>: the line to replace, or the bounds of the grp.\<close>

fun set_scan :: "string \<Rightarrow> string \<Rightarrow> nat \<Rightarrow> string option \<Rightarrow> int \<Rightarrow> int \<Rightarrow> string list \<Rightarrow> nat + int \<times> int" where
  "set_scan grp name i cur group_begin group_end [] = Inr (group_begin, group_end)"
| "set_scan grp name i cur group_begin group_end (l # ls) =
     (if is_comment l then set_scan grp name (Suc i) cur group_begin group_end ls
      else if is_header l then
        set_scan grp name (Suc i) (Some (header_group l))
          (if header_group l = to_lower grp then int i else group_begin) group_end ls
      else if CHR ''='' \<notin> set l then set_scan grp name (Suc i) cur group_begin group_end ls
      else if cur \<noteq> Some (norm grp) then set_scan grp name (Suc i) cur group_begin group_end ls
      else if entry_name l \<noteq> norm name then set_scan grp name (Suc i) cur group_begin (int i) ls
      else Inl i)"

definition set_lines :: "string \<Rightarrow> string \<Rightarrow> string \<Rightarrow> string list \<Rightarrow> string list" where
  "set_lines grp name value ls =
     (let line = name @ ''='' @ value in
      case set_scan grp name 0 None (- 1) (int (length ls)) ls of
        Inl i \<Rightarrow> ls[i := line]
      | Inr (group_begin, group_end) \<Rightarrow>
          if 0 \<le> group_begin then
            if group_end + 1 < int (length ls)
            then take (nat (group_end + 1)) ls @ line # drop (nat (group_end + 1)) ls
            else ls @ [line]
          else (if 0 < length ls \<and> trim (last ls) \<noteq> [] then ls @ [[]] else ls)
            @ [''['' @ grp @ '']'', line])"

definition SetValue :: "string \<Rightarrow> string \<Rightarrow> string \<Rightarrow> ini \<Rightarrow> ini" where
  "SetValue grp name value i = \<lparr>ini_lines = set_lines grp name value (ini_lines i), updated = False\<rparr>"

definition SetValues :: "string \<Rightarrow> (string \<times> string) list \<Rightarrow> ini \<Rightarrow> ini" where
  "SetValues grp es i = foldl (\<lambda>i (k, v). SetValue grp k v i) i es"

text \<open>\<^verbatim>\<open>Save\<close> gives what is written to the file, if anything.\<close>

definition Save :: "ini \<Rightarrow> string list option \<times> ini" where
  "Save i = (if updated i then (None, i) else (Some (ini_lines i), i\<lparr>updated := True\<rparr>))"

section \<open>The entries of a file\<close>

definition is_entry :: "string \<Rightarrow> bool" where
  "is_entry l \<longleftrightarrow> \<not> is_comment l \<and> \<not> is_header l \<and> CHR ''='' \<in> set l"

definition next_group :: "string option \<Rightarrow> string \<Rightarrow> string option" where
  "next_group cur l = (if \<not> is_comment l \<and> is_header l then Some (header_group l) else cur)"

definition group_after :: "string option \<Rightarrow> string list \<Rightarrow> string option" where
  "group_after cur ls = foldl next_group cur ls"

primrec entries :: "string option \<Rightarrow> string list \<Rightarrow> ((string option \<times> string) \<times> string) list" where
  "entries cur [] = []"
| "entries cur (l # ls) =
     (if is_entry l then [((cur, entry_name l), entry_value l)] else []) @ entries (next_group cur l) ls"

lemma next_group_entry [simp]: "is_entry l \<Longrightarrow> next_group cur l = cur"
  by (simp add: next_group_def is_entry_def)

lemma entries_append: "entries cur (xs @ ys) = entries cur xs @ entries (group_after cur xs) ys"
  by (induction xs arbitrary: cur) (auto simp: group_after_def)

lemma group_after_append: "group_after cur (xs @ ys) = group_after (group_after cur xs) ys"
  by (simp add: group_after_def)

lemma group_after_Cons [simp]: "group_after cur (l # ls) = group_after (next_group cur l) ls"
  by (simp add: group_after_def)

lemma group_after_Nil [simp]: "group_after cur [] = cur"
  by (simp add: group_after_def)

lemma get_value_entries: "get_value name grp cur ls = map_of (entries cur ls) (Some (norm grp), norm name)"
  by (induction name grp cur ls rule: get_value.induct) (auto simp: is_entry_def next_group_def)

text \<open>Where the scan of \<^verbatim>\<open>SetValue\<close> stops, and what its bounds mean: one step, then the rest.\<close>

lemma set_scan_Cons:
  "set_scan grp name i cur gb ge (l # ls) =
     (if is_entry l \<and> cur = Some (norm grp) \<and> entry_name l = norm name then Inl i
      else set_scan grp name (Suc i) (next_group cur l)
        (if \<not> is_comment l \<and> is_header l \<and> header_group l = to_lower grp then int i else gb)
        (if is_entry l \<and> cur = Some (norm grp) then int i else ge) ls)"
  by (auto simp: is_entry_def next_group_def)

declare set_scan.simps(2) [simp del]

lemma set_scan_Inl:
  "set_scan grp name i cur gb ge ls = Inl j \<Longrightarrow>
     \<exists>xs l ys. ls = xs @ l # ys \<and> j = i + length xs \<and> is_entry l \<and> group_after cur xs = Some (norm grp)
       \<and> entry_name l = norm name \<and> map_of (entries cur xs) (Some (norm grp), norm name) = None"
proof (induction ls arbitrary: i cur gb ge)
  case (Cons l ls)
  show ?case
  proof (cases "is_entry l \<and> cur = Some (norm grp) \<and> entry_name l = norm name")
    case True
    then have "j = i" using Cons.prems by (simp add: set_scan_Cons)
    then show ?thesis using True by (intro exI [of _ "[]"] exI [of _ l] exI [of _ ls]) auto
  next
    case False
    from Cons.IH [OF Cons.prems [unfolded set_scan_Cons if_not_P [OF False]]]
    obtain xs k ys where "ls = xs @ k # ys" "j = Suc i + length xs" "is_entry k"
      "group_after (next_group cur l) xs = Some (norm grp)" "entry_name k = norm name"
      "map_of (entries (next_group cur l) xs) (Some (norm grp), norm name) = None" by blast
    then show ?thesis using False by (intro exI [of _ "l # xs"] exI [of _ k] exI [of _ ys]) auto
  qed
qed simp

lemma set_scan_Inr:
  "set_scan grp name i cur gb ge ls = Inr (gb', ge') \<Longrightarrow>
     map_of (entries cur ls) (Some (norm grp), norm name) = None
     \<and> ((ge' = ge \<and> (\<forall>e \<in> set (entries cur ls). fst (fst e) \<noteq> Some (norm grp)))
        \<or> (\<exists>xs l ys. ls = xs @ l # ys \<and> ge' = int (i + length xs) \<and> is_entry l
             \<and> group_after cur xs = Some (norm grp)))"
proof (induction ls arbitrary: i cur gb ge)
  case (Cons l ls)
  let ?hit = "is_entry l \<and> cur = Some (norm grp)"
  have miss: "\<not> (is_entry l \<and> cur = Some (norm grp) \<and> entry_name l = norm name)"
    using Cons.prems by (auto simp: set_scan_Cons split: if_splits)
  note IH = Cons.IH [OF Cons.prems [unfolded set_scan_Cons if_not_P [OF miss]]]
  then have none: "map_of (entries cur (l # ls)) (Some (norm grp), norm name) = None"
    using miss by auto
  from IH consider
      "ge' = (if ?hit then int i else ge)" "\<forall>e \<in> set (entries (next_group cur l) ls). fst (fst e) \<noteq> Some (norm grp)"
    | xs k ys where "ls = xs @ k # ys" "ge' = int (Suc i + length xs)" "is_entry k"
        "group_after (next_group cur l) xs = Some (norm grp)" by blast
  then show ?case
  proof cases
    case 1
    show ?thesis
    proof (cases ?hit)
      case True
      then show ?thesis using 1 none by (intro conjI disjI2 exI [of _ "[]"] exI [of _ l] exI [of _ ls]) auto
    next
      case False
      then show ?thesis using 1 none by auto
    qed
  next
    case 2
    then show ?thesis using none by (intro conjI disjI2 exI [of _ "l # xs"] exI [of _ k] exI [of _ ys]) auto
  qed
qed simp

definition has_header :: "string \<Rightarrow> string list \<Rightarrow> bool" where
  "has_header grp ls \<longleftrightarrow> list_ex (\<lambda>l. \<not> is_comment l \<and> is_header l \<and> header_group l = to_lower grp) ls"

lemma set_scan_begin:
  "set_scan grp name i cur gb ge ls = Inr (gb', ge') \<Longrightarrow> \<not> has_header grp ls \<Longrightarrow> gb' = gb"
  by (induction ls arbitrary: i cur ge) (auto simp: set_scan_Cons has_header_def split: if_splits)

section \<open>A write is an update at one key\<close>

text \<open>
  The lines a write can produce: an entry with the name and the value it was given.
\<close>

definition writable :: "string \<Rightarrow> string \<Rightarrow> bool" where
  "writable name value \<longleftrightarrow> is_entry (name @ ''='' @ value) \<and> CHR ''='' \<notin> set name \<and> tight value"

text \<open>
  The group has an entry, or comes last, or is not there yet. Otherwise its header stands
  with no entry before the next one, and \<^verbatim>\<open>SetValue\<close> adds the entry to the last group.
\<close>

definition placeable :: "string \<Rightarrow> string list \<Rightarrow> bool" where
  "placeable grp ls \<longleftrightarrow> list_ex (\<lambda>e. fst (fst e) = Some (norm grp)) (entries None ls)
     \<or> group_after None ls = Some (norm grp) \<or> \<not> has_header grp ls"

lemma written_entry:
  assumes "writable name value"
  shows "entry_name (name @ ''='' @ value) = norm name" and "entry_value (name @ ''='' @ value) = value"
proof -
  have "takeWhile (\<lambda>c. c \<noteq> CHR ''='') (name @ ''='' @ value) = name"
    "dropWhile (\<lambda>c. c \<noteq> CHR ''='') (name @ ''='' @ value) = ''='' @ value"
    using assms by (auto simp: writable_def takeWhile_append dropWhile_append)
  then show "entry_name (name @ ''='' @ value) = norm name" and "entry_value (name @ ''='' @ value) = value"
    using assms by (simp_all add: entry_name_def entry_value_def writable_def trim_tight)
qed

text \<open>Putting an entry after lines that leave its group open.\<close>

lemma entries_insert:
  assumes "writable name value" "group_after None xs = Some (norm grp)"
    and "map_of (entries None xs) (Some (norm grp), norm name) = None"
  shows "map_of (entries None (xs @ (name @ ''='' @ value) # ys)) =
    (map_of (entries None (xs @ ys)))((Some (norm grp), norm name) \<mapsto> value)"
proof -
  have "is_entry (name @ ''='' @ value)" using assms(1) by (simp add: writable_def)
  then have "entries None (xs @ (name @ ''='' @ value) # ys)
      = entries None xs @ ((Some (norm grp), norm name), value) # entries (Some (norm grp)) ys"
    using assms(2) written_entry [OF assms(1)] by (simp add: entries_append del: append_Cons)
  then show ?thesis using assms(2,3) by (auto simp: entries_append map_add_def fun_eq_iff split: option.splits)
qed

lemma entries_replace:
  assumes "writable name value" "group_after None xs = Some (norm grp)"
    and "map_of (entries None xs) (Some (norm grp), norm name) = None" "is_entry l" "entry_name l = norm name"
  shows "map_of (entries None (xs @ (name @ ''='' @ value) # ys)) =
    (map_of (entries None (xs @ l # ys)))((Some (norm grp), norm name) \<mapsto> value)"
  using entries_insert [OF assms(1-3), of ys] assms(2-5)
  by (auto simp: entries_append map_add_def fun_eq_iff split: option.splits)

lemma header_line:
  "\<not> is_comment (''['' @ grp @ '']'')" "is_header (''['' @ grp @ '']'')" "header_group (''['' @ grp @ '']'') = norm grp"
  by (simp_all add: is_comment_def is_header_def starts_with_def ends_with_def header_group_def)

lemma blank_line: "\<not> is_entry []" "next_group cur [] = cur"
  by (simp_all add: is_entry_def next_group_def is_header_def starts_with_def)

lemma set_lines_update:
  assumes w: "writable name value" and p: "placeable grp ls"
  shows "map_of (entries None (set_lines grp name value ls))
    = (map_of (entries None ls))((Some (norm grp), norm name) \<mapsto> value)"
proof (cases "set_scan grp name 0 None (- 1) (int (length ls)) ls")
  case (Inl j)
  from set_scan_Inl [OF this] obtain xs l ys where x: "ls = xs @ l # ys" "j = length xs" "is_entry l"
    "group_after None xs = Some (norm grp)" "entry_name l = norm name"
    "map_of (entries None xs) (Some (norm grp), norm name) = None" by auto
  have "set_lines grp name value ls = xs @ (name @ ''='' @ value) # ys"
    using Inl x(1,2) by (simp add: set_lines_def list_update_append)
  then show ?thesis using entries_replace [OF w x(4,6,3,5), of ys] x(1) by simp
next
  case (Inr r)
  obtain gb ge where r: "r = (gb, ge)" by (cases r)
  note scan = Inr [unfolded r]
  note s = set_scan_Inr [OF scan]
  show ?thesis
  proof (cases "0 \<le> gb")
    case True
    show ?thesis
    proof (cases "ge + 1 < int (length ls)")
      case more: True
      then obtain xs l ys where x: "ls = xs @ l # ys" "ge = int (length xs)" "is_entry l"
        "group_after None xs = Some (norm grp)" using s by auto
      have "set_lines grp name value ls = (xs @ [l]) @ (name @ ''='' @ value) # ys"
        using scan True more x(1,2) by (simp add: set_lines_def nat_add_distrib)
      moreover have "group_after None (xs @ [l]) = Some (norm grp)"
        using x(3,4) by (simp add: group_after_append)
      moreover have "map_of (entries None (xs @ [l])) (Some (norm grp), norm name) = None"
        using s x(1) by (simp add: entries_append map_add_None)
      ultimately show ?thesis using entries_insert [OF w, of "xs @ [l]" grp ys] x(1) by simp
    next
      case last: False
      have "set_lines grp name value ls = ls @ [name @ ''='' @ value]"
        using scan True last by (simp add: set_lines_def)
      moreover have "group_after None ls = Some (norm grp)"
      proof -
        have "has_header grp ls" using set_scan_begin [OF scan] True by auto
        moreover have "group_after None ls = Some (norm grp)"
          if "\<exists>xs l ys. ls = xs @ l # ys \<and> ge = int (0 + length xs) \<and> is_entry l \<and> group_after None xs = Some (norm grp)"
          using that last by (auto simp: group_after_append)
        ultimately show ?thesis using p s by (auto simp: placeable_def list_ex_iff)
      qed
      ultimately show ?thesis using entries_insert [OF w, of ls grp "[]"] s by simp
    qed
  next
    case False
    define ls' where "ls' = (if 0 < length ls \<and> trim (last ls) \<noteq> [] then ls @ [[]] else ls) @ [''['' @ grp @ '']'']"
    have "set_lines grp name value ls = ls' @ [name @ ''='' @ value]"
      using scan False by (simp add: set_lines_def ls'_def)
    moreover have e: "entries None ls' = entries None ls" "group_after None ls' = Some (norm grp)"
      using header_line [of grp]
      by (auto simp: ls'_def entries_append group_after_append blank_line is_entry_def next_group_def)
    ultimately show ?thesis using entries_insert [OF w, of ls' grp "[]"] s by simp
  qed
qed

text \<open>\<^verbatim>\<open>GetValues\<close> keeps the last entry of a name, \<^verbatim>\<open>GetValue\<close> finds the first.\<close>

lemma get_values_entries:
  "map_of (get_values grp cur ls result) k =
     (case map_of (rev (entries cur ls)) (Some (norm grp), k) of Some v \<Rightarrow> Some v | None \<Rightarrow> map_of result k)"
  by (induction grp cur ls result rule: get_values.induct)
    (auto simp: is_entry_def next_group_def update_conv' map_add_def split: option.splits)

lemma map_of_rev_distinct: "distinct (map fst xs) \<Longrightarrow> map_of (rev xs) = map_of xs"
  by (subst map_of_inject_set) (simp_all add: rev_map [symmetric])

lemma first_and_last:
  assumes "distinct (map fst (entries None (ini_lines i)))"
  shows "map_of (the (GetValues i grp)) (norm name) = GetValue i name grp \<or> GetValues i grp = None"
  using assms get_values_entries [of grp None "ini_lines i" "[]" "norm name"]
  by (auto simp: GetValues_def GetValue_def get_value_entries Let_def map_of_rev_distinct split: option.splits)

section \<open>Properties\<close>

text \<open>C20. Setting a value updates the file's entries at one key, up to case and surrounding blanks:
  the value is read back under its group and name, and every other name and group reads as it did,
  provided the line reads as an entry and the group has an entry, or comes last, or is new.\<close>

theorem set_value_updates:
  assumes "writable name value" and "placeable grp (ini_lines i)"
  shows "GetValue (SetValue grp name value i) name' grp'
    = (if norm grp' = norm grp \<and> norm name' = norm name then Some value else GetValue i name' grp')"
  using set_lines_update [OF assms] by (simp add: GetValue_def SetValue_def get_value_entries)

theorem set_value_updates_witness:
  "let i = \<lparr>ini_lines = [''[a]'', ''x=1'', ''[b]'', ''y=2''], updated = True\<rparr> in
     GetValue (SetValue ''A'' ''z'' ''3'' i) ''Z'' ''a'' = Some ''3''
     \<and> GetValue (SetValue ''A'' ''z'' ''3'' i) ''y'' ''b'' = Some ''2''"
proof -
  have w: "writable ''z'' ''3''" by code_simp
  have p: "placeable ''A'' (ini_lines \<lparr>ini_lines = [''[a]'', ''x=1'', ''[b]'', ''y=2''], updated = True\<rparr>)"
    by code_simp
  have n: "norm ''a'' = norm ''A''" "norm ''Z'' = norm ''z''" "norm ''b'' \<noteq> norm ''A''"
    "GetValue \<lparr>ini_lines = [''[a]'', ''x=1'', ''[b]'', ''y=2''], updated = True\<rparr> ''y'' ''b'' = Some ''2''"
    by code_simp+
  show ?thesis
    using set_value_updates [OF w p, of "''Z''" "''a''"] set_value_updates [OF w p, of "''y''" "''b''"] n
    by (simp add: Let_def)
qed

text \<open>A group whose header stands with no entry before the next header loses what is set in it:
  the value goes to the last group of the file, where it is read back instead.\<close>

lemma set_value_in_empty_group:
  "let i = SetValue ''b'' ''x'' ''1'' \<lparr>ini_lines = [''[b]'', ''[c]'', ''y=2''], updated = True\<rparr>
   in GetValue i ''x'' ''b'' = None \<and> GetValue i ''x'' ''c'' = Some ''1''"
  by code_simp

end
