(* ===== verification/Network_Stream.thy ===== *)
theory Network_Stream
  imports Byte_Source
begin

text \<open>
  IO/NetworkStream.cs: a remote file as a seekable stream. A read is answered from a cache of
  the last block, fills the cache when it is short, or goes past the cache when it is long; each
  transfer is tried again when it fails, a fixed number of times, and then the read throws. The
  HTTP library is a parameter, \<open>http_ops\<close>; what is asked of it is \<open>serves\<close>. On it the stream
  implements the contract \<open>byte_source\<close>. The length of the file is known here (a property of
  the first response), and the NFS client in place of HTTP is not modelled.
\<close>

text \<open>
  Requesting the file from a position on, reading the open response (\<^term>\<open>None\<close> when it throws),
  and whether an empty response counts as a failure (on Unix, if it is not known to be at its end).
\<close>

datatype request_result = Response | Request_failed | Range_not_satisfiable

record 'e http_ops =
  send_request :: "int \<Rightarrow> 'e \<Rightarrow> request_result \<times> 'e"
  response_read :: "nat \<Rightarrow> 'e \<Rightarrow> u8 list option \<times> 'e"
  is_incomplete :: "'e \<Rightarrow> bool"

text \<open>What a transfer leaves in the buffer: all it got, or what it had when it failed.\<close>

datatype transfer_result = Got "u8 list" | Failed "u8 list" | Not_satisfiable

record 'e network =
  server :: 'e
  net_length :: int
  net_position :: int
  response_position :: "int option"
  cache :: "u8 list"
  cache_position :: int
  cache_count :: int

definition network_new :: "'e \<Rightarrow> int \<Rightarrow> nat \<Rightarrow> 'e network" where
  "network_new e len cache_len = \<lparr>server = e, net_length = len, net_position = 0, response_position = None,
     cache = replicate cache_len 0, cache_position = 0, cache_count = 0\<rparr>"

definition NetworkRetryCount :: nat where
  "NetworkRetryCount = 5"

section \<open>One read of the network\<close>

text \<open>The loop of \<^verbatim>\<open>HttpReader\<close>: it reads on until the buffer is full or the response at its end.\<close>

function read_response :: "'e http_ops \<Rightarrow> nat \<Rightarrow> u8 list \<Rightarrow> 'e \<Rightarrow> transfer_result \<times> 'e" where
  "read_response io n got e =
     (case response_read io (n - length got) e of
        (None, e) \<Rightarrow> (Failed got, e)
      | (Some bs, e) \<Rightarrow>
          if take (n - length got) bs = [] then (Got got, e)
          else read_response io n (got @ take (n - length got) bs) e)"
  by pat_completeness auto
termination
  by (relation "measure (\<lambda>(_, n, got, _). n - length got)") (auto simp: neq_Nil_conv)

declare read_response.simps [simp del]

definition transfer :: "'e http_ops \<Rightarrow> nat \<Rightarrow> 'e network \<Rightarrow> transfer_result \<times> 'e" where
  "transfer io n s =
     (case (if response_position s = Some (net_position s) then (Response, server s)
            else send_request io (net_position s) (server s)) of
        (Request_failed, e) \<Rightarrow> (Failed [], e)
      | (Range_not_satisfiable, e) \<Rightarrow> (Not_satisfiable, e)
      | (Response, e) \<Rightarrow>
          (case read_response io n [] e of
             (Got [], e) \<Rightarrow> (if is_incomplete io e then Failed [] else Got [], e)
           | r \<Rightarrow> r))"

text \<open>
  \<^verbatim>\<open>HttpReader\<close>: nothing at the end of the file; otherwise the open response if it stands at
  the position, or a new request, and another try after a failure. The result is what the
  caller's buffer holds and whether the call returned.
\<close>

function http_reader :: "'e http_ops \<Rightarrow> nat \<Rightarrow> nat \<Rightarrow> 'e network \<Rightarrow> transfer_result \<times> 'e network" where
  "http_reader io tries n s =
     (if net_position s = net_length s then (Got [], s)
      else case transfer io n s of
        (Got bs, e) \<Rightarrow>
          (Got bs, s\<lparr>server := e, response_position := Some (net_position s + int (length bs))\<rparr>)
      | (r, e) \<Rightarrow>
          let s = s\<lparr>server := e, response_position := None\<rparr>
          in if tries < NetworkRetryCount then http_reader io (Suc tries) n s
             else (if r = Not_satisfiable then Got [] else r, s))"
  by pat_completeness auto
termination
  by (relation "measure (\<lambda>(_, tries, _, _). NetworkRetryCount - tries)") auto

declare http_reader.simps [simp del]

section \<open>Reading through the cache\<close>

definition read_from_cache :: "nat \<Rightarrow> 'e network \<Rightarrow> u8 list" where
  "read_from_cache n s =
     (if net_position s < cache_position s \<or> cache_position s + cache_count s \<le> net_position s then []
      else let off = nat (net_position s - cache_position s)
           in take (min (nat (cache_count s) - off) n) (drop off (cache s)))"

abbreviation advance_by :: "u8 list \<Rightarrow> 'e network \<Rightarrow> 'e network" where
  "advance_by bs s \<equiv> s\<lparr>net_position := net_position s + int (length bs)\<rparr>"

text \<open>The loop for long reads: it gives up when nothing comes several times in a row.\<close>

function large_read :: "'e http_ops \<Rightarrow> int \<Rightarrow> nat \<Rightarrow> 'e network \<Rightarrow> u8 list option \<times> 'e network" where
  "large_read io empty_tries n s =
     (if n = 0 then (Some [], s)
      else case http_reader io 0 n s of
        (Got bs, s) \<Rightarrow>
          if bs = [] then
            if empty_tries < 0 then (Some [], s)
            else large_read io (empty_tries - 1) n s
          else
            (case large_read io 3 (n - length bs) (advance_by bs s) of
               (Some cs, s) \<Rightarrow> (Some (bs @ cs), s)
             | (None, s) \<Rightarrow> (None, s))
      | (_, s) \<Rightarrow> (None, s))"
  by pat_completeness auto
termination
  by (relation "measures [\<lambda>(_, _, n, _). n, \<lambda>(_, empty_tries, _, _). nat (empty_tries + 1)]") auto

declare large_read.simps [simp del]

definition overwrite :: "u8 list \<Rightarrow> u8 list \<Rightarrow> u8 list" where
  "overwrite bs xs = bs @ drop (length bs) xs"

text \<open>\<^verbatim>\<open>Read\<close>; a read that throws gives no bytes, and leaves the state as it was at that point.\<close>

definition network_read :: "'e http_ops \<Rightarrow> nat \<Rightarrow> 'e network \<Rightarrow> u8 list option \<times> 'e network" where
  "network_read io n s =
     (let bs = read_from_cache n s;
          s = advance_by bs s;
          n = n - length bs
      in if length (cache s) < n then
           (case large_read io 3 n s of
              (Some cs, s) \<Rightarrow> (Some (bs @ cs), s)
            | (None, s) \<Rightarrow> (None, s))
         else if 0 < n then
           let s = s\<lparr>cache_position := net_position s\<rparr>
           in case http_reader io 0 (length (cache s)) s of
                (Got xs, s) \<Rightarrow>
                  let s = s\<lparr>cache := overwrite xs (cache s), cache_count := int (length xs)\<rparr>;
                      cs = read_from_cache n s
                  in (Some (bs @ cs), advance_by cs s)
              | (Failed xs, s) \<Rightarrow> (None, s\<lparr>cache := overwrite xs (cache s)\<rparr>)
              | (Not_satisfiable, s) \<Rightarrow> (None, s)
         else (Some bs, s))"

definition network_seek :: "int \<Rightarrow> seek_origin \<Rightarrow> 'e network \<Rightarrow> int \<times> 'e network" where
  "network_seek offset origin s =
     (let p = seek_target (net_length s) (net_position s) offset origin in (p, s\<lparr>net_position := p\<rparr>))"

definition network_ops :: "'e http_ops \<Rightarrow> 'e network stream_ops" where
  "network_ops io = \<lparr>get_length = net_length, get_position = net_position,
     set_position = \<lambda>p s. Some (s\<lparr>net_position := p\<rparr>),
     stream_read = \<lambda>n s. (case network_read io n s of (Some bs, s) \<Rightarrow> Some (bs, s) | (None, _) \<Rightarrow> None)\<rparr>"

section \<open>On a server that answers, the stream is the remote file\<close>

text \<open>
  A server that sends the bytes asked for, and a connection that fails at most five times before a
  transfer is complete: \<open>failures\<close> bounds the failures until a read that gives nothing, \<open>at_byte\<close>
  is where the open response stands.
\<close>

definition serves :: "u8 list \<Rightarrow> ('e \<Rightarrow> nat) \<Rightarrow> ('e \<Rightarrow> int) \<Rightarrow> 'e http_ops \<Rightarrow> bool" where
  "serves res failures at_byte io \<longleftrightarrow>
     (\<forall>p e. 0 \<le> p \<and> p < int (length res) \<longrightarrow>
       (case send_request io p e of
          (Response, e') \<Rightarrow> at_byte e' = p \<and> failures e' \<le> failures e
        | (Request_failed, e') \<Rightarrow> failures e' < failures e
        | (Range_not_satisfiable, _) \<Rightarrow> False))
   \<and> (\<forall>n e. 0 \<le> at_byte e \<and> at_byte e \<le> int (length res) \<longrightarrow>
       (case response_read io n e of
          (Some bs, e') \<Rightarrow> length bs \<le> n \<and> bs = take (length bs) (drop (nat (at_byte e)) res)
            \<and> at_byte e' = at_byte e + int (length bs)
            \<and> (bs = [] \<longrightarrow> n = 0 \<or> at_byte e = int (length res))
            \<and> failures e' \<le> (if bs = [] then NetworkRetryCount else failures e)
        | (None, e') \<Rightarrow> failures e' < failures e))"

text \<open>Nothing has failed yet too often, and the open response stands where the stream thinks.\<close>

definition conn_ok :: "('e \<Rightarrow> nat) \<Rightarrow> ('e \<Rightarrow> int) \<Rightarrow> 'e network \<Rightarrow> bool" where
  "conn_ok failures at_byte s \<longleftrightarrow> failures (server s) \<le> NetworkRetryCount
     \<and> (\<forall>q. response_position s = Some q \<longrightarrow> at_byte (server s) = q)"

definition network_ok :: "u8 list \<Rightarrow> ('e \<Rightarrow> nat) \<Rightarrow> ('e \<Rightarrow> int) \<Rightarrow> 'e network \<Rightarrow> bool" where
  "network_ok res failures at_byte s \<longleftrightarrow> conn_ok failures at_byte s
     \<and> net_length s = int (length res) \<and> 0 \<le> net_position s \<and> net_position s \<le> int (length res)
     \<and> cache s \<noteq> [] \<and> 0 \<le> cache_count s \<and> cache_count s \<le> int (length (cache s)) \<and> 0 \<le> cache_position s
     \<and> (0 < cache_count s \<longrightarrow> take (nat (cache_count s)) (cache s)
          = take (nat (cache_count s)) (drop (nat (cache_position s)) res))"

text \<open>What a call may change of the stream apart from the cache and the position.\<close>

definition connected :: "'e network \<Rightarrow> 'e network \<Rightarrow> bool" where
  "connected s s' \<longleftrightarrow> net_length s' = net_length s \<and> net_position s' = net_position s \<and> cache s' = cache s
     \<and> cache_position s' = cache_position s \<and> cache_count s' = cache_count s"

lemma connected_simps:
  assumes "connected s s'"
  shows "net_length s' = net_length s" "net_position s' = net_position s" "cache s' = cache s"
    "cache_position s' = cache_position s" "cache_count s' = cache_count s"
  using assms by (simp_all add: connected_def)

lemma conn_ok_simps [simp]:
  "conn_ok failures at_byte (s\<lparr>net_position := p\<rparr>) = conn_ok failures at_byte s"
  "conn_ok failures at_byte (s\<lparr>cache := c\<rparr>) = conn_ok failures at_byte s"
  "conn_ok failures at_byte (s\<lparr>cache_position := p\<rparr>) = conn_ok failures at_byte s"
  "conn_ok failures at_byte (s\<lparr>cache_count := k\<rparr>) = conn_ok failures at_byte s"
  by (simp_all add: conn_ok_def)

lemma take_drop_snoc:
  assumes "xs = take (length xs) (drop p res)" and "ys = take (length ys) (drop (p + length xs) res)"
  shows "xs @ ys = take (length (xs @ ys)) (drop p res)"
  by (rule take_drop_append [OF assms])

lemma send_request_served:
  assumes "serves res failures at_byte io" and "0 \<le> p" "p < int (length res)"
  obtains e' where "send_request io p e = (Response, e')" "at_byte e' = p" "failures e' \<le> failures e"
  | e' where "send_request io p e = (Request_failed, e')" "failures e' < failures e"
proof -
  obtain r e' where r: "send_request io p e = (r, e')" by (cases "send_request io p e")
  have "case send_request io p e of
      (Response, e') \<Rightarrow> at_byte e' = p \<and> failures e' \<le> failures e
    | (Request_failed, e') \<Rightarrow> failures e' < failures e
    | (Range_not_satisfiable, _) \<Rightarrow> False"
    by (rule assms(1) [unfolded serves_def, THEN conjunct1, THEN spec, THEN spec, THEN mp]) (use assms(2,3) in simp)
  then show thesis using r that by (cases r) simp_all
qed

lemma response_read_served:
  assumes "serves res failures at_byte io" and "0 \<le> at_byte e" "at_byte e \<le> int (length res)"
  obtains bs e' where "response_read io n e = (Some bs, e')" "length bs \<le> n"
      "bs = take (length bs) (drop (nat (at_byte e)) res)" "at_byte e' = at_byte e + int (length bs)"
      "bs = [] \<longrightarrow> n = 0 \<or> at_byte e = int (length res)"
      "failures e' \<le> (if bs = [] then NetworkRetryCount else failures e)"
  | e' where "response_read io n e = (None, e')" "failures e' < failures e"
proof -
  obtain r e' where r: "response_read io n e = (r, e')" by (cases "response_read io n e")
  have "case response_read io n e of
      (Some bs, e') \<Rightarrow> length bs \<le> n \<and> bs = take (length bs) (drop (nat (at_byte e)) res)
        \<and> at_byte e' = at_byte e + int (length bs)
        \<and> (bs = [] \<longrightarrow> n = 0 \<or> at_byte e = int (length res))
        \<and> failures e' \<le> (if bs = [] then NetworkRetryCount else failures e)
    | (None, e') \<Rightarrow> failures e' < failures e"
    by (rule assms(1) [unfolded serves_def, THEN conjunct2, THEN spec, THEN spec, THEN mp]) (use assms(2,3) in simp)
  then show thesis using r that by (cases r) simp_all
qed

text \<open>A transfer that has got some bytes gets the rest, or fails.\<close>

lemma read_response_spec:
  assumes "serves res failures at_byte io" and p: "0 \<le> p"
  shows "got = take (length got) (drop (nat p) res) \<Longrightarrow> length got \<le> n \<Longrightarrow>
    at_byte e = p + int (length got) \<Longrightarrow> p + int (length got) \<le> int (length res) \<Longrightarrow>
    got \<noteq> [] \<or> 0 < n \<and> p < int (length res) \<Longrightarrow> failures e \<le> NetworkRetryCount \<Longrightarrow>
    (\<exists>bs e'. read_response io n got e = (Got bs, e') \<and> bs \<noteq> [] \<and> length bs \<le> n
      \<and> bs = take (length bs) (drop (nat p) res) \<and> at_byte e' = p + int (length bs)
      \<and> failures e' \<le> NetworkRetryCount)
    \<or> (\<exists>xs e'. read_response io n got e = (Failed xs, e') \<and> failures e' < failures e)"
proof (induction "n - length got" arbitrary: got e rule: less_induct)
  case less
  have "0 \<le> at_byte e" "at_byte e \<le> int (length res)" using less.prems p by simp_all
  then show ?case
  proof (cases rule: response_read_served [OF assms(1), where n = "n - length got", consumes 2])
    case (1 bs e')
    have take: "take (n - length got) bs = bs" using 1(2) by simp
    show ?thesis
    proof (cases "bs = []")
      case True
      then have "got \<noteq> []" using 1(5) less.prems by auto
      then show ?thesis
        using True 1 less.prems by (simp add: read_response.simps [of io n got e])
    next
      case False
      have at: "nat (at_byte e) = nat p + length got" using p less.prems(3) by simp
      have app: "got @ bs = take (length (got @ bs)) (drop (nat p) res)"
        by (rule take_drop_snoc [OF less.prems(1)]) (use 1(3) at in simp)
      then have "length (got @ bs) \<le> length (drop (nat p) res)" by (metis length_take min.cobounded1)
      then have "p + int (length (got @ bs)) \<le> int (length res)" using p less.prems(4) by auto
      moreover have "n - length (got @ bs) < n - length got" using False 1(2) by (cases bs) auto
      moreover have "length (got @ bs) \<le> n" "at_byte e' = p + int (length (got @ bs))"
        using 1(2,4) less.prems(2,3) by simp_all
      moreover have "failures e' \<le> NetworkRetryCount" using 1(6) False less.prems(6) by simp
      ultimately have "(\<exists>cs e''. read_response io n (got @ bs) e' = (Got cs, e'') \<and> cs \<noteq> [] \<and> length cs \<le> n
            \<and> cs = take (length cs) (drop (nat p) res) \<and> at_byte e'' = p + int (length cs)
            \<and> failures e'' \<le> NetworkRetryCount)
          \<or> (\<exists>xs e''. read_response io n (got @ bs) e' = (Failed xs, e'') \<and> failures e'' < failures e')"
        by (intro less.hyps [OF _ app]) (use False in simp_all)
      moreover have "read_response io n got e = read_response io n (got @ bs) e'"
        using 1(1) take False by (simp add: read_response.simps [of io n got e])
      moreover have "failures e' \<le> failures e" using 1(6) False by simp
      ultimately show ?thesis by (metis order.strict_trans2)
    qed
  next
    case (2 e')
    then show ?thesis by (simp add: read_response.simps [of io n got e])
  qed
qed

lemma transfer_spec:
  assumes "serves res failures at_byte io" and s: "conn_ok failures at_byte s" and p: "0 \<le> net_position s"
    "net_position s < int (length res)" and n: "0 < n"
  shows "(\<exists>bs e'. transfer io n s = (Got bs, e') \<and> bs \<noteq> [] \<and> length bs \<le> n
      \<and> bs = take (length bs) (drop (nat (net_position s)) res) \<and> at_byte e' = net_position s + int (length bs)
      \<and> failures e' \<le> NetworkRetryCount)
    \<or> (\<exists>xs e'. transfer io n s = (Failed xs, e') \<and> failures e' < failures (server s))"
proof -
  let ?r = "if response_position s = Some (net_position s) then (Response, server s)
    else send_request io (net_position s) (server s)"
  consider e where "?r = (Response, e)" "at_byte e = net_position s" "failures e \<le> failures (server s)"
    | e where "?r = (Request_failed, e)" "failures e < failures (server s)"
  proof (cases "response_position s = Some (net_position s)")
    case True
    then show thesis using that(1) [of "server s"] s by (simp add: conn_ok_def)
  next
    case False
    show thesis
      by (rule send_request_served [OF assms(1) p, of "server s"]) (use False that in auto)
  qed
  then show ?thesis
  proof cases
    case 1
    then have "failures e \<le> NetworkRetryCount" using s by (simp add: conn_ok_def)
    with read_response_spec [OF assms(1) p(1), of "[]" n e] 1 p n
    have "(\<exists>bs e'. read_response io n [] e = (Got bs, e') \<and> bs \<noteq> [] \<and> length bs \<le> n
        \<and> bs = take (length bs) (drop (nat (net_position s)) res) \<and> at_byte e' = net_position s + int (length bs)
        \<and> failures e' \<le> NetworkRetryCount)
      \<or> (\<exists>xs e'. read_response io n [] e = (Failed xs, e') \<and> failures e' < failures e)" by simp
    then show ?thesis using 1 by (auto simp: transfer_def split: list.splits)
  next
    case 2
    then show ?thesis by (simp add: transfer_def)
  qed
qed

lemma http_reader_spec:
  assumes "serves res failures at_byte io"
  shows "conn_ok failures at_byte s \<Longrightarrow> failures (server s) + tries \<le> NetworkRetryCount \<Longrightarrow>
    net_length s = int (length res) \<Longrightarrow> 0 \<le> net_position s \<Longrightarrow> net_position s \<le> int (length res) \<Longrightarrow> 0 < n \<Longrightarrow>
    \<exists>bs s'. http_reader io tries n s = (Got bs, s') \<and> length bs \<le> n
      \<and> bs = take (length bs) (drop (nat (net_position s)) res)
      \<and> (bs = [] \<longrightarrow> net_position s = int (length res))
      \<and> conn_ok failures at_byte s' \<and> connected s s'"
proof (induction "NetworkRetryCount - tries" arbitrary: tries s rule: less_induct)
  case less
  show ?case
  proof (cases "net_position s = net_length s")
    case True
    then show ?thesis
      using less.prems by (intro exI [of _ "[]"] exI [of _ s]) (simp add: http_reader.simps [of io tries n s] connected_def)
  next
    case False
    then have "net_position s < int (length res)" using less.prems by simp
    from transfer_spec [OF assms less.prems(1,4) this less.prems(6)]
    consider bs e where "transfer io n s = (Got bs, e)" "bs \<noteq> []" "length bs \<le> n"
        "bs = take (length bs) (drop (nat (net_position s)) res)" "at_byte e = net_position s + int (length bs)"
        "failures e \<le> NetworkRetryCount"
      | xs e where "transfer io n s = (Failed xs, e)" "failures e < failures (server s)" by blast
    then show ?thesis
    proof cases
      case 1
      then have "http_reader io tries n s
          = (Got bs, s\<lparr>server := e, response_position := Some (net_position s + int (length bs))\<rparr>)"
        using False by (simp add: http_reader.simps [of io tries n s])
      then show ?thesis using 1 by (auto simp: connected_def conn_ok_def)
    next
      case 2
      then have t: "tries < NetworkRetryCount" using less.prems(2) by simp
      let ?s = "s\<lparr>server := e, response_position := None\<rparr>"
      have "NetworkRetryCount - Suc tries < NetworkRetryCount - tries" using t by simp
      moreover have "conn_ok failures at_byte ?s" "failures (server ?s) + Suc tries \<le> NetworkRetryCount"
        using less.prems(2) 2(2) by (auto simp: conn_ok_def)
      ultimately obtain bs s' where "http_reader io (Suc tries) n ?s = (Got bs, s')" "length bs \<le> n"
        "bs = take (length bs) (drop (nat (net_position s)) res)" "bs = [] \<longrightarrow> net_position s = int (length res)"
        "conn_ok failures at_byte s'" "connected ?s s'"
        using less.hyps [of "Suc tries" ?s] less.prems by fastforce
      moreover have "connected s s'" using \<open>connected ?s s'\<close> by (simp add: connected_def)
      ultimately show ?thesis
        using False 2 t by (simp add: http_reader.simps [of io tries n s] Let_def)
    qed
  qed
qed

lemma http_reader_served:
  assumes "serves res failures at_byte io" and "conn_ok failures at_byte s" "net_length s = int (length res)"
    "0 \<le> net_position s" "net_position s \<le> int (length res)" "0 < n"
  obtains bs s' where "http_reader io 0 n s = (Got bs, s')" "length bs \<le> n"
    "bs = take (length bs) (drop (nat (net_position s)) res)" "bs = [] \<longrightarrow> net_position s = int (length res)"
    "conn_ok failures at_byte s'" "connected s s'"
  using http_reader_spec [OF assms(1,2), of 0 n] assms(2-6) by (auto simp: conn_ok_def)

lemma large_read_at_end: "net_position s = net_length s \<Longrightarrow> large_read io t n s = (Some [], s)"
proof (induction "nat (t + 1)" arbitrary: t rule: less_induct)
  case less
  have h: "http_reader io 0 n s = (Got [], s)" using less.prems by (simp add: http_reader.simps [of io 0 n s])
  show ?case
  proof (cases "n = 0 \<or> t < 0")
    case False
    then have "large_read io t n s = large_read io (t - 1) n s" using h by (simp add: large_read.simps [of io t n s])
    also have "\<dots> = (Some [], s)" using less.hyps [of "t - 1"] less.prems False by simp
    finally show ?thesis .
  qed (use h in \<open>auto simp: large_read.simps [of io t n s]\<close>)
qed

lemma large_read_spec:
  assumes "serves res failures at_byte io"
  shows "conn_ok failures at_byte s \<Longrightarrow> net_length s = int (length res) \<Longrightarrow>
    0 \<le> net_position s \<Longrightarrow> net_position s \<le> int (length res) \<Longrightarrow>
    \<exists>bs s'. large_read io t n s = (Some bs, s') \<and> length bs \<le> n
      \<and> bs = take (length bs) (drop (nat (net_position s)) res)
      \<and> (bs = [] \<longrightarrow> n = 0 \<or> net_position s = int (length res))
      \<and> conn_ok failures at_byte s' \<and> connected (advance_by bs s) s'"
proof (induction n arbitrary: t s rule: less_induct)
  case (less n)
  show ?case
  proof (cases "n = 0 \<or> net_position s = net_length s")
    case True
    then have "large_read io t n s = (Some [], s)"
      using large_read_at_end [of s io t n] by (auto simp: large_read.simps [of io t 0 s])
    then show ?thesis using less.prems True by (auto simp: connected_def)
  next
    case False
    then obtain bs s1 where h: "http_reader io 0 n s = (Got bs, s1)" "length bs \<le> n"
      "bs = take (length bs) (drop (nat (net_position s)) res)" "bs = [] \<longrightarrow> net_position s = int (length res)"
      "conn_ok failures at_byte s1" "connected s s1"
      using http_reader_served [OF assms, of s n] less.prems by auto
    have take: "take n bs = bs" using h(2) by simp
    have ne: "bs \<noteq> []" using h(4) False less.prems(2) by auto
    then have smaller: "n - length bs < n" using False by (cases bs) auto
    let ?s = "advance_by bs s1"
    note c = connected_simps [OF h(6)]
    have "length bs \<le> length (drop (nat (net_position s)) res)"
      using h(3) by (metis length_take min.cobounded1)
    then have pos: "0 \<le> net_position ?s" "net_position ?s \<le> int (length res)"
      using less.prems(3,4) c(2) by auto
    have "conn_ok failures at_byte ?s" "net_length ?s = int (length res)"
      using h(5) c(1) less.prems(2) by simp_all
    from less.IH [OF smaller this pos, of 3] obtain cs s2 where 2: "large_read io 3 (n - length bs) ?s = (Some cs, s2)"
      "length cs \<le> n - length bs" "cs = take (length cs) (drop (nat (net_position ?s)) res)"
      "conn_ok failures at_byte s2" "connected (advance_by cs ?s) s2" by blast
    have "large_read io t n s = (Some (bs @ cs), s2)"
      using h(1) 2(1) False ne take by (simp add: large_read.simps [of io t n s])
    moreover have "nat (net_position ?s) = nat (net_position s) + length bs"
      using less.prems(3) c(2) by (simp add: nat_add_distrib)
    then have "bs @ cs = take (length (bs @ cs)) (drop (nat (net_position s)) res)"
      by (intro take_drop_append [OF h(3)]) (use 2(3) in simp)
    moreover have "connected (advance_by (bs @ cs) s) s2"
      using 2(5) h(6) by (simp add: connected_def)
    moreover have "length (bs @ cs) \<le> n" using h(2) 2(2) by simp
    ultimately show ?thesis using 2(4) ne by blast
  qed
qed

text \<open>The cache answers with bytes of the file at the position.\<close>

lemma read_from_cache_spec:
  assumes "network_ok res failures at_byte s"
  shows "length (read_from_cache n s) \<le> n"
    and "read_from_cache n s = take (length (read_from_cache n s)) (drop (nat (net_position s)) res)"
    and "net_position s + int (length (read_from_cache n s)) \<le> int (length res)"
proof -
  have "length (read_from_cache n s) \<le> n
      \<and> read_from_cache n s = take (length (read_from_cache n s)) (drop (nat (net_position s)) res)
      \<and> net_position s + int (length (read_from_cache n s)) \<le> int (length res)"
  proof (cases "net_position s < cache_position s \<or> cache_position s + cache_count s \<le> net_position s")
    case True
    then show ?thesis using assms by (simp add: read_from_cache_def network_ok_def)
  next
    case False
    define off where "off = nat (net_position s - cache_position s)"
    define k where "k = nat (cache_count s)"
    have c: "take k (cache s) = take k (drop (nat (cache_position s)) res)" "off < k" "k \<le> length (cache s)"
      "0 \<le> cache_position s" "net_position s = cache_position s + int off"
      using assms False by (auto simp: network_ok_def off_def k_def)
    have eq: "read_from_cache n s = take (min (k - off) n) (drop off (cache s))"
      using False by (simp add: read_from_cache_def off_def k_def Let_def)
    also have "\<dots> = take (min (k - off) n) (drop off (take k (cache s)))"
      by (simp add: drop_take)
    also have "\<dots> = take (min (k - off) n) (drop (nat (cache_position s) + off) res)"
      unfolding c(1) by (simp add: drop_take add.commute)
    finally have r: "read_from_cache n s = take (min (k - off) n) (drop (nat (net_position s)) res)"
      using c(4,5) by (simp add: nat_add_distrib)
    have "k \<le> length (drop (nat (cache_position s)) res)"
      using c(1,3) by (metis length_take min.absorb2 min.cobounded1)
    then have "length (read_from_cache n s) = min (k - off) n" "nat (net_position s) + (k - off) \<le> length res"
      unfolding eq using c by (auto simp: nat_add_distrib)
    then show ?thesis using r c(4,5) by auto
  qed
  then show "length (read_from_cache n s) \<le> n"
    and "read_from_cache n s = take (length (read_from_cache n s)) (drop (nat (net_position s)) res)"
    and "net_position s + int (length (read_from_cache n s)) \<le> int (length res)" by auto
qed

lemma read_from_cache_hit:
  assumes "cache_position s \<le> net_position s" "net_position s < cache_position s + cache_count s" "0 < n"
    and "cache_count s \<le> int (length (cache s))"
  shows "read_from_cache n s \<noteq> []"
  using assms by (auto simp: read_from_cache_def Let_def)

lemma advance_ok:
  "network_ok res failures at_byte s \<Longrightarrow> net_position s + int (length bs) \<le> int (length res) \<Longrightarrow>
     network_ok res failures at_byte (advance_by bs s)"
  by (simp add: network_ok_def)

lemma connected_ok:
  "network_ok res failures at_byte s \<Longrightarrow> connected s s' \<Longrightarrow> conn_ok failures at_byte s' \<Longrightarrow>
     network_ok res failures at_byte s'"
  by (simp add: network_ok_def connected_def)

lemma fill_ok:
  assumes s: "network_ok res failures at_byte s" and xs: "length xs \<le> length (cache s)"
    "xs = take (length xs) (drop (nat (net_position s)) res)"
  shows "network_ok res failures at_byte (s\<lparr>cache_position := net_position s, cache := overwrite xs (cache s),
    cache_count := int (length xs)\<rparr>)"
  using s xs by (auto simp: network_ok_def overwrite_def)

lemma network_read_spec:
  assumes rel: "serves res failures at_byte io" and s: "network_ok res failures at_byte s"
  shows "\<exists>bs s'. network_read io n s = (Some bs, s') \<and> network_ok res failures at_byte s' \<and> length bs \<le> n
    \<and> bs = take (length bs) (drop (nat (net_position s)) res)
    \<and> net_position s' = net_position s + int (length bs)
    \<and> (bs = [] \<longrightarrow> n = 0 \<or> net_position s = int (length res))"
proof -
  define bs where "bs = read_from_cache n s"
  define s1 where "s1 = advance_by bs s"
  define k where "k = n - length bs"
  note b = read_from_cache_spec [OF s, of n, folded bs_def]
  have s1: "network_ok res failures at_byte s1" using advance_ok [OF s b(3)] by (simp add: s1_def)
  then have o1: "conn_ok failures at_byte s1" "net_length s1 = int (length res)"
    "0 \<le> net_position s1" "net_position s1 \<le> int (length res)" "cache s1 \<noteq> []" by (simp_all add: network_ok_def)
  have p1: "nat (net_position s1) = nat (net_position s) + length bs" "net_position s1 = net_position s + int (length bs)"
    using s by (simp_all add: s1_def network_ok_def nat_add_distrib)
  text \<open>What is read after the bytes of the cache.\<close>
  have glue: ?thesis
    if "network_read io n s = (Some (bs @ cs), s')" "network_ok res failures at_byte s'" "length cs \<le> k"
      "cs = take (length cs) (drop (nat (net_position s1)) res)" "net_position s' = net_position s1 + int (length cs)"
      "cs = [] \<longrightarrow> k = 0 \<or> net_position s1 = int (length res)" for cs s'
  proof -
    have "bs @ cs = take (length (bs @ cs)) (drop (nat (net_position s)) res)"
      by (rule take_drop_append [OF b(2)]) (use that(4) in \<open>simp only: p1(1)\<close>)
    moreover have "length (bs @ cs) \<le> n" using that(3) b(1) by (simp add: k_def)
    moreover have "bs @ cs = [] \<longrightarrow> n = 0 \<or> net_position s = int (length res)" using that(6) p1(2) by (auto simp: k_def)
    moreover have "net_position s' = net_position s + int (length (bs @ cs))" using that(5) p1(2) by simp
    ultimately show ?thesis using that(1,2) by blast
  qed
  have read: "network_read io n s = (if length (cache s1) < k then
        (case large_read io 3 k s1 of (Some cs, s) \<Rightarrow> (Some (bs @ cs), s) | (None, s) \<Rightarrow> (None, s))
      else if 0 < k then
        (case http_reader io 0 (length (cache s1)) (s1\<lparr>cache_position := net_position s1\<rparr>) of
           (Got xs, s) \<Rightarrow> (Some (bs @ read_from_cache k (s\<lparr>cache := overwrite xs (cache s), cache_count := int (length xs)\<rparr>)),
             advance_by (read_from_cache k (s\<lparr>cache := overwrite xs (cache s), cache_count := int (length xs)\<rparr>))
               (s\<lparr>cache := overwrite xs (cache s), cache_count := int (length xs)\<rparr>))
         | (Failed xs, s) \<Rightarrow> (None, s\<lparr>cache := overwrite xs (cache s)\<rparr>)
         | (Not_satisfiable, s) \<Rightarrow> (None, s))
      else (Some bs, s1))"
    by (simp only: network_read_def Let_def bs_def [symmetric] s1_def [symmetric] k_def [symmetric]) simp
  show ?thesis
  proof (cases "k = 0")
    case True
    then show ?thesis using read s1 by (intro glue [of "[]" s1]) auto
  next
    case k: False
    show ?thesis
    proof (cases "length (cache s1) < k")
      case True
      obtain cs s2 where l: "large_read io 3 k s1 = (Some cs, s2)" "length cs \<le> k"
        "cs = take (length cs) (drop (nat (net_position s1)) res)"
        "cs = [] \<longrightarrow> k = 0 \<or> net_position s1 = int (length res)"
        "conn_ok failures at_byte s2" "connected (advance_by cs s1) s2"
        using large_read_spec [OF rel o1(1-4)] by blast
      have "length cs \<le> length (drop (nat (net_position s1)) res)" using l(3) by (metis length_take min.cobounded1)
      then have "network_ok res failures at_byte (advance_by cs s1)"
        using o1(3,4) by (intro advance_ok s1) auto
      then have "network_ok res failures at_byte s2" by (rule connected_ok [where failures = failures, OF _ l(6,5)])
      then show ?thesis using read True l by (intro glue [of cs s2]) (auto simp: connected_def)
    next
      case False
      define t where "t = s1\<lparr>cache_position := net_position s1\<rparr>"
      obtain xs s2 where h: "http_reader io 0 (length (cache s1)) t = (Got xs, s2)" "length xs \<le> length (cache s1)"
        "xs = take (length xs) (drop (nat (net_position s1)) res)" "xs = [] \<longrightarrow> net_position s1 = int (length res)"
        "conn_ok failures at_byte s2" "connected t s2"
        using http_reader_served [OF rel, of t "length (cache s1)"] o1 by (auto simp: t_def)
      define u where "u = s2\<lparr>cache := overwrite xs (cache s2), cache_count := int (length xs)\<rparr>"
      define cs where "cs = read_from_cache k u"
      have "connected (s1\<lparr>cache_position := net_position s1, cache := overwrite xs (cache s1), cache_count := int (length xs)\<rparr>) u"
        using h(6) by (simp add: connected_def u_def t_def)
      then have u: "network_ok res failures at_byte u"
        by (rule connected_ok [OF fill_ok [OF s1 h(2,3)]]) (use h(5) in \<open>simp add: u_def\<close>)
      have pu: "net_position u = net_position s1" "cache_position u = net_position s1" "cache_count u = int (length xs)"
        "cache u = overwrite xs (cache s1)"
        using h(6) by (simp_all add: connected_def u_def t_def)
      note c = read_from_cache_spec [OF u, of k, folded cs_def, unfolded pu(1)]
      have "xs \<noteq> [] \<Longrightarrow> cs \<noteq> []"
        unfolding cs_def using k pu by (intro read_from_cache_hit) (auto simp: overwrite_def)
      moreover have "network_ok res failures at_byte (advance_by cs u)" using c(3) pu(1) by (intro advance_ok u) simp
      moreover have "network_read io n s = (Some (bs @ cs), advance_by cs u)"
        using read False k h(1) by (simp add: t_def [symmetric] u_def cs_def)
      ultimately show ?thesis using c h(4) pu(1) by (intro glue [of cs "advance_by cs u"]) auto
    qed
  qed
qed

lemma network_byte_source:
  assumes "serves res failures at_byte io"
  shows "byte_source (network_ops io) (network_ok res failures at_byte) (\<lambda>_. res)"
proof unfold_locales
  fix s :: "'a network" and n :: nat
  assume "network_ok res failures at_byte s"
  from network_read_spec [OF assms this, of n]
  show "\<exists>bs s'. stream_read (network_ops io) n s = Some (bs, s') \<and> network_ok res failures at_byte s' \<and> res = res
      \<and> length bs \<le> n \<and> bs = take (length bs) (drop (nat (get_position (network_ops io) s)) res)
      \<and> get_position (network_ops io) s' = get_position (network_ops io) s + int (length bs)
      \<and> (bs = [] \<longrightarrow> n = 0 \<or> get_position (network_ops io) s = int (length res))"
    by (auto simp: network_ops_def)
qed (auto simp: network_ops_def network_ok_def)

lemma network_new_ok:
  "failures e \<le> NetworkRetryCount \<Longrightarrow> 0 < k \<Longrightarrow> network_ok res failures at_byte (network_new e (int (length res)) k)"
  by (simp add: network_ok_def conn_ok_def network_new_def)

section \<open>Properties\<close>

text \<open>
  A server for examples. Its state is the place of the response, the failures to come, and
  whether it still sends: it delivers at most so many bytes at a time and fails twice a transfer.
\<close>

definition example_server :: "u8 list \<Rightarrow> nat \<Rightarrow> (int \<times> nat) http_ops" where
  "example_server res most = \<lparr>
     send_request = \<lambda>p (q, f). (case f of 0 \<Rightarrow> (Response, (p, 0)) | Suc f \<Rightarrow> (Request_failed, (q, f))),
     response_read = \<lambda>n (q, f).
       (let bs = take (min n most) (drop (nat q) res)
        in case f of 0 \<Rightarrow> (Some bs, (q + int (length bs), if bs = [] then 2 else 0))
                   | Suc f \<Rightarrow> (None, (q, f))),
     is_incomplete = \<lambda>_. False\<rparr>"

lemma take_as_prefix: "take k xs = take (min (length xs) k) xs"
  by (simp add: min_def)

lemma example_serves: "0 < most \<Longrightarrow> serves res snd fst (example_server res most)"
  using take_as_prefix [of _ "drop _ res"]
  by (auto simp: serves_def example_server_def NetworkRetryCount_def Let_def split: nat.splits)

text \<open>C15. On a server that answers, if need be after a few failures, the network stream with its
  cache, of whatever size, is the remote file: read back and forth at any offsets and in any
  sizes it delivers the bytes from there on.\<close>

theorem network_session:
  assumes "serves res failures at_byte io" and "failures e \<le> NetworkRetryCount" and "0 < cache_len"
    and "list_all (\<lambda>r. 0 \<le> fst r \<and> fst r < int (length res) \<and> list_all (\<lambda>n. n < 2 ^ 31) (snd r)) rs"
  shows "\<exists>outs. requests (network_ops io) rs (network_new e (int (length res)) cache_len) = Some outs
    \<and> list_all2 (delivers res) rs outs"
  using byte_source.requests_deliver [OF network_byte_source [OF assms(1)]
      network_new_ok [of failures e cache_len res at_byte]] assms(2-4) by simp

theorem network_session_witness:
  "\<exists>outs. requests (network_ops (example_server [1, 2, 3, 4, 5] 2)) [(3, [1, 4]), (0, [1])]
      (network_new (0, 3) 5 2) = Some outs \<and> list_all2 (delivers [1, 2, 3, 4, 5]) [(3, [1, 4]), (0, [1])] outs"
  using network_session [OF example_serves [of 2 "[1, 2, 3, 4, 5]"], of "(0, 3)" 2 "[(3, [1, 4]), (0, [1])]"]
  by (simp add: NetworkRetryCount_def)

text \<open>A connection that breaks in the middle of the file, for good.\<close>

definition half_server :: "int http_ops" where
  "half_server = \<lparr>
     send_request = \<lambda>p _. (if 4 \<le> p then Request_failed else Response, p),
     response_read = \<lambda>n q.
       (if 0 < n \<and> 4 \<le> q then (None, q)
        else let bs = take n (drop (nat q) [1, 2, 3, 4]) in (Some bs, q + int (length bs))),
     is_incomplete = \<lambda>_. False\<rparr>"

text \<open>When filling the cache fails for good, the cache has its new position but the size it had
  before: after the read has thrown, the same read returns bytes of another place of the file.\<close>

lemma failed_fill_poisons_cache:
  "let s1 = snd (network_read half_server 1 (network_new 0 8 4));
       s2 = snd (network_read half_server 1 (s1\<lparr>net_position := 4\<rparr>))
   in fst (network_read half_server 1 (s1\<lparr>net_position := 4\<rparr>)) = None
     \<and> fst (network_read half_server 1 s2) = Some [1]"
  by code_simp

end
