(* ===== verification/Install_Method.thy ===== *)
theory Install_Method
  imports DPI_Prelude
begin

unbundle bit_operations_syntax

text \<open>
  The flags (Others/Enums.cs) with which Views/MainView.axaml.cs describes what was loaded, their
  normalisation in \<^verbatim>\<open>PushPackage\<close> of Tasks/Installer.cs and the choice of the method by which the
  package is installed.
\<close>

section \<open>What was loaded\<close>

text \<open>The flags of Others/Enums.cs, a \<^verbatim>\<open>ulong\<close>.\<close>

type_synonym source_flags = "64 word"

definition URL_flag :: source_flags where "URL_flag = 0x01"
definition JSON_flag :: source_flags where "JSON_flag = 0x02"
definition RAR_flag :: source_flags where "RAR_flag = 0x04"
definition File_flag :: source_flags where "File_flag = 0x08"
definition Proxy_flag :: source_flags where "Proxy_flag = 0x10"
definition SevenZip_flag :: source_flags where "SevenZip_flag = 0x20"
definition DiskCache_flag :: source_flags where "DiskCache_flag = 0x40"
definition Segmented_flag :: source_flags where "Segmented_flag = 0x80"

definition has_flag :: "source_flags \<Rightarrow> source_flags \<Rightarrow> bool" where
  "has_flag x f \<longleftrightarrow> x AND f = f"

definition clear_flags :: "source_flags \<Rightarrow> source_flags \<Rightarrow> source_flags" where
  "clear_flags x f = x AND NOT f"

datatype compression_format = RAR | SevenZip | Uncompressed

text \<open>\<^verbatim>\<open>DetectCompressionFormat\<close>: the first four bytes, least significant first.\<close>

definition DetectCompressionFormat :: "u8 list \<Rightarrow> compression_format" where
  "DetectCompressionFormat magic =
     (let m = (le_word (take 4 magic) :: u32) in
      if m = 0x544E437F then Uncompressed
      else if m = 0x21726152 then RAR
      else if m = 0xAFBC7A37 then SevenZip
      else Uncompressed)"

text \<open>
  \<^verbatim>\<open>BtnLoadOnClick\<close>: whether the name ends in \<^verbatim>\<open>.json\<close>, whether it is a path, whether the file host
  allows one connection only (looked at for files that are downloaded), and the format found.
\<close>

definition load_source :: "bool \<Rightarrow> bool \<Rightarrow> bool \<Rightarrow> compression_format \<Rightarrow> source_flags" where
  "load_source json is_path single fmt =
     (let s = (if json then (if is_path then File_flag OR JSON_flag else URL_flag OR JSON_flag)
               else if is_path then File_flag else URL_flag);
          limited = (\<not> json \<and> \<not> is_path \<and> single);
          s = (if limited then s OR DiskCache_flag else s)
      in case fmt of RAR \<Rightarrow> s OR RAR_flag | SevenZip \<Rightarrow> s OR SevenZip_flag | Uncompressed \<Rightarrow> s)"

section \<open>The method\<close>

text \<open>\<^verbatim>\<open>PushPackage\<close> adds the flags of the settings and reduces the combinations.\<close>

definition normalise_source :: "bool \<Rightarrow> bool \<Rightarrow> source_flags \<Rightarrow> source_flags" where
  "normalise_source proxy segmented s =
     (let s = (if proxy \<and> \<not> has_flag s DiskCache_flag then s OR Proxy_flag else s);
          s = (if segmented \<and> \<not> has_flag s DiskCache_flag then s OR (Segmented_flag OR Proxy_flag) else s);
          s = (if has_flag s DiskCache_flag then clear_flags s (Segmented_flag OR Proxy_flag) else s);
          s = (if has_flag s SevenZip_flag \<or> has_flag s RAR_flag
               then clear_flags s (Proxy_flag OR Segmented_flag OR DiskCache_flag) else s);
          s = (if has_flag s JSON_flag
               then clear_flags s (Proxy_flag OR DiskCache_flag OR URL_flag OR File_flag) else s);
          s = (if has_flag s File_flag
               then clear_flags s (Proxy_flag OR Segmented_flag OR DiskCache_flag) else s)
      in if has_flag s DiskCache_flag \<or> has_flag s Segmented_flag then clear_flags s Proxy_flag else s)"

datatype push_method = Via_archive bool | Via_cache | Via_proxy | Via_merge | Via_file | Direct

text \<open>The cases of the switch; anything else is the message \<^verbatim>\<open>Unexpected Install Method\<close>.\<close>

definition install_method :: "source_flags \<Rightarrow> push_method option" where
  "install_method s =
     (if s = URL_flag OR SevenZip_flag then Some (Via_archive True)
      else if s = URL_flag OR RAR_flag then Some (Via_archive False)
      else if s = JSON_flag OR Segmented_flag \<or> s = URL_flag OR DiskCache_flag \<or> s = URL_flag OR Segmented_flag
        then Some Via_cache
      else if s = URL_flag OR Proxy_flag then Some Via_proxy
      else if s = JSON_flag then Some Via_merge
      else if s = File_flag then Some Via_file
      else if s = URL_flag then Some Direct
      else None)"

text \<open>Whether the package may be cut into pieces, before the setting is looked at.\<close>

definition can_split :: "source_flags \<Rightarrow> push_method \<Rightarrow> bool" where
  "can_split s m =
     (case m of Via_archive _ \<Rightarrow> False | Direct \<Rightarrow> False
      | Via_cache \<Rightarrow> \<not> has_flag s DiskCache_flag | _ \<Rightarrow> True)"

text \<open>Clearing flags bit by bit needs no complement.\<close>

lemma clear_flags_xor: "clear_flags x f = x XOR (x AND f)"
  by (rule bit_eqI) (auto simp: clear_flags_def bit_simps)

lemmas flag_simps = URL_flag_def JSON_flag_def RAR_flag_def File_flag_def Proxy_flag_def
  SevenZip_flag_def DiskCache_flag_def Segmented_flag_def has_flag_def clear_flags_xor

lemma detect_examples:
  "DetectCompressionFormat [0x52, 0x61, 0x72, 0x21] = RAR"
  "DetectCompressionFormat [0x37, 0x7A, 0xBC, 0xAF] = SevenZip"
  "DetectCompressionFormat [0x7F, 0x43, 0x4E, 0x54] = Uncompressed"
  by code_simp+

text \<open>C13. By which method a package is installed, for everything that can be loaded and all settings:
  what is downloaded goes through the cache, the proxy or directly, manifests are merged, files
  served, archives unpacked; an archive that is a local file or behind a manifest has no method.\<close>

theorem install_method_of_load:
  "install_method (normalise_source proxy segmented (load_source json is_path single fmt)) =
     (if fmt \<noteq> Uncompressed then (if json \<or> is_path then None else Some (Via_archive (fmt = SevenZip)))
      else if json then Some (if segmented then Via_cache else Via_merge)
      else if is_path then Some Via_file
      else if single \<or> segmented then Some Via_cache
      else if proxy then Some Via_proxy
      else Some Direct)"
  by (cases proxy; cases segmented; cases json; cases is_path; cases single; cases fmt)
    (simp_all add: load_source_def normalise_source_def install_method_def flag_simps)

end
