(* ===== verification/Http_Range.thy ===== *)
theory Http_Range
  imports Net_Strings "HOL-Library.Word"
begin

text \<open>
  Host/HttpRange.cs: the header of a partial request, the bytes it selects of a file, and
  the text that a client sends for a range. Whatever the header says, the bytes selected
  lie inside the file.
\<close>

record http_range =
  range_begin :: int
  range_end :: "int option"
  is_valid :: bool
  is_suffix_range :: bool
  suffix_length :: "int option"

definition invalid_range :: http_range where
  "invalid_range = \<lparr>range_begin = 0, range_end = None, is_valid = False, is_suffix_range = False,
     suffix_length = None\<rparr>"

section \<open>Reading the header\<close>

text \<open>The constructor: the part before the equals sign, the first of several ranges, the bounds.\<close>

definition first_range :: "string \<Rightarrow> string" where
  "first_range s =
     (let s = trim s in case index_of CHR '','' s of Some i \<Rightarrow> trim (take i s) | None \<Rightarrow> s)"

definition range_bounds :: "string \<Rightarrow> string \<Rightarrow> http_range" where
  "range_bounds begin_str end_str =
     (if is_white_string begin_str then
        (case parse_long end_str of
           Some n \<Rightarrow> if 0 < n then invalid_range\<lparr>is_suffix_range := True, suffix_length := Some n,
                         is_valid := True\<rparr>
                     else invalid_range
         | None \<Rightarrow> invalid_range)
      else case parse_long begin_str of
         None \<Rightarrow> invalid_range
       | Some b \<Rightarrow>
           if b < 0 then invalid_range
           else if \<not> is_white_string end_str \<and> end_str \<noteq> ''*'' then
             (case parse_long end_str of
                None \<Rightarrow> invalid_range\<lparr>range_begin := b\<rparr>
              | Some e \<Rightarrow> if e < b then invalid_range\<lparr>range_begin := b\<rparr>
                           else invalid_range\<lparr>range_begin := b, range_end := Some e, is_valid := True\<rparr>)
           else invalid_range\<lparr>range_begin := b, is_valid := True\<rparr>)"

definition range_of_text :: "string \<Rightarrow> http_range" where
  "range_of_text s =
     (case index_of CHR ''-'' s of
        None \<Rightarrow> invalid_range
      | Some i \<Rightarrow> range_bounds (trim (take i s)) (trim (drop (Suc i) s)))"

definition HttpRange :: "string \<Rightarrow> http_range" where
  "HttpRange header =
     (if is_white_string header then invalid_range
      else case index_of CHR ''='' header of
          None \<Rightarrow> range_of_text (first_range header)
        | Some i \<Rightarrow>
            if \<not> equals_ignore_case (trim (take i header)) ''bytes'' then invalid_range
            else range_of_text (first_range (drop (Suc i) header)))"

section \<open>The bytes selected\<close>

definition to_int64 :: "int \<Rightarrow> int" where
  "to_int64 n = signed_take_bit 63 n"

text \<open>\<^verbatim>\<open>Length\<close> is the lifted \<^verbatim>\<open>(End - Begin) + 1\<close>, null without an end.\<close>

definition range_length :: "http_range \<Rightarrow> int option" where
  "range_length r = (if is_suffix_range r then suffix_length r
     else map_option (\<lambda>e. to_int64 (to_int64 (e - range_begin r) + 1)) (range_end r))"

definition GetStart :: "int \<Rightarrow> http_range \<Rightarrow> int" where
  "GetStart file_len r =
     (if \<not> is_valid r \<or> file_len \<le> 0 then 0
      else if is_suffix_range r then max 0 (file_len - (case suffix_length r of Some n \<Rightarrow> n | None \<Rightarrow> 0))
      else if file_len < range_begin r then file_len
      else range_begin r)"

definition GetLength :: "int \<Rightarrow> http_range \<Rightarrow> int" where
  "GetLength file_len r =
     (if \<not> is_valid r \<or> file_len \<le> 0 then 0
      else let start = GetStart file_len r;
               last = (if is_suffix_range r then file_len - 1
                       else case range_end r of Some e \<Rightarrow> e | None \<Rightarrow> file_len - 1);
               last = (if file_len \<le> last then file_len - 1 else last)
           in if last < start then 0 else last - start + 1)"

lemma range_bounds_shape:
  "range_bounds b e = r \<Longrightarrow> is_valid r \<Longrightarrow>
     (is_suffix_range r \<and> (\<exists>n > 0. suffix_length r = Some n)) \<or>
     (\<not> is_suffix_range r \<and> 0 \<le> range_begin r \<and> (\<forall>e. range_end r = Some e \<longrightarrow> range_begin r \<le> e))"
  by (auto simp: range_bounds_def invalid_range_def split: if_splits option.splits)

text \<open>A header that is accepted is a suffix of positive length or an interval.\<close>

lemma http_range_shape:
  assumes "is_valid (HttpRange h)"
  shows "(is_suffix_range (HttpRange h) \<and> (\<exists>n > 0. suffix_length (HttpRange h) = Some n)) \<or>
     (\<not> is_suffix_range (HttpRange h) \<and> 0 \<le> range_begin (HttpRange h)
       \<and> (\<forall>e. range_end (HttpRange h) = Some e \<longrightarrow> range_begin (HttpRange h) \<le> e))"
proof -
  have "\<exists>b e. HttpRange h = range_bounds b e"
    using assms by (auto simp: HttpRange_def range_of_text_def invalid_range_def split: if_splits option.splits)
  then show ?thesis using range_bounds_shape assms by metis
qed

lemma selection_inside:
  "0 \<le> file_len \<Longrightarrow> 0 \<le> GetStart file_len (HttpRange h) \<and> 0 \<le> GetLength file_len (HttpRange h)
     \<and> GetStart file_len (HttpRange h) + GetLength file_len (HttpRange h) \<le> file_len"
  using http_range_shape [of h]
  by (cases "is_valid (HttpRange h)") (auto simp: GetStart_def GetLength_def Let_def split: option.splits)

text \<open>The offsets a range names, in a file of so many bytes.\<close>

definition named_bytes :: "int \<Rightarrow> http_range \<Rightarrow> int set" where
  "named_bytes file_len r =
     (if \<not> is_valid r then {}
      else if is_suffix_range r then {file_len - (case suffix_length r of Some n \<Rightarrow> n | None \<Rightarrow> 0)..<file_len} \<inter> {0..}
      else {range_begin r..(case range_end r of Some e \<Rightarrow> min e (file_len - 1) | None \<Rightarrow> file_len - 1)})"

lemma selection_named:
  assumes "0 \<le> file_len"
  shows "{GetStart file_len (HttpRange h)..<GetStart file_len (HttpRange h) + GetLength file_len (HttpRange h)}
    = named_bytes file_len (HttpRange h)"
  using assms http_range_shape [of h]
  by (cases "is_valid (HttpRange h)")
    (auto simp: GetStart_def GetLength_def named_bytes_def Let_def min_def max_def split: option.splits)

section \<open>What clients send\<close>

lemma equals_bytes: "equals_ignore_case (trim ''bytes'') ''bytes''"
  by (simp add: equals_ignore_case_def trim_def is_white_def)

lemma header_text:
  assumes "CHR '','' \<notin> set s" "tight s"
  shows "HttpRange (''bytes='' @ s) = range_of_text s"
proof -
  have "index_of CHR ''='' (''bytes='' @ s) = Some 5" by simp
  moreover have "\<not> is_white_string (''bytes='' @ s)" by (simp add: is_white_string_def is_white_def)
  moreover have "first_range s = s"
    using assms by (simp add: first_range_def trim_tight index_of_None_iff [THEN iffD2])
  ultimately show ?thesis using equals_bytes by (simp add: HttpRange_def)
qed

lemma print_nat_not_white: "\<not> is_white_string (print_nat n)"
  by (simp add: is_white_string_trim trim_tight print_nat_tight)

lemma dash_not_printed: "CHR ''-'' \<notin> set (print_nat n)" "CHR '','' \<notin> set (print_nat n)"
    "CHR ''*'' \<notin> set (print_nat n)"
  by (rule print_nat_no_char, simp add: is_digit_def)+

lemma print_not_star: "print_nat n \<noteq> ''*''"
  using dash_not_printed(3) [of n] by auto

lemma tight_ends: "s \<noteq> [] \<Longrightarrow> \<not> is_white (hd s) \<Longrightarrow> \<not> is_white (last s) \<Longrightarrow> tight s"
  by (simp add: tight_def)

lemma dash_not_white: "\<not> is_white CHR ''-''"
  by (simp add: is_white_def)

lemma not_white_ends: "\<not> is_white (hd (print_nat n))" "\<not> is_white (last (print_nat n))"
  using print_nat_tight [of n] by (auto simp: tight_def)

lemma interval_header:
  assumes "0 \<le> a" "a \<le> b" "b < 2 ^ 63"
  shows "HttpRange (''bytes='' @ print_long a @ ''-'' @ print_long b)
    = \<lparr>range_begin = a, range_end = Some b, is_valid = True, is_suffix_range = False, suffix_length = None\<rparr>"
proof -
  have p: "print_long a = print_nat (nat a)" "print_long b = print_nat (nat b)"
    using assms by (simp_all add: print_long_def)
  have "tight (print_nat (nat a) @ ''-'' @ print_nat (nat b))"
    by (rule tight_ends) (simp_all add: not_white_ends)
  then have "HttpRange (''bytes='' @ print_long a @ ''-'' @ print_long b)
      = range_of_text (print_nat (nat a) @ CHR ''-'' # print_nat (nat b))"
    unfolding p using header_text [of "print_nat (nat a) @ ''-'' @ print_nat (nat b)"]
    by (simp add: dash_not_printed)
  also have "\<dots> = range_bounds (print_nat (nat a)) (print_nat (nat b))"
    by (simp add: range_of_text_def index_of_append dash_not_printed trim_tight print_nat_tight)
  finally show ?thesis
    using assms by (simp add: range_bounds_def print_nat_not_white print_not_star parse_print_nat invalid_range_def)
qed

lemma open_header:
  assumes "0 \<le> a" "a < 2 ^ 63"
  shows "HttpRange (''bytes='' @ print_long a @ ''-'')
    = \<lparr>range_begin = a, range_end = None, is_valid = True, is_suffix_range = False, suffix_length = None\<rparr>"
proof -
  have p: "print_long a = print_nat (nat a)" using assms by (simp add: print_long_def)
  have "tight (print_nat (nat a) @ ''-'')"
    by (rule tight_ends) (simp_all add: not_white_ends dash_not_white)
  then have "HttpRange (''bytes='' @ print_long a @ ''-'') = range_of_text (print_nat (nat a) @ CHR ''-'' # [])"
    unfolding p using header_text [of "print_nat (nat a) @ ''-''"] by (simp add: dash_not_printed)
  also have "\<dots> = range_bounds (print_nat (nat a)) []"
    by (simp add: range_of_text_def index_of_append dash_not_printed trim_tight print_nat_tight)
  finally show ?thesis
    using assms by (simp add: range_bounds_def print_nat_not_white parse_print_nat invalid_range_def)
qed

lemma suffix_header:
  assumes "0 < n" "n < 2 ^ 63"
  shows "HttpRange (''bytes=-'' @ print_long n)
    = \<lparr>range_begin = 0, range_end = None, is_valid = True, is_suffix_range = True, suffix_length = Some n\<rparr>"
proof -
  have p: "print_long n = print_nat (nat n)" using assms by (simp add: print_long_def)
  have "tight (''-'' @ print_nat (nat n))"
    by (rule tight_ends) (simp_all add: not_white_ends dash_not_white)
  then have "HttpRange (''bytes='' @ ''-'' @ print_long n) = range_of_text (CHR ''-'' # print_nat (nat n))"
    unfolding p using header_text [of "''-'' @ print_nat (nat n)"] by (simp add: dash_not_printed)
  also have "\<dots> = range_bounds [] (print_nat (nat n))"
    by (simp add: range_of_text_def trim_tight print_nat_tight)
  finally show ?thesis
    using assms by (simp add: range_bounds_def parse_print_nat invalid_range_def)
qed

text \<open>
  \<^verbatim>\<open>Length\<close> wraps for the largest range: its 2 ^ 63 bytes are \<open>- (2 ^ 63)\<close>.
\<close>

lemma largest_range_length:
  "range_length (HttpRange (''bytes='' @ print_long 0 @ ''-'' @ print_long (2 ^ 63 - 1))) = Some (- (2 ^ 63))"
proof -
  have "HttpRange (''bytes='' @ print_long 0 @ ''-'' @ print_long (2 ^ 63 - 1))
    = \<lparr>range_begin = 0, range_end = Some (2 ^ 63 - 1), is_valid = True, is_suffix_range = False,
        suffix_length = None\<rparr>"
    by (rule interval_header) simp_all
  then show ?thesis
    by (simp add: range_length_def to_int64_def signed_take_bit_int_eq_self signed_take_bit_int_eq_self_iff
        signed_take_bit_int_greater_eq)
qed

section \<open>Properties\<close>

text \<open>C22. The three forms of a range a client prints are read back as it meant them: an interval
  with its bounds, an open range with its start, a suffix with its length, for every 64-bit
  number; and each is accepted.\<close>

theorem range_header_roundtrip:
  assumes "0 \<le> a" and "a \<le> b" and "b < 2 ^ 63" and "0 < n" and "n < 2 ^ 63"
  shows "HttpRange (''bytes='' @ print_long a @ ''-'' @ print_long b)
      = \<lparr>range_begin = a, range_end = Some b, is_valid = True, is_suffix_range = False, suffix_length = None\<rparr>
    \<and> HttpRange (''bytes='' @ print_long a @ ''-'')
      = \<lparr>range_begin = a, range_end = None, is_valid = True, is_suffix_range = False, suffix_length = None\<rparr>
    \<and> HttpRange (''bytes=-'' @ print_long n)
      = \<lparr>range_begin = 0, range_end = None, is_valid = True, is_suffix_range = True, suffix_length = Some n\<rparr>"
  using assms interval_header open_header suffix_header by simp

theorem range_header_roundtrip_witness:
  "HttpRange (''bytes='' @ print_long 5 @ ''-'' @ print_long 9)
     = \<lparr>range_begin = 5, range_end = Some 9, is_valid = True, is_suffix_range = False, suffix_length = None\<rparr>
   \<and> HttpRange (''bytes=-'' @ print_long 500)
     = \<lparr>range_begin = 0, range_end = None, is_valid = True, is_suffix_range = True, suffix_length = Some 500\<rparr>"
  using range_header_roundtrip [of 5 9 500] by simp

end
