(* ===== verification/Virtual_Stream.thy ===== *)
theory Virtual_Stream
  imports Byte_Source
begin

text \<open>
  IO/VirtualStream.cs: a window of a stream, from \<open>file_pos\<close> on and \<open>vlen\<close> bytes long. The
  window implements the contract \<open>byte_source\<close> of the stream below it, with the window's
  bytes as content. With \<open>force_amount\<close> a read does not return before it has all it was
  asked for, and one that starts where the stream below ends never returns.
\<close>

definition to_int32 :: "int \<Rightarrow> int" where
  "to_int32 n = signed_take_bit 31 n"

lemma to_int32_eq [simp]: "- (2 ^ 31) \<le> n \<Longrightarrow> n < 2 ^ 31 \<Longrightarrow> to_int32 n = n"
  by (simp add: to_int32_def signed_take_bit_int_eq_self)

record 's virtual =
  base :: 's
  file_pos :: int
  vlen :: int
  vpos :: int
  force_amount :: bool

definition virtual_new :: "'s \<Rightarrow> int \<Rightarrow> int \<Rightarrow> bool \<Rightarrow> 's virtual" where
  "virtual_new b pos len force =
     \<lparr>base = b, file_pos = pos, vlen = len, vpos = 0, force_amount = force\<rparr>"

section \<open>Reading\<close>

text \<open>The loop of \<^verbatim>\<open>Read\<close>: once, or with \<^verbatim>\<open>ForceAmount\<close> until nothing is left to read.\<close>

partial_function (option) read_loop ::
    "'s stream_ops \<Rightarrow> bool \<Rightarrow> nat \<Rightarrow> 's \<Rightarrow> (u8 list \<times> 's) option" where
  "read_loop ops force count s = do {
     (bs, s) \<leftarrow> stream_read ops count s;
     let count = count - length bs;
     if 0 < count \<and> force then do {
       (cs, s) \<leftarrow> read_loop ops force count s;
       Some (bs @ cs, s) }
     else Some (bs, s) }"

definition clamp_count :: "int \<Rightarrow> int \<Rightarrow> int \<Rightarrow> 's virtual \<Rightarrow> nat" where
  "clamp_count buffer offset count v =
     (let count = (if vlen v < vpos v + count then to_int32 (vlen v - vpos v) else count);
          count = (if buffer \<le> count + offset then buffer - offset else count)
      in nat count)"

text \<open>
  \<open>buffer\<close> is the length of the caller's buffer. Nobody else moves the end of the stream
  below, so a wait for it to grow does not return.
\<close>

definition virtual_read ::
    "'s stream_ops \<Rightarrow> int \<Rightarrow> int \<Rightarrow> int \<Rightarrow> 's virtual \<Rightarrow> (u8 list \<times> 's virtual) option" where
  "virtual_read ops buffer offset count v =
     (let read_pos = file_pos v + vpos v in
      if force_amount v \<and> get_length ops (base v) \<le> read_pos then None
      else do {
        b \<leftarrow> (if read_pos \<noteq> get_position ops (base v) then set_position ops read_pos (base v)
             else Some (base v));
        (bs, b) \<leftarrow> read_loop ops (force_amount v) (clamp_count buffer offset count v) b;
        Some (bs, v\<lparr>base := b, vpos := vpos v + int (length bs)\<rparr>) })"

section \<open>Seeking\<close>

definition virtual_seek ::
    "'s stream_ops \<Rightarrow> int \<Rightarrow> seek_origin \<Rightarrow> 's virtual \<Rightarrow> (int \<times> 's virtual) option" where
  "virtual_seek ops offset origin v =
     (if offset < 0 \<or> vlen v < offset then None
      else do {
        v \<leftarrow> (case origin of
            Begin \<Rightarrow> do {
              b \<leftarrow> set_position ops (file_pos v + offset) (base v);
              Some (v\<lparr>base := b, vpos := offset\<rparr>) }
          | Current \<Rightarrow>
              if vlen v < vpos v + offset then None
              else do {
                b \<leftarrow> set_position ops (get_position ops (base v) + offset) (base v);
                Some (v\<lparr>base := b, vpos := vpos v + offset\<rparr>) }
          | End \<Rightarrow>
              (let pos = vlen v - offset in
               if pos < 0 then None
               else do {
                 b \<leftarrow> set_position ops (file_pos v + pos) (base v);
                 Some (v\<lparr>base := b, vpos := pos\<rparr>) }));
        if force_amount v \<and> get_length ops (base v) < get_position ops (base v) then None
        else Some (vpos v, v) })"

definition virtual_set_length :: "'s stream_ops \<Rightarrow> int \<Rightarrow> 's virtual \<Rightarrow> 's virtual option" where
  "virtual_set_length ops n v =
     (if get_length ops (base v) < file_pos v + n then None else Some (v\<lparr>vlen := n\<rparr>))"

definition virtual_ops :: "'s stream_ops \<Rightarrow> 's virtual stream_ops" where
  "virtual_ops ops =
     \<lparr>get_length = vlen, get_position = vpos,
      set_position = \<lambda>p v. map_option snd (virtual_seek ops p Begin v),
      stream_read = \<lambda>n. virtual_read ops (int n) 0 (int n)\<rparr>"

section \<open>The window implements the contract\<close>

definition virtual_content :: "('s \<Rightarrow> u8 list) \<Rightarrow> 's virtual \<Rightarrow> u8 list" where
  "virtual_content content v = take (nat (vlen v)) (drop (nat (file_pos v)) (content (base v)))"

text \<open>The window lies inside the stream below it.\<close>

definition window_ok :: "('s \<Rightarrow> bool) \<Rightarrow> ('s \<Rightarrow> u8 list) \<Rightarrow> 's virtual \<Rightarrow> bool" where
  "window_ok ok content v \<longleftrightarrow> ok (base v) \<and> 0 \<le> file_pos v \<and> 0 \<le> vlen v
     \<and> file_pos v + vlen v \<le> int (length (content (base v))) \<and> 0 \<le> vpos v \<and> vpos v \<le> vlen v"

definition virtual_ok :: "('s \<Rightarrow> bool) \<Rightarrow> ('s \<Rightarrow> u8 list) \<Rightarrow> 's virtual \<Rightarrow> bool" where
  "virtual_ok ok content v \<longleftrightarrow> window_ok ok content v \<and> \<not> force_amount v"

lemma length_virtual_content:
  "window_ok ok content v \<Longrightarrow> length (virtual_content content v) = nat (vlen v)"
  by (auto simp: window_ok_def virtual_content_def)

lemma window_slice:
  assumes "window_ok ok content v" and "k \<le> nat (vlen v - vpos v)"
  shows "take k (drop (nat (file_pos v + vpos v)) (content (base v)))
    = take k (drop (nat (vpos v)) (virtual_content content v))"
  using assms by (simp add: window_ok_def virtual_content_def drop_take nat_add_distrib add.commute
      min_def nat_diff_distrib)

lemma clamp_count_eq:
  assumes "0 \<le> vpos v" "vpos v \<le> vlen v" "n < 2 ^ 31"
  shows "clamp_count (int n) 0 (int n) v = min n (nat (vlen v - vpos v))"
  using assms by (auto simp: clamp_count_def Let_def min_def)

context byte_source
begin

lemma read_loop_spec:
  "ok s \<Longrightarrow> n < 2 ^ 31 \<Longrightarrow> (force \<Longrightarrow> get_position ops s + int n \<le> int (length (content s))) \<Longrightarrow>
   \<exists>bs s'. read_loop ops force n s = Some (bs, s') \<and> ok s' \<and> content s' = content s
     \<and> length bs \<le> n \<and> (force \<longrightarrow> length bs = n)
     \<and> bs = take (length bs) (drop (nat (get_position ops s)) (content s))
     \<and> (bs = [] \<longrightarrow> n = 0 \<or> get_position ops s = int (length (content s)))"
proof (induction n arbitrary: s rule: less_induct)
  case (less n)
  obtain bs s1 where 1: "stream_read ops n s = Some (bs, s1)" "ok s1" "content s1 = content s"
    "length bs \<le> n" "bs = take (length bs) (drop (nat (get_position ops s)) (content s))"
    "get_position ops s1 = get_position ops s + int (length bs)"
    "bs = [] \<Longrightarrow> n = 0 \<or> get_position ops s = int (length (content s))"
    by (rule readE [where n = n, OF less.prems(1,2)]) blast
  show ?case
  proof (cases "length bs < n \<and> force")
    case False
    then have "read_loop ops force n s = Some (bs, s1)"
      using 1(1) by (auto simp: read_loop.simps [of ops force n s])
    moreover have "force \<longrightarrow> length bs = n" using False 1(4) by auto
    ultimately show ?thesis using 1(2-5,7) by blast
  next
    case True
    then have "bs \<noteq> []" using 1(7) less.prems(3) by auto
    then have smaller: "n - length bs < n" using True by (cases bs) auto
    have p: "nat (get_position ops s1) = nat (get_position ops s) + length bs"
      using 1(6) position [OF less.prems(1)] by (simp add: nat_add_distrib)
    have fits: "force \<Longrightarrow> get_position ops s1 + int (n - length bs) \<le> int (length (content s1))"
      using less.prems(3) 1(3,4,6) by simp
    have "n - length bs < 2 ^ 31" using less.prems(2) by simp
    from less.IH [OF smaller 1(2) this fits] obtain cs s2 where 2: "read_loop ops force (n - length bs) s1 = Some (cs, s2)" "ok s2"
      "content s2 = content s1" "length cs \<le> n - length bs" "force \<longrightarrow> length cs = n - length bs"
      "cs = take (length cs) (drop (nat (get_position ops s1)) (content s1))"
      by blast
    have "bs @ cs = take (length (bs @ cs)) (drop (nat (get_position ops s)) (content s))"
      by (rule take_drop_append [OF 1(5)]) (use 2(6) 1(3) in \<open>simp only: p\<close>)
    moreover have "read_loop ops force n s = Some (bs @ cs, s2)"
      by (subst read_loop.simps) (use 1(1) 2(1) True in simp)
    moreover have "length (bs @ cs) \<le> n" "force \<longrightarrow> length (bs @ cs) = n"
      using 1(4) 2(4,5) by auto
    moreover have "content s2 = content s" "bs @ cs \<noteq> []"
      using 2(3) 1(3) \<open>bs \<noteq> []\<close> by auto
    ultimately show ?thesis using 2(2) by blast
  qed
qed

lemma reposition:
  assumes "window_ok ok content v"
  obtains b where "(if file_pos v + vpos v \<noteq> get_position ops (base v)
      then set_position ops (file_pos v + vpos v) (base v) else Some (base v)) = Some b"
    "ok b" "content b = content (base v)" "vpos v < vlen v \<Longrightarrow> get_position ops b = file_pos v + vpos v"
proof (cases "file_pos v + vpos v = get_position ops (base v)")
  case False
  have "ok (base v)" "0 \<le> file_pos v + vpos v" "file_pos v + vpos v \<le> int (length (content (base v)))"
    using assms by (auto simp: window_ok_def)
  from seek [OF this] show ?thesis using that assms False by (auto simp: window_ok_def)
qed (use that assms in \<open>auto simp: window_ok_def\<close>)

text \<open>A read of the window: what it delivers, short or forced.\<close>

lemma virtual_read_spec:
  assumes v: "window_ok ok content v" and n: "n < 2 ^ 31"
    and more: "force_amount v \<Longrightarrow> file_pos v + vpos v < int (length (content (base v)))"
  shows "\<exists>bs v'. virtual_read ops (int n) 0 (int n) v = Some (bs, v') \<and> window_ok ok content v'
    \<and> virtual_content content v' = virtual_content content v \<and> force_amount v' = force_amount v
    \<and> vlen v' = vlen v \<and> length bs \<le> n
    \<and> (force_amount v \<longrightarrow> length bs = min n (nat (vlen v - vpos v)))
    \<and> bs = take (length bs) (drop (nat (vpos v)) (virtual_content content v))
    \<and> vpos v' = vpos v + int (length bs) \<and> (bs = [] \<longrightarrow> n = 0 \<or> vpos v = vlen v)"
proof -
  define k where "k = min n (nat (vlen v - vpos v))"
  have k: "clamp_count (int n) 0 (int n) v = k"
    using clamp_count_eq v n by (auto simp: window_ok_def k_def)
  obtain b where b: "(if file_pos v + vpos v \<noteq> get_position ops (base v)
      then set_position ops (file_pos v + vpos v) (base v) else Some (base v)) = Some b"
    "ok b" "content b = content (base v)" "vpos v < vlen v \<Longrightarrow> get_position ops b = file_pos v + vpos v"
    by (rule reposition [OF v]) blast
  have k31: "k < 2 ^ 31" using n by (simp add: k_def)
  have at: "0 < k \<Longrightarrow> get_position ops b = file_pos v + vpos v" using b(4) by (simp add: k_def)
  have fits: "force_amount v \<Longrightarrow> get_position ops b + int k \<le> int (length (content b))"
    using at v b(2,3) position [OF b(2)] by (cases "k = 0") (auto simp: k_def window_ok_def)
  obtain bs b' where 1: "read_loop ops (force_amount v) k b = Some (bs, b')" "ok b'"
    "content b' = content b" "length bs \<le> k" "force_amount v \<longrightarrow> length bs = k"
    "bs = take (length bs) (drop (nat (get_position ops b)) (content b))"
    "bs = [] \<longrightarrow> k = 0 \<or> get_position ops b = int (length (content b))"
    using read_loop_spec [OF b(2) k31 fits] by blast
  let ?v = "v\<lparr>base := b', vpos := vpos v + int (length bs)\<rparr>"
  have "\<not> (force_amount v \<and> get_length ops (base v) \<le> file_pos v + vpos v)"
    using more length [of "base v"] v by (auto simp: window_ok_def)
  then have "virtual_read ops (int n) 0 (int n) v = Some (bs, ?v)"
    using b(1) 1(1) by (auto simp: virtual_read_def Let_def k)
  moreover have len: "int (length bs) \<le> vlen v - vpos v"
    using 1(4) v by (auto simp: window_ok_def k_def)
  then have "window_ok ok content ?v" using v 1(2,3) b(3) by (auto simp: window_ok_def)
  moreover have "virtual_content content ?v = virtual_content content v"
    using 1(3) b(3) by (simp add: virtual_content_def)
  moreover have "bs = take (length bs) (drop (nat (vpos v)) (virtual_content content v))"
  proof (cases "bs = []")
    case False
    then have "bs = take (length bs) (drop (nat (file_pos v + vpos v)) (content (base v)))"
      using 1(4,6) at b(3) by (metis gr_zeroI le_zero_eq length_0_conv)
    also have "\<dots> = take (length bs) (drop (nat (vpos v)) (virtual_content content v))"
      by (rule window_slice [OF v]) (use len in simp)
    finally show ?thesis .
  qed simp
  moreover have "bs = [] \<longrightarrow> n = 0 \<or> vpos v = vlen v"
    using 1(7) at v b(3) by (cases "k = 0") (auto simp: k_def window_ok_def)
  ultimately show ?thesis using 1(4,5) by (intro exI [of _ bs] exI [of _ ?v]) (auto simp: k_def)
qed

text \<open>At the end of the stream below, a forced read never returns.\<close>

lemma forced_read_at_end:
  assumes "ok (base v)" "force_amount v" "int (length (content (base v))) \<le> file_pos v + vpos v"
  shows "virtual_read ops buffer offset count v = None"
  using assms length by (simp add: virtual_read_def)

lemma virtual_seek_begin:
  assumes "window_ok ok content v" "0 \<le> p" "p \<le> vlen v" "\<not> force_amount v"
  shows "\<exists>b. virtual_seek ops p Begin v = Some (p, v\<lparr>base := b, vpos := p\<rparr>) \<and> ok b
    \<and> content b = content (base v)"
proof -
  have "ok (base v)" "0 \<le> file_pos v + p" "file_pos v + p \<le> int (length (content (base v)))"
    using assms by (auto simp: window_ok_def)
  from seek [OF this] show ?thesis using assms by (auto simp: virtual_seek_def)
qed

text \<open>
  \<^verbatim>\<open>SeekOrigin.End\<close> counts backwards, and no origin takes a negative offset: the convention
  of \<^verbatim>\<open>Stream\<close>, by which \<open>- n\<close> from the end is \<open>n\<close> bytes before it, is refused.
\<close>

lemma virtual_seek_negative: "offset < 0 \<Longrightarrow> virtual_seek ops offset origin v = None"
  by (simp add: virtual_seek_def)

lemma virtual_byte_source:
  "byte_source (virtual_ops ops) (virtual_ok ok content) (virtual_content content)"
proof unfold_locales
  fix v :: "'s virtual" and n :: nat
  assume v: "virtual_ok ok content v" and n: "n < 2 ^ 31"
  then show "\<exists>bs v'. stream_read (virtual_ops ops) n v = Some (bs, v') \<and> virtual_ok ok content v'
      \<and> virtual_content content v' = virtual_content content v \<and> length bs \<le> n
      \<and> bs = take (length bs) (drop (nat (get_position (virtual_ops ops) v)) (virtual_content content v))
      \<and> get_position (virtual_ops ops) v' = get_position (virtual_ops ops) v + int (length bs)
      \<and> (bs = [] \<longrightarrow> n = 0 \<or> get_position (virtual_ops ops) v = int (length (virtual_content content v)))"
    using virtual_read_spec [of v n] v length_virtual_content [of ok content v]
    by (auto simp: virtual_ops_def virtual_ok_def window_ok_def)
next
  fix v :: "'s virtual" and p :: int
  assume v: "virtual_ok ok content v" and p: "0 \<le> p" "p \<le> int (length (virtual_content content v))"
  then have "p \<le> vlen v"
    using length_virtual_content [of ok content v] by (auto simp: virtual_ok_def window_ok_def)
  then show "\<exists>v'. set_position (virtual_ops ops) p v = Some v' \<and> virtual_ok ok content v'
      \<and> virtual_content content v' = virtual_content content v
      \<and> (p < int (length (virtual_content content v)) \<longrightarrow> get_position (virtual_ops ops) v' = p)"
    using virtual_seek_begin [of v p] v p(1)
    by (auto simp: virtual_ok_def virtual_ops_def window_ok_def virtual_content_def)
qed (auto simp: virtual_ops_def virtual_ok_def window_ok_def length_virtual_content)

end

interpretation window: byte_source "virtual_ops source_ops" "virtual_ok source_ok bytes"
    "virtual_content bytes"
  by (rule source.virtual_byte_source)

end
