(* ===== verification/Merged_Stream.thy ===== *)
theory Merged_Stream
  imports Byte_Source
begin

text \<open>
  IO/MergedStream.cs: streams read one after the other as one. The parts satisfy the
  contract \<open>byte_source\<close>; their concatenation does too, so a merged stream may be a part
  again or be wrapped. \<^verbatim>\<open>AppendStream\<close> is the exception: the total length does not see
  what it appends.
\<close>

record 's merged =
  streams :: "'s list"
  part_size :: "int list"
  part_offset :: "int list"
  total_len :: int
  s_index :: nat

section \<open>Construction\<close>

text \<open>The loop of the constructors: every part starts where the one before it ends.\<close>

primrec part_offsets :: "int \<Rightarrow> int list \<Rightarrow> int list" where
  "part_offsets start [] = []"
| "part_offsets start (n # ns) = start # part_offsets (start + n) ns"

definition merged_new :: "'s list \<Rightarrow> int list \<Rightarrow> 's merged option" where
  "merged_new ss sizes =
     (if length sizes < length ss then None
      else Some \<lparr>streams = ss, part_size = sizes, part_offset = part_offsets 0 (take (length ss) sizes),
        total_len = sum_list (take (length ss) sizes), s_index = 0\<rparr>)"

definition merged_of :: "'s stream_ops \<Rightarrow> 's list \<Rightarrow> 's merged" where
  "merged_of ops ss =
     \<lparr>streams = ss, part_size = map (get_length ops) ss,
      part_offset = part_offsets 0 (map (get_length ops) ss),
      total_len = sum_list (map (get_length ops) ss), s_index = 0\<rparr>"

definition merged_append :: "'s \<Rightarrow> int \<Rightarrow> 's merged \<Rightarrow> 's merged" where
  "merged_append s n m =
     m\<lparr>streams := streams m @ [s], part_size := part_size m @ [n],
       part_offset := part_offset m @ [total_len m]\<rparr>"

section \<open>Position and reads\<close>

abbreviation current :: "'s merged \<Rightarrow> 's" where
  "current m \<equiv> streams m ! s_index m"

definition set_current :: "'s \<Rightarrow> 's merged \<Rightarrow> 's merged" where
  "set_current s m = m\<lparr>streams := (streams m)[s_index m := s]\<rparr>"

definition merged_position :: "'s stream_ops \<Rightarrow> 's merged \<Rightarrow> int" where
  "merged_position ops m = part_offset m ! s_index m + get_position ops (current m)"

definition max_offset :: "'s merged \<Rightarrow> int" where
  "max_offset m = part_offset m ! s_index m + part_size m ! s_index m"

text \<open>The first part that holds the offset; an offset in no part leaves the stream as it is.\<close>

definition in_part :: "int \<Rightarrow> 's merged \<Rightarrow> nat \<Rightarrow> bool" where
  "in_part p m i \<longleftrightarrow> part_offset m ! i \<le> p \<and> p < part_offset m ! i + part_size m ! i"

definition merged_seek :: "'s stream_ops \<Rightarrow> int \<Rightarrow> 's merged \<Rightarrow> 's merged option" where
  "merged_seek ops p m =
     (case find (in_part p m) [0..<length (streams m)] of
        None \<Rightarrow> Some m
      | Some i \<Rightarrow> do {
          let m = m\<lparr>s_index := i\<rparr>;
          s \<leftarrow> set_position ops (p - part_offset m ! i) (current m);
          Some (set_current s m) })"

text \<open>\<^verbatim>\<open>Seek\<close> sets the position and gives back where the stream is then.\<close>

definition merged_seek_from ::
    "'s stream_ops \<Rightarrow> int \<Rightarrow> seek_origin \<Rightarrow> 's merged \<Rightarrow> (int \<times> 's merged) option" where
  "merged_seek_from ops offset origin m =
     map_option (\<lambda>m. (merged_position ops m, m))
       (merged_seek ops (seek_target (total_len m) (merged_position ops m) offset origin) m)"

partial_function (option) merged_read ::
    "'s stream_ops \<Rightarrow> nat \<Rightarrow> 's merged \<Rightarrow> (u8 list \<times> 's merged) option" where
  "merged_read ops n m =
     (if length (streams m) \<le> s_index m then None
      else do {
        (bs, s) \<leftarrow> stream_read ops n (current m);
        let m = set_current s m;
        if max_offset m \<le> merged_position ops m \<and> Suc (s_index m) < length (streams m) then do {
          let m = m\<lparr>s_index := Suc (s_index m)\<rparr>;
          s \<leftarrow> (if get_position ops (current m) \<noteq> 0 then set_position ops 0 (current m)
               else Some (current m));
          let m = set_current s m;
          if length bs < n then do {
            (cs, m) \<leftarrow> merged_read ops (n - length bs) m;
            Some (bs @ cs, m) }
          else Some (bs, m) }
        else Some (bs, m) })"

definition merged_ops :: "'s stream_ops \<Rightarrow> 's merged stream_ops" where
  "merged_ops ops = \<lparr>get_length = total_len, get_position = merged_position ops,
     set_position = merged_seek ops, stream_read = merged_read ops\<rparr>"

section \<open>Offsets\<close>

lemma length_part_offsets [simp]: "length (part_offsets k ns) = length ns"
  by (induction ns arbitrary: k) auto

lemma nth_part_offsets: "i < length ns \<Longrightarrow> part_offsets k ns ! i = k + sum_list (take i ns)"
  by (induction ns arbitrary: k i) (auto simp: nth_Cons' take_Cons')

text \<open>Positions in a concatenation.\<close>

lemma sum_lengths: "sum_list (map (\<lambda>xs. int (length xs)) xss) = int (length (concat xss))"
  by (induction xss) auto

lemma drop_concat:
  assumes "i < length xss" "p \<le> length (xss ! i)"
  shows "drop (length (concat (take i xss)) + p) (concat xss) = drop p (xss ! i) @ concat (drop (Suc i) xss)"
  using assms
proof (induction xss arbitrary: i)
  case (Cons xs xss)
  then show ?case by (cases i) (auto simp: drop_append)
qed simp

lemma length_concat_take:
  assumes "i < length xss"
  shows "length (concat (take i xss)) + length (xss ! i) \<le> length (concat xss)"
  using assms
proof (induction xss arbitrary: i)
  case (Cons xs xss)
  then show ?case by (cases i) auto
qed simp

lemma concat_part:
  assumes "p < length (concat xss)"
  shows "\<exists>i < length xss. length (concat (take i xss)) \<le> p
    \<and> p < length (concat (take i xss)) + length (xss ! i)"
  using assms
proof (induction xss arbitrary: p)
  case (Cons xs xss)
  show ?case
  proof (cases "p < length xs")
    case True
    then show ?thesis by (intro exI [of _ 0]) simp
  next
    case False
    then have "p - length xs < length (concat xss)" using Cons.prems by auto
    from Cons.IH [OF this] obtain i where "i < length xss"
      "length (concat (take i xss)) \<le> p - length xs"
      "p - length xs < length (concat (take i xss)) + length (xss ! i)" by blast
    then show ?thesis using False by (intro exI [of _ "Suc i"]) auto
  qed
qed simp

section \<open>The concatenation implements the contract\<close>

definition merged_content :: "('s \<Rightarrow> u8 list) \<Rightarrow> 's merged \<Rightarrow> u8 list" where
  "merged_content content m = concat (map content (streams m))"

definition merged_ok :: "('s \<Rightarrow> bool) \<Rightarrow> ('s \<Rightarrow> u8 list) \<Rightarrow> 's merged \<Rightarrow> bool" where
  "merged_ok ok content m \<longleftrightarrow> s_index m < length (streams m) \<and> (\<forall>s \<in> set (streams m). ok s)
     \<and> part_size m = map (\<lambda>s. int (length (content s))) (streams m)
     \<and> part_offset m = part_offsets 0 (part_size m) \<and> total_len m = sum_list (part_size m)"

lemma merged_offset:
  assumes "merged_ok ok content m" "i < length (streams m)"
  shows "part_offset m ! i = int (length (concat (take i (map content (streams m)))))"
  using assms sum_lengths [of "take i (map content (streams m))"]
  by (simp add: merged_ok_def nth_part_offsets take_map o_def)

lemma merged_total: "merged_ok ok content m \<Longrightarrow> total_len m = int (length (merged_content content m))"
  using sum_lengths [of "map content (streams m)"]
  by (simp add: merged_ok_def merged_content_def o_def)

lemma merged_current: "merged_ok ok content m \<Longrightarrow> ok (current m)"
  by (simp add: merged_ok_def)

text \<open>Putting back a part that still stands for the same bytes, at whatever position.\<close>

lemma set_current_ok:
  assumes "merged_ok ok content m" "ok s" "content s = content (current m)"
  shows "merged_ok ok content (set_current s m)"
    and "merged_content content (set_current s m) = merged_content content m"
proof -
  have same: "map (\<lambda>s. int (length (content s))) ((streams m)[s_index m := s])
      = map (\<lambda>s. int (length (content s))) (streams m)"
    using assms by (intro nth_equalityI) (auto simp: nth_list_update merged_ok_def)
  show "merged_ok ok content (set_current s m)"
    using assms same by (auto simp: merged_ok_def set_current_def dest: set_update_subset_insert [THEN subsetD])
  have "map content ((streams m)[s_index m := s]) = map content (streams m)"
    using assms by (intro nth_equalityI) (auto simp: nth_list_update merged_ok_def)
  then show "merged_content content (set_current s m) = merged_content content m"
    by (simp add: merged_content_def set_current_def)
qed

lemma set_current_simps [simp]:
  "s_index (set_current s m) = s_index m" "part_offset (set_current s m) = part_offset m"
  "part_size (set_current s m) = part_size m" "streams (set_current s m) = (streams m)[s_index m := s]"
  by (simp_all add: set_current_def)

lemma merged_index_ok:
  "merged_ok ok content m \<Longrightarrow> i < length (streams m) \<Longrightarrow> merged_ok ok content (m\<lparr>s_index := i\<rparr>)"
  by (simp add: merged_ok_def)

context byte_source
begin

lemma merged_position_split:
  assumes "merged_ok ok content m"
  shows "nat (merged_position ops m)
      = length (concat (take (s_index m) (map content (streams m)))) + nat (get_position ops (current m))"
    and "0 \<le> merged_position ops m"
    and "merged_position ops m \<le> int (length (merged_content content m))"
proof -
  have i: "s_index m < length (streams m)" using assms by (simp add: merged_ok_def)
  have p: "0 \<le> get_position ops (current m)" "get_position ops (current m) \<le> int (length (content (current m)))"
    using position [OF merged_current [OF assms]] by auto
  note off = merged_offset [OF assms i]
  show "nat (merged_position ops m)
      = length (concat (take (s_index m) (map content (streams m)))) + nat (get_position ops (current m))"
    using p(1) by (simp add: merged_position_def off nat_add_distrib)
  show "0 \<le> merged_position ops m" using p(1) by (simp add: merged_position_def off)
  have "length (concat (take (s_index m) (map content (streams m)))) + length (content (current m))
      \<le> length (merged_content content m)"
    using length_concat_take [of "s_index m" "map content (streams m)"] i by (simp add: merged_content_def)
  then show "merged_position ops m \<le> int (length (merged_content content m))"
    using p(2) by (simp add: merged_position_def off)
qed

text \<open>What follows the position: the rest of the current part, then the parts after it.\<close>

lemma merged_drop:
  assumes "merged_ok ok content m"
  shows "drop (nat (merged_position ops m)) (merged_content content m)
    = drop (nat (get_position ops (current m))) (content (current m))
      @ concat (map content (drop (Suc (s_index m)) (streams m)))"
proof -
  have i: "s_index m < length (map content (streams m))" using assms by (simp add: merged_ok_def)
  have "nat (get_position ops (current m)) \<le> length (map content (streams m) ! s_index m)"
    using position [OF merged_current [OF assms]] i by (simp add: nat_le_iff)
  from drop_concat [OF i this] show ?thesis
    using i by (simp add: merged_position_split(1) [OF assms] merged_content_def drop_map)
qed

text \<open>Moving on to the next part: it starts at its beginning, where the one before ended.\<close>

lemma next_part:
  assumes m: "merged_ok ok content m" and more: "Suc (s_index m) < length (streams m)"
    and full: "max_offset m \<le> merged_position ops m"
  obtains s where
    "(if get_position ops (current (m\<lparr>s_index := Suc (s_index m)\<rparr>)) \<noteq> 0
      then set_position ops 0 (current (m\<lparr>s_index := Suc (s_index m)\<rparr>))
      else Some (current (m\<lparr>s_index := Suc (s_index m)\<rparr>))) = Some s"
    "merged_ok ok content (set_current s (m\<lparr>s_index := Suc (s_index m)\<rparr>))"
    "merged_content content (set_current s (m\<lparr>s_index := Suc (s_index m)\<rparr>)) = merged_content content m"
    "merged_position ops (set_current s (m\<lparr>s_index := Suc (s_index m)\<rparr>)) = merged_position ops m"
proof -
  let ?n = "m\<lparr>s_index := Suc (s_index m)\<rparr>"
  have n: "merged_ok ok content ?n" by (rule merged_index_ok [OF m more])
  have c: "ok (current ?n)" by (rule merged_current [OF n])
  obtain s where s: "(if get_position ops (current ?n) \<noteq> 0 then set_position ops 0 (current ?n)
      else Some (current ?n)) = Some s" "ok s" "content s = content (current ?n)" "get_position ops s = 0"
  proof (cases "get_position ops (current ?n) = 0")
    case True
    then show ?thesis using that [of "current ?n"] c by simp
  next
    case False
    then have "0 < int (length (content (current ?n)))" using position [OF c] by auto
    then show ?thesis using that seek [OF c, of 0] False by auto
  qed
  have "part_offset m ! Suc (s_index m) = max_offset m"
  proof -
    have "s_index m < length (part_size m)" "Suc (s_index m) < length (part_size m)"
      using m more by (auto simp: merged_ok_def)
    then show ?thesis using m
      by (simp add: merged_ok_def max_offset_def nth_part_offsets take_Suc_conv_app_nth)
  qed
  moreover have "merged_position ops m \<le> max_offset m"
    using m position [OF merged_current [OF m]]
    by (auto simp: merged_position_def max_offset_def merged_ok_def)
  moreover have "merged_position ops (set_current s ?n) = part_offset m ! Suc (s_index m)"
    using s(4) more by (simp add: merged_position_def set_current_def)
  ultimately have "merged_position ops (set_current s ?n) = merged_position ops m" using full by simp
  with that s(1) set_current_ok [OF n s(2,3)] show ?thesis by (simp add: merged_content_def)
qed

lemma merged_read_spec:
  "merged_ok ok content m \<Longrightarrow> n < 2 ^ 31 \<Longrightarrow>
   \<exists>bs m'. merged_read ops n m = Some (bs, m') \<and> merged_ok ok content m'
     \<and> merged_content content m' = merged_content content m \<and> length bs \<le> n
     \<and> bs = take (length bs) (drop (nat (merged_position ops m)) (merged_content content m))
     \<and> merged_position ops m' = merged_position ops m + int (length bs)
     \<and> (bs = [] \<longrightarrow> n = 0 \<or> merged_position ops m = int (length (merged_content content m)))"
proof (induction "length (streams m) - s_index m" arbitrary: m n rule: less_induct)
  case less
  note m = less.prems(1)
  let ?p = "get_position ops (current m)" and ?c = "content (current m)"
  have i: "s_index m < length (streams m)" using m by (simp add: merged_ok_def)
  obtain bs s where 1: "stream_read ops n (current m) = Some (bs, s)" "ok s" "content s = ?c"
    "length bs \<le> n" "bs = take (length bs) (drop (nat ?p) ?c)" "get_position ops s = ?p + int (length bs)"
    "bs = [] \<Longrightarrow> n = 0 \<or> ?p = int (length ?c)"
    by (rule readE [where n = n, OF merged_current [OF m] less.prems(2)]) blast
  let ?m = "set_current s m"
  note m1 = set_current_ok [OF m 1(2,3)]
  have pos1: "merged_position ops ?m = merged_position ops m + int (length bs)"
    using i 1(6) by (simp add: merged_position_def)
  have len: "length bs \<le> length (drop (nat ?p) ?c)" using 1(5) by (metis length_take min.cobounded1)
  have pre: "bs = take (length bs) (drop (nat (merged_position ops m)) (merged_content content m))"
    using len 1(5) by (simp add: merged_drop [OF m])
  show ?case
  proof (cases "max_offset ?m \<le> merged_position ops ?m \<and> Suc (s_index ?m) < length (streams ?m)")
    case False
    then have "merged_read ops n m = Some (bs, ?m)"
      using 1(1) i by (subst merged_read.simps) (auto simp: Let_def)
    moreover have "n = 0 \<or> merged_position ops m = int (length (merged_content content m))" if "bs = []"
    proof -
      have "?p = int (length ?c) \<Longrightarrow> max_offset ?m \<le> merged_position ops ?m"
        using pos1 that m i by (simp add: max_offset_def merged_position_def merged_ok_def)
      moreover have "Suc (s_index m) = length (streams m) \<Longrightarrow> ?p = int (length ?c) \<Longrightarrow>
          drop (nat (merged_position ops m)) (merged_content content m) = []"
        by (simp add: merged_drop [OF m])
      ultimately show ?thesis
        using 1(7) [OF that] False i merged_position_split(2,3) [OF m] by force
    qed
    ultimately show ?thesis using m1 1(4) pre pos1 by blast
  next
    case True
    let ?n = "?m\<lparr>s_index := Suc (s_index ?m)\<rparr>"
    obtain t where t: "(if get_position ops (current ?n) \<noteq> 0 then set_position ops 0 (current ?n)
        else Some (current ?n)) = Some t"
      "merged_ok ok content (set_current t ?n)"
      "merged_content content (set_current t ?n) = merged_content content ?m"
      "merged_position ops (set_current t ?n) = merged_position ops ?m"
      by (rule next_part [OF m1(1)]) (use True in auto)
    show ?thesis
    proof (cases "length bs < n")
      case False
      then have "merged_read ops n m = Some (bs, set_current t ?n)"
        using 1(1) i True t(1) by (subst merged_read.simps) (auto simp: Let_def)
      moreover have "bs = [] \<longrightarrow> n = 0" using False by auto
      ultimately show ?thesis using m1 1(4) pre pos1 t by (metis (no_types, lifting))
    next
      case more: True
      have "length (streams (set_current t ?n)) - s_index (set_current t ?n) < length (streams m) - s_index m"
        using i by (simp add: diff_less_mono2)
      note IH = less.hyps [OF this t(2), of "n - length bs", unfolded t(3) m1(2)]
      have "n - length bs < 2 ^ 31" using less.prems(2) by simp
      from IH [OF this] obtain cs m' where 2: "merged_read ops (n - length bs) (set_current t ?n) = Some (cs, m')"
        "merged_ok ok content m'" "merged_content content m' = merged_content content m"
        "length cs \<le> n - length bs"
        "cs = take (length cs) (drop (nat (merged_position ops (set_current t ?n))) (merged_content content m))"
        "merged_position ops m' = merged_position ops (set_current t ?n) + int (length cs)"
        "cs = [] \<longrightarrow> n - length bs = 0 \<or> merged_position ops (set_current t ?n) = int (length (merged_content content m))"
        by blast
      have p: "nat (merged_position ops (set_current t ?n)) = nat (merged_position ops m) + length bs"
        using t(4) pos1 merged_position_split(2) [OF m] by (simp add: nat_add_distrib)
      have "merged_read ops n m = Some (bs @ cs, m')"
        using 1(1) i True t(1) more 2(1) by (subst merged_read.simps) (auto simp: Let_def)
      moreover have "bs @ cs = take (length (bs @ cs)) (drop (nat (merged_position ops m)) (merged_content content m))"
        by (rule take_drop_append [OF pre]) (use 2(5) in \<open>simp only: p\<close>)
      moreover have "length (bs @ cs) \<le> n" using 1(4) 2(4) by simp
      moreover have "merged_position ops m' = merged_position ops m + int (length (bs @ cs))"
        using 2(6) t(4) pos1 by simp
      moreover have "bs @ cs = [] \<longrightarrow> n = 0 \<or> merged_position ops m = int (length (merged_content content m))"
        using 2(7) t(4) pos1 by auto
      ultimately show ?thesis using 2(2,3) by blast
    qed
  qed
qed

text \<open>Every offset before the end is in the first part that holds it.\<close>

lemma find_part:
  assumes m: "merged_ok ok content m" and p: "0 \<le> p" "p < int (length (merged_content content m))"
  obtains i where "find (in_part p m) [0..<length (streams m)] = Some i" "i < length (streams m)"
    "part_offset m ! i \<le> p" "p < part_offset m ! i + int (length (content (streams m ! i)))"
proof -
  have part: "in_part p m i \<longleftrightarrow> part_offset m ! i \<le> p \<and> p < part_offset m ! i + int (length (content (streams m ! i)))"
    if "i < length (streams m)" for i
    using m that by (simp add: in_part_def merged_ok_def)
  have "nat p < length (concat (map content (streams m)))"
    using p by (auto simp: merged_content_def)
  from concat_part [OF this] obtain i where i: "i < length (streams m)"
    "length (concat (take i (map content (streams m)))) \<le> nat p"
    "nat p < length (concat (take i (map content (streams m)))) + length (content (streams m ! i))"
    by auto
  then have "in_part p m i"
    using merged_offset [OF m i(1)] p(1) part [OF i(1)] by (auto simp: le_nat_iff nat_less_iff)
  then have "find (in_part p m) [0..<length (streams m)] \<noteq> None"
    using i(1) by (auto simp: find_None_iff)
  then obtain j where j: "find (in_part p m) [0..<length (streams m)] = Some j" by blast
  then have "j < length (streams m) \<and> in_part p m j"
    by (auto simp: find_Some_iff)
  then show ?thesis using that j part by blast
qed

lemma merged_seek_spec:
  assumes m: "merged_ok ok content m" and p: "0 \<le> p" "p < int (length (merged_content content m))"
  shows "\<exists>m'. merged_seek ops p m = Some m' \<and> merged_ok ok content m'
    \<and> merged_content content m' = merged_content content m \<and> merged_position ops m' = p"
proof -
  obtain i where i: "find (in_part p m) [0..<length (streams m)] = Some i" "i < length (streams m)"
    "part_offset m ! i \<le> p" "p < part_offset m ! i + int (length (content (streams m ! i)))"
    by (rule find_part [OF m p]) blast
  let ?n = "m\<lparr>s_index := i\<rparr>"
  have n: "merged_ok ok content ?n" by (rule merged_index_ok [OF m i(2)])
  obtain s where s: "set_position ops (p - part_offset m ! i) (current ?n) = Some s" "ok s"
    "content s = content (current ?n)" "get_position ops s = p - part_offset m ! i"
    using seek [OF merged_current [OF n], of "p - part_offset m ! i"] i(3,4) by auto
  have "merged_seek ops p m = Some (set_current s ?n)"
    using i(1) s(1) by (simp add: merged_seek_def Let_def)
  moreover have "merged_position ops (set_current s ?n) = p"
    using s(4) i(2) by (simp add: merged_position_def)
  ultimately show ?thesis using set_current_ok [OF n s(2,3)] by (simp add: merged_content_def)
qed

text \<open>An offset past the end, the end itself included, is ignored.\<close>

lemma merged_seek_outside:
  assumes m: "merged_ok ok content m" and p: "p < 0 \<or> int (length (merged_content content m)) \<le> p"
  shows "merged_seek ops p m = Some m"
proof -
  have "\<not> in_part p m i" if i: "i < length (streams m)" for i
  proof -
    have "length (concat (take i (map content (streams m)))) + length (content (streams m ! i))
        \<le> length (merged_content content m)"
      using length_concat_take [of i "map content (streams m)"] i by (simp add: merged_content_def)
    moreover have "part_size m ! i = int (length (content (streams m ! i)))"
      using m i by (simp add: merged_ok_def)
    ultimately show ?thesis using p merged_offset [OF m i] by (auto simp: in_part_def)
  qed
  then have "find (in_part p m) [0..<length (streams m)] = None" by (simp add: find_None_iff)
  then show ?thesis by (simp add: merged_seek_def)
qed

text \<open>A seek says truly where it led: to its target, or nowhere.\<close>

lemma merged_seek_from_spec:
  fixes offset :: int and origin :: seek_origin
  assumes m: "merged_ok ok content m"
  defines "p \<equiv> seek_target (int (length (merged_content content m))) (merged_position ops m) offset origin"
  shows "\<exists>m'. merged_ok ok content m' \<and> merged_content content m' = merged_content content m
    \<and> merged_seek_from ops offset origin m = Some (merged_position ops m', m')
    \<and> merged_position ops m' = (if 0 \<le> p \<and> p < int (length (merged_content content m)) then p else merged_position ops m)"
proof (cases "0 \<le> p \<and> p < int (length (merged_content content m))")
  case True
  then obtain m' where "merged_seek ops p m = Some m'" "merged_ok ok content m'"
    "merged_content content m' = merged_content content m" "merged_position ops m' = p"
    using merged_seek_spec [OF m, of p] by auto
  then show ?thesis using True m by (auto simp: merged_seek_from_def merged_total p_def)
next
  case False
  then have "merged_seek ops p m = Some m" using merged_seek_outside [OF m, of p] by auto
  then show ?thesis using False m by (auto simp: merged_seek_from_def merged_total p_def)
qed

lemma merged_byte_source:
  "byte_source (merged_ops ops) (merged_ok ok content) (merged_content content)"
proof unfold_locales
  fix m :: "'s merged" and n :: nat
  assume m: "merged_ok ok content m" and n: "n < 2 ^ 31"
  show "\<exists>bs m'. stream_read (merged_ops ops) n m = Some (bs, m') \<and> merged_ok ok content m'
      \<and> merged_content content m' = merged_content content m \<and> length bs \<le> n
      \<and> bs = take (length bs) (drop (nat (get_position (merged_ops ops) m)) (merged_content content m))
      \<and> get_position (merged_ops ops) m' = get_position (merged_ops ops) m + int (length bs)
      \<and> (bs = [] \<longrightarrow> n = 0 \<or> get_position (merged_ops ops) m = int (length (merged_content content m)))"
    using merged_read_spec [OF m n] by (simp add: merged_ops_def)
next
  fix m :: "'s merged" and p :: int
  assume m: "merged_ok ok content m" and p: "0 \<le> p" "p \<le> int (length (merged_content content m))"
  show "\<exists>m'. set_position (merged_ops ops) p m = Some m' \<and> merged_ok ok content m'
      \<and> merged_content content m' = merged_content content m
      \<and> (p < int (length (merged_content content m)) \<longrightarrow> get_position (merged_ops ops) m' = p)"
    using merged_seek_spec [OF m p(1)] merged_seek_outside [OF m, of p] m
    by (cases "p < int (length (merged_content content m))") (auto simp: merged_ops_def)
qed (auto simp: merged_ops_def merged_total merged_position_split(2,3))

text \<open>Both constructors build a merged stream at its start.\<close>

lemma merged_new_ok:
  assumes "ss \<noteq> []" "\<forall>s \<in> set ss. ok s" "get_position ops (hd ss) = 0"
  shows "merged_new ss (map (\<lambda>s. int (length (content s))) ss) = Some (merged_of ops ss)"
    and "merged_ok ok content (merged_of ops ss)"
    and "merged_content content (merged_of ops ss) = concat (map content ss)"
    and "merged_position ops (merged_of ops ss) = 0"
proof -
  have same: "map (get_length ops) ss = map (\<lambda>s. int (length (content s))) ss"
    using assms(2) length by simp
  show "merged_new ss (map (\<lambda>s. int (length (content s))) ss) = Some (merged_of ops ss)"
    by (simp add: merged_new_def merged_of_def same)
  show "merged_ok ok content (merged_of ops ss)"
    using assms by (simp add: merged_ok_def merged_of_def same)
  show "merged_content content (merged_of ops ss) = concat (map content ss)"
    by (simp add: merged_content_def merged_of_def)
  show "merged_position ops (merged_of ops ss) = 0"
    using assms by (cases ss) (simp_all add: merged_position_def merged_of_def)
qed

end

interpretation merged_files: byte_source "merged_ops source_ops" "merged_ok source_ok bytes"
    "merged_content bytes"
  by (rule source.merged_byte_source)

section \<open>Appending\<close>

text \<open>
  \<^verbatim>\<open>AppendStream\<close> leaves the total alone. The first part appended can be reached, past the
  end the stream reports; a second one is put at the same offset as the first, so that no
  offset leads to its last bytes, and one that leads into it leads to the wrong place.
\<close>

lemma append_keeps_length:
  "get_length (merged_ops ops) (merged_append s n m) = get_length (merged_ops ops) m"
  by (simp add: merged_ops_def merged_append_def)

lemma append_twice_same_offset:
  assumes "length (part_offset m) = length (streams m)"
  shows "part_offset (merged_append t k (merged_append s n m)) ! length (streams m) = total_len m"
    and "part_offset (merged_append t k (merged_append s n m)) ! Suc (length (streams m)) = total_len m"
  using assms by (simp_all add: merged_append_def nth_append)

end
