(* ===== verification/Package_Server.thy ===== *)
theory Package_Server
  imports Http_Range Virtual_Stream Merged_Stream
begin

text \<open>
  Host/PS4Server.cs: how a file, a window of one or a merged set of files is answered to a
  request with or without a range (\<^verbatim>\<open>SendStream\<close>), what the transfer reports of its progress
  (IO/TransferProgressStream.cs, Host/TransferProgressInfo.cs), and the manifest that cuts a
  package into pieces (\<^verbatim>\<open>RegisterJSON\<close>) that Others/SplitHelper.cs puts together again.
  What is sent is stated as what any reader of the response's stream gets; the transport is
  the web server library's.
\<close>

section \<open>Responses\<close>

datatype 's body = Nothing | Whole 's | Window "'s virtual"

record 's response =
  status :: int
  description :: string
  content_length :: int
  content_range :: "string option"
  body :: "'s body"

definition GetRangeStart :: "http_range option \<Rightarrow> int \<Rightarrow> int" where
  "GetRangeStart rng file_len = (case rng of None \<Rightarrow> 0 | Some r \<Rightarrow> GetStart file_len r)"

definition GetRangeLength :: "http_range option \<Rightarrow> int \<Rightarrow> int" where
  "GetRangeLength rng file_len = (case rng of None \<Rightarrow> file_len | Some r \<Rightarrow> GetLength file_len r)"

definition SendStream :: "'s stream_ops \<Rightarrow> http_range option \<Rightarrow> 's response \<Rightarrow> 's \<Rightarrow> 's response" where
  "SendStream ops rng resp origin =
     (let file_len = get_length ops origin;
          resp = resp\<lparr>content_length := file_len\<rparr>
      in if rng \<noteq> None then
           let start = GetRangeStart rng file_len;
               len = GetRangeLength rng file_len;
               last = start + len - 1
           in if len = 0 then
                resp\<lparr>status := 416, description := ''Range Not Satisfiable'',
                  content_range := Some (''bytes */'' @ print_long file_len)\<rparr>
              else resp\<lparr>content_length := len,
                  content_range := Some (''bytes '' @ print_long start @ ''-'' @ print_long last @ ''/''
                    @ print_long file_len),
                  body := Window (virtual_new origin start len False)\<rparr>
         else resp\<lparr>body := Whole origin\<rparr>)"

text \<open>
  The common part of the handlers \<^verbatim>\<open>File\<close>, \<^verbatim>\<open>Proxy\<close>, \<^verbatim>\<open>Merge\<close>, \<^verbatim>\<open>Split\<close> and \<^verbatim>\<open>Json\<close>: the range of
  the header, the status, and the stream sent.
\<close>

definition handle_request :: "'s stream_ops \<Rightarrow> string option \<Rightarrow> 's \<Rightarrow> 's response" where
  "handle_request ops header origin =
     (let partial = header \<noteq> None;
          resp = \<lparr>status = (if partial then 206 else 200),
                  description = (if partial then ''Partial Content'' else ''OK''),
                  content_length = 0, content_range = None, body = Nothing\<rparr>
      in SendStream ops (map_option HttpRange header) resp origin)"

text \<open>A client that reads the body to its end, \<open>n\<close> bytes at a time.\<close>

definition fetch :: "'s stream_ops \<Rightarrow> nat \<Rightarrow> 's response \<Rightarrow> u8 list option" where
  "fetch ops n resp =
     (case body resp of
        Nothing \<Rightarrow> Some []
      | Whole s \<Rightarrow> map_option fst (drain ops n s)
      | Window v \<Rightarrow> map_option fst (drain (virtual_ops ops) n v))"

section \<open>Every range is answered with its bytes\<close>

lemma nths_interval: "nths xs {a..<b} = drop a (take b xs)"
proof (induction xs arbitrary: a b)
  case (Cons x xs)
  have "{j. a \<le> Suc j \<and> Suc j < b} = {a - 1..<b - 1}" by auto
  then show ?case by (cases a; cases b) (auto simp: nths_Cons Cons.IH)
qed simp

lemma nat_interval: "0 \<le> a \<Longrightarrow> nat ` {a..<b} = {nat a..<nat b}"
proof (intro set_eqI iffI)
  fix x assume "x \<in> {nat a..<nat b}"
  then have "int x \<in> {a..<b}" by auto
  then show "x \<in> nat ` {a..<b}" by (intro image_eqI [of _ _ "int x"]) auto
qed auto

definition selected :: "u8 list \<Rightarrow> http_range \<Rightarrow> u8 list" where
  "selected bs r = nths bs (nat ` named_bytes (int (length bs)) r)"

lemma selected_slice:
  "selected bs (HttpRange h) = take (nat (GetLength (int (length bs)) (HttpRange h)))
     (drop (nat (GetStart (int (length bs)) (HttpRange h))) bs)"
proof -
  let ?a = "GetStart (int (length bs)) (HttpRange h)" and ?k = "GetLength (int (length bs)) (HttpRange h)"
  have in_file: "0 \<le> ?a" "0 \<le> ?k" using selection_inside [of "int (length bs)" h] by simp_all
  then have "nat ` named_bytes (int (length bs)) (HttpRange h) = {nat ?a..<nat ?a + nat ?k}"
    using selection_named [of "int (length bs)" h] nat_interval [of ?a "?a + ?k"]
    by (simp add: nat_add_distrib)
  then show ?thesis by (simp add: selected_def nths_interval drop_take)
qed

lemma named_empty:
  "0 \<le> file_len \<Longrightarrow> named_bytes file_len (HttpRange h) = {} \<longleftrightarrow> GetLength file_len (HttpRange h) = 0"
  unfolding selection_named [symmetric] using selection_inside [of file_len h] by auto

context byte_source
begin

lemma new_window_ok:
  assumes "ok s" "0 \<le> a" "0 \<le> k" "a + k \<le> int (length (content s))"
  shows "virtual_ok ok content (virtual_new s a k False)"
    and "virtual_content content (virtual_new s a k False) = take (nat k) (drop (nat a) (content s))"
  using assms by (auto simp: virtual_ok_def window_ok_def virtual_new_def virtual_content_def)

text \<open>Reading a fresh window to its end.\<close>

lemma drain_window:
  assumes "ok s" "0 \<le> a" "0 \<le> k" "a + k \<le> int (length (content s))" "0 < n" "n < 2 ^ 31"
  shows "map_option fst (drain (virtual_ops ops) n (virtual_new s a k False))
    = Some (take (nat k) (drop (nat a) (content s)))"
proof -
  have "\<exists>v. drain (virtual_ops ops) n (virtual_new s a k False)
      = Some (drop (nat (get_position (virtual_ops ops) (virtual_new s a k False)))
          (virtual_content content (virtual_new s a k False)), v)"
    using byte_source.drain_all [OF virtual_byte_source new_window_ok(1) [OF assms(1-4)] assms(5,6)] .
  then show ?thesis
    using new_window_ok(2) [OF assms(1-4)] by (auto simp: virtual_ops_def virtual_new_def)
qed

text \<open>A handler's response, and what reading it gives.\<close>

lemma handle_partial:
  fixes h :: string
  assumes "ok s" "0 < n" "n < 2 ^ 31"
  defines "r \<equiv> handle_request ops (Some h) s" and "k \<equiv> int (length (content s))"
  shows "GetLength k (HttpRange h) = 0 \<Longrightarrow>
      status r = 416 \<and> content_range r = Some (''bytes */'' @ print_long k) \<and> fetch ops n r = Some []"
    and "GetLength k (HttpRange h) \<noteq> 0 \<Longrightarrow>
      status r = 206 \<and> content_length r = GetLength k (HttpRange h)
      \<and> content_range r = Some (''bytes '' @ print_long (GetStart k (HttpRange h)) @ ''-''
          @ print_long (GetStart k (HttpRange h) + GetLength k (HttpRange h) - 1) @ ''/'' @ print_long k)
      \<and> fetch ops n r = Some (selected (content s) (HttpRange h))"
proof -
  have k: "get_length ops s = k" using length [OF assms(1)] by (simp add: k_def)
  show "GetLength k (HttpRange h) = 0 \<Longrightarrow>
      status r = 416 \<and> content_range r = Some (''bytes */'' @ print_long k) \<and> fetch ops n r = Some []"
    by (simp add: r_def handle_request_def SendStream_def Let_def k GetRangeLength_def fetch_def)
  have "0 \<le> GetStart k (HttpRange h)" "0 \<le> GetLength k (HttpRange h)"
    "GetStart k (HttpRange h) + GetLength k (HttpRange h) \<le> int (length (content s))"
    using selection_inside [of k h] by (simp_all add: k_def)
  from drain_window [OF assms(1) this assms(2,3)]
  show "GetLength k (HttpRange h) \<noteq> 0 \<Longrightarrow>
      status r = 206 \<and> content_length r = GetLength k (HttpRange h)
      \<and> content_range r = Some (''bytes '' @ print_long (GetStart k (HttpRange h)) @ ''-''
          @ print_long (GetStart k (HttpRange h) + GetLength k (HttpRange h) - 1) @ ''/'' @ print_long k)
      \<and> fetch ops n r = Some (selected (content s) (HttpRange h))"
    by (simp add: r_def handle_request_def SendStream_def Let_def k GetRangeLength_def GetRangeStart_def
        fetch_def selected_slice k_def [symmetric])
qed

lemma handle_whole:
  assumes "ok s" "get_position ops s = 0" "0 < n" "n < 2 ^ 31"
  shows "status (handle_request ops None s) = 200"
    and "content_length (handle_request ops None s) = int (length (content s))"
    and "fetch ops n (handle_request ops None s) = Some (content s)"
  using drain_all [OF assms(1,3,4)] assms(1,2) length
  by (auto simp: handle_request_def SendStream_def Let_def fetch_def)

end

section \<open>Progress\<close>

text \<open>The constructor of \<^verbatim>\<open>TransferProgressInfo\<close> clamps what it is given.\<close>

record transfer_progress =
  bytes_sent :: int
  total_bytes :: int
  response_bytes_sent :: int
  response_bytes_total :: int
  completed :: bool

definition progress_info :: "int \<Rightarrow> int \<Rightarrow> int \<Rightarrow> int \<Rightarrow> bool \<Rightarrow> transfer_progress" where
  "progress_info sent file_len response_sent response_len finished =
     \<lparr>bytes_sent = max 0 (min sent file_len), total_bytes = max 0 file_len,
      response_bytes_sent = max 0 (min response_sent response_len),
      response_bytes_total = max 0 response_len, completed = finished\<rparr>"

text \<open>The stream that reports, with the counter of the callback and what it reported.\<close>

record 's tracked =
  inner :: 's
  transfer_start :: int
  file_total :: int
  response_len :: int
  response_sent :: int
  reports :: "transfer_progress list"

definition start_tracking :: "int \<Rightarrow> int \<Rightarrow> int \<Rightarrow> 's \<Rightarrow> 's tracked" where
  "start_tracking start file_len len s =
     \<lparr>inner = s, transfer_start = start, file_total = file_len, response_len = len, response_sent = 0,
      reports = [progress_info start file_len 0 len False]\<rparr>"

definition tracked_read :: "'s stream_ops \<Rightarrow> nat \<Rightarrow> 's tracked \<Rightarrow> (u8 list \<times> 's tracked) option" where
  "tracked_read ops n t = do {
     (bs, s) \<leftarrow> stream_read ops n (inner t);
     let t = t\<lparr>inner := s\<rparr>;
     Some (bs,
       if 0 < length bs then
         let sent = response_sent t + int (length bs) in
         t\<lparr>response_sent := sent, reports := reports t
             @ [progress_info (transfer_start t + sent) (file_total t) sent (response_len t) False]\<rparr>
       else t) }"

definition tracked_ops :: "'s stream_ops \<Rightarrow> 's tracked stream_ops" where
  "tracked_ops ops = \<lparr>get_length = \<lambda>t. get_length ops (inner t), get_position = \<lambda>t. get_position ops (inner t),
     set_position = \<lambda>p t. map_option (\<lambda>s. t\<lparr>inner := s\<rparr>) (set_position ops p (inner t)),
     stream_read = tracked_read ops\<rparr>"

definition finish_tracking :: "'s tracked \<Rightarrow> 's tracked" where
  "finish_tracking t = t\<lparr>reports := reports t
     @ [progress_info (transfer_start t + response_len t) (file_total t) (response_len t) (response_len t) True]\<rparr>"

context byte_source
begin

text \<open>The stream that reports is still the stream.\<close>

lemma tracked_byte_source:
  "byte_source (tracked_ops ops) (\<lambda>t. ok (inner t)) (\<lambda>t. content (inner t))"
proof unfold_locales
  fix t :: "'s tracked" and n :: nat
  assume t: "ok (inner t)" and n: "n < 2 ^ 31"
  from read [where n = n, OF this]
  show "\<exists>bs t'. stream_read (tracked_ops ops) n t = Some (bs, t') \<and> ok (inner t')
      \<and> content (inner t') = content (inner t) \<and> length bs \<le> n
      \<and> bs = take (length bs) (drop (nat (get_position (tracked_ops ops) t)) (content (inner t)))
      \<and> get_position (tracked_ops ops) t' = get_position (tracked_ops ops) t + int (length bs)
      \<and> (bs = [] \<longrightarrow> n = 0 \<or> get_position (tracked_ops ops) t = int (length (content (inner t))))"
  proof (elim exE conjE)
    fix bs s
    assume 1: "stream_read ops n (inner t) = Some (bs, s)" "ok s" "content s = content (inner t)"
      "length bs \<le> n" "bs = take (length bs) (drop (nat (get_position ops (inner t))) (content (inner t)))"
      "get_position ops s = get_position ops (inner t) + int (length bs)"
      "bs = [] \<longrightarrow> n = 0 \<or> get_position ops (inner t) = int (length (content (inner t)))"
    have "\<exists>t'. tracked_read ops n t = Some (bs, t') \<and> inner t' = s"
      using 1(1) by (simp add: tracked_read_def Let_def)
    then show ?thesis using 1 by (auto simp: tracked_ops_def)
  qed
next
  fix t :: "'s tracked" and p :: int
  assume "ok (inner t)" "0 \<le> p" "p \<le> int (length (content (inner t)))"
  from seek [OF this] show "\<exists>t'. set_position (tracked_ops ops) p t = Some t' \<and> ok (inner t')
      \<and> content (inner t') = content (inner t)
      \<and> (p < int (length (content (inner t))) \<longrightarrow> get_position (tracked_ops ops) t' = p)"
    by (auto simp: tracked_ops_def)
qed (use length position in \<open>auto simp: tracked_ops_def\<close>)

end

text \<open>The reports of one response: within bounds, never going back, and the last one up to date.\<close>

definition progress_ok :: "'s tracked \<Rightarrow> bool" where
  "progress_ok t \<longleftrightarrow> reports t \<noteq> [] \<and> 0 \<le> response_sent t
     \<and> sorted (map response_bytes_sent (reports t))
     \<and> list_all (\<lambda>i. 0 \<le> bytes_sent i \<and> bytes_sent i \<le> total_bytes i
          \<and> response_bytes_sent i \<le> response_bytes_total i) (reports t)
     \<and> response_bytes_sent (last (reports t)) = max 0 (min (response_sent t) (response_len t))"

lemma progress_info_bounds:
  "0 \<le> bytes_sent (progress_info a f s k c)" "bytes_sent (progress_info a f s k c) \<le> total_bytes (progress_info a f s k c)"
  "response_bytes_total (progress_info a f s k c) = max 0 k"
  "response_bytes_sent (progress_info a f s k c) = max 0 (min s k)"
  by (auto simp: progress_info_def)

lemma start_progress_ok: "progress_ok (start_tracking a f k s)"
  by (simp add: progress_ok_def start_tracking_def progress_info_bounds)

lemma sorted_snoc:
  "sorted xs \<Longrightarrow> xs \<noteq> [] \<Longrightarrow> last xs \<le> x \<Longrightarrow> sorted (xs @ [x])" for x :: "'a::linorder"
  by (induction xs) (auto simp: sorted_append neq_Nil_conv split: if_splits intro: order_trans)

lemma report_progress_ok:
  assumes "progress_ok t" "0 \<le> n"
  shows "progress_ok (t\<lparr>inner := s, response_sent := response_sent t + n, reports := reports t
    @ [progress_info a f (response_sent t + n) (response_len t) c]\<rparr>)"
  using assms by (auto simp: progress_ok_def progress_info_bounds last_map intro!: sorted_snoc)

lemma tracked_reads:
  "reads (tracked_ops ops) ns t = Some (bs, t') \<Longrightarrow> progress_ok t \<Longrightarrow>
     progress_ok t' \<and> response_sent t' = response_sent t + int (length bs) \<and> response_len t' = response_len t"
proof (induction ns arbitrary: t bs)
  case (Cons n ns)
  obtain cs s ds where 1: "stream_read ops n (inner t) = Some (cs, s)" "bs = cs @ ds"
    "reads (tracked_ops ops) ns (if 0 < length cs then t\<lparr>inner := s, response_sent := response_sent t + int (length cs),
        reports := reports t @ [progress_info (transfer_start t + (response_sent t + int (length cs))) (file_total t)
          (response_sent t + int (length cs)) (response_len t) False]\<rparr> else t\<lparr>inner := s\<rparr>) = Some (ds, t')"
    using Cons.prems(1) by (auto simp: tracked_ops_def tracked_read_def Let_def bind_eq_Some_conv split: if_splits)
  show ?case
  proof (cases "0 < length cs")
    case True
    then show ?thesis
      using Cons.IH [of "t\<lparr>inner := s, response_sent := response_sent t + int (length cs),
        reports := reports t @ [progress_info (transfer_start t + (response_sent t + int (length cs))) (file_total t)
          (response_sent t + int (length cs)) (response_len t) False]\<rparr>" ds]
        report_progress_ok [OF Cons.prems(2), of "int (length cs)"] 1(2,3) by simp
  next
    case False
    moreover have "progress_ok (t\<lparr>inner := s\<rparr>)" using Cons.prems(2) by (simp add: progress_ok_def)
    ultimately show ?thesis using Cons.IH [of "t\<lparr>inner := s\<rparr>" ds] 1(2,3) by simp
  qed
qed simp

section \<open>Properties\<close>

lemma selected_empty:
  "GetLength (int (length bs)) (HttpRange h) = 0 \<Longrightarrow> selected bs (HttpRange h) = []"
  by (simp add: selected_slice)

lemma named_card:
  "0 \<le> k \<Longrightarrow> int (card (named_bytes k (HttpRange h))) = GetLength k (HttpRange h)"
  unfolding selection_named [symmetric] using selection_inside [of k h] by simp

lemma named_Min_Max:
  assumes "0 \<le> k" "GetLength k (HttpRange h) \<noteq> 0"
  shows "Min (named_bytes k (HttpRange h)) = GetStart k (HttpRange h)"
    and "Max (named_bytes k (HttpRange h)) = GetStart k (HttpRange h) + GetLength k (HttpRange h) - 1"
proof -
  have "0 < GetLength k (HttpRange h)" using selection_inside [OF assms(1), of h] assms(2) by simp
  then show "Min (named_bytes k (HttpRange h)) = GetStart k (HttpRange h)"
    and "Max (named_bytes k (HttpRange h)) = GetStart k (HttpRange h) + GetLength k (HttpRange h) - 1"
    unfolding selection_named [OF assms(1), symmetric] by (auto intro!: Min_eqI Max_eqI)
qed

text \<open>C5. Whatever stream is served and whatever the range header says: when it names no byte of
  the file the answer is 416 with the length and no body; otherwise it is 206, with the number
  of bytes named, the first and the last of them, and a body that holds exactly those bytes.\<close>

theorem range_request_answered:
  assumes "byte_source ops ok content" and "ok s" and "0 < n" and "n < 2 ^ 31"
  shows "let k = int (length (content s)); named = named_bytes k (HttpRange h);
      r = handle_request ops (Some h) s
    in status r = (if named = {} then 416 else 206)
      \<and> content_length r = (if named = {} then k else int (card named))
      \<and> content_range r = Some (''bytes '' @ (if named = {} then ''*''
          else print_long (Min named) @ ''-'' @ print_long (Max named)) @ ''/'' @ print_long k)
      \<and> fetch ops n r = Some (nths (content s) (nat ` named))"
proof -
  note answer = byte_source.handle_partial [OF assms, of h]
  have "content_length (handle_request ops (Some h) s) = int (length (content s))"
    if "GetLength (int (length (content s))) (HttpRange h) = 0"
    using that byte_source.length [OF assms(1,2)]
    by (simp add: handle_request_def SendStream_def Let_def GetRangeLength_def)
  then show ?thesis
    using answer named_empty [of "int (length (content s))" h] named_card [of "int (length (content s))" h]
      named_Min_Max [of "int (length (content s))" h] selected_empty [of "content s" h]
    by (cases "GetLength (int (length (content s))) (HttpRange h) = 0")
      (simp_all add: Let_def selected_def)
qed

theorem range_request_answered_witness:
  "status (handle_request source_ops (Some ''bytes=1-2'') (open_source [10, 20, 30, 40])) = 206
   \<and> fetch source_ops 8 (handle_request source_ops (Some ''bytes=1-2'') (open_source [10, 20, 30, 40])) = Some [20, 30]
   \<and> status (handle_request source_ops (Some ''bytes=4-9'') (open_source [10, 20, 30, 40])) = 416"
proof -
  have ok: "source_ok (open_source [10, 20, 30, 40])" by (simp add: source_ok_def open_source_def)
  have b: "bytes (open_source [10, 20, 30, 40]) = [10, 20, 30, 40]" by (simp add: open_source_def)
  have h: "HttpRange ''bytes=1-2'' = \<lparr>range_begin = 1, range_end = Some 2, is_valid = True,
      is_suffix_range = False, suffix_length = None\<rparr>"
    "HttpRange ''bytes=4-9'' = \<lparr>range_begin = 4, range_end = Some 9, is_valid = True,
      is_suffix_range = False, suffix_length = None\<rparr>" by code_simp+
  have n: "named_bytes 4 (HttpRange ''bytes=1-2'') = {1, 2}" "named_bytes 4 (HttpRange ''bytes=4-9'') = {}"
    by (auto simp: named_bytes_def h)
  show ?thesis
    using range_request_answered [OF source.byte_source_axioms ok, of 8 "''bytes=1-2''"]
      range_request_answered [OF source.byte_source_axioms ok, of 8 "''bytes=4-9''"]
    by (simp add: b n Let_def nths_Cons)
qed

text \<open>Whatever is read of a transfer, in pieces of any size, the reports never go back, stay
  between 0 and the totals, and the last of them counts the bytes delivered so far; the report
  sent at the end counts all of the response.\<close>

lemma transfer_progress_reported:
  assumes "reads (tracked_ops ops) ns (start_tracking start file_len len s) = Some (bs, t)" and "0 \<le> len"
  shows "sorted (map response_bytes_sent (reports t))
    \<and> list_all (\<lambda>i. 0 \<le> bytes_sent i \<and> bytes_sent i \<le> total_bytes i
         \<and> response_bytes_sent i \<le> response_bytes_total i) (reports t)
    \<and> response_bytes_sent (last (reports t)) = min (int (length bs)) len
    \<and> response_bytes_sent (last (reports (finish_tracking t))) = len
    \<and> completed (last (reports (finish_tracking t)))"
proof -
  have "progress_ok t" "response_sent t = int (length bs)" "response_len t = len"
    using tracked_reads [OF assms(1) start_progress_ok] by (simp_all add: start_tracking_def)
  then show ?thesis using assms(2)
    by (simp add: progress_ok_def finish_tracking_def progress_info_def)
qed

lemma transfer_progress_reported_witness:
  "\<exists>t. reads (tracked_ops source_ops) [2, 2] (start_tracking 4 7 3 (open_source [1, 2, 3])) = Some ([1, 2, 3], t)
     \<and> response_bytes_sent (last (reports t)) = 3"
proof -
  obtain t where t: "reads (tracked_ops source_ops) [2, 2] (start_tracking 4 7 3 (open_source [1, 2, 3]))
      = Some ([1, 2, 3], t)"
    by (simp add: tracked_ops_def tracked_read_def start_tracking_def source_ops_def source_read_def
        open_source_def Let_def)
  show ?thesis using t transfer_progress_reported [OF t] by simp
qed

text \<open>C14. A merged stream of windows of files, read back and forth at any offsets and in any sizes,
  delivers at each request the bytes of the concatenated windows from that offset on, and at
  least one of them when any is asked for.\<close>

theorem merged_windows_session:
  assumes "list_all (\<lambda>(bs, a, k). 0 \<le> a \<and> 0 \<le> k \<and> a + k \<le> int (length bs)) parts" and "parts \<noteq> []"
    and "list_all (\<lambda>r. 0 \<le> fst r
          \<and> fst r < int (length (concat (map (\<lambda>(bs, a, k). take (nat k) (drop (nat a) bs)) parts)))
          \<and> list_all (\<lambda>n. n < 2 ^ 31) (snd r)) rs"
  shows "\<exists>outs. requests (merged_ops (virtual_ops source_ops)) rs
        (merged_of (virtual_ops source_ops) (map (\<lambda>(bs, a, k). virtual_new (open_source bs) a k False) parts)) = Some outs
      \<and> list_all2 (delivers (concat (map (\<lambda>(bs, a, k). take (nat k) (drop (nat a) bs)) parts))) rs outs"
proof -
  define ss where "ss = map (\<lambda>(bs, a, k). virtual_new (open_source bs) a k False) parts"
  have w: "virtual_ok source_ok bytes (virtual_new (open_source bs) a k False)"
    "virtual_content bytes (virtual_new (open_source bs) a k False) = take (nat k) (drop (nat a) bs)"
    if "(bs, a, k) \<in> set parts" for bs a k
    using source.new_window_ok [of "open_source bs" a k] assms(1) that
    by (auto simp: list_all_iff source_ok_def open_source_def)
  have ss: "ss \<noteq> []" "\<forall>s \<in> set ss. virtual_ok source_ok bytes s"
    "get_position (virtual_ops source_ops) (hd ss) = 0"
    using assms(2) w(1) by (cases parts, auto simp: ss_def virtual_ops_def virtual_new_def)+
  note m = byte_source.merged_new_ok [OF window.byte_source_axioms ss]
  have "concat (map (virtual_content bytes) ss) = concat (map (\<lambda>(bs, a, k). take (nat k) (drop (nat a) bs)) parts)"
    using w(2) by (auto simp: ss_def intro!: arg_cong [where f = concat])
  with m(3) show ?thesis
    using byte_source.requests_deliver [OF byte_source.merged_byte_source [OF window.byte_source_axioms] m(2)] assms(3) by (simp add: ss_def)
qed

theorem merged_windows_session_witness:
  "\<exists>outs. requests (merged_ops (virtual_ops source_ops)) [(1, [2]), (0, [1])]
      (merged_of (virtual_ops source_ops) [virtual_new (open_source [1, 2, 3]) 1 2 False,
        virtual_new (open_source [7, 8]) 0 2 False]) = Some outs
    \<and> list_all2 (delivers [2, 3, 7, 8]) [(1, [2]), (0, [1])] outs"
  using merged_windows_session [of "[([1, 2, 3], 1, 2), ([7, 8], 0, 2)]" "[(1, [2]), (0, [1])]"] by simp

end
