(* ===== verification/Split_Manifest.thy ===== *)
theory Split_Manifest
  imports Package_Server "HOL-Library.Multiset"
begin

text \<open>
  Packages in pieces: \<^verbatim>\<open>RegisterJSON\<close> (Host/PS4Server.cs) cuts a package into pieces of at most
  4 GiB, each at a \<^verbatim>\<open>split\<close> address that serves a window of the file, and registers the
  manifest under a fresh id; \<^verbatim>\<open>OpenJSON\<close> (Others/SplitHelper.cs) reads the pieces of a manifest,
  in whatever order they stand, as one stream. The two are inverse to each other. The
  manifest is taken as the value the JSON library writes and reads back.
\<close>

record split_url =
  source_url :: string
  offset_param :: string
  size_param :: string

record pkg_piece =
  url :: split_url
  fileOffset :: int
  fileSize :: int

record pkg_manifest =
  originalFileSize :: int
  packageDigest :: string
  numberOfSplitFiles :: int
  pieces :: "pkg_piece list"

section \<open>Cutting\<close>

definition MaxPieceSize :: int where
  "MaxPieceSize = 4294967296"

definition piece_size :: "int \<Rightarrow> int" where
  "piece_size remaining = (if MaxPieceSize < remaining then MaxPieceSize else remaining)"

lemma piece_size_bounds: "0 < n \<Longrightarrow> 0 < piece_size n \<and> piece_size n \<le> n \<and> piece_size n \<le> MaxPieceSize"
  by (simp add: piece_size_def MaxPieceSize_def)

function split_pieces :: "string \<Rightarrow> int \<Rightarrow> int \<Rightarrow> pkg_piece list" where
  "split_pieces src offset remaining =
     (if 0 < remaining then
        \<lparr>url = \<lparr>source_url = src, offset_param = print_long offset,
            size_param = print_long (piece_size remaining)\<rparr>,
         fileOffset = offset, fileSize = piece_size remaining\<rparr>
        # split_pieces src (offset + piece_size remaining) (remaining - piece_size remaining)
      else [])"
  by pat_completeness auto
termination
  by (relation "measure (\<lambda>(_, _, remaining). nat remaining)") (auto dest: piece_size_bounds)

declare split_pieces.simps [simp del]

definition register_manifest :: "string \<Rightarrow> int \<Rightarrow> string \<Rightarrow> bool \<Rightarrow> pkg_manifest" where
  "register_manifest src file_len digest auto_split =
     (let ps = (if auto_split then split_pieces src 0 file_len
                else [\<lparr>url = \<lparr>source_url = src, offset_param = [], size_param = []\<rparr>,
                       fileOffset = 0, fileSize = file_len\<rparr>])
      in \<lparr>originalFileSize = file_len, packageDigest = digest,
          numberOfSplitFiles = int (length ps), pieces = ps\<rparr>)"

text \<open>The table of manifests; \<^verbatim>\<open>Add\<close> throws on a key that is there.\<close>

definition add_manifest :: "pkg_manifest \<Rightarrow> (string \<times> pkg_manifest) list \<Rightarrow>
    (string \<times> (string \<times> pkg_manifest) list) option" where
  "add_manifest m table =
     (let key = print_nat (length table) in
      if map_of table key = None then Some (key, table @ [(key, m)]) else None)"

section \<open>Serving a piece, reading a manifest\<close>

definition split_source :: "split_url \<Rightarrow> 's \<Rightarrow> 's virtual option" where
  "split_source u source = do {
     offset \<leftarrow> parse_long (offset_param u);
     len \<leftarrow> parse_long (size_param u);
     Some (virtual_new source offset len False) }"

definition Split :: "'s stream_ops \<Rightarrow> string option \<Rightarrow> split_url \<Rightarrow> 's \<Rightarrow> 's virtual response option" where
  "Split ops header u source = map_option (handle_request (virtual_ops ops) header) (split_source u source)"

definition OpenJSON :: "(split_url \<Rightarrow> 's) \<Rightarrow> pkg_manifest \<Rightarrow> 's merged option" where
  "OpenJSON connect m =
     (let ps = sort_key fileOffset (pieces m)
      in merged_new (map (\<lambda>p. connect (url p)) ps) (map fileSize ps))"

section \<open>The pieces are the file\<close>

lemma pieces_inside:
  "p \<in> set (split_pieces src offset remaining) \<Longrightarrow>
     offset \<le> fileOffset p \<and> 0 < fileSize p \<and> fileSize p \<le> MaxPieceSize
     \<and> fileOffset p + fileSize p \<le> offset + remaining
     \<and> url p = \<lparr>source_url = src, offset_param = print_long (fileOffset p), size_param = print_long (fileSize p)\<rparr>"
proof (induction src offset remaining rule: split_pieces.induct)
  case (1 src offset remaining)
  show ?case
  proof (cases "0 < remaining")
    case True
    note b = piece_size_bounds [OF True]
    from 1(2) True consider
      "p = \<lparr>url = \<lparr>source_url = src, offset_param = print_long offset, size_param = print_long (piece_size remaining)\<rparr>,
          fileOffset = offset, fileSize = piece_size remaining\<rparr>"
      | "p \<in> set (split_pieces src (offset + piece_size remaining) (remaining - piece_size remaining))"
      by (auto simp: split_pieces.simps [of src offset remaining])
    then show ?thesis
    proof cases
      case 1
      then show ?thesis using b by simp
    next
      case 2
      then show ?thesis using "1.IH" [OF True 2] b by auto
    qed
  next
    case False
    then show ?thesis using 1(2) by (simp add: split_pieces.simps [of src offset remaining])
  qed
qed

lemma pieces_sorted:
  "sorted_wrt (<) (map fileOffset (split_pieces src offset remaining))"
proof (induction src offset remaining rule: split_pieces.induct)
  case (1 src offset remaining)
  show ?case
  proof (cases "0 < remaining")
    case True
    have "offset < fileOffset p"
      if "p \<in> set (split_pieces src (offset + piece_size remaining) (remaining - piece_size remaining))" for p
      using pieces_inside [OF that] piece_size_bounds [OF True] by auto
    then show ?thesis using 1 True by (auto simp: split_pieces.simps [of src offset remaining])
  qed (simp add: split_pieces.simps)
qed

lemma pieces_content:
  assumes "0 \<le> offset" "offset + remaining \<le> int (length bs)" "0 \<le> remaining"
  shows "concat (map (\<lambda>p. take (nat (fileSize p)) (drop (nat (fileOffset p)) bs)) (split_pieces src offset remaining))
    = take (nat remaining) (drop (nat offset) bs)"
  using assms
proof (induction src offset remaining rule: split_pieces.induct)
  case (1 src offset remaining)
  show ?case
  proof (cases "0 < remaining")
    case True
    note b = piece_size_bounds [OF True]
    have "take (nat (piece_size remaining)) (drop (nat offset) bs)
        @ take (nat (remaining - piece_size remaining)) (drop (nat (offset + piece_size remaining)) bs)
      = take (nat remaining) (drop (nat offset) bs)"
    proof -
      have "nat remaining = nat (piece_size remaining) + nat (remaining - piece_size remaining)"
        "nat (offset + piece_size remaining) = nat (piece_size remaining) + nat offset"
        using b 1(2) by (simp_all add: nat_add_distrib [symmetric])
      then show ?thesis by (simp only: take_add drop_drop)
    qed
    moreover have "concat (map (\<lambda>p. take (nat (fileSize p)) (drop (nat (fileOffset p)) bs))
        (split_pieces src (offset + piece_size remaining) (remaining - piece_size remaining)))
      = take (nat (remaining - piece_size remaining)) (drop (nat (offset + piece_size remaining)) bs)"
      by (rule "1.IH" [OF True]) (use b 1(2-4) in auto)
    ultimately show ?thesis using True
      by (simp add: split_pieces.simps [of src offset remaining])
  qed (simp add: split_pieces.simps)
qed

lemma filter_key: "distinct (map f xs) \<Longrightarrow> x \<in> set xs \<Longrightarrow> filter (\<lambda>y. f x = f y) xs = [x]"
  by (induction xs) (auto simp: filter_empty_conv image_iff)

text \<open>Sorting by offset restores the order in which the pieces were cut.\<close>

lemma sort_pieces:
  assumes "mset ps = mset (split_pieces src offset remaining)"
  shows "sort_key fileOffset ps = split_pieces src offset remaining"
proof (rule properties_for_sort_key)
  let ?qs = "split_pieces src offset remaining"
  have s: "sorted_wrt (<) (map fileOffset ?qs)" by (rule pieces_sorted)
  then show "sorted (map fileOffset ?qs)" by (rule sorted_wrt_mono_rel [rotated]) simp
  show "mset ?qs = mset ps" using assms by simp
  have d: "distinct (map fileOffset ?qs)" using s by (simp add: strict_sorted_iff)
  fix k assume k: "k \<in> set ?qs"
  have one: "filter_mset (\<lambda>x. fileOffset k = fileOffset x) (mset ?qs) = {#k#}"
  proof -
    have "filter (\<lambda>x. fileOffset k = fileOffset x) ?qs = [k]"
      by (rule filter_key [OF d k])
    then show ?thesis by (metis mset_filter mset_single_iff)
  qed
  then have "mset (filter (\<lambda>x. fileOffset k = fileOffset x) ?qs) = {#k#}"
    "mset (filter (\<lambda>x. fileOffset k = fileOffset x) ps) = {#k#}"
    using assms by (simp_all add: mset_filter)
  then show "filter (\<lambda>x. fileOffset k = fileOffset x) ?qs = filter (\<lambda>x. fileOffset k = fileOffset x) ps"
    by (metis mset_single_iff)
qed

text \<open>The merged stream of pieces whose streams hold the windows of a file.\<close>

context byte_source
begin

lemma open_pieces:
  assumes ps: "ps = split_pieces src 0 (int (length bs))" and bs: "bs \<noteq> []" and qs: "mset qs = mset ps"
    and conn: "\<And>p. p \<in> set ps \<Longrightarrow> ok (connect (url p)) \<and> get_position ops (connect (url p)) = 0
      \<and> content (connect (url p)) = take (nat (fileSize p)) (drop (nat (fileOffset p)) bs)"
  defines "mg \<equiv> merged_of ops (map (\<lambda>p. connect (url p)) ps)"
  shows "OpenJSON connect (m\<lparr>pieces := qs\<rparr>) = Some mg"
    and "merged_ok ok content mg" and "merged_content content mg = bs" and "merged_position ops mg = 0"
proof -
  have ne: "map (\<lambda>p. connect (url p)) ps \<noteq> []"
    using bs by (simp add: ps split_pieces.simps)
  have pos: "get_position ops (hd (map (\<lambda>p. connect (url p)) ps)) = 0"
    using conn ne by (cases ps) auto
  have "fileSize p = int (length (content (connect (url p))))" if "p \<in> set ps" for p
    using conn [OF that] pieces_inside [of p src 0 "int (length bs)"] that ps by auto
  then have "map fileSize ps = map (\<lambda>s. int (length (content s))) (map (\<lambda>p. connect (url p)) ps)"
    by simp
  then show "OpenJSON connect (m\<lparr>pieces := qs\<rparr>) = Some mg"
    using merged_new_ok(1) [OF ne _ pos] conn sort_pieces [of qs src 0 "int (length bs)"] qs ps
    by (simp add: OpenJSON_def mg_def del: map_map)
  show "merged_ok ok content mg" "merged_position ops mg = 0"
    using merged_new_ok(2,4) [OF ne _ pos] conn by (auto simp: mg_def)
  have "merged_content content mg = concat (map (\<lambda>p. content (connect (url p))) ps)"
    using merged_new_ok(3) [OF ne _ pos] conn by (auto simp: mg_def o_def)
  also have "\<dots> = concat (map (\<lambda>p. take (nat (fileSize p)) (drop (nat (fileOffset p)) bs)) ps)"
    using conn by (simp cong: map_cong)
  also have "\<dots> = bs" using pieces_content [of 0 "int (length bs)" bs src] ps by simp
  finally show "merged_content content mg = bs" .
qed

text \<open>What the address of a piece serves: the window of the file.\<close>

lemma split_serves:
  assumes s: "ok s" and n: "0 < n" "n < 2 ^ 31" and len: "int (length (content s)) < 2 ^ 63"
    and p: "p \<in> set (split_pieces src 0 (int (length (content s))))"
  shows "\<exists>resp. Split ops None (url p) s = Some resp \<and> status resp = 200
    \<and> content_length resp = fileSize p
    \<and> fetch (virtual_ops ops) n resp = Some (take (nat (fileSize p)) (drop (nat (fileOffset p)) (content s)))"
proof -
  note in_file = pieces_inside [OF p]
  have w: "split_source (url p) s = Some (virtual_new s (fileOffset p) (fileSize p) False)"
    using in_file len by (simp add: split_source_def parse_print_long)
  have ok: "ok s" "0 \<le> fileOffset p" "0 \<le> fileSize p" "fileOffset p + fileSize p \<le> int (length (content s))"
    using s in_file by auto
  note v = new_window_ok [OF ok]
  have "get_position (virtual_ops ops) (virtual_new s (fileOffset p) (fileSize p) False) = 0"
    by (simp add: virtual_ops_def virtual_new_def)
  from byte_source.handle_whole [OF virtual_byte_source v(1) this n]
  show ?thesis using w v(2) ok by (auto simp: Split_def)
qed

end

section \<open>Properties\<close>

lemma range_request_bytes:
  assumes "byte_source ops ok content" "ok s" "0 < n" "n < 2 ^ 31"
  shows "fetch ops n (handle_request ops (Some h) s) = Some (selected (content s) (HttpRange h))"
  using byte_source.handle_partial [OF assms, of h] selected_empty [of "content s" h]
  by (cases "GetLength (int (length (content s))) (HttpRange h) = 0") simp_all

text \<open>C3. A package that was cut into pieces is restored: when every connection to the address of a
  piece carries what the \<^verbatim>\<open>split\<close> handler answers for it, the manifest, with its pieces in any
  order, opens as a stream that serves the package, whole and in every range.\<close>

theorem split_package_restored:
  assumes "byte_source ops ok content" and "ok s" and "content s \<noteq> []" and "int (length (content s)) < 2 ^ 63"
    and "0 < n" and "n < 2 ^ 31" and "byte_source rops rok rcontent"
    and "mset qs = mset (pieces (register_manifest src (int (length (content s))) digest True))"
    and "\<And>p. p \<in> set qs \<Longrightarrow> rok (connect (url p)) \<and> get_position rops (connect (url p)) = 0
      \<and> (\<exists>resp. Split ops None (url p) s = Some resp
           \<and> fetch (virtual_ops ops) n resp = Some (rcontent (connect (url p))))"
  shows "\<exists>m. OpenJSON connect ((register_manifest src (int (length (content s))) digest True)\<lparr>pieces := qs\<rparr>) = Some m
    \<and> fetch (merged_ops rops) n (handle_request (merged_ops rops) None m) = Some (content s)
    \<and> (\<forall>h. fetch (merged_ops rops) n (handle_request (merged_ops rops) (Some h) m)
            = Some (selected (content s) (HttpRange h)))"
proof -
  let ?ps = "split_pieces src 0 (int (length (content s)))"
  have perm: "mset qs = mset ?ps" using assms(8) by (simp add: register_manifest_def Let_def)
  have conn: "rok (connect (url p)) \<and> get_position rops (connect (url p)) = 0
      \<and> rcontent (connect (url p)) = take (nat (fileSize p)) (drop (nat (fileOffset p)) (content s))"
    if "p \<in> set ?ps" for p
  proof -
    have "p \<in> set qs" using that perm mset_eq_setD by blast
    then show ?thesis
      using assms(9) byte_source.split_serves [OF assms(1,2,5,6,4) that] by fastforce
  qed
  note m = byte_source.open_pieces [OF assms(7) refl assms(3) perm conn]
  note merged = byte_source.merged_byte_source [OF assms(7)]
  let ?m = "merged_of rops (map (\<lambda>p. connect (url p)) ?ps)"
  have "get_position (merged_ops rops) ?m = 0" using m(4) by (simp add: merged_ops_def)
  note whole = byte_source.handle_whole(3) [OF merged m(2) this assms(5,6)]
  note ranges = range_request_bytes [OF merged m(2) assms(5,6)]
  have "OpenJSON connect ((register_manifest src (int (length (content s))) digest True)\<lparr>pieces := qs\<rparr>) = Some ?m"
    by (rule m(1))
  with whole ranges show ?thesis using m(3) by auto
qed

theorem split_package_restored_witness:
  "\<exists>m. OpenJSON (\<lambda>_. open_source [7, 8, 9]) (register_manifest ''u'' 3 ''d'' True) = Some m
     \<and> fetch (merged_ops source_ops) 8 (handle_request (merged_ops source_ops) None m) = Some [7, 8, 9]"
proof -
  have ok: "source_ok (open_source [7, 8, 9])" by (simp add: source_ok_def open_source_def)
  have b: "bytes (open_source [7, 8, 9]) = [7, 8, 9]" by (simp add: open_source_def)
  let ?qs = "pieces (register_manifest ''u'' 3 ''d'' True)"
  have conn: "source_ok (open_source [7, 8, 9]) \<and> get_position source_ops (open_source [7, 8, 9]) = 0
      \<and> (\<exists>resp. Split source_ops None (url p) (open_source [7, 8, 9]) = Some resp
         \<and> fetch (virtual_ops source_ops) 8 resp = Some (bytes (open_source [7, 8, 9])))"
    if "p \<in> set ?qs" for p
  proof -
    have p: "p \<in> set (split_pieces ''u'' 0 (int (length (bytes (open_source [7, 8, 9])))))"
      using that by (simp add: register_manifest_def Let_def b)
    then have "fileOffset p = 0" "fileSize p = 3"
      by (simp_all add: b split_pieces.simps [of _ 0 3] split_pieces.simps [of _ 3 0] piece_size_def MaxPieceSize_def)
    then show ?thesis
      using source.split_serves [OF ok _ _ _ p, of 8] ok by (auto simp: b source_ops_def open_source_def)
  qed
  show ?thesis
    using split_package_restored [OF source.byte_source_axioms ok _ _ _ _ source.byte_source_axioms, of 8 ?qs "''u''" "''d''"
        "\<lambda>_. open_source [7, 8, 9]"] conn
    by (auto simp: b)
qed

end
