(* ===== verification/Request_Routing.thy ===== *)
theory Request_Routing
  imports Split_Manifest
begin

text \<open>
  \<^verbatim>\<open>Process\<close> of Host/PS4Server.cs: how a request's address is taken apart and which handler it
  reaches, and the \<^verbatim>\<open>json\<close> handler that looks a registered manifest up. The address that
  \<^verbatim>\<open>RegisterJSON\<close> hands out is routed back to its manifest.
\<close>

record request_url =
  req_path :: string
  req_query :: string
  from_ps4 :: bool

definition trim_slashes :: "string \<Rightarrow> string" where
  "trim_slashes s = rev (dropWhile ((=) CHR ''/'') (rev (dropWhile ((=) CHR ''/'') s)))"

text \<open>A second question mark marks the console's own downloader and ends the query.\<close>

definition parse_request :: "string \<Rightarrow> request_url" where
  "parse_request full =
     (case index_of CHR ''?'' full of
        None \<Rightarrow> \<lparr>req_path = trim_slashes full, req_query = [], from_ps4 = False\<rparr>
      | Some i \<Rightarrow>
          (let q = drop (Suc i) full in
           case index_of CHR ''?'' q of
             None \<Rightarrow> \<lparr>req_path = trim_slashes (take i full), req_query = q, from_ps4 = False\<rparr>
           | Some j \<Rightarrow> \<lparr>req_path = trim_slashes (take i full), req_query = take j q, from_ps4 = True\<rparr>))"

datatype route = Unrar_route | Un7z_route | Json_route | Proxy_route | Merge_route | Split_route
  | File_route | Cache_route

fun first_match :: "(string \<times> route) list \<Rightarrow> string \<Rightarrow> route list" where
  "first_match [] p = []"
| "first_match ((prefix, r) # rs) p = (if starts_with prefix p then [r] else first_match rs p)"

definition local_routes :: "(string \<times> route) list" where
  "local_routes = [(''unrar'', Unrar_route), (''un7z'', Un7z_route), (''json'', Json_route)]"

definition url_routes :: "(string \<times> route) list" where
  "url_routes = [(''proxy'', Proxy_route), (''merge'', Merge_route), (''split'', Split_route),
     (''file'', File_route), (''cache'', Cache_route)]"

text \<open>The handlers run, in order; without an address to download only the first group is allowed.\<close>

definition routes :: "bool \<Rightarrow> string \<Rightarrow> route list option" where
  "routes has_url p =
     (let first = first_match local_routes p in
      if first = [] \<and> \<not> has_url then None else Some (first @ first_match url_routes p))"

definition json_id :: "string \<Rightarrow> string" where
  "json_id p = takeWhile (\<lambda>c. c \<noteq> CHR ''.'') (rev (takeWhile (\<lambda>c. c \<noteq> CHR ''/'') (rev p)))"

definition Json :: "(string \<times> pkg_manifest) list \<Rightarrow> string \<Rightarrow> pkg_manifest option" where
  "Json table p = map_of table (json_id p)"

text \<open>The path of the address \<^verbatim>\<open>RegisterJSON\<close> returns, and a session of registrations.\<close>

definition manifest_path :: "string \<Rightarrow> string" where
  "manifest_path key = ''/json/'' @ key @ ''.json''"

primrec register_all :: "pkg_manifest list \<Rightarrow> (string \<times> pkg_manifest) list \<Rightarrow>
    (string list \<times> (string \<times> pkg_manifest) list) option" where
  "register_all [] table = Some ([], table)"
| "register_all (m # ms) table = do {
     (key, table) \<leftarrow> add_manifest m table;
     (keys, table) \<leftarrow> register_all ms table;
     Some (key # keys, table) }"

definition serve_manifest :: "(string \<times> pkg_manifest) list \<Rightarrow> string \<Rightarrow> pkg_manifest option" where
  "serve_manifest table full =
     (let p = req_path (parse_request full) in
      if routes False p = Some [Json_route] then Json table p else None)"

section \<open>One handler\<close>

text \<open>No prefix is a prefix of another, so a path reaches at most one handler.\<close>

lemma routes_single: "routes has_url p = Some rs \<Longrightarrow> length rs \<le> 1"
  by (cases p; cases "tl p"; cases "tl (tl p)"; cases "tl (tl (tl p))")
    (auto simp: routes_def local_routes_def url_routes_def starts_with_def Let_def split: if_splits)

section \<open>Registered manifests are found\<close>

definition numbered :: "(string \<times> pkg_manifest) list \<Rightarrow> bool" where
  "numbered table \<longleftrightarrow> map fst table = map print_nat [0..<length table]"

lemma print_nat_inject: "print_nat m = print_nat n \<longleftrightarrow> m = n"
  by (metis digits_value_print)

lemma add_manifest_numbered:
  assumes "numbered table"
  shows "add_manifest m table = Some (print_nat (length table), table @ [(print_nat (length table), m)])"
    and "numbered (table @ [(print_nat (length table), m)])"
proof -
  have "fst ` set table = print_nat ` {0..<length table}"
    using assms by (metis list.set_map numbered_def set_upt)
  then have "print_nat (length table) \<notin> fst ` set table" by (auto simp: print_nat_inject)
  then have "map_of table (print_nat (length table)) = None" by (simp add: map_of_eq_None_iff)
  then show "add_manifest m table = Some (print_nat (length table), table @ [(print_nat (length table), m)])"
    by (simp add: add_manifest_def Let_def)
  show "numbered (table @ [(print_nat (length table), m)])"
    using assms by (simp add: numbered_def)
qed

lemma register_all_spec:
  "numbered table \<Longrightarrow> \<exists>keys. register_all ms table = Some (keys, table @ zip keys ms)
     \<and> keys = map print_nat [length table..<length table + length ms] \<and> numbered (table @ zip keys ms)"
proof (induction ms arbitrary: table)
  case (Cons m ms)
  note add = add_manifest_numbered [OF Cons.prems, of m]
  let ?table = "table @ [(print_nat (length table), m)]"
  let ?keys = "map print_nat [Suc (length table)..<Suc (length table) + length ms]"
  have "[length table..<length table + length (m # ms)] = length table # [Suc (length table)..<Suc (length table) + length ms]"
    by (simp only: upt_conv_Cons length_Cons add_Suc_right add_Suc less_add_Suc1)
  then have keys: "map print_nat [length table..<length table + length (m # ms)] = print_nat (length table) # ?keys"
    by (simp only: list.map)
  have "length ?table = Suc (length table)" by simp
  with Cons.IH [OF add(2)] have "register_all ms ?table = Some (?keys, ?table @ zip ?keys ms)"
    "numbered (?table @ zip ?keys ms)" by (metis (no_types, lifting))+
  then show ?case unfolding keys using add(1) by simp
qed simp

lemma numbered_map_of:
  assumes "numbered table" "i < length table"
  shows "map_of table (print_nat i) = Some (snd (table ! i))"
proof -
  have "distinct (map fst table)"
    using assms(1) by (simp add: numbered_def distinct_map inj_on_def print_nat_inject)
  moreover have "fst (table ! i) = print_nat i"
    using assms by (metis (no_types, lifting) add_0 nth_map nth_upt numbered_def length_map length_upt
        minus_nat.diff_0)
  ultimately show ?thesis using assms(2) by (metis map_of_eq_Some_iff nth_mem prod.collapse)
qed

lemma serve_manifest_path:
  "serve_manifest table (manifest_path (print_nat n)) = map_of table (print_nat n)"
proof -
  have no: "CHR ''?'' \<notin> set (print_nat n)" "CHR ''/'' \<notin> set (print_nat n)" "CHR ''.'' \<notin> set (print_nat n)"
    by (rule print_nat_no_char, simp add: is_digit_def)+
  have path: "req_path (parse_request (manifest_path (print_nat n))) = ''json/'' @ print_nat n @ ''.json''"
    using no by (simp add: parse_request_def manifest_path_def trim_slashes_def index_of_None_iff [THEN iffD2])
  have "routes False (''json/'' @ print_nat n @ ''.json'') = Some [Json_route]"
    by (simp add: routes_def local_routes_def url_routes_def starts_with_def)
  moreover have "json_id (''json/'' @ print_nat n @ ''.json'') = print_nat n"
  proof -
    have "takeWhile (\<lambda>c. c \<noteq> CHR ''/'') (rev (''json/'' @ print_nat n @ ''.json'')) = rev (print_nat n @ ''.json'')"
      using no(2) by (simp add: takeWhile_append2 takeWhile_append)
    moreover have "takeWhile (\<lambda>c. c \<noteq> CHR ''.'') (print_nat n @ ''.json'') = print_nat n"
      using no(3) by (simp add: takeWhile_append)
    ultimately show ?thesis by (simp add: json_id_def)
  qed
  ultimately show ?thesis by (simp add: serve_manifest_def path Json_def Let_def)
qed

text \<open>C23. However many manifests are registered, every registration succeeds, and a request for the
  address it handed out is routed to the \<^verbatim>\<open>json\<close> handler and answered with that manifest, also
  after all the later ones.\<close>

theorem registered_manifests_found:
  "\<exists>keys table. register_all ms [] = Some (keys, table)
     \<and> list_all2 (\<lambda>key m. serve_manifest table (manifest_path key) = Some m) keys ms"
proof -
  have "numbered []" by (simp add: numbered_def)
  from register_all_spec [OF this, of ms] obtain keys where k: "register_all ms [] = Some (keys, zip keys ms)"
    "keys = map print_nat [0..<length ms]" "numbered (zip keys ms)" by auto
  have "serve_manifest (zip keys ms) (manifest_path (keys ! i)) = Some (ms ! i)" if "i < length ms" for i
    using numbered_map_of [OF k(3), of i] that k(2) by (simp add: serve_manifest_path)
  then show ?thesis using k(1,2) by (auto simp: list_all2_conv_all_nth)
qed

end
