(* ===== verification/Request_Query.thy ===== *)
theory Request_Query
  imports Request_Routing
begin

text \<open>
  The query of a request's address, as \<^verbatim>\<open>Process\<close> of Host/PS4Server.cs reads it: the library's
  query parser and Base64 decoder, and the choice between the parameters \<^verbatim>\<open>url\<close> and \<^verbatim>\<open>b64\<close>.
  Characters are the first 256 code points; escapes and UTF-8 sequences of others are not decoded.
\<close>

section \<open>Base64\<close>

definition b64_char :: "nat \<Rightarrow> char" where
  "b64_char n =
     (if n < 26 then char_of (65 + n) else if n < 52 then char_of (71 + n)
      else if n < 62 then char_of (n - 4) else if n = 62 then CHR ''+'' else CHR ''/'')"

definition b64_value :: "char \<Rightarrow> nat option" where
  "b64_value c =
     (let n = code c in
      if 65 \<le> n \<and> n \<le> 90 then Some (n - 65) else if 97 \<le> n \<and> n \<le> 122 then Some (n - 71)
      else if 48 \<le> n \<and> n \<le> 57 then Some (n + 4) else if n = 43 then Some 62
      else if n = 47 then Some 63 else None)"

text \<open>\<^verbatim>\<open>Convert.ToBase64String\<close>, on bytes as numbers.\<close>

fun to_base64 :: "nat list \<Rightarrow> string" where
  "to_base64 [] = []"
| "to_base64 [a] = [b64_char (a div 4), b64_char (a mod 4 * 16), CHR ''='', CHR ''='']"
| "to_base64 [a, b] =
     [b64_char (a div 4), b64_char (a mod 4 * 16 + b div 16), b64_char (b mod 16 * 4), CHR ''='']"
| "to_base64 (a # b # c # rest) =
     b64_char (a div 4) # b64_char (a mod 4 * 16 + b div 16) # b64_char (b mod 16 * 4 + c div 64)
       # b64_char (c mod 64) # to_base64 rest"

fun decode_quads :: "string \<Rightarrow> nat list option" where
  "decode_quads [] = Some []"
| "decode_quads (a # b # c # d # rest) =
     (case (b64_value a, b64_value b) of
        (Some x, Some y) \<Rightarrow>
          if c = CHR ''='' then
            (if d = CHR ''='' \<and> rest = [] then Some [x * 4 + y div 16] else None)
          else
            (case b64_value c of None \<Rightarrow> None | Some z \<Rightarrow>
               if d = CHR ''='' then
                 (if rest = [] then Some [x * 4 + y div 16, y mod 16 * 16 + z div 4] else None)
               else
                 (case b64_value d of None \<Rightarrow> None | Some w \<Rightarrow>
                    map_option (\<lambda>bs. (x * 4 + y div 16) # (y mod 16 * 16 + z div 4) # (z mod 4 * 64 + w) # bs)
                      (decode_quads rest)))
      | _ \<Rightarrow> None)"
| "decode_quads _ = None"

text \<open>\<^verbatim>\<open>Convert.FromBase64String\<close> skips white space.\<close>

definition from_base64 :: "string \<Rightarrow> nat list option" where
  "from_base64 s = decode_quads (filter (\<lambda>c. code c \<notin> {9, 10, 13, 32}) s)"

lemma b64_value_char [simp]: "n < 64 \<Longrightarrow> b64_value (b64_char n) = Some n"
  by (auto simp: b64_char_def b64_value_def Let_def)

lemma b64_char_not_pad [simp]: "n < 64 \<Longrightarrow> b64_char n \<noteq> CHR ''=''"
proof
  assume "n < 64" and "b64_char n = CHR ''=''"
  then have "b64_value CHR ''='' = Some n" using b64_value_char by metis
  then show False by (simp add: b64_value_def)
qed

lemma small_div: "(n::nat) < 256 \<Longrightarrow> n div 16 < 16" "(n::nat) < 256 \<Longrightarrow> n div 64 < 4"
    "(n::nat) < 256 \<Longrightarrow> n div 4 < 64"
  by (simp_all add: less_mult_imp_div_less)

lemma sextets [simp]:
  "(a::nat) < 256 \<Longrightarrow> a div 4 < 64" "a mod 4 * 16 < 64"
  "b < 256 \<Longrightarrow> a mod 4 * 16 + b div 16 < 64" "b mod 16 * 4 < 64"
  "c < 256 \<Longrightarrow> b mod 16 * 4 + c div 64 < 64" "c mod 64 < 64" for a b c :: nat
proof -
  have m: "a mod 4 < 4" "b mod 16 < 16" "c mod 64 < 64" by simp_all
  show "a < 256 \<Longrightarrow> a div 4 < 64" "a mod 4 * 16 < 64" "b mod 16 * 4 < 64" "c mod 64 < 64"
    using m small_div by simp_all
  show "b < 256 \<Longrightarrow> a mod 4 * 16 + b div 16 < 64" using m(1) small_div(1) [of b] by linarith
  show "c < 256 \<Longrightarrow> b mod 16 * 4 + c div 64 < 64" using m(2) small_div(2) [of c] by linarith
qed

lemma bytes_of_sextets [simp]:
  "b < 256 \<Longrightarrow> b div 16 div 16 = 0" "b < 256 \<Longrightarrow> b div 16 mod 16 = b div 16"
  "c < 256 \<Longrightarrow> c div 64 div 4 = 0" "c < 256 \<Longrightarrow> c div 64 mod 4 = c div 64" for b c :: nat
  using small_div [of b] small_div [of c] by simp_all

lemma decode_encode [simp]: "list_all (\<lambda>b. b < 256) bs \<Longrightarrow> decode_quads (to_base64 bs) = Some bs"
  by (induction bs rule: to_base64.induct) simp_all

text \<open>The number of characters tells the number of bytes.\<close>

lemma b64_value_pad: "b64_value x = Some y \<Longrightarrow> (CHR ''='' = x) = False"
  by (auto simp: b64_value_def)

lemma decode_length:
  "decode_quads s = Some bs \<Longrightarrow> 4 * (length bs + length (filter ((=) CHR ''='') s)) = 3 * length s"
proof (induction s arbitrary: bs rule: decode_quads.induct)
  case (2 a b c d rest)
  then obtain x y where xy: "b64_value a = Some x" "b64_value b = Some y"
    by (auto split: option.splits)
  note no = b64_value_pad [OF xy(1)] b64_value_pad [OF xy(2)]
  show ?case
  proof (cases "c = CHR ''=''")
    case True
    then show ?thesis using 2(2) xy no by (auto split: if_splits)
  next
    case c: False
    then obtain z where z: "b64_value c = Some z" using 2(2) xy by (auto split: option.splits)
    show ?thesis
    proof (cases "d = CHR ''=''")
      case True
      then show ?thesis using 2(2) xy no c z b64_value_pad [OF z] by (auto split: if_splits)
    next
      case d: False
      then obtain w where w: "b64_value d = Some w" using 2(2) xy c z by (auto split: option.splits)
      then obtain cs where "decode_quads rest = Some cs" "length bs = 3 + length cs"
        using 2(2) xy c z d by auto
      then show ?thesis
        using 2(1) [OF _ _ _ c z d w] xy no b64_value_pad [OF z] b64_value_pad [OF w] by simp
    qed
  qed
qed simp_all

lemma dropped_characters:
  assumes "decode_quads s = Some bs" and "\<not> P CHR ''=''"
  shows "decode_quads (filter (\<lambda>c. \<not> P c) s) = Some bs \<longleftrightarrow> (\<forall>c \<in> set s. \<not> P c)"
proof
  assume "decode_quads (filter (\<lambda>c. \<not> P c) s) = Some bs"
  from decode_length [OF this] decode_length [OF assms(1)]
  have "3 * length (filter (\<lambda>c. \<not> P c) s) = 3 * length s"
  proof -
    have "filter ((=) CHR ''='') (filter (\<lambda>c. \<not> P c) s) = filter ((=) CHR ''='') s"
      using assms(2) by (auto intro!: filter_cong)
    then show ?thesis
      using decode_length [OF \<open>decode_quads (filter (\<lambda>c. \<not> P c) s) = Some bs\<close>] decode_length [OF assms(1)] by simp
  qed
  then have "length (filter (\<lambda>c. \<not> P c) s) = length s" by simp
  then show "\<forall>c \<in> set s. \<not> P c" by (metis length_filter_less less_irrefl)
next
  assume "\<forall>c \<in> set s. \<not> P c"
  then have "filter (\<lambda>c. \<not> P c) s = s" by (simp add: filter_id_conv)
  then show "decode_quads (filter (\<lambda>c. \<not> P c) s) = Some bs" using assms(1) by simp
qed

lemma b64_char_plus: "n < 64 \<Longrightarrow> b64_char n = CHR ''+'' \<longleftrightarrow> n = 62"
proof -
  have "b64_char n = b64_char 62 \<longleftrightarrow> n = 62" if "n < 64" using b64_value_char [OF that] b64_value_char [of 62] by force
  then show "n < 64 \<Longrightarrow> ?thesis" by (simp add: b64_char_def [of 62])
qed

text \<open>In a text of ASCII characters a plus sign stands for the last six bits of every third byte.\<close>

lemma remainder: "x * k + y = m \<Longrightarrow> y < k \<Longrightarrow> m mod k = (y::nat)"
  by auto

lemma b64_not_plus [simp]:
  "a < 128 \<Longrightarrow> b64_char (a div 4) \<noteq> CHR ''+''" "b64_char (a mod 4 * 16) \<noteq> CHR ''+''"
  "b < 128 \<Longrightarrow> b64_char (a mod 4 * 16 + b div 16) \<noteq> CHR ''+''" "b64_char (b mod 16 * 4) \<noteq> CHR ''+''"
  "b < 128 \<Longrightarrow> c < 128 \<Longrightarrow> b64_char (b mod 16 * 4 + c div 64) \<noteq> CHR ''+''" for a b c :: nat
proof -
  show "a < 128 \<Longrightarrow> b64_char (a div 4) \<noteq> CHR ''+''"
    using less_mult_imp_div_less [of a 32 4] by (simp add: b64_char_plus)
  have "x * 16 \<noteq> (62::nat)" "x * 4 \<noteq> (62::nat)" for x by arith+
  then show "b64_char (a mod 4 * 16) \<noteq> CHR ''+''" "b64_char (b mod 16 * 4) \<noteq> CHR ''+''"
    by (simp_all add: b64_char_plus)
  show "b < 128 \<Longrightarrow> b64_char (a mod 4 * 16 + b div 16) \<noteq> CHR ''+''"
    using remainder [of "a mod 4" 16 "b div 16" 62] less_mult_imp_div_less [of b 8 16]
    by (auto simp: b64_char_plus)
  show "b < 128 \<Longrightarrow> c < 128 \<Longrightarrow> b64_char (b mod 16 * 4 + c div 64) \<noteq> CHR ''+''"
    using remainder [of "b mod 16" 4 "c div 64" 62] less_mult_imp_div_less [of c 2 64]
    by (auto simp: b64_char_plus)
qed

lemma b64_last_plus: "c < 128 \<Longrightarrow> b64_char (c mod 64) = CHR ''+'' \<longleftrightarrow> c = 62 \<or> c = 126"
  by (cases "c < 64") (auto simp: b64_char_plus le_mod_geq)

text \<open>Every third character is the one with these bits.\<close>

fun thirds :: "'a list \<Rightarrow> 'a list" where
  "thirds (a # b # c # rest) = c # thirds rest"
| "thirds _ = []"

lemma plus_in_base64:
  "list_all (\<lambda>b. b < 128) bs \<Longrightarrow> CHR ''+'' \<in> set (to_base64 bs) \<longleftrightarrow> 62 \<in> set (thirds bs) \<or> 126 \<in> set (thirds bs)"
proof (induction bs rule: to_base64.induct)
  case (4 a b c rest)
  then show ?case
    using b64_not_plus [THEN not_sym] b64_last_plus [of c]
    by (simp add: eq_commute [of "CHR ''+''"]) blast
qed (use b64_not_plus [THEN not_sym] in simp_all)

section \<open>Text\<close>

text \<open>\<^verbatim>\<open>Encoding.UTF8\<close>: a character of 128 or more has two bytes.\<close>

fun utf8 :: "string \<Rightarrow> nat list" where
  "utf8 [] = []"
| "utf8 (c # cs) = (if code c < 128 then [code c] else [192 + code c div 64, 128 + code c mod 64]) @ utf8 cs"

fun utf8_decode :: "nat list \<Rightarrow> string option" where
  "utf8_decode [] = Some []"
| "utf8_decode (a # bs) =
     (if a < 128 then map_option ((#) (char_of a)) (utf8_decode bs)
      else case bs of
        b # bs \<Rightarrow>
          if 194 \<le> a \<and> a \<le> 195 \<and> 128 \<le> b \<and> b < 192
          then map_option ((#) (char_of ((a - 192) * 64 + (b - 128)))) (utf8_decode bs) else None
      | [] \<Rightarrow> None)"

definition escape_digit :: "char \<Rightarrow> nat option" where
  "escape_digit c =
     (let n = code c in
      if 48 \<le> n \<and> n \<le> 57 then Some (n - 48) else if 65 \<le> n \<and> n \<le> 70 then Some (n - 55)
      else if 97 \<le> n \<and> n \<le> 102 then Some (n - 87) else None)"

text \<open>\<^verbatim>\<open>UrlDecode\<close>; what is no escape of an ASCII character stands for itself.\<close>

fun url_decode :: "string \<Rightarrow> string" where
  "url_decode [] = []"
| "url_decode (c # cs) =
     (if c = CHR ''+'' then CHR '' '' # url_decode cs
      else if c = CHR ''%'' then
        (case cs of
           h # l # rest \<Rightarrow>
             (case (escape_digit h, escape_digit l) of
                (Some x, Some y) \<Rightarrow> if x < 8 then char_of (16 * x + y) # url_decode rest else c # url_decode cs
              | _ \<Rightarrow> c # url_decode cs)
         | _ \<Rightarrow> c # url_decode cs)
      else c # url_decode cs)"

lemma url_decode_plain:
  "CHR ''%'' \<notin> set s \<Longrightarrow> url_decode s = map (\<lambda>c. if c = CHR ''+'' then CHR '' '' else c) s"
  by (induction s) auto

lemma utf8_decode_ascii: "list_all (\<lambda>b. b < 128) bs \<Longrightarrow> utf8_decode bs = Some (map char_of bs)"
  by (induction bs) auto

lemma utf8_ascii: "list_all (\<lambda>c. code c < 128) s \<Longrightarrow> utf8 s = map code s"
  by (induction s) auto

lemma utf8_bytes: "list_all (\<lambda>b. b < 256) (utf8 s)"
proof (induction s)
  case (Cons c s)
  have "code c < 256" by simp
  then have "code c div 64 < 4" by (rule small_div)
  moreover have "code c mod 64 < 64" by simp
  ultimately show ?case using Cons by (auto intro: less_trans)
qed simp

lemma utf8_roundtrip [simp]: "utf8_decode (utf8 s) = Some s"
proof (induction s)
  case (Cons c s)
  have "code c < 256" by simp
  then have "code c div 64 < 4" by (rule small_div)
  moreover have "2 \<le> code c div 64" if "\<not> code c < 128" using that div_le_mono [of 128 "code c" 64] by simp
  moreover have "code c mod 64 < 64" by simp
  ultimately show ?case using Cons by (auto simp: div_mod_decomp [symmetric])
qed simp

lemma utf8_decode_sound: "utf8_decode bs = Some s \<Longrightarrow> utf8 s = bs"
proof (induction bs arbitrary: s rule: utf8_decode.induct)
  case (2 a bs)
  show ?case
  proof (cases "a < 128")
    case True
    then show ?thesis using 2 by auto
  next
    case False
    then obtain b cs t where bs: "bs = b # cs" "194 \<le> a" "a \<le> 195" "128 \<le> b" "b < 192"
      "utf8_decode cs = Some t" "s = char_of ((a - 192) * 64 + (b - 128)) # t"
      using 2(3) by (auto split: list.splits if_splits)
    define n where "n = (a - 192) * 64 + (b - 128)"
    have "b - 128 < 64" using bs(4,5) by arith
    then have "n div 64 = a - 192" "n mod 64 = b - 128" by (simp_all add: n_def del: Nat.add_diff_assoc)
    moreover have "n < 256" "128 \<le> n" using bs by (auto simp: n_def)
    ultimately show ?thesis using 2(2) [OF False bs(1)] bs(1-6) bs(7) [folded n_def] by simp
  qed
qed simp

section \<open>The parameters of a request\<close>

fun split_at :: "char \<Rightarrow> string \<Rightarrow> string list" where
  "split_at sep [] = [[]]"
| "split_at sep (c # cs) =
     (if c = sep then [] # split_at sep cs
      else case split_at sep cs of [] \<Rightarrow> [[c]] | w # ws \<Rightarrow> (c # w) # ws)"

text \<open>\<^verbatim>\<open>ParseQueryString\<close>: names and values in order; a part without an equals sign has no name.\<close>

definition parse_parameter :: "string \<Rightarrow> string option \<times> string" where
  "parse_parameter s =
     (case index_of CHR ''='' s of
        None \<Rightarrow> (None, url_decode s)
      | Some i \<Rightarrow> (Some (url_decode (take i s)), url_decode (drop (Suc i) s)))"

definition parse_query :: "string \<Rightarrow> (string option \<times> string) list" where
  "parse_query q = (if q = [] then [] else map parse_parameter (split_at CHR ''&'' q))"

definition same_name :: "string \<Rightarrow> string option \<times> string \<Rightarrow> bool" where
  "same_name name p = (case fst p of None \<Rightarrow> False | Some n \<Rightarrow> equals_ignore_case n name)"

text \<open>
  The collection finds names without regard to case and joins the values of one name; among its
  keys is each name as it was written first.
\<close>

definition has_key :: "(string option \<times> string) list \<Rightarrow> string \<Rightarrow> bool" where
  "has_key q name = (case filter (same_name name) q of [] \<Rightarrow> False | p # _ \<Rightarrow> fst p = Some name)"

fun join_with :: "char \<Rightarrow> string list \<Rightarrow> string" where
  "join_with sep [] = []"
| "join_with sep [w] = w"
| "join_with sep (w # ws) = w @ sep # join_with sep ws"

definition query_value :: "(string option \<times> string) list \<Rightarrow> string \<Rightarrow> string" where
  "query_value q name = join_with CHR '','' (map snd (filter (same_name name) q))"

datatype request_url_value = No_url | Url string | Bad_base64

definition requested_url :: "(string option \<times> string) list \<Rightarrow> request_url_value" where
  "requested_url q =
     (if has_key q ''url'' then Url (query_value q ''url'')
      else if has_key q ''b64'' then
        (case Option.bind (from_base64 (query_value q ''b64'')) utf8_decode of
           None \<Rightarrow> Bad_base64 | Some addr \<Rightarrow> Url addr)
      else No_url)"

text \<open>
  \<^verbatim>\<open>Process\<close>: the handlers a request reaches, with the address to download and whether it comes
  from the console's downloader; a request that cannot be decoded throws, and one without an
  address to download for a handler that needs one is dropped.
\<close>

datatype request_outcome = Handlers "route list" "string option" bool | Dropped | Throws

definition process_request :: "string \<Rightarrow> request_outcome" where
  "process_request full =
     (let r = parse_request full in
      case requested_url (parse_query (req_query r)) of
        Bad_base64 \<Rightarrow> Throws
      | No_url \<Rightarrow> (case routes False (req_path r) of
          None \<Rightarrow> Dropped | Some rs \<Rightarrow> Handlers rs None (from_ps4 r))
      | Url addr \<Rightarrow> (case routes True (req_path r) of
          None \<Rightarrow> Dropped | Some rs \<Rightarrow> Handlers rs (Some addr) (from_ps4 r)))"

lemma split_at_single: "sep \<notin> set s \<Longrightarrow> split_at sep s = [s]"
  by (induction s) auto

lemma b64_char_alphabet: "n < 64 \<Longrightarrow> b64_char n \<notin> {CHR ''&'', CHR ''?'', CHR ''%'', CHR '' ''}"
proof
  assume n: "n < 64" and "b64_char n \<in> {CHR ''&'', CHR ''?'', CHR ''%'', CHR '' ''}"
  then have "b64_value (b64_char n) = None" by (auto simp: b64_value_def)
  then show False using n by simp
qed

lemma to_base64_alphabet:
  "list_all (\<lambda>b. b < 256) bs \<Longrightarrow> set (to_base64 bs) \<inter> {CHR ''&'', CHR ''?'', CHR ''%'', CHR '' ''} = {}"
  by (induction bs rule: to_base64.induct) (use b64_char_alphabet in \<open>simp_all\<close>)

lemma b64_char_white: "n < 64 \<Longrightarrow> code (b64_char n) \<notin> {9, 10, 13, 32}"
proof
  assume n: "n < 64" and "code (b64_char n) \<in> {9, 10, 13, 32}"
  then have "b64_value (b64_char n) = None" by (auto simp: b64_value_def Let_def)
  then show False using n by simp
qed

lemma to_base64_white: "list_all (\<lambda>b. b < 256) bs \<Longrightarrow> c \<in> set (to_base64 bs) \<Longrightarrow> code c \<notin> {9, 10, 13, 32}"
  by (induction bs rule: to_base64.induct) (use b64_char_white in \<open>auto\<close>)

text \<open>The query parser turns each plus sign into a blank, which the Base64 decoder skips.\<close>

lemma query_base64:
  assumes "list_all (\<lambda>b. b < 256) bs"
  shows "from_base64 (url_decode (to_base64 bs)) = decode_quads (filter (\<lambda>c. \<not> c = CHR ''+'') (to_base64 bs))"
proof -
  have "filter (\<lambda>c. code c \<notin> {9, 10, 13, 32}) (map (\<lambda>c. if c = CHR ''+'' then CHR '' '' else c) s)
      = filter (\<lambda>c. \<not> c = CHR ''+'') s" if "\<forall>c \<in> set s. code c \<notin> {9, 10, 13, 32}" for s
    using that by (induction s) auto
  then show ?thesis
    using to_base64_white [OF assms] to_base64_alphabet [OF assms] by (simp add: from_base64_def url_decode_plain)
qed

lemma base64_parameter:
  "requested_url (parse_query (''b64='' @ to_base64 (utf8 addr))) = Url addr
     \<longleftrightarrow> CHR ''+'' \<notin> set (to_base64 (utf8 addr))"
proof -
  let ?enc = "to_base64 (utf8 addr)"
  note alphabet = to_base64_alphabet [OF utf8_bytes [of addr]]
  have "CHR ''&'' \<notin> set (''b64='' @ ?enc)" using alphabet by auto
  note single = split_at_single [OF this]
  have "parse_query (''b64='' @ ?enc) = [(Some ''b64'', url_decode ?enc)]"
    unfolding parse_query_def single by (simp add: parse_parameter_def)
  moreover have "same_name ''url'' (Some ''b64'', x) = False" "same_name ''b64'' (Some ''b64'', x)" for x
    by (simp_all add: same_name_def equals_ignore_case_def to_lower_def lower_char_def)
  ultimately have req: "requested_url (parse_query (''b64='' @ ?enc))
      = (case Option.bind (from_base64 (url_decode ?enc)) utf8_decode of None \<Rightarrow> Bad_base64 | Some addr \<Rightarrow> Url addr)"
    by (simp add: requested_url_def has_key_def query_value_def)
  have dec: "decode_quads ?enc = Some (utf8 addr)" by (rule decode_encode) (rule utf8_bytes)
  then have "CHR ''+'' \<notin> set ?enc \<longleftrightarrow> from_base64 (url_decode ?enc) = Some (utf8 addr)"
    using dropped_characters [OF dec, of "\<lambda>c. c = CHR ''+''"] query_base64 [OF utf8_bytes [of addr]] by auto
  moreover have "from_base64 (url_decode ?enc) = Some bs \<Longrightarrow> utf8_decode bs = Some addr \<Longrightarrow> bs = utf8 addr" for bs
    using utf8_decode_sound by blast
  ultimately show ?thesis unfolding req by (auto split: option.splits bind_splits)
qed

end
