(* ===== verification/Archive_Service.thy ===== *)
theory Archive_Service
  imports Request_Query
begin

text \<open>
  Packages inside archives: the archive branch of \<^verbatim>\<open>PushPackage\<close> (Tasks/Installer.cs), the choice of
  the entry to unpack (Compression/SharpComp.cs), and the requests for it (Host/DecompressService.cs).
  A pushed package gets a number, its address names the number, and a request looks the number, then
  the archive's address, then the entry up. The unpacking itself is the archive library's.
\<close>

record decompress_task =
  total_size :: int
  total_decompressed :: int
  running :: bool
  task_error :: bool

definition task_failed :: "decompress_task \<Rightarrow> bool" where
  "task_failed t \<longleftrightarrow> \<not> running t \<and> 0 < total_decompressed t \<and> total_decompressed t < total_size t"

record archive_state =
  task_cache :: "(string \<times> string \<times> string) list"
  entry_map :: "string \<Rightarrow> string option"
  tasks :: "string \<Rightarrow> decompress_task option"

text \<open>An archive is the list of the names and sizes of its entries.\<close>

type_synonym archive = "(string \<times> int) list"

definition GetFileName :: "string \<Rightarrow> string" where
  "GetFileName s = rev (takeWhile (\<lambda>c. c \<noteq> CHR ''/'') (rev s))"

definition packages :: "archive \<Rightarrow> archive" where
  "packages entries = filter (\<lambda>e. ends_with ''.pkg'' (to_lower (fst e))) entries"

text \<open>\<^verbatim>\<open>CreateDecompressor\<close>: the only package, or the only one whose name ends like the one asked for.\<close>

definition choose_entry :: "archive \<Rightarrow> string \<Rightarrow> (string \<times> int) option" where
  "choose_entry entries name =
     (let pkgs = packages entries in
      if length pkgs = 1 then Some (hd pkgs)
      else case filter (\<lambda>e. ends_with (to_lower name) (to_lower (fst e))) pkgs of
             [e] \<Rightarrow> Some e | _ \<Rightarrow> None)"

text \<open>\<^verbatim>\<open>StartDecompressor\<close>: a task that exists, whatever has become of it, is kept.\<close>

definition start_decompressor :: "string \<times> int \<Rightarrow> archive_state \<Rightarrow> archive_state" where
  "start_decompressor e s =
     (let name = GetFileName (fst e) in
      if tasks s name \<noteq> None then s
      else s\<lparr>tasks := (tasks s)(name \<mapsto>
        \<lparr>total_size = snd e, total_decompressed = 0, running = True, task_error = False\<rparr>)\<rparr>)"

text \<open>The loop over the numbers given before, for one to use again.\<close>

primrec find_id :: "(string \<times> string \<times> string) list \<Rightarrow> archive_state \<Rightarrow> string \<Rightarrow> string \<Rightarrow> string option" where
  "find_id [] s entry addr = None"
| "find_id (t # ts) s entry addr =
     (if snd t = (entry, addr) then
        (case Option.bind (entry_map s addr) (tasks s) of
           Some task \<Rightarrow> if task_failed task then find_id ts s entry addr else Some (fst t)
         | None \<Rightarrow> None)
      else find_id ts s entry addr)"

text \<open>
  The branch as a whole: the number of the address, or nothing when it gives up or throws. The
  archive may fail to open the entry.
\<close>

definition push_archive :: "archive \<Rightarrow> bool \<Rightarrow> string \<Rightarrow> string \<Rightarrow> archive_state \<Rightarrow> string option \<times> archive_state" where
  "push_archive entries opens entry addr s =
     (case find_id (task_cache s) s entry addr of
        Some i \<Rightarrow> (if tasks s entry = None then None else Some i, s)
      | None \<Rightarrow>
          let i = print_nat (length (task_cache s));
              s = s\<lparr>task_cache := task_cache s @ [(i, entry, addr)]\<rparr>
          in case choose_entry entries entry of
               None \<Rightarrow> (None, s)
             | Some e \<Rightarrow>
                 if tasks s (GetFileName (fst e)) = None \<and> \<not> opens then (None, s)
                 else
                   let s = start_decompressor e s
                   in (Some i, s\<lparr>entry_map := (entry_map s)(addr \<mapsto> GetFileName (fst e))\<rparr>))"

definition archive_path :: "bool \<Rightarrow> string \<Rightarrow> string" where
  "archive_path seven_zip i = (if seven_zip then ''/un7z/?id='' else ''/unrar/?id='') @ i"

section \<open>Requests\<close>

datatype archive_answer = No_answer | Key_error | Serves string

text \<open>
  \<^verbatim>\<open>Unrar\<close> and \<^verbatim>\<open>Un7z\<close>, which are the same, up to the answer of \<^verbatim>\<open>Decompress\<close>: the address, by its number
  or in full, and its entry's task; a task that ended with an error is forgotten, but still served.
\<close>

definition request_addr :: "(string option \<times> string) list \<Rightarrow> archive_state \<Rightarrow> string option" where
  "request_addr q s =
     (case if has_key q ''id'' then map_of (task_cache s) (query_value q ''id'') else None of
        Some (entry, addr) \<Rightarrow> Some addr
      | None \<Rightarrow> if has_key q ''url'' then Some (query_value q ''url'') else None)"

definition archive_request :: "(string option \<times> string) list \<Rightarrow> archive_state \<Rightarrow> archive_answer \<times> archive_state" where
  "archive_request q s =
     (if \<not> has_key q ''url'' \<and> \<not> has_key q ''id'' then (No_answer, s)
      else case Option.bind (request_addr q s) (entry_map s) of
        None \<Rightarrow> (Key_error, s)
      | Some name \<Rightarrow>
          (case tasks s name of
             None \<Rightarrow> (Key_error, s)
           | Some t \<Rightarrow>
               (Serves name, if task_failed t \<and> task_error t then s\<lparr>tasks := (tasks s)(name := None)\<rparr> else s)))"

section \<open>The address of a pushed package is served\<close>

definition archives_ok :: "archive_state \<Rightarrow> bool" where
  "archives_ok s \<longleftrightarrow> map fst (task_cache s) = map print_nat [0..<length (task_cache s)]
     \<and> (\<forall>addr name. entry_map s addr = Some name \<longrightarrow> tasks s name \<noteq> None)"

definition no_archives :: archive_state where
  "no_archives = \<lparr>task_cache = [], entry_map = Map.empty, tasks = Map.empty\<rparr>"

lemma no_archives_ok: "archives_ok no_archives"
  by (simp add: archives_ok_def no_archives_def)

lemma find_idD:
  "find_id ts s entry addr = Some i \<Longrightarrow>
     (i, entry, addr) \<in> set ts \<and> (\<exists>name task. entry_map s addr = Some name \<and> tasks s name = Some task \<and> \<not> task_failed task)"
  by (induction ts) (auto split: if_splits option.splits bind_splits)

lemma distinct_ids: "archives_ok s \<Longrightarrow> distinct (map fst (task_cache s))"
  by (simp add: archives_ok_def distinct_map inj_on_def print_nat_inject)

lemma push_archive_ok:
  assumes "archives_ok s" and "push_archive entries opens entry addr s = (r, s')"
  shows "archives_ok s'"
  using assms
  by (auto simp: push_archive_def archives_ok_def start_decompressor_def Let_def split: option.splits if_splits)

text \<open>A request, from its address on; \<^term>\<open>None\<close> when it reaches no archive handler.\<close>

definition serve_archive :: "string \<Rightarrow> archive_state \<Rightarrow> archive_answer option" where
  "serve_archive full s =
     (let r = parse_request full in
      if routes False (req_path r) = Some [Un7z_route] \<or> routes False (req_path r) = Some [Unrar_route]
      then Some (fst (archive_request (parse_query (req_query r)) s)) else None)"

lemma serve_archive_path:
  "serve_archive (archive_path seven_zip (print_nat n)) s
     = Some (fst (archive_request [(Some ''id'', print_nat n)] s))"
proof -
  have no: "CHR ''?'' \<notin> set (print_nat n)" "CHR ''&'' \<notin> set (print_nat n)" "CHR ''%'' \<notin> set (print_nat n)"
    "CHR ''+'' \<notin> set (print_nat n)"
    by (rule print_nat_no_char, simp add: is_digit_def)+
  have "url_decode (print_nat n) = print_nat n"
    unfolding url_decode_plain [OF no(3)] by (rule map_idI) (use no(4) in auto)
  moreover have "CHR ''&'' \<notin> set (''id='' @ print_nat n)" using no(2) by simp
  note single = split_at_single [OF this]
  ultimately have "parse_query (''id='' @ print_nat n) = [(Some ''id'', print_nat n)]"
    unfolding parse_query_def single by (simp add: parse_parameter_def)
  moreover have "routes False ''un7z'' = Some [Un7z_route]" "routes False ''unrar'' = Some [Unrar_route]"
    by (simp_all add: routes_def local_routes_def url_routes_def starts_with_def)
  ultimately show ?thesis
    using no(1) by (cases seven_zip) (simp_all add: serve_archive_def archive_path_def parse_request_def
        trim_slashes_def index_of_None_iff [THEN iffD2] Let_def)
qed

lemma request_by_id:
  "archive_request [(Some ''id'', i)] s =
     (case Option.bind (map_option snd (map_of (task_cache s) i)) (entry_map s) of
        None \<Rightarrow> (Key_error, s)
      | Some name \<Rightarrow>
          (case tasks s name of
             None \<Rightarrow> (Key_error, s)
           | Some t \<Rightarrow>
               (Serves name, if task_failed t \<and> task_error t then s\<lparr>tasks := (tasks s)(name := None)\<rparr> else s)))"
proof -
  have "has_key [(Some ''id'', i)] ''id''" "\<not> has_key [(Some ''id'', i)] ''url''"
    "query_value [(Some ''id'', i)] ''id'' = i"
    by (simp_all add: has_key_def same_name_def equals_ignore_case_def to_lower_def lower_char_def query_value_def)
  then show ?thesis
    by (auto simp: archive_request_def request_addr_def split: option.splits)
qed

lemma archive_number:
  assumes "archives_ok s" "(i, entry, addr) \<in> set (task_cache s)"
  obtains n where "i = print_nat n" "map_of (task_cache s) i = Some (entry, addr)"
proof -
  have "i \<in> set (map fst (task_cache s))" using assms(2) by force
  moreover have "map_of (task_cache s) i = Some (entry, addr)"
    using distinct_ids [OF assms(1)] assms(2) by simp
  moreover have "map fst (task_cache s) = map print_nat [0..<length (task_cache s)]"
    using assms(1) by (simp add: archives_ok_def)
  ultimately obtain n where "i = print_nat n" "map_of (task_cache s) i = Some (entry, addr)" by auto
  then show thesis by (rule that)
qed

lemma serve_number:
  assumes "archives_ok s" "(i, entry, addr) \<in> set (task_cache s)"
  shows "serve_archive (archive_path seven_zip i) s =
    Some (case entry_map s addr of None \<Rightarrow> Key_error | Some name \<Rightarrow> Serves name)"
proof -
  from assms obtain n where "i = print_nat n" "map_of (task_cache s) i = Some (entry, addr)"
    by (rule archive_number)
  moreover have "entry_map s addr = Some name \<Longrightarrow> \<exists>t. tasks s name = Some t" for name
    using assms(1) by (simp add: archives_ok_def)
  ultimately show ?thesis by (cases "entry_map s addr") (auto simp: serve_archive_path request_by_id)
qed


definition two_packages :: archive where
  "two_packages = [(''a/one.pkg'', 10), (''readme.txt'', 1), (''a/two.pkg'', 20)]"



text \<open>A request by address for an archive that has not been pushed throws, it never unpacks anything.\<close>

lemma unpushed_archive_throws:
  "entry_map s addr = None \<Longrightarrow> archive_request [(Some ''url'', addr)] s = (Key_error, s)"
proof -
  have "has_key [(Some ''url'', addr)] ''url''" "\<not> has_key [(Some ''url'', addr)] ''id''"
    "query_value [(Some ''url'', addr)] ''url'' = addr"
    by (simp_all add: has_key_def same_name_def equals_ignore_case_def to_lower_def lower_char_def query_value_def)
  then show "entry_map s addr = None \<Longrightarrow> ?thesis" by (simp add: archive_request_def request_addr_def)
qed

end
