(* ===== verification/Install_Push.thy ===== *)
theory Install_Push
  imports Install_Method Archive_Service
begin

text \<open>
  \<^verbatim>\<open>PushPackage\<close> of Tasks/Installer.cs as a whole: the address a package is downloaded from, the
  method, and the address the console is given; and the way back, from the console's request for
  that address to the handler of Host/PS4Server.cs that serves the package.
\<close>

record settings =
  PSIP :: string
  PCIP :: string
  ProxyDownload :: bool
  SegmentedDownload :: bool
  AutoSplitPKG :: bool

text \<open>
  What is pushed: the flags of the load, the address and whether it is direct when the file comes
  from a file host, the address in the text field, and for archives the entries and the entry.
\<close>

record push_input =
  flags :: source_flags
  host_link :: "(string \<times> bool) option"
  typed_address :: string
  entries :: archive
  entry_opens :: bool
  EntryFileName :: string

text \<open>What the user and the environment answer.\<close>

record surroundings =
  agrees :: bool
  has_space :: bool
  rpi_online :: bool
  etahen_online :: bool

record installer_state =
  ForceProxy :: bool
  archives :: archive_state

datatype channel = PushRPI | PushEtaHen | SendPKGPayload

datatype push_result = Refused | Unexpected_method | Pushed channel string bool

definition no_ip :: "string \<Rightarrow> bool" where
  "no_ip s \<longleftrightarrow> s = [] \<or> s = ''0.0.0.0''"

text \<open>The address of a file host's file is its own; one that is not direct is proxied from then on.\<close>

definition source_address :: "settings \<Rightarrow> surroundings \<Rightarrow> push_input \<Rightarrow> bool \<Rightarrow> (string \<times> bool) option" where
  "source_address cfg env inp force =
     (case host_link inp of
        None \<Rightarrow> Some (typed_address inp, force)
      | Some (link, direct) \<Rightarrow>
          if \<not> direct \<and> \<not> force then
            (if \<not> ProxyDownload cfg \<and> \<not> agrees env then None else Some (link, True))
          else Some (link, force))"

text \<open>\<^verbatim>\<open>EnsureFreeSpace\<close> of Others/MemoryInfo.cs asks only for what is stored on this side.\<close>

definition needs_space :: "source_flags \<Rightarrow> bool" where
  "needs_space s \<longleftrightarrow> has_flag s DiskCache_flag \<or> has_flag s RAR_flag \<or> has_flag s SevenZip_flag
     \<or> has_flag s Segmented_flag"

definition served_path :: "string \<Rightarrow> string \<Rightarrow> string" where
  "served_path kind addr = ''/'' @ kind @ ''/?b64='' @ to_base64 (utf8 addr)"

definition host_address :: "settings \<Rightarrow> string \<Rightarrow> string" where
  "host_address cfg path = ''http://'' @ PCIP cfg @ '':9898'' @ path"

definition pushed_address :: "settings \<Rightarrow> push_method \<Rightarrow> string \<Rightarrow> string" where
  "pushed_address cfg m addr =
     (case m of
        Via_cache \<Rightarrow> host_address cfg (served_path ''cache'' addr)
      | Via_proxy \<Rightarrow> host_address cfg (served_path ''proxy'' addr)
      | Via_merge \<Rightarrow> host_address cfg (served_path ''merge'' addr)
      | Via_file \<Rightarrow> host_address cfg (served_path ''file'' addr)
      | _ \<Rightarrow> addr)"

definition push_channel :: "surroundings \<Rightarrow> channel" where
  "push_channel env = (if rpi_online env then PushRPI else if etahen_online env then PushEtaHen else SendPKGPayload)"

text \<open>
  \<^verbatim>\<open>PushPackage\<close>. The waiting for the first bytes of a download or an unpacking is left out: it has
  no effect on what is pushed.
\<close>

definition PushPackage :: "settings \<Rightarrow> surroundings \<Rightarrow> push_input \<Rightarrow> installer_state
    \<Rightarrow> push_result \<times> installer_state" where
  "PushPackage cfg env inp st =
     (if no_ip (PSIP cfg) \<or> no_ip (PCIP cfg) then (Refused, st)
      else case source_address cfg env inp (ForceProxy st) of
        None \<Rightarrow> (Refused, st)
      | Some (addr, force) \<Rightarrow>
          let st = st\<lparr>ForceProxy := force\<rparr>;
              src = normalise_source (ProxyDownload cfg \<or> force) (SegmentedDownload cfg) (flags inp)
          in if needs_space src \<and> \<not> has_space env then (Refused, st)
             else case install_method src of
               None \<Rightarrow> (Unexpected_method, st)
             | Some (Via_archive seven_zip) \<Rightarrow>
                 (case push_archive (entries inp) (entry_opens inp) (EntryFileName inp) addr (archives st) of
                    (None, a) \<Rightarrow> (Refused, st\<lparr>archives := a\<rparr>)
                  | (Some i, a) \<Rightarrow>
                      (Pushed (push_channel env) (host_address cfg (archive_path seven_zip i)) False,
                       st\<lparr>archives := a\<rparr>))
             | Some m \<Rightarrow>
                 (Pushed (push_channel env) (pushed_address cfg m addr) (can_split src m \<and> AutoSplitPKG cfg), st))"

section \<open>The request for a pushed address\<close>

text \<open>The console's own downloader appends parameters after a second question mark.\<close>

definition request_of :: "string \<Rightarrow> string option \<Rightarrow> string" where
  "request_of path console = (case console of None \<Rightarrow> path | Some extra \<Rightarrow> path @ ''?'' @ extra)"

lemma trim_slashes_kind: "kind \<noteq> [] \<Longrightarrow> CHR ''/'' \<notin> set kind \<Longrightarrow> trim_slashes (''/'' @ kind @ ''/'') = kind"
proof -
  assume k: "kind \<noteq> []" "CHR ''/'' \<notin> set kind"
  have "dropWhile ((=) CHR ''/'') (kind @ ''/'') = kind @ ''/''"
    by (rule dropWhile_tight) (use k in \<open>cases kind; auto\<close>)
  moreover have "dropWhile ((=) CHR ''/'') (rev kind) = rev kind"
    by (rule dropWhile_tight) (use k in \<open>cases kind rule: rev_cases; auto\<close>)
  ultimately show ?thesis by (simp add: trim_slashes_def)
qed

lemma parse_request_query:
  "CHR ''?'' \<notin> set p \<Longrightarrow> CHR ''?'' \<notin> set q \<Longrightarrow>
     parse_request (p @ CHR ''?'' # q) = \<lparr>req_path = trim_slashes p, req_query = q, from_ps4 = False\<rparr>"
  "CHR ''?'' \<notin> set p \<Longrightarrow> CHR ''?'' \<notin> set q \<Longrightarrow>
     parse_request (p @ CHR ''?'' # q @ CHR ''?'' # r) = \<lparr>req_path = trim_slashes p, req_query = q, from_ps4 = True\<rparr>"
  by (simp_all add: parse_request_def index_of_append index_of_None_iff [THEN iffD2])

lemma parse_served_path:
  assumes "kind \<noteq> []" "CHR ''/'' \<notin> set kind" "CHR ''?'' \<notin> set kind"
  shows "parse_request (request_of (served_path kind addr) console)
    = \<lparr>req_path = kind, req_query = ''b64='' @ to_base64 (utf8 addr), from_ps4 = console \<noteq> None\<rparr>"
proof -
  define q where "q = ''b64='' @ to_base64 (utf8 addr)"
  define p where "p = ''/'' @ kind @ ''/''"
  have no: "CHR ''?'' \<notin> set p" "CHR ''?'' \<notin> set q"
    using assms(3) to_base64_alphabet [OF utf8_bytes [of addr]] by (auto simp: p_def q_def)
  have "served_path kind addr = p @ CHR ''?'' # q" by (simp add: served_path_def p_def q_def)
  moreover have "trim_slashes p = kind" unfolding p_def by (rule trim_slashes_kind [OF assms(1,2)])
  ultimately show ?thesis
    unfolding q_def [symmetric] using parse_request_query [OF no] by (cases console) (simp_all add: request_of_def)
qed

definition served_routes :: "(push_method \<times> string \<times> route) list" where
  "served_routes = [(Via_cache, ''cache'', Cache_route), (Via_proxy, ''proxy'', Proxy_route),
     (Via_merge, ''merge'', Merge_route), (Via_file, ''file'', File_route)]"

lemma routes_served: "(m, kind, r) \<in> set served_routes \<Longrightarrow> routes True kind = Some [r]"
  by (auto simp: served_routes_def routes_def local_routes_def url_routes_def starts_with_def)

lemma pushed_address_served:
  "(m, kind, r) \<in> set served_routes \<Longrightarrow> pushed_address cfg m addr = host_address cfg (served_path kind addr)"
  by (auto simp: served_routes_def pushed_address_def)

lemma process_served:
  assumes "(m, kind, r) \<in> set served_routes"
  shows "process_request (request_of (served_path kind addr) console) = Handlers [r] (Some addr) (console \<noteq> None)
    \<longleftrightarrow> CHR ''+'' \<notin> set (to_base64 (utf8 addr))"
proof -
  have "kind \<noteq> []" "CHR ''/'' \<notin> set kind" "CHR ''?'' \<notin> set kind"
    using assms by (auto simp: served_routes_def)
  note parse = parse_served_path [OF this, of addr console]
  show ?thesis
    unfolding base64_parameter [symmetric]
    using routes_served [OF assms]
    by (auto simp: process_request_def parse Let_def split: request_url_value.splits option.splits)
qed

lemma ascii_plus:
  assumes "list_all (\<lambda>c. code c < 128) addr"
  shows "CHR ''+'' \<notin> set (to_base64 (utf8 addr)) \<longleftrightarrow> CHR ''>'' \<notin> set (thirds addr) \<and> CHR ''~'' \<notin> set (thirds addr)"
proof -
  have "thirds (map code addr) = map code (thirds addr)" by (induction addr rule: thirds.induct) auto
  then have t: "thirds (utf8 addr) = map code (thirds addr)" by (simp add: utf8_ascii [OF assms])
  have mem: "n \<in> set (map code xs) \<longleftrightarrow> char_of n \<in> set xs" if "n < 256" for n xs
  proof
    assume "char_of n \<in> set xs"
    then have "code (char_of n) \<in> code ` set xs" by (rule imageI)
    then show "n \<in> set (map code xs)" using that by simp
  qed auto
  have "char_of (62::nat) = CHR ''>''" "char_of (126::nat) = CHR ''~''" by code_simp+
  then have "62 \<in> set (thirds (utf8 addr)) \<longleftrightarrow> CHR ''>'' \<in> set (thirds addr)"
    "126 \<in> set (thirds (utf8 addr)) \<longleftrightarrow> CHR ''~'' \<in> set (thirds addr)"
    unfolding t using mem [of 62 "thirds addr"] mem [of 126 "thirds addr"] by simp_all
  moreover have "list_all (\<lambda>b. b < 128) (utf8 addr)" using assms by (simp add: utf8_ascii list_all_iff)
  ultimately show ?thesis using plus_in_base64 [of "utf8 addr"] by blast
qed

definition example_settings :: settings where
  "example_settings = \<lparr>PSIP = ''10.0.0.2'', PCIP = ''10.0.0.1'', ProxyDownload = True, SegmentedDownload = False,
     AutoSplitPKG = True\<rparr>"

definition example_surroundings :: surroundings where
  "example_surroundings = \<lparr>agrees = True, has_space = True, rpi_online = False, etahen_online = False\<rparr>"

definition example_push :: "string \<Rightarrow> push_input" where
  "example_push addr = \<lparr>flags = load_source False False False Uncompressed, host_link = Some (addr, True),
     typed_address = addr, entries = [], entry_opens = True, EntryFileName = []\<rparr>"

definition fresh_installer :: installer_state where
  "fresh_installer = \<lparr>ForceProxy = False, archives = no_archives\<rparr>"



text \<open>With such a character the request throws.\<close>

lemma tilde_address_throws: "process_request (served_path ''proxy'' ''http://abc/~a.pkg'') = Throws"
  by code_simp

end
