(* ===== verification/Archive_Open.thy ===== *)
theory Archive_Open
  imports Archive_Service
begin

text \<open>
  Tasks/Decompressor.cs: the order in which the volumes of an archive are put together
  (\<^verbatim>\<open>SortRarFiles\<close>, \<^verbatim>\<open>Sort7zFiles\<close>), and which of the packages in an archive is opened (\<^verbatim>\<open>UnArchive\<close>).
  The order of names is that of the library's comparison, a parameter \<open>rank\<close>.
\<close>

fun contains :: "string \<Rightarrow> string \<Rightarrow> bool" where
  "contains p [] = (p = [])"
| "contains p (c # cs) = (starts_with p (c # cs) \<or> contains p cs)"

definition contains_ignore_case :: "string \<Rightarrow> string \<Rightarrow> bool" where
  "contains_ignore_case p s = contains (to_lower p) (to_lower s)"

definition ends_ignore_case :: "string \<Rightarrow> string \<Rightarrow> bool" where
  "ends_ignore_case p s = ends_with (to_lower p) (to_lower s)"

definition starts_ignore_case :: "string \<Rightarrow> string \<Rightarrow> bool" where
  "starts_ignore_case p s = starts_with (to_lower p) (to_lower s)"

definition GetExtension :: "string \<Rightarrow> string" where
  "GetExtension s =
     (let t = takeWhile (\<lambda>c. c \<noteq> CHR ''.'' \<and> c \<noteq> CHR ''/'') (rev s) in
      if t = [] \<or> length t = length s \<or> s ! (length s - 1 - length t) \<noteq> CHR ''.'' then []
      else CHR ''.'' # rev t)"

definition parse_int :: "string \<Rightarrow> int option" where
  "parse_int s =
     (case parse_long s of
        Some n \<Rightarrow> if - (2 ^ 31) \<le> n \<and> n < 2 ^ 31 then Some n else None
      | None \<Rightarrow> None)"

section \<open>Volumes\<close>

record volume =
  volume_url :: string
  volume_name :: "string option"

definition MoveItem :: "'a list \<Rightarrow> nat \<Rightarrow> nat \<Rightarrow> 'a list" where
  "MoveItem xs i k =
     (let item = xs ! i;
          ys = take i xs @ drop (Suc i) xs;
          k = (if i < k then k - 1 else k)
      in take k ys @ item # drop k ys)"

text \<open>One turn of the loop: a \<^verbatim>\<open>.rar\<close> goes before the \<^verbatim>\<open>.r00\<close> seen last.\<close>

definition sort_step :: "volume list \<times> nat option \<Rightarrow> nat \<Rightarrow> volume list \<times> nat option" where
  "sort_step st i =
     (let (vs, part) = st in
      case volume_name (vs ! i) of
        None \<Rightarrow> (vs, part)
      | Some name \<Rightarrow>
          if contains_ignore_case ''.part'' name then (vs, part)
          else if ends_ignore_case ''.r00'' name then (vs, Some i)
          else (case part of
             Some k \<Rightarrow> if ends_ignore_case ''.rar'' name then (MoveItem vs i k, None) else (vs, part)
           | None \<Rightarrow> (vs, part)))"

definition verify_rar :: "volume \<Rightarrow> bool" where
  "verify_rar v =
     (case volume_name v of
        None \<Rightarrow> True
      | Some name \<Rightarrow>
          (let ext = GetExtension name in
           equals_ignore_case ext ''.rar''
           \<or> (starts_ignore_case ''.r'' ext \<and> parse_int (drop 2 ext) \<noteq> None)))"

definition SortRarFiles :: "(string option \<Rightarrow> nat) \<Rightarrow> volume list \<Rightarrow> volume list" where
  "SortRarFiles rank vs =
     (let vs = sort_key (\<lambda>v. rank (volume_name v)) vs
      in filter verify_rar (fst (foldl sort_step (vs, None) [0..<length vs])))"

text \<open>A name without an extension throws: it has no second character to go on from.\<close>

definition verify_7z :: "volume \<Rightarrow> bool option" where
  "verify_7z v =
     (case volume_name v of
        None \<Rightarrow> Some True
      | Some name \<Rightarrow>
          (let ext = GetExtension name in
           if equals_ignore_case ext ''.7z'' then Some True
           else if ext = [] then None
           else Some (parse_int (drop 1 ext) \<noteq> None)))"

definition Sort7zFiles :: "(string option \<Rightarrow> nat) \<Rightarrow> volume list \<Rightarrow> volume list option" where
  "Sort7zFiles rank vs =
     (let vs = sort_key (\<lambda>v. rank (volume_name v)) vs in
      if list_ex (\<lambda>v. verify_7z v = None) vs then None
      else Some (filter (\<lambda>v. verify_7z v = Some True) vs))"

text \<open>The names of an archive in the old scheme: \<^verbatim>\<open>a.r00\<close>, \<^verbatim>\<open>a.r01\<close> and so on, and \<^verbatim>\<open>a.rar\<close>.\<close>

definition name_is :: "(string \<Rightarrow> bool) \<Rightarrow> volume \<Rightarrow> bool" where
  "name_is P v = (case volume_name v of None \<Rightarrow> False | Some name \<Rightarrow> P name)"

definition part_volume :: "volume \<Rightarrow> bool" where
  "part_volume = name_is (contains_ignore_case ''.part'')"

definition first_part :: "volume \<Rightarrow> bool" where
  "first_part v \<longleftrightarrow> \<not> part_volume v \<and> name_is (ends_ignore_case ''.r00'') v"

definition later_part :: "volume \<Rightarrow> bool" where
  "later_part v \<longleftrightarrow> \<not> name_is (ends_ignore_case ''.r00'') v \<and> \<not> name_is (ends_ignore_case ''.rar'') v"

definition main_volume :: "volume \<Rightarrow> bool" where
  "main_volume v \<longleftrightarrow> \<not> part_volume v \<and> name_is (ends_ignore_case ''.rar'') v
     \<and> \<not> name_is (ends_ignore_case ''.r00'') v"

lemmas volume_defs = name_is_def part_volume_def first_part_def later_part_def main_volume_def

lemma sort_step_skip:
  "part_volume (vs ! i) \<or> later_part (vs ! i) \<Longrightarrow> sort_step (vs, part) i = (vs, part)"
  by (auto simp: sort_step_def volume_defs split: option.splits)

lemma sort_steps_skip:
  "list_all (\<lambda>i. part_volume (vs ! i) \<or> later_part (vs ! i)) is \<Longrightarrow> foldl sort_step (vs, part) is = (vs, part)"
  by (induction "is") (simp_all add: sort_step_skip)

lemma SortRarFiles_parts:
  assumes "list_all part_volume vs" and "list_all verify_rar vs"
  shows "SortRarFiles rank vs = sort_key (\<lambda>v. rank (volume_name v)) vs"
proof -
  let ?vs = "sort_key (\<lambda>v. rank (volume_name v)) vs"
  have "list_all (\<lambda>i. part_volume (?vs ! i) \<or> later_part (?vs ! i)) [0..<length ?vs]"
    using assms(1) by (auto simp: list_all_iff) (metis length_sort nth_mem set_sort)
  then have "fst (foldl sort_step (?vs, None) [0..<length ?vs]) = ?vs" by (simp only: sort_steps_skip fst_conv)
  then show ?thesis using assms(2) by (simp add: SortRarFiles_def Let_def list_all_iff filter_id_conv)
qed

text \<open>The volumes of an archive in the old naming scheme are put together with the main volume
  first and the others in the order of their names.\<close>

lemma old_volumes_in_order:
  assumes "sort_key (\<lambda>v. rank (volume_name v)) vs = v0 # rest @ [main]"
    and "first_part v0" and "list_all later_part rest" and "main_volume main"
    and "list_all verify_rar vs"
  shows "SortRarFiles rank vs = main # v0 # rest"
proof -
  let ?vs = "v0 # rest @ [main]"
  have step0: "sort_step (?vs, None) 0 = (?vs, Some 0)"
    using assms(2) by (auto simp: sort_step_def volume_defs split: option.splits)
  have "list_all (\<lambda>i. part_volume (?vs ! i) \<or> later_part (?vs ! i)) [1..<Suc (length rest)]"
    using assms(3) by (auto simp: list_all_length nth_Cons' nth_append)
  note steps = sort_steps_skip [OF this, of "Some 0"]
  have last: "sort_step (?vs, Some 0) (Suc (length rest)) = (MoveItem ?vs (Suc (length rest)) 0, None)"
    using assms(4) by (auto simp: sort_step_def volume_defs nth_append split: option.splits)
  have "[0..<Suc (Suc n)] = 0 # [1..<Suc n] @ [Suc n]" for n
    using upt_conv_Cons [of 0 "Suc (Suc n)"] upt_Suc_append [of 1 "Suc n"] by simp
  then have "[0..<length ?vs] = 0 # [1..<Suc (length rest)] @ [Suc (length rest)]"
    by (simp only: length_append list.size One_nat_def add_0_right add_0 add_Suc add_Suc_right)
  then have "foldl sort_step (?vs, None) [0..<length ?vs] = (MoveItem ?vs (Suc (length rest)) 0, None)"
    by (simp only: foldl_append foldl.simps step0 steps last)
  then have "SortRarFiles rank vs = filter verify_rar (main # v0 # rest)"
    unfolding SortRarFiles_def Let_def assms(1) by (simp only: fst_conv) (simp add: MoveItem_def nth_append)
  also have "set (main # v0 # rest) = set vs" using assms(1) by (metis set_sort set_simps(2) set_append Un_commute append_Cons
        append_Nil insert_is_Un list.set(1) sup_assoc)
  then have "\<forall>v \<in> set (main # v0 # rest). verify_rar v" using assms(5) by (simp only: list_all_iff)
  then have "filter verify_rar (main # v0 # rest) = main # v0 # rest" by (simp only: filter_id_conv)
  finally show ?thesis .
qed

definition named_volume :: "string \<Rightarrow> volume" where
  "named_volume name = \<lparr>volume_url = ''http://h/'' @ name, volume_name = Some name\<rparr>"

text \<open>An order of names for the examples: their place in a list.\<close>

definition rank_in :: "string list \<Rightarrow> string option \<Rightarrow> nat" where
  "rank_in names name = (case name of None \<Rightarrow> 0 | Some s \<Rightarrow> length (takeWhile (\<lambda>t. t \<noteq> s) names))"

lemma old_volumes_in_order_witness:
  "SortRarFiles (rank_in [''a.r00'', ''a.r01'', ''a.rar''])
      [named_volume ''a.rar'', named_volume ''a.r01'', named_volume ''a.r00'']
    = [named_volume ''a.rar'', named_volume ''a.r00'', named_volume ''a.r01'']"
proof (rule old_volumes_in_order)
  show "sort_key (\<lambda>v. rank_in [''a.r00'', ''a.r01'', ''a.rar''] (volume_name v))
      [named_volume ''a.rar'', named_volume ''a.r01'', named_volume ''a.r00'']
    = named_volume ''a.r00'' # [named_volume ''a.r01''] @ [named_volume ''a.rar'']"
    by (simp add: named_volume_def rank_in_def)
  show "first_part (named_volume ''a.r00'')" "list_all later_part [named_volume ''a.r01'']"
    "main_volume (named_volume ''a.rar'')"
    "list_all verify_rar [named_volume ''a.rar'', named_volume ''a.r01'', named_volume ''a.r00'']"
    by code_simp+
qed

text \<open>
  Numbers without leading zeros are put in the order of their digits: the tenth part comes before
  the second in every order of names that has \<^verbatim>\<open>a.part10.rar\<close> before \<^verbatim>\<open>a.part2.rar\<close>.
\<close>

lemma tenth_part_before_second:
  "SortRarFiles (rank_in [''a.part1.rar'', ''a.part10.rar'', ''a.part2.rar''])
      [named_volume ''a.part1.rar'', named_volume ''a.part2.rar'', named_volume ''a.part10.rar'']
    = [named_volume ''a.part1.rar'', named_volume ''a.part10.rar'', named_volume ''a.part2.rar'']"
  by (simp add: SortRarFiles_def rank_in_def named_volume_def Let_def, code_simp)

lemma no_extension_throws: "Sort7zFiles rank [named_volume ''archive''] = None"
proof -
  have "verify_7z (named_volume ''archive'') = None" by code_simp
  then show ?thesis by (simp add: Sort7zFiles_def Let_def)
qed

section \<open>The package that is opened\<close>

text \<open>
  \<^verbatim>\<open>UnArchive\<close>: the entry, \<^term>\<open>None\<close> when nothing is opened or it throws. \<open>choice\<close> is the user's
  choice among the names, if there is one.
\<close>

definition package_names :: "archive \<Rightarrow> string list" where
  "package_names entries = map (\<lambda>e. GetFileName (fst e)) (packages entries)"

definition UnArchive :: "archive \<Rightarrow> bool \<Rightarrow> string option \<Rightarrow> string option \<Rightarrow> (string \<times> int) option" where
  "UnArchive entries silent entry_name choice =
     (case packages entries of
        [] \<Rightarrow> None
      | [e] \<Rightarrow> Some e
      | e # _ \<Rightarrow>
          (case (if silent then (if entry_name = Some [] then None else entry_name) else choice) of
             None \<Rightarrow> None
           | Some name \<Rightarrow>
               if filter (\<lambda>e. GetFileName (fst e) = name) (packages entries) \<noteq> [] then Some e else None))"

text \<open>C26. The choice among the packages of an archive has no effect: whichever is chosen, the first one
  is opened.\<close>

theorem first_package_opened:
  assumes "name \<in> set (package_names entries)"
  shows "UnArchive entries False entry_name (Some name) = Some (hd (packages entries))"
proof -
  obtain e where "e \<in> set (packages entries)" "GetFileName (fst e) = name"
    using assms by (auto simp: package_names_def)
  then have "filter (\<lambda>e. GetFileName (fst e) = name) (packages entries) \<noteq> []" "packages entries \<noteq> []"
    by (auto simp: filter_empty_conv)
  then show ?thesis by (auto simp: UnArchive_def split: list.splits)
qed

theorem first_package_opened_witness:
  "UnArchive two_packages False None (Some ''two.pkg'') = Some (''a/one.pkg'', 10)"
proof -
  have "''two.pkg'' \<in> set (package_names two_packages)" by code_simp
  moreover have "hd (packages two_packages) = (''a/one.pkg'', 10)" by code_simp
  ultimately show ?thesis using first_package_opened [of "''two.pkg''" two_packages None] by simp
qed

end
