(* ===== verification/Transfer_Tasks.thy ===== *)
theory Transfer_Tasks
  imports Archive_Service
begin

text \<open>
  The background tasks behind pushed packages: unpacking an entry into a file
  (\<^verbatim>\<open>StartDecompressor\<close> of Compression/SharpComp.cs) and starting a download (\<^verbatim>\<open>CreateTask\<close> of
  Tasks/Downloader.cs). What the archive library delivers is a list of reads, each some bytes or
  an exception; after it the entry is at its end.
\<close>

section \<open>Unpacking\<close>

record unpacking =
  extracted :: "u8 list"
  read_tries :: nat
  unpack_error :: bool

text \<open>
  The loop: an empty read before the entry is complete is tolerated three times; an exception
  ends it, and so does any other empty read.
\<close>

fun unpack_entry :: "nat \<Rightarrow> u8 list option list \<Rightarrow> unpacking \<Rightarrow> unpacking" where
  "unpack_entry len [] u = u"
| "unpack_entry len (None # chunks) u = u\<lparr>unpack_error := True\<rparr>"
| "unpack_entry len (Some bs # chunks) u =
     (if bs = [] then
        (if length (extracted u) < len \<and> read_tries u < 3
         then unpack_entry len chunks (u\<lparr>read_tries := Suc (read_tries u)\<rparr>) else u)
      else unpack_entry len chunks (u\<lparr>extracted := extracted u @ bs\<rparr>))"

definition unpack :: "nat \<Rightarrow> u8 list option list \<Rightarrow> unpacking" where
  "unpack len chunks = unpack_entry len chunks \<lparr>extracted = [], read_tries = 0, unpack_error = False\<rparr>"

text \<open>
  The task when the loop has ended. (Its counter is a local variable of the worker, read through
  a pointer that outlives it; here it keeps its value.)
\<close>

definition finished_task :: "nat \<Rightarrow> unpacking \<Rightarrow> decompress_task" where
  "finished_task len u = \<lparr>total_size = int len, total_decompressed = int (length (extracted u)),
     running = False, task_error = unpack_error u\<rparr>"

text \<open>What the entry gives before an exception, and how often it hesitates.\<close>

definition pauses :: "u8 list option list \<Rightarrow> nat" where
  "pauses chunks = length (filter (\<lambda>r. r = Some []) chunks)"

lemma unpack_entry_prefix:
  "\<exists>more. extracted (unpack_entry len chunks u) = extracted u @ more
     \<and> (\<exists>rest. concat (map (\<lambda>r. case r of None \<Rightarrow> [] | Some bs \<Rightarrow> bs) chunks) = more @ rest)"
proof (induction len chunks u rule: unpack_entry.induct)
  case (3 len bs chunks u)
  show ?case
  proof (cases "bs = []")
    case False
    then obtain more rest where m: "extracted (unpack_entry len chunks (u\<lparr>extracted := extracted u @ bs\<rparr>))
        = (extracted u @ bs) @ more"
      "concat (map (\<lambda>r. case r of None \<Rightarrow> [] | Some bs \<Rightarrow> bs) chunks) = more @ rest"
      using 3(2) by auto
    then show ?thesis using False by (intro exI [of _ "bs @ more"]) auto
  qed (use 3(1) in auto)
qed auto

lemma unpack_entry_all:
  assumes "list_all (\<lambda>r. r \<noteq> None) chunks" and "pauses chunks + read_tries u \<le> 3"
    and "length (extracted u @ concat (map the chunks)) = len"
  shows "extracted (unpack_entry len chunks u) = extracted u @ concat (map the chunks)
    \<and> unpack_error (unpack_entry len chunks u) = unpack_error u"
  using assms
proof (induction len chunks u rule: unpack_entry.induct)
  case (3 len bs chunks u)
  show ?case
  proof (cases "bs = []")
    case True
    have "concat (map the chunks) = []" if "\<not> length (extracted u) < len" using that 3(5) by auto
    moreover have "read_tries u < 3" using True 3(4) by (simp add: pauses_def)
    ultimately show ?thesis
      using 3(1,3,4,5) True by (cases "length (extracted u) < len") (auto simp: pauses_def)
  next
    case False
    then show ?thesis using 3(2-5) by (simp add: pauses_def)
  qed
qed auto

text \<open>An entry whose library hesitates at most three times and does not fail is unpacked byte for byte, and
  its task has not failed; whatever happens, the file holds a prefix of what the library gave.\<close>

lemma unpack_complete:
  assumes "list_all (\<lambda>r. r \<noteq> None) chunks" and "pauses chunks \<le> 3" and "concat (map the chunks) = content"
  shows "extracted (unpack (length content) chunks) = content
    \<and> \<not> task_failed (finished_task (length content) (unpack (length content) chunks))"
proof -
  have "extracted (unpack (length content) chunks) = content"
    using unpack_entry_all [OF assms(1), of "\<lparr>extracted = [], read_tries = 0, unpack_error = False\<rparr>" "length content"]
      assms(2,3) by (simp add: unpack_def)
  then show ?thesis by (simp add: task_failed_def finished_task_def)
qed

lemma unpack_complete_witness:
  "extracted (unpack 3 [Some [1], Some [], Some [2, 3]]) = [1, 2, 3]
    \<and> \<not> task_failed (finished_task 3 (unpack 3 [Some [1], Some [], Some [2, 3]]))"
  using unpack_complete [of "[Some [1], Some [], Some [2, 3]]" "[1, 2, 3]"] by (simp add: pauses_def numeral_3_eq_3)

text \<open>The file never holds anything but a prefix of what the library gave.\<close>

lemma unpack_prefix:
  "\<exists>rest. concat (map (\<lambda>r. case r of None \<Rightarrow> [] | Some bs \<Rightarrow> bs) chunks) = extracted (unpack len chunks) @ rest"
  using unpack_entry_prefix [of len chunks "\<lparr>extracted = [], read_tries = 0, unpack_error = False\<rparr>"]
  by (auto simp: unpack_def)

section \<open>Failures\<close>

text \<open>\<^verbatim>\<open>PushPackage\<close> waits until the part of the package that its header covers is unpacked.\<close>

definition preloaded :: "int \<Rightarrow> string \<Rightarrow> archive_state \<Rightarrow> bool" where
  "preloaded last_resource name s =
     (case tasks s name of None \<Rightarrow> False | Some t \<Rightarrow> last_resource \<le> total_decompressed t)"

text \<open>An exception before the first byte does not count as a failure.\<close>

lemma early_error_not_failed:
  "unpack len (None # chunks) = \<lparr>extracted = [], read_tries = 0, unpack_error = True\<rparr>
    \<and> \<not> task_failed (finished_task len (unpack len (None # chunks)))"
  by (simp add: unpack_def finished_task_def task_failed_def)

text \<open>A task that has ended, with an error or not, is never started again by a push: whichever number
  the package gets, it waits for a counter that no longer moves.\<close>

lemma ended_task_never_restarted:
  assumes "tasks s name = Some t" and "\<not> running t"
    and "push_archive entries opens entry addr s = (r, s')"
  shows "tasks s' name = Some t \<and> (total_decompressed t < last_resource \<longrightarrow> \<not> preloaded last_resource name s')"
proof -
  have "tasks s' name = Some t"
    using assms(1,3)
    by (auto simp: push_archive_def start_decompressor_def Let_def split: option.splits if_splits)
  then show ?thesis by (simp add: preloaded_def)
qed

definition broken_task :: decompress_task where
  "broken_task = finished_task 20 (unpack 20 [Some [1, 2, 3], None])"

definition broken_state :: archive_state where
  "broken_state = \<lparr>task_cache = [(''0'', ''two.pkg'', ''u'')], entry_map = [''u'' \<mapsto> ''two.pkg''],
     tasks = [''two.pkg'' \<mapsto> broken_task]\<rparr>"

lemma ended_task_never_restarted_witness:
  "tasks (snd (push_archive two_packages True ''two.pkg'' ''u'' broken_state)) ''two.pkg'' = Some broken_task
    \<and> \<not> preloaded 10 ''two.pkg'' (snd (push_archive two_packages True ''two.pkg'' ''u'' broken_state))"
proof -
  have "tasks broken_state ''two.pkg'' = Some broken_task" "\<not> running broken_task"
    "total_decompressed broken_task < 10"
    by (simp add: broken_state_def, code_simp, code_simp)
  then show ?thesis
    using ended_task_never_restarted [of broken_state "''two.pkg''" broken_task two_packages True "''two.pkg''" "''u''"
        "fst (push_archive two_packages True ''two.pkg'' ''u'' broken_state)"
        "snd (push_archive two_packages True ''two.pkg'' ''u'' broken_state)" 10] by simp
qed

section \<open>Starting a download\<close>

text \<open>
  A download task, a structure that is copied: \<open>segmented_length\<close> is the length of the segmented
  stream once there is one. \<open>down_length\<close> and \<open>ready_length\<close> are shared by the copies.
\<close>

record download_task =
  segmented_length :: "int option"
  down_running :: bool
  down_length :: int
  ready_length :: int
  down_error :: bool

definition SafeLength :: "download_task \<Rightarrow> int" where
  "SafeLength t = (case segmented_length t of None \<Rightarrow> down_length t | Some n \<Rightarrow> n)"

definition SafeReadyLength :: "int \<Rightarrow> download_task \<Rightarrow> int" where
  "SafeReadyLength scan t = (case segmented_length t of None \<Rightarrow> ready_length t | Some _ \<Rightarrow> scan)"

definition download_failed :: "int \<Rightarrow> download_task \<Rightarrow> bool" where
  "download_failed scan t \<longleftrightarrow> \<not> down_running t \<and> 0 < SafeReadyLength scan t \<and> SafeReadyLength scan t < SafeLength t"

definition new_download :: download_task where
  "new_download = \<lparr>segmented_length = None, down_running = True, down_length = 0, ready_length = 0, down_error = False\<rparr>"

text \<open>
  \<^verbatim>\<open>DoSegmentedDownload\<close>: the worker's copy goes into the table when the stream has been opened, with
  the length of the file, or has failed to open.
\<close>

definition open_segmented :: "int option \<Rightarrow> download_task \<Rightarrow> download_task" where
  "open_segmented result t =
     (case result of Some n \<Rightarrow> t\<lparr>segmented_length := Some n\<rparr> | None \<Rightarrow> t\<lparr>down_error := True\<rparr>)"

text \<open>
  The loop of \<^verbatim>\<open>CreateTask\<close> for a segmented download, on the entries of the table it sees, one after
  another; \<^term>\<open>None\<close> while it is still waiting.
\<close>

primrec await_segmented :: "download_task \<Rightarrow> download_task list \<Rightarrow> download_task option" where
  "await_segmented t [] =
     (if segmented_length t = None \<or> segmented_length t = Some 0 then (if down_running t then None else Some t)
      else Some t)"
| "await_segmented t (seen # later) =
     (if segmented_length t = None \<or> segmented_length t = Some 0 then
        (if down_running t then await_segmented seen later else Some t)
      else Some t)"

text \<open>What the table holds while the loop runs: the new task, and from some point on the worker's copy.\<close>

definition table_over_time :: "nat \<Rightarrow> int option \<Rightarrow> nat \<Rightarrow> download_task list" where
  "table_over_time opened result n =
     map (\<lambda>i. if i < opened then new_download else open_segmented result new_download) [0..<n]"

lemma await_waiting:
  "list_all (\<lambda>t. (segmented_length t = None \<or> segmented_length t = Some 0) \<and> down_running t) (t # ts) \<Longrightarrow>
     await_segmented t ts = None"
  by (induction ts arbitrary: t) auto


section \<open>Plain downloads\<close>

text \<open>
  \<^verbatim>\<open>DoDownload\<close>, for file hosts that allow one connection: the file and the task. The length is asked for
  after a read while it is 0; an empty read ends the loop, an exception ends it with an error.
\<close>

definition stop_download :: "u8 list \<times> download_task \<Rightarrow> u8 list \<times> download_task" where
  "stop_download d = (fst d, (snd d)\<lparr>ready_length := int (length (fst d)), down_running := False\<rparr>)"

definition fail_download :: "u8 list \<times> download_task \<Rightarrow> u8 list \<times> download_task" where
  "fail_download d = (fst d, (snd d)\<lparr>down_error := True, down_running := False\<rparr>)"

definition store_chunk :: "int \<Rightarrow> u8 list \<Rightarrow> u8 list \<times> download_task \<Rightarrow> u8 list \<times> download_task" where
  "store_chunk len bs d =
     (fst d @ bs, (snd d)\<lparr>down_length := if down_length (snd d) = 0 then len else down_length (snd d),
        ready_length := ready_length (snd d) + int (length bs)\<rparr>)"

fun download_loop :: "int \<Rightarrow> u8 list option list \<Rightarrow> u8 list \<times> download_task \<Rightarrow> u8 list \<times> download_task" where
  "download_loop len [] d = stop_download (store_chunk len [] d)"
| "download_loop len (None # chunks) d = fail_download d"
| "download_loop len (Some bs # chunks) d =
     (if bs = [] then stop_download (store_chunk len bs d) else download_loop len chunks (store_chunk len bs d))"

text \<open>The file must not exist: it is opened with \<^verbatim>\<open>CreateNew\<close>.\<close>

definition DoDownload :: "bool \<Rightarrow> int \<Rightarrow> u8 list option list \<Rightarrow> u8 list \<times> download_task" where
  "DoDownload file_exists len chunks =
     (if file_exists then fail_download ([], new_download) else download_loop len chunks ([], new_download))"

text \<open>\<^verbatim>\<open>CreateTask\<close> gives an old task back unless it counts as failed.\<close>

definition kept_task :: "int \<Rightarrow> download_task option \<Rightarrow> download_task option" where
  "kept_task scan old = (case old of None \<Rightarrow> None | Some t \<Rightarrow> if download_failed scan t then None else Some t)"

lemma download_loop_all:
  "list_all (\<lambda>c. c \<noteq> None \<and> c \<noteq> Some []) chunks \<Longrightarrow> 0 < len \<Longrightarrow>
   fst (download_loop len chunks d) = fst d @ concat (map the chunks)
   \<and> ready_length (snd (download_loop len chunks d)) = int (length (fst d @ concat (map the chunks)))
   \<and> down_length (snd (download_loop len chunks d)) = (if down_length (snd d) = 0 then len else down_length (snd d))
   \<and> \<not> down_running (snd (download_loop len chunks d))
   \<and> segmented_length (snd (download_loop len chunks d)) = segmented_length (snd d)"
  by (induction len chunks d rule: download_loop.induct) (simp_all add: stop_download_def store_chunk_def)

text \<open>A download that is not interrupted is the whole file, and its task is kept.\<close>

lemma plain_download_complete:
  assumes "list_all (\<lambda>c. c \<noteq> None \<and> c \<noteq> Some []) chunks" and "concat (map the chunks) = content" and "content \<noteq> []"
  shows "fst (DoDownload False (int (length content)) chunks) = content
    \<and> kept_task scan (Some (snd (DoDownload False (int (length content)) chunks)))
        = Some (snd (DoDownload False (int (length content)) chunks))"
  using download_loop_all [OF assms(1), of "int (length content)" "([], new_download)"] assms(2,3)
  by (simp add: DoDownload_def kept_task_def download_failed_def SafeReadyLength_def SafeLength_def new_download_def)

text \<open>
  A download that breaks off counts as failed and is started again - on a file that exists, which
  fails at once, and that task does not count as failed: it is given back from then on.
\<close>

lemma broken_download_dead:
  "kept_task scan (Some (snd (DoDownload False 5 [Some [1, 2], None]))) = None"
  "kept_task scan (Some (snd (DoDownload True 5 chunks))) = Some (snd (DoDownload True 5 chunks))"
  "fst (DoDownload True 5 chunks) = []"
  by (simp_all add: DoDownload_def kept_task_def download_failed_def SafeReadyLength_def SafeLength_def new_download_def
      fail_download_def store_chunk_def)

end
