(* ===== verification/Memory_Stream.thy ===== *)
theory Memory_Stream
  imports Virtual_Stream
begin

text \<open>
  IO/UnsafeMemoryStream.cs: a stream over a block of unmanaged memory, which several streams may
  share; the last one to be disposed frees it. A pointer is a block and an offset in it, and an
  access outside a block that is allocated is undefined. The operations that share and dispose
  streams are taken in any order, as Compression/Common.cs makes and closes them; each is one step.
\<close>

record unmanaged =
  blocks :: "nat \<Rightarrow> u8 list option"
  InstanceCount :: "nat \<Rightarrow> nat option"

record memory_stream =
  BasePointer :: nat
  CurrentPointer :: int
  block_size :: int
  Disposed :: bool

datatype 'a access = Undefined | Disposed_error | Done 'a

section \<open>Reading and writing\<close>

text \<open>The number of bytes a call transfers, with so much room in the caller's buffer.\<close>

definition transfer_count :: "int \<Rightarrow> int \<Rightarrow> memory_stream \<Rightarrow> nat" where
  "transfer_count count room s =
     (let count = (if block_size s < CurrentPointer s + count then to_int32 (block_size s - CurrentPointer s) else count);
          count = (if room < count then room else count)
      in if count < 0 then 0 else nat count)"

primrec load_bytes :: "nat \<Rightarrow> u8 list \<Rightarrow> int \<Rightarrow> u8 list option" where
  "load_bytes 0 b p = Some []"
| "load_bytes (Suc k) b p =
     (if 0 \<le> p \<and> p < int (length b) then map_option ((#) (b ! nat p)) (load_bytes k b (p + 1)) else None)"

primrec load_dwords :: "nat \<Rightarrow> u8 list \<Rightarrow> int \<Rightarrow> u8 list option" where
  "load_dwords 0 b p = Some []"
| "load_dwords (Suc k) b p =
     (if 0 \<le> p \<and> p + 4 \<le> int (length b)
      then map_option ((@) (le_bytes 4 (le_word (take 4 (drop (nat p) b)) :: u32))) (load_dwords k b (p + 4))
      else None)"

text \<open>\<^verbatim>\<open>Read\<close>: the bytes that do not fill a word one by one, then word by word.\<close>

definition memory_read :: "unmanaged \<Rightarrow> int \<Rightarrow> int \<Rightarrow> memory_stream \<Rightarrow> (u8 list \<times> memory_stream) access" where
  "memory_read m count room s =
     (if Disposed s \<or> InstanceCount m (BasePointer s) = None then Disposed_error
      else
        let n = transfer_count count room s in
        if n = 0 then Done ([], s)
        else case blocks m (BasePointer s) of
          None \<Rightarrow> Undefined
        | Some b \<Rightarrow>
            (case load_bytes (n mod 4) b (CurrentPointer s) of
               None \<Rightarrow> Undefined
             | Some xs \<Rightarrow>
                 (case load_dwords (n div 4) b (CurrentPointer s + int (n mod 4)) of
                    None \<Rightarrow> Undefined
                  | Some ys \<Rightarrow> Done (xs @ ys, s\<lparr>CurrentPointer := CurrentPointer s + int n\<rparr>))))"

primrec store_bytes :: "u8 list \<Rightarrow> u8 list \<Rightarrow> int \<Rightarrow> u8 list option" where
  "store_bytes [] b p = Some b"
| "store_bytes (x # xs) b p =
     (if 0 \<le> p \<and> p < int (length b) then store_bytes xs (b[nat p := x]) (p + 1) else None)"

fun store_dwords :: "u8 list \<Rightarrow> u8 list \<Rightarrow> int \<Rightarrow> u8 list option" where
  "store_dwords (w # x # y # z # xs) b p =
     (if 0 \<le> p \<and> p + 4 \<le> int (length b)
      then store_dwords xs (take (nat p) b @ le_bytes 4 (le_word [w, x, y, z] :: u32) @ drop (nat p + 4) b) (p + 4)
      else None)"
| "store_dwords _ b p = Some b"

definition memory_write :: "unmanaged \<Rightarrow> u8 list \<Rightarrow> memory_stream \<Rightarrow> (unmanaged \<times> memory_stream) access" where
  "memory_write m buffer s =
     (if Disposed s then Disposed_error
      else
        let n = transfer_count (int (length buffer)) (int (length buffer)) s in
        if n = 0 then Done (m, s)
        else case blocks m (BasePointer s) of
          None \<Rightarrow> Undefined
        | Some b \<Rightarrow>
            (case store_bytes (take (n mod 4) buffer) b (CurrentPointer s) of
               None \<Rightarrow> Undefined
             | Some b \<Rightarrow>
                 (case store_dwords (take (n - n mod 4) (drop (n mod 4) buffer)) b (CurrentPointer s + int (n mod 4)) of
                    None \<Rightarrow> Undefined
                  | Some b \<Rightarrow>
                      Done (m\<lparr>blocks := (blocks m)(BasePointer s \<mapsto> b)\<rparr>,
                        s\<lparr>CurrentPointer := CurrentPointer s + int n\<rparr>))))"

definition memory_seek :: "int \<Rightarrow> seek_origin \<Rightarrow> memory_stream \<Rightarrow> (int \<times> memory_stream) option" where
  "memory_seek offset origin s =
     (if offset < 0 \<or> block_size s < offset then None
      else case origin of
        Begin \<Rightarrow> Some (offset, s\<lparr>CurrentPointer := offset\<rparr>)
      | Current \<Rightarrow>
          if block_size s < CurrentPointer s + offset then None
          else Some (CurrentPointer s + offset, s\<lparr>CurrentPointer := CurrentPointer s + offset\<rparr>)
      | End \<Rightarrow>
          if block_size s - offset < 0 then None
          else Some (block_size s - offset, s\<lparr>CurrentPointer := block_size s - offset\<rparr>))"

section \<open>Sharing and freeing\<close>

definition count_instance :: "nat \<Rightarrow> unmanaged \<Rightarrow> unmanaged" where
  "count_instance p m =
     m\<lparr>InstanceCount := (InstanceCount m)(p \<mapsto> Suc (case InstanceCount m p of None \<Rightarrow> 0 | Some k \<Rightarrow> k))\<rparr>"

text \<open>\<^verbatim>\<open>new UnsafeMemoryStream(Pointer, Size)\<close>, and with memory of its own, whatever is in it.\<close>

definition share_memory :: "nat \<Rightarrow> int \<Rightarrow> unmanaged \<Rightarrow> memory_stream \<times> unmanaged" where
  "share_memory p n m =
     (\<lparr>BasePointer = p, CurrentPointer = 0, block_size = n, Disposed = False\<rparr>, count_instance p m)"

definition new_memory :: "nat \<Rightarrow> u8 list \<Rightarrow> unmanaged \<Rightarrow> memory_stream \<times> unmanaged" where
  "new_memory p b m = share_memory p (int (length b)) (m\<lparr>blocks := (blocks m)(p \<mapsto> b)\<rparr>)"

definition PointerDisposed :: "nat \<Rightarrow> unmanaged \<Rightarrow> bool" where
  "PointerDisposed p m = (case InstanceCount m p of None \<Rightarrow> True | Some k \<Rightarrow> k = 0)"

text \<open>Freeing what is not allocated is undefined.\<close>

definition free_block :: "nat \<Rightarrow> unmanaged \<Rightarrow> unmanaged access" where
  "free_block p m =
     (if blocks m p = None then Undefined
      else Done (m\<lparr>blocks := (blocks m)(p := None), InstanceCount := (InstanceCount m)(p := None)\<rparr>))"

definition memory_dispose :: "memory_stream \<Rightarrow> unmanaged \<Rightarrow> (memory_stream \<times> unmanaged) access" where
  "memory_dispose s m =
     (if Disposed s then Done (s, m)
      else
        let s = s\<lparr>Disposed := True\<rparr>; p = BasePointer s in
        case InstanceCount m p of
          None \<Rightarrow> Done (s, m)
        | Some k \<Rightarrow>
            if 1 < k then Done (s, m\<lparr>InstanceCount := (InstanceCount m)(p \<mapsto> k - 1)\<rparr>)
            else (case free_block p m of Done m \<Rightarrow> Done (s, m) | Undefined \<Rightarrow> Undefined | Disposed_error \<Rightarrow> Disposed_error))"

section \<open>The transfers are plain copies\<close>

lemma load_bytes_spec:
  "0 \<le> p \<Longrightarrow> p + int k \<le> int (length b) \<Longrightarrow> load_bytes k b p = Some (take k (drop (nat p) b))"
proof (induction k arbitrary: p)
  case (Suc k)
  then have "drop (nat p) b = b ! nat p # drop (nat (p + 1)) b"
    by (simp add: nat_add_distrib Cons_nth_drop_Suc)
  then show ?case using Suc by simp
qed simp

lemma load_dwords_spec:
  "0 \<le> p \<Longrightarrow> p + 4 * int k \<le> int (length b) \<Longrightarrow> load_dwords k b p = Some (take (4 * k) (drop (nat p) b))"
proof (induction k arbitrary: p)
  case (Suc k)
  have "le_bytes 4 (le_word (take 4 (drop (nat p) b)) :: u32) = take 4 (drop (nat p) b)"
    using Suc.prems by (intro le_bytes_le_word) auto
  moreover have "take (4 * Suc k) (drop (nat p) b) = take 4 (drop (nat p) b) @ take (4 * k) (drop (nat (p + 4)) b)"
    using Suc.prems by (simp add: take_add nat_add_distrib add.commute)
  ultimately show ?case using Suc by simp
qed simp

lemma store_bytes_spec:
  "0 \<le> p \<Longrightarrow> p + int (length xs) \<le> int (length b) \<Longrightarrow>
     store_bytes xs b p = Some (take (nat p) b @ xs @ drop (nat p + length xs) b)"
proof (induction xs arbitrary: b p)
  case (Cons x xs)
  have "take (nat (p + 1)) (b[nat p := x]) = take (nat p) b @ [x]"
    using Cons.prems by (simp add: nat_add_distrib take_Suc_conv_app_nth take_update_swap list_update_append)
  moreover have "drop (nat (p + 1) + length xs) (b[nat p := x]) = drop (nat p + length (x # xs)) b"
    using Cons.prems by (simp add: nat_add_distrib)
  ultimately show ?case using Cons by simp
qed simp

lemma store_dwords_spec:
  "0 \<le> p \<Longrightarrow> 4 dvd length xs \<Longrightarrow> p + int (length xs) \<le> int (length b) \<Longrightarrow>
     store_dwords xs b p = Some (take (nat p) b @ xs @ drop (nat p + length xs) b)"
proof (induction xs b p rule: store_dwords.induct)
  case (1 w x y z xs b p)
  let ?b = "take (nat p) b @ [w, x, y, z] @ drop (nat p + 4) b"
  have le: "le_bytes 4 (le_word [w, x, y, z] :: u32) = [w, x, y, z]" by (intro le_bytes_le_word) auto
  have dvd: "4 dvd length xs" using 1(3) by simp presburger
  have len: "p + 4 + int (length xs) \<le> int (length ?b)" using 1(2,4) by auto
  have np: "nat (p + 4) = nat p + 4" using 1(2) by simp
  have "store_dwords xs ?b (p + 4) = Some (take (nat p + 4) ?b @ xs @ drop (nat p + 4 + length xs) ?b)"
    by (rule 1(1) [unfolded le np]) (use 1(2,4) dvd len in simp_all)
  moreover have "take (nat p + 4) ?b = take (nat p) b @ [w, x, y, z]" using 1(2,4) by simp
  moreover have "drop (nat p + 4 + length xs) ?b = drop (nat p + length (w # x # y # z # xs)) b"
  proof -
    have "drop (length A + k) (A @ r) = drop k r" for A r :: "u8 list" and k by simp
    from this [of "take (nat p) b @ [w, x, y, z]" "length xs" "drop (nat p + 4) b"]
    have "drop (nat p + 4 + length xs) ?b = drop (length xs) (drop (nat p + 4) b)" using 1(2,4) by simp
    also have "\<dots> = drop (nat p + length (w # x # y # z # xs)) b"
      unfolding drop_drop by (rule arg_cong [where f = "\<lambda>n. drop n b"]) simp
    finally show ?thesis .
  qed
  ultimately have "store_dwords xs ?b (p + 4)
      = Some ((take (nat p) b @ [w, x, y, z]) @ xs @ drop (nat p + length (w # x # y # z # xs)) b)"
    by (simp only:)
  moreover have "store_dwords (w # x # y # z # xs) b p = store_dwords xs ?b (p + 4)"
    unfolding store_dwords.simps le using 1(2,4) by simp
  ultimately show ?case by simp
qed (auto dest!: dvd_imp_le)

text \<open>A stream whose memory is allocated, and whose position lies in it.\<close>

definition memory_ok :: "unmanaged \<Rightarrow> memory_stream \<Rightarrow> bool" where
  "memory_ok m s \<longleftrightarrow> \<not> Disposed s \<and> InstanceCount m (BasePointer s) \<noteq> None
     \<and> (case blocks m (BasePointer s) of None \<Rightarrow> False | Some b \<Rightarrow> block_size s = int (length b))
     \<and> 0 \<le> CurrentPointer s \<and> CurrentPointer s \<le> block_size s"

definition memory_content :: "unmanaged \<Rightarrow> memory_stream \<Rightarrow> u8 list" where
  "memory_content m s = (case blocks m (BasePointer s) of None \<Rightarrow> [] | Some b \<Rightarrow> b)"

lemma memory_okD:
  assumes "memory_ok m s"
  shows "\<not> Disposed s" "InstanceCount m (BasePointer s) \<noteq> None" "blocks m (BasePointer s) = Some (memory_content m s)"
    "block_size s = int (length (memory_content m s))" "0 \<le> CurrentPointer s" "CurrentPointer s \<le> block_size s"
  using assms by (auto simp: memory_ok_def memory_content_def split: option.splits)

lemma transfer_count_eq:
  assumes "0 \<le> CurrentPointer s" "CurrentPointer s \<le> block_size s" "n < 2 ^ 31"
  shows "transfer_count (int n) (int n) s = min n (nat (block_size s - CurrentPointer s))"
  using assms by (auto simp: transfer_count_def Let_def min_def)

lemma memory_read_spec:
  assumes "memory_ok m s" and "n < 2 ^ 31"
  shows "memory_read m (int n) (int n) s =
    (let bs = take n (drop (nat (CurrentPointer s)) (memory_content m s))
     in Done (bs, s\<lparr>CurrentPointer := CurrentPointer s + int (length bs)\<rparr>))"
proof -
  note ok = memory_okD [OF assms(1)]
  define b where "b = memory_content m s"
  define p where "p = nat (CurrentPointer s)"
  define k where "k = min n (length b - p)"
  have cp: "CurrentPointer s = int p" "p \<le> length b" using ok by (simp_all add: p_def b_def)
  have tc: "transfer_count (int n) (int n) s = k"
    using transfer_count_eq [OF ok(5,6) assms(2)] ok(4) cp by (simp add: k_def b_def nat_diff_distrib)
  have split: "k mod 4 + 4 * (k div 4) = k" by simp
  have "take n (drop p b) = take k (drop p b)" by (simp add: k_def min_def)
  then have bs: "take n (drop p b) = take k (drop p b)" "length (take n (drop p b)) = k" by (simp_all add: k_def)
  have "load_bytes (k mod 4) b (int p) = Some (take (k mod 4) (drop p b))"
    using cp(2) split by (subst load_bytes_spec) (auto simp: k_def)
  moreover have "load_dwords (k div 4) b (int p + int (k mod 4)) = Some (take (4 * (k div 4)) (drop (p + k mod 4) b))"
  proof -
    have "p + k \<le> length b" using cp(2) by (auto simp: k_def)
    then have "int p + int (k mod 4) + 4 * int (k div 4) \<le> int (length b)" using split by linarith
    then show ?thesis using load_dwords_spec [of "int p + int (k mod 4)" "k div 4" b] by (simp add: nat_add_distrib)
  qed
  moreover have "take (k mod 4) (drop p b) @ take (4 * (k div 4)) (drop (p + k mod 4) b) = take k (drop p b)"
    using take_add [of "k mod 4" "4 * (k div 4)" "drop p b"] split by (simp add: add.commute)
  ultimately have "memory_read m (int n) (int n) s = Done (take k (drop p b), s\<lparr>CurrentPointer := int p + int k\<rparr>)"
    using ok(1-3) cp(1) by (auto simp: memory_read_def tc b_def [symmetric] Let_def)
  then show ?thesis using bs cp(1) by (simp add: b_def [symmetric] p_def [symmetric] Let_def)
qed

lemma memory_write_spec:
  assumes "memory_ok m s" and "length bs < 2 ^ 31"
  shows "memory_write m bs s =
    (let w = take (nat (block_size s - CurrentPointer s)) bs; p = nat (CurrentPointer s)
     in Done (m\<lparr>blocks := (blocks m)(BasePointer s \<mapsto> take p (memory_content m s) @ w
            @ drop (p + length w) (memory_content m s))\<rparr>,
          s\<lparr>CurrentPointer := CurrentPointer s + int (length w)\<rparr>))"
proof -
  note ok = memory_okD [OF assms(1)]
  define b where "b = memory_content m s"
  define p where "p = nat (CurrentPointer s)"
  define w where "w = take (nat (block_size s - CurrentPointer s)) bs"
  define k where "k = length w"
  define b' where "b' = take p b @ take (k mod 4) w @ drop (p + k mod 4) b"
  have cp: "CurrentPointer s = int p" "p + k \<le> length b" using ok by (auto simp: p_def b_def k_def w_def)
  have tc: "transfer_count (int (length bs)) (int (length bs)) s = k"
    using transfer_count_eq [OF ok(5,6) assms(2)] by (simp add: k_def w_def min.commute)
  have w: "take j w = take j bs" if "j \<le> k" for j using that by (auto simp: k_def w_def)
  have m: "k mod 4 \<le> k" "length (take (k mod 4) w) = k mod 4" by (simp_all add: k_def)
  have "store_bytes (take (k mod 4) bs) b (int p) = Some b'"
    using store_bytes_spec [of "int p" "take (k mod 4) w" b] cp(2) m w [OF m(1)] by (simp add: b'_def min_def)
  moreover have "store_dwords (take (k - k mod 4) (drop (k mod 4) bs)) b' (int p + int (k mod 4))
      = Some (take p b @ w @ drop (p + k) b)"
  proof -
    let ?xs = "take (k - k mod 4) (drop (k mod 4) bs)"
    have "?xs = drop (k mod 4) (take k bs)" by (simp add: drop_take)
    then have xs: "?xs = drop (k mod 4) w" "length ?xs = k - k mod 4"
      using w [of k] by (simp_all add: k_def)
    have "4 dvd length ?xs" unfolding xs(2) by (simp add: dvd_minus_mod)
    moreover have len: "length b' = length b" using cp(2) m by (simp add: b'_def k_def)
    moreover have "int p + int (k mod 4) + int (length ?xs) \<le> int (length b')" using cp(2) m len xs(2) by simp
    ultimately have "store_dwords ?xs b' (int p + int (k mod 4))
        = Some (take (p + k mod 4) b' @ ?xs @ drop (p + k mod 4 + length ?xs) b')"
      using store_dwords_spec [of "int p + int (k mod 4)" ?xs b'] by (simp add: nat_add_distrib)
    moreover have "take (p + k mod 4) b' = take p b @ take (k mod 4) w" using cp(2) m by (simp add: b'_def k_def)
    moreover have "drop (p + k mod 4 + length ?xs) b' = drop (p + k) b"
      using cp(2) m xs(2) by (simp add: b'_def k_def add.commute [of p])
    ultimately show ?thesis using xs(1) by simp
  qed
  moreover have "k = 0 \<Longrightarrow> (blocks m)(BasePointer s \<mapsto> b) = blocks m" using ok(3) by (simp add: b_def fun_upd_idem)
  moreover have "m\<lparr>blocks := blocks m\<rparr> = m" "s\<lparr>CurrentPointer := CurrentPointer s\<rparr> = s" by simp_all
  ultimately have "memory_write m bs s = Done (m\<lparr>blocks := (blocks m)(BasePointer s \<mapsto> take p b @ w @ drop (p + k) b)\<rparr>,
      s\<lparr>CurrentPointer := CurrentPointer s + int k\<rparr>)"
    using ok(1-3) cp(1) by (cases "k = 0") (simp_all add: memory_write_def Let_def b_def [symmetric] tc k_def [symmetric])
  then show ?thesis by (simp add: w_def [symmetric] p_def [symmetric] b_def [symmetric] k_def [symmetric] Let_def)
qed

section \<open>A stream on its own memory keeps the contract\<close>

definition memory_ops :: "(unmanaged \<times> memory_stream) stream_ops" where
  "memory_ops = \<lparr>get_length = \<lambda>(m, s). block_size s, get_position = \<lambda>(m, s). CurrentPointer s,
     set_position = \<lambda>p (m, s). Some (m, s\<lparr>CurrentPointer := p\<rparr>),
     stream_read = \<lambda>n (m, s). (case memory_read m (int n) (int n) s of Done (bs, s) \<Rightarrow> Some (bs, (m, s)) | _ \<Rightarrow> None)\<rparr>"

interpretation memory: byte_source memory_ops "\<lambda>(m, s). memory_ok m s" "\<lambda>(m, s). memory_content m s"
proof unfold_locales
  fix ms :: "unmanaged \<times> memory_stream" and n :: nat
  assume "case ms of (m, s) \<Rightarrow> memory_ok m s" and n: "n < 2 ^ 31"
  then obtain m s where ms: "ms = (m, s)" "memory_ok m s" by (cases ms) auto
  note ok = memory_okD [OF ms(2)]
  define bs where "bs = take n (drop (nat (CurrentPointer s)) (memory_content m s))"
  define t where "t = s\<lparr>CurrentPointer := CurrentPointer s + int (length bs)\<rparr>"
  have read: "memory_read m (int n) (int n) s = Done (bs, t)"
    using memory_read_spec [OF ms(2) n] by (simp add: bs_def t_def Let_def)
  have "CurrentPointer s + int (length bs) \<le> block_size s" using ok(4-6) by (auto simp: bs_def)
  then have "memory_ok m t" using ms(2) ok(5) by (auto simp: memory_ok_def t_def split: option.splits)
  moreover have "memory_content m t = memory_content m s" by (simp add: memory_content_def t_def)
  moreover have "bs = [] \<longrightarrow> n = 0 \<or> CurrentPointer s = block_size s" using ok(4-6) by (auto simp: bs_def)
  ultimately show "\<exists>bs ms'. stream_read memory_ops n ms = Some (bs, ms') \<and> (case ms' of (m, s) \<Rightarrow> memory_ok m s)
      \<and> (case ms' of (m, s) \<Rightarrow> memory_content m s) = (case ms of (m, s) \<Rightarrow> memory_content m s)
      \<and> length bs \<le> n \<and> bs = take (length bs) (drop (nat (get_position memory_ops ms)) (case ms of (m, s) \<Rightarrow> memory_content m s))
      \<and> get_position memory_ops ms' = get_position memory_ops ms + int (length bs)
      \<and> (bs = [] \<longrightarrow> n = 0 \<or> get_position memory_ops ms = int (length (case ms of (m, s) \<Rightarrow> memory_content m s)))"
    using read ok(4) ms(1)
    by (intro exI [of _ bs] exI [of _ "(m, t)"]) (simp add: memory_ops_def t_def, auto simp: bs_def min_def)
next
  fix ms :: "unmanaged \<times> memory_stream" and p :: int
  obtain m s where ms: "ms = (m, s)" by (cases ms)
  assume "case ms of (m, s) \<Rightarrow> memory_ok m s" "0 \<le> p" "p \<le> int (length (case ms of (m, s) \<Rightarrow> memory_content m s))"
  then have "memory_ok m (s\<lparr>CurrentPointer := p\<rparr>)"
    using ms by (auto simp: memory_ok_def memory_content_def split: option.splits)
  then show "\<exists>ms'. set_position memory_ops p ms = Some ms' \<and> (case ms' of (m, s) \<Rightarrow> memory_ok m s)
      \<and> (case ms' of (m, s) \<Rightarrow> memory_content m s) = (case ms of (m, s) \<Rightarrow> memory_content m s)
      \<and> (p < int (length (case ms of (m, s) \<Rightarrow> memory_content m s)) \<longrightarrow> get_position memory_ops ms' = p)"
    using ms by (simp add: memory_ops_def memory_content_def)
qed (auto simp: memory_ops_def memory_ok_def memory_content_def split: option.splits)

section \<open>The memory is freed with its last stream\<close>

text \<open>
  What the application does with its streams, in any order: allocate a block that is free, share a
  block that is still alive, read or write at a position of a stream, dispose a stream.
\<close>

record memory_system =
  heap :: unmanaged
  streams :: "memory_stream list"

datatype memory_action =
    Allocate nat "u8 list"
  | Share nat
  | Read_at nat int nat
  | Write_at nat int "u8 list"
  | Dispose nat

definition no_memory :: memory_system where
  "no_memory = \<lparr>heap = \<lparr>blocks = Map.empty, InstanceCount = Map.empty\<rparr>, streams = []\<rparr>"

text \<open>\<^term>\<open>None\<close> is an undefined access; an action that throws or does not apply changes nothing.\<close>

definition memory_step :: "memory_action \<Rightarrow> memory_system \<Rightarrow> memory_system option" where
  "memory_step a y =
     (case a of
        Allocate p b \<Rightarrow>
          if blocks (heap y) p \<noteq> None then Some y
          else (case new_memory p b (heap y) of (s, m) \<Rightarrow> Some \<lparr>heap = m, streams = streams y @ [s]\<rparr>)
      | Share i \<Rightarrow>
          if length (streams y) \<le> i \<or> PointerDisposed (BasePointer (streams y ! i)) (heap y) then Some y
          else (case share_memory (BasePointer (streams y ! i)) (block_size (streams y ! i)) (heap y) of
                  (s, m) \<Rightarrow> Some \<lparr>heap = m, streams = streams y @ [s]\<rparr>)
      | Read_at i p n \<Rightarrow>
          if length (streams y) \<le> i then Some y
          else (case memory_seek p Begin (streams y ! i) of
                  None \<Rightarrow> Some y
                | Some (_, s) \<Rightarrow>
                    (case memory_read (heap y) (int n) (int n) s of
                       Undefined \<Rightarrow> None
                     | Disposed_error \<Rightarrow> Some y
                     | Done (_, s) \<Rightarrow> Some (y\<lparr>streams := (streams y)[i := s]\<rparr>)))
      | Write_at i p bs \<Rightarrow>
          if length (streams y) \<le> i then Some y
          else (case memory_seek p Begin (streams y ! i) of
                  None \<Rightarrow> Some y
                | Some (_, s) \<Rightarrow>
                    (case memory_write (heap y) bs s of
                       Undefined \<Rightarrow> None
                     | Disposed_error \<Rightarrow> Some y
                     | Done (m, s) \<Rightarrow> Some \<lparr>heap = m, streams = (streams y)[i := s]\<rparr>))
      | Dispose i \<Rightarrow>
          if length (streams y) \<le> i then Some y
          else (case memory_dispose (streams y ! i) (heap y) of
                  Undefined \<Rightarrow> None
                | Disposed_error \<Rightarrow> Some y
                | Done (s, m) \<Rightarrow> Some \<lparr>heap = m, streams = (streams y)[i := s]\<rparr>))"

primrec memory_run :: "memory_action list \<Rightarrow> memory_system \<Rightarrow> memory_system option" where
  "memory_run [] y = Some y"
| "memory_run (a # as) y = Option.bind (memory_step a y) (memory_run as)"

text \<open>
  The buffer of Compression/Common.cs, made from stream \<open>i\<close> for a file of \<open>n\<close> bytes: every call opens a
  new stream on its memory, and the first one lets go of stream \<open>i\<close>. It is a run of these actions.
\<close>

definition open_buffer :: "nat \<Rightarrow> int \<Rightarrow> memory_system \<Rightarrow> memory_system option" where
  "open_buffer i n y =
     (let old = streams y ! i
      in if PointerDisposed (BasePointer old) (heap y) then Some y
         else case share_memory (BasePointer old) n (heap y) of
           (s, m) \<Rightarrow>
             let y = \<lparr>heap = m, streams = streams y @ [s]\<rparr>
             in if Disposed old then Some y
                else (case memory_dispose old m of
                        Undefined \<Rightarrow> None
                      | Disposed_error \<Rightarrow> Some y
                      | Done (old, m) \<Rightarrow> Some \<lparr>heap = m, streams = (streams y)[i := old]\<rparr>))"

lemma open_buffer_run:
  assumes "i < length (streams y)" "block_size (streams y ! i) = n"
    and "\<not> PointerDisposed (BasePointer (streams y ! i)) (heap y)"
  shows "open_buffer i n y = memory_run [Share i, Dispose i] y"
proof (cases "Disposed (streams y ! i)")
  case True
  then have "memory_dispose (streams y ! i) m = Done (streams y ! i, m)" for m by (simp add: memory_dispose_def)
  then show ?thesis
    using assms True by (simp add: open_buffer_def memory_step_def share_memory_def nth_append list_update_append Let_def)
next
  case False
  then show ?thesis
    using assms by (simp add: open_buffer_def memory_step_def share_memory_def nth_append Let_def split: access.split)
qed

definition alive_on :: "nat \<Rightarrow> memory_stream \<Rightarrow> bool" where
  "alive_on p s \<longleftrightarrow> \<not> Disposed s \<and> BasePointer s = p"

text \<open>
  The count of a block is the number of streams on it that are not disposed, a block is allocated
  while it is positive, and every stream on it knows its size, also the disposed ones.
\<close>

definition counted :: "nat \<Rightarrow> nat option" where
  "counted k = (if k = 0 then None else Some k)"

definition sized :: "unmanaged \<Rightarrow> memory_stream \<Rightarrow> bool" where
  "sized m s \<longleftrightarrow>
     (case blocks m (BasePointer s) of None \<Rightarrow> Disposed s | Some b \<Rightarrow> block_size s = int (length b))"

definition memory_inv :: "memory_system \<Rightarrow> bool" where
  "memory_inv y \<longleftrightarrow>
     (\<forall>p. InstanceCount (heap y) p = counted (length (filter (alive_on p) (streams y)))
       \<and> (blocks (heap y) p = None \<longleftrightarrow> InstanceCount (heap y) p = None))
     \<and> (\<forall>s \<in> set (streams y). sized (heap y) s)"

lemma memory_inv_count:
  assumes "memory_inv y" "i < length (streams y)" "\<not> Disposed (streams y ! i)"
  shows "\<exists>k b. InstanceCount (heap y) (BasePointer (streams y ! i)) = Some (Suc k)
    \<and> length (filter (alive_on (BasePointer (streams y ! i))) (streams y)) = Suc k
    \<and> blocks (heap y) (BasePointer (streams y ! i)) = Some b \<and> block_size (streams y ! i) = int (length b)"
proof -
  let ?p = "BasePointer (streams y ! i)"
  have "streams y ! i \<in> set (filter (alive_on ?p) (streams y))" using assms(2,3) by (simp add: alive_on_def)
  then have "length (filter (alive_on ?p) (streams y)) \<noteq> 0" by (metis length_0_conv list.set(1) emptyE)
  then obtain k where k: "length (filter (alive_on ?p) (streams y)) = Suc k" by (cases "length (filter (alive_on ?p) (streams y))") auto
  moreover have "InstanceCount (heap y) ?p = counted (length (filter (alive_on ?p) (streams y)))"
    using assms(1) unfolding memory_inv_def by blast
  then have "InstanceCount (heap y) ?p = Some (Suc k)" unfolding k by (simp add: counted_def)
  moreover have "sized (heap y) (streams y ! i)" using assms by (simp add: memory_inv_def)
  ultimately show ?thesis using assms(3) by (auto simp: sized_def split: option.splits)
qed

lemma memory_inv_update:
  assumes "memory_inv y" "i < length (streams y)" "BasePointer s = BasePointer (streams y ! i)"
    "block_size s = block_size (streams y ! i)" "Disposed s = Disposed (streams y ! i)"
    and "\<And>p. map_option length (blocks m p) = map_option length (blocks (heap y) p)"
    and "InstanceCount m = InstanceCount (heap y)"
  shows "memory_inv \<lparr>heap = m, streams = (streams y)[i := s]\<rparr>"
proof -
  have "length (filter (alive_on p) ((streams y)[i := s])) = length (filter (alive_on p) (streams y))" for p
    using filter_update [OF assms(2), of "alive_on p" s] assms(3,5) by (simp add: alive_on_def split: if_splits)
  moreover have "blocks m p = None \<longleftrightarrow> blocks (heap y) p = None" for p
    using assms(6) [of p] by (metis option.map_disc_iff)
  moreover have "sized m t" if t: "t \<in> set ((streams y)[i := s])" for t
  proof -
    obtain u where u: "u \<in> set (streams y)" "BasePointer t = BasePointer u" "block_size t = block_size u"
      "Disposed t = Disposed u"
      using t assms(2-5) set_update_subset_insert [of "streams y" i s] by (cases "t = s") (auto intro: nth_mem)
    then have "sized (heap y) u" using assms(1) by (simp add: memory_inv_def)
    then show ?thesis using assms(6) [of "BasePointer u"] u(2-4) by (auto simp: sized_def split: option.splits)
  qed
  ultimately show ?thesis using assms(1,7) by (simp add: memory_inv_def)
qed

lemma memory_inv_add:
  assumes "memory_inv y" "map_option (int \<circ> length) (blocks m p) = Some n"
    and "\<And>q. q \<noteq> p \<Longrightarrow> blocks m q = blocks (heap y) q" "InstanceCount m = InstanceCount (heap y)"
    and "blocks m p = blocks (heap y) p \<or> p \<notin> BasePointer ` set (streams y)"
  shows "memory_inv \<lparr>heap = snd (share_memory p n m), streams = streams y @ [fst (share_memory p n m)]\<rparr>"
proof -
  have count: "InstanceCount (heap y) q = counted (length (filter (alive_on q) (streams y)))"
    and block: "blocks (heap y) q = None \<longleftrightarrow> InstanceCount (heap y) q = None" for q
    using assms(1) by (simp_all add: memory_inv_def)
  let ?s = "fst (share_memory p n m)"
  have "blocks m p \<noteq> None" using assms(2) by auto
  then have new: "InstanceCount (snd (share_memory p n m)) q = counted (length (filter (alive_on q) (streams y @ [?s])))"
    "blocks (snd (share_memory p n m)) q = None \<longleftrightarrow> InstanceCount (snd (share_memory p n m)) q = None" for q
    using count [of q] block [of q] assms(3,4)
    by (auto simp: share_memory_def count_instance_def counted_def alive_on_def split: if_splits)
  have "sized (snd (share_memory p n m)) t" if "t \<in> set (streams y @ [?s])" for t
  proof (cases "t = ?s")
    case True
    then show ?thesis using assms(2) by (auto simp: sized_def share_memory_def count_instance_def split: option.splits)
  next
    case False
    then have t: "t \<in> set (streams y)" using that(1) by simp
    then have "sized (heap y) t" using assms(1) by (simp add: memory_inv_def)
    moreover have "blocks m (BasePointer t) = blocks (heap y) (BasePointer t)"
      using assms(3,5) t by (cases "BasePointer t = p") auto
    ultimately show ?thesis by (simp add: sized_def share_memory_def count_instance_def)
  qed
  then show ?thesis using new by (simp add: memory_inv_def)
qed

lemma memory_inv_dispose:
  assumes "memory_inv y" "i < length (streams y)"
  shows "\<exists>s m. memory_dispose (streams y ! i) (heap y) = Done (s, m)
    \<and> memory_inv \<lparr>heap = m, streams = (streams y)[i := s]\<rparr>"
proof (cases "Disposed (streams y ! i)")
  case True
  then show ?thesis using assms by (cases y) (simp add: memory_dispose_def)
next
  case False
  let ?s = "streams y ! i" and ?p = "BasePointer (streams y ! i)"
  define d where "d = ?s\<lparr>Disposed := True\<rparr>"
  from memory_inv_count [OF assms False] obtain k b where k: "InstanceCount (heap y) ?p = Some (Suc k)"
    "length (filter (alive_on ?p) (streams y)) = Suc k" "blocks (heap y) ?p = Some b" by blast
  define m where "m = (if k = 0 then (heap y)\<lparr>blocks := (blocks (heap y))(?p := None),
      InstanceCount := (InstanceCount (heap y))(?p := None)\<rparr>
    else (heap y)\<lparr>InstanceCount := (InstanceCount (heap y))(?p \<mapsto> k)\<rparr>)"
  have dispose: "memory_dispose ?s (heap y) = Done (d, m)"
    using False k by (simp add: memory_dispose_def free_block_def d_def m_def Let_def)
  have alive: "alive_on ?p ?s" "\<not> alive_on q d" for q using False by (simp_all add: alive_on_def d_def)
  have len: "length (filter (alive_on q) ((streams y)[i := d])) + (if q = ?p then 1 else 0)
      = length (filter (alive_on q) (streams y))" for q
    using filter_update [OF assms(2), of "alive_on q" d] alive False by (auto simp: alive_on_def)
  have none: "\<not> alive_on ?p t" if "t \<in> set ((streams y)[i := d])" "k = 0" for t
  proof -
    have "length (filter (alive_on ?p) ((streams y)[i := d])) = 0" using len [of ?p] k(2) that(2) by simp
    then show ?thesis using that(1) by (simp add: filter_empty_conv)
  qed
  have count: "InstanceCount m q = counted (length (filter (alive_on q) ((streams y)[i := d])))"
    "blocks m q = None \<longleftrightarrow> InstanceCount m q = None" for q
  proof -
    have "InstanceCount (heap y) q = counted (length (filter (alive_on q) (streams y)))"
      "blocks (heap y) q = None \<longleftrightarrow> InstanceCount (heap y) q = None"
      using assms(1) by (simp_all add: memory_inv_def)
    then show "InstanceCount m q = counted (length (filter (alive_on q) ((streams y)[i := d])))"
      "blocks m q = None \<longleftrightarrow> InstanceCount m q = None"
      using len [of q] k by (auto simp: m_def counted_def split: if_splits)
  qed
  have "sized m t" if t: "t \<in> set ((streams y)[i := d])" for t
  proof -
    obtain u where u: "u \<in> set (streams y)" "BasePointer t = BasePointer u" "block_size t = block_size u"
      "Disposed t = Disposed u \<or> t = d"
    proof (cases "t = d")
      case True
      show ?thesis by (rule that [of "streams y ! i"]) (use True assms(2) in \<open>simp_all add: d_def\<close>)
    next
      case False
      then have "t \<in> set (streams y)" using t set_update_subset_insert [of "streams y" i d] by auto
      then show ?thesis by (rule that) simp_all
    qed
    then have "sized (heap y) u" using assms(1) by (simp add: memory_inv_def)
    moreover have "k = 0 \<Longrightarrow> BasePointer t = ?p \<Longrightarrow> Disposed t" using none [OF t] by (auto simp: alive_on_def)
    moreover have "Disposed d" by (simp add: d_def)
    ultimately show ?thesis using u(2-4) k(3) by (auto simp: sized_def m_def split: option.splits)
  qed
  then show ?thesis using dispose count by (auto simp: memory_inv_def)
qed

lemma memory_inv_at:
  assumes "memory_inv y" "i < length (streams y)" "memory_seek p Begin (streams y ! i) = Some (q, s)"
  shows "BasePointer s = BasePointer (streams y ! i)" "block_size s = block_size (streams y ! i)"
    "Disposed s = Disposed (streams y ! i)" "\<not> Disposed s \<Longrightarrow> memory_ok (heap y) s"
proof -
  have s: "s = (streams y ! i)\<lparr>CurrentPointer := p\<rparr>" "0 \<le> p" "p \<le> block_size (streams y ! i)"
    using assms(3) by (auto simp: memory_seek_def split: if_splits)
  then show "BasePointer s = BasePointer (streams y ! i)" "block_size s = block_size (streams y ! i)"
    "Disposed s = Disposed (streams y ! i)" by simp_all
  show "memory_ok (heap y) s" if "\<not> Disposed s"
    using memory_inv_count [OF assms(1,2)] s that by (auto simp: memory_ok_def)
qed

text \<open>The blocks an action allocates, and the sizes of its transfers.\<close>

definition allocates :: "memory_action \<Rightarrow> nat list" where
  "allocates a = (case a of Allocate p b \<Rightarrow> [p] | _ \<Rightarrow> [])"

definition small_transfer :: "memory_action \<Rightarrow> bool" where
  "small_transfer a = (case a of Read_at i p n \<Rightarrow> n < 2 ^ 31 | Write_at i p bs \<Rightarrow> length bs < 2 ^ 31 | _ \<Rightarrow> True)"

definition used_blocks :: "memory_system \<Rightarrow> nat set" where
  "used_blocks y = BasePointer ` set (streams y)"

lemma used_update:
  "i < length (streams y) \<Longrightarrow> BasePointer s = BasePointer (streams y ! i) \<Longrightarrow>
     used_blocks \<lparr>heap = m, streams = (streams y)[i := s]\<rparr> \<subseteq> used_blocks y"
  using set_update_subset_insert [of "streams y" i s] by (force simp: used_blocks_def)

text \<open>One step, by the kind of action.\<close>

lemma memory_step_allocate:
  assumes "memory_inv y" and "p \<notin> used_blocks y"
  shows "\<exists>y'. memory_step (Allocate p b) y = Some y' \<and> memory_inv y' \<and> used_blocks y' \<subseteq> insert p (used_blocks y)"
proof (cases "blocks (heap y) p = None")
  case True
  define m where "m = (heap y)\<lparr>blocks := (blocks (heap y))(p \<mapsto> b)\<rparr>"
  have "memory_inv \<lparr>heap = snd (share_memory p (int (length b)) m),
      streams = streams y @ [fst (share_memory p (int (length b)) m)]\<rparr>"
    by (rule memory_inv_add [OF assms(1)]) (use assms(2) in \<open>auto simp: m_def used_blocks_def\<close>)
  then show ?thesis
    using True by (auto simp: memory_step_def new_memory_def m_def used_blocks_def share_memory_def)
next
  case False
  then show ?thesis using assms(1) by (auto simp: memory_step_def)
qed

lemma memory_step_share:
  assumes "memory_inv y"
  shows "\<exists>y'. memory_step (Share i) y = Some y' \<and> memory_inv y' \<and> used_blocks y' \<subseteq> used_blocks y"
proof (cases "length (streams y) \<le> i \<or> PointerDisposed (BasePointer (streams y ! i)) (heap y)")
  case True
  then show ?thesis using assms by (auto simp: memory_step_def)
next
  case False
  let ?p = "BasePointer (streams y ! i)" and ?n = "block_size (streams y ! i)"
  have "InstanceCount (heap y) ?p \<noteq> None" using False by (auto simp: PointerDisposed_def split: option.splits)
  then have "blocks (heap y) ?p \<noteq> None" using assms by (simp add: memory_inv_def)
  moreover have "sized (heap y) (streams y ! i)" using assms False by (simp add: memory_inv_def)
  ultimately have "map_option (int \<circ> length) (blocks (heap y) ?p) = Some ?n"
    by (auto simp: sized_def)
  then have "memory_inv \<lparr>heap = snd (share_memory ?p ?n (heap y)), streams = streams y @ [fst (share_memory ?p ?n (heap y))]\<rparr>"
    by (intro memory_inv_add [OF assms]) simp_all
  then show ?thesis
    using False by (auto simp: memory_step_def used_blocks_def share_memory_def)
qed

lemma memory_step_read:
  assumes "memory_inv y" and "n < 2 ^ 31"
  shows "\<exists>y'. memory_step (Read_at i p n) y = Some y' \<and> memory_inv y' \<and> used_blocks y' \<subseteq> used_blocks y"
proof (cases "i < length (streams y) \<and> memory_seek p Begin (streams y ! i) \<noteq> None")
  case False
  then show ?thesis using assms(1)
    by (cases "memory_seek p Begin (streams y ! i)") (auto simp: memory_step_def)
next
  case True
  then obtain q s where s: "memory_seek p Begin (streams y ! i) = Some (q, s)" "i < length (streams y)" by auto
  note at = memory_inv_at [OF assms(1) s(2,1)]
  show ?thesis
  proof (cases "Disposed s")
    case True
    then show ?thesis using s assms(1) by (simp add: memory_step_def memory_read_def)
  next
    case False
    define bs where "bs = take n (drop (nat (CurrentPointer s)) (memory_content (heap y) s))"
    define t where "t = s\<lparr>CurrentPointer := CurrentPointer s + int (length bs)\<rparr>"
    have read: "memory_read (heap y) (int n) (int n) s = Done (bs, t)"
      using memory_read_spec [OF at(4) [OF False] assms(2)] by (simp add: bs_def t_def Let_def)
    have "memory_inv \<lparr>heap = heap y, streams = (streams y)[i := t]\<rparr>"
      by (rule memory_inv_update [OF assms(1) s(2)]) (simp_all add: t_def at(1-3))
    moreover have "used_blocks \<lparr>heap = heap y, streams = (streams y)[i := t]\<rparr> \<subseteq> used_blocks y"
      by (rule used_update [OF s(2)]) (simp add: t_def at(1))
    ultimately show ?thesis using s read by (cases y) (simp add: memory_step_def)
  qed
qed

lemma memory_step_write:
  assumes "memory_inv y" and "length bs < 2 ^ 31"
  shows "\<exists>y'. memory_step (Write_at i p bs) y = Some y' \<and> memory_inv y' \<and> used_blocks y' \<subseteq> used_blocks y"
proof (cases "i < length (streams y) \<and> memory_seek p Begin (streams y ! i) \<noteq> None")
  case False
  then show ?thesis using assms(1)
    by (cases "memory_seek p Begin (streams y ! i)") (auto simp: memory_step_def)
next
  case True
  then obtain q s where s: "memory_seek p Begin (streams y ! i) = Some (q, s)" "i < length (streams y)" by auto
  note at = memory_inv_at [OF assms(1) s(2,1)]
  show ?thesis
  proof (cases "Disposed s")
    case True
    then show ?thesis using s assms(1) by (simp add: memory_step_def memory_write_def)
  next
    case False
    note ok = memory_okD [OF at(4) [OF False]]
    define w where "w = take (nat (block_size s - CurrentPointer s)) bs"
    define c where "c = take (nat (CurrentPointer s)) (memory_content (heap y) s) @ w
        @ drop (nat (CurrentPointer s) + length w) (memory_content (heap y) s)"
    define m where "m = (heap y)\<lparr>blocks := (blocks (heap y))(BasePointer s \<mapsto> c)\<rparr>"
    define t where "t = s\<lparr>CurrentPointer := CurrentPointer s + int (length w)\<rparr>"
    have "memory_write (heap y) bs s = Done (m, t)"
      using memory_write_spec [OF at(4) [OF False] assms(2)] by (simp add: w_def c_def m_def t_def Let_def)
    moreover have "length c = length (memory_content (heap y) s)" using ok(4-6) by (auto simp: c_def w_def)
    then have "memory_inv \<lparr>heap = m, streams = (streams y)[i := t]\<rparr>"
      using ok(3) by (intro memory_inv_update [OF assms(1) s(2)]) (auto simp: t_def at(1-3) m_def)
    moreover have "used_blocks \<lparr>heap = m, streams = (streams y)[i := t]\<rparr> \<subseteq> used_blocks y"
      by (rule used_update [OF s(2)]) (simp add: t_def at(1))
    ultimately show ?thesis using s by (simp add: memory_step_def)
  qed
qed

lemma memory_step_dispose:
  assumes "memory_inv y"
  shows "\<exists>y'. memory_step (Dispose i) y = Some y' \<and> memory_inv y' \<and> used_blocks y' \<subseteq> used_blocks y"
proof (cases "i < length (streams y)")
  case True
  from memory_inv_dispose [OF assms this] obtain s m where d: "memory_dispose (streams y ! i) (heap y) = Done (s, m)"
    "memory_inv \<lparr>heap = m, streams = (streams y)[i := s]\<rparr>" by blast
  then have "BasePointer s = BasePointer (streams y ! i)"
    by (auto simp: memory_dispose_def Let_def split: if_splits option.splits access.splits)
  from used_update [OF True this, of m] d True show ?thesis by (simp add: memory_step_def)
next
  case False
  then show ?thesis using assms by (simp add: memory_step_def)
qed

lemma memory_step_inv:
  assumes "memory_inv y" "small_transfer a" "set (allocates a) \<inter> used_blocks y = {}"
  shows "\<exists>y'. memory_step a y = Some y' \<and> memory_inv y' \<and> used_blocks y' \<subseteq> set (allocates a) \<union> used_blocks y"
proof (cases a)
  case (Allocate p b)
  then show ?thesis using memory_step_allocate [OF assms(1), of p b] assms(3) by (simp add: allocates_def)
next
  case (Share i)
  then show ?thesis using memory_step_share [OF assms(1), of i] by (simp add: allocates_def)
next
  case (Read_at i p n)
  then show ?thesis
    using memory_step_read [OF assms(1), of n i p] assms(2) by (simp add: allocates_def small_transfer_def)
next
  case (Write_at i p bs)
  then show ?thesis
    using memory_step_write [OF assms(1), of bs i p] assms(2) by (simp add: allocates_def small_transfer_def)
next
  case (Dispose i)
  then show ?thesis using memory_step_dispose [OF assms(1), of i] by (simp add: allocates_def)
qed

lemma memory_run_inv:
  "memory_inv y \<Longrightarrow> list_all small_transfer as \<Longrightarrow> distinct (concat (map allocates as)) \<Longrightarrow>
     set (concat (map allocates as)) \<inter> used_blocks y = {} \<Longrightarrow> \<exists>y'. memory_run as y = Some y' \<and> memory_inv y'"
proof (induction as arbitrary: y)
  case (Cons a as)
  have "set (allocates a) \<inter> used_blocks y = {}" "small_transfer a" using Cons.prems(2,4) by auto
  from memory_step_inv [OF Cons.prems(1) this(2,1)] obtain y1 where y1: "memory_step a y = Some y1" "memory_inv y1"
    "used_blocks y1 \<subseteq> set (allocates a) \<union> used_blocks y" by blast
  have "set (concat (map allocates as)) \<inter> used_blocks y1 = {}" using y1(3) Cons.prems(3,4) by auto
  then show ?case using Cons.IH [OF y1(2)] Cons.prems(2,3) y1(1) by simp
qed simp

lemma no_memory_inv: "memory_inv no_memory"
  by (simp add: memory_inv_def no_memory_def counted_def)


definition sharing_run :: "memory_action list" where
  "sharing_run = [Allocate 7 [0, 0, 0, 0, 0, 0], Share 0, Dispose 0, Write_at 1 0 [1, 2, 3, 4, 5], Read_at 1 1 10,
     Share 0, Dispose 1, Dispose 1, Dispose 2, Read_at 2 0 4]"


text \<open>
  A disposed stream is shared by its address: when the address has been handed out again, the new
  stream has the old size, and reading it leaves the new block.
\<close>

lemma reused_address_undefined:
  "memory_run [Allocate 7 [1, 2, 3, 4, 5], Dispose 0, Allocate 7 [1], Share 0, Read_at 2 0 5] no_memory = None"
  by (simp add: no_memory_def memory_step_def new_memory_def share_memory_def count_instance_def PointerDisposed_def
      memory_dispose_def free_block_def memory_seek_def memory_read_def transfer_count_def)

text \<open>Setting the position is not checked: before the block, a read is undefined.\<close>

lemma negative_position_undefined:
  "memory_read (snd (new_memory 7 [1, 2, 3, 4] \<lparr>blocks = Map.empty, InstanceCount = Map.empty\<rparr>)) 1 1
     ((fst (new_memory 7 [1, 2, 3, 4] \<lparr>blocks = Map.empty, InstanceCount = Map.empty\<rparr>))\<lparr>CurrentPointer := -1\<rparr>) = Undefined"
  by (simp add: new_memory_def share_memory_def count_instance_def memory_read_def transfer_count_def)

end
