(* ===== verification/Request_Limits.thy ===== *)
theory Request_Limits
  imports DPI_Prelude
begin

text \<open>
  The limit on the console's connections in \<^verbatim>\<open>Cache\<close> of Host/PS4Server.cs and \<^verbatim>\<open>Decompress\<close> of
  Host/DecompressService.cs: a request that starts far beyond what is ready is refused while
  another one of the console for the same file is open. Requests that open and close, in any
  order; each change of the count is one step.
\<close>

record request =
  instance_id :: string
  from_console :: bool

record limiter =
  Instances :: "string \<Rightarrow> int option"
  open_requests :: "request list"

definition MaxSkipBufferSize :: int where
  "MaxSkipBufferSize = 1024 * 1024 * 100"

datatype limit_answer = Too_many_requests | Accepted | Open_failed

definition instances_of :: "string \<Rightarrow> limiter \<Rightarrow> int" where
  "instances_of i l = (case Instances l i of None \<Rightarrow> 0 | Some k \<Rightarrow> k)"

definition add_instances :: "int \<Rightarrow> string \<Rightarrow> limiter \<Rightarrow> limiter" where
  "add_instances d i l = l\<lparr>Instances := (Instances l)(i \<mapsto> instances_of i l + d)\<rparr>"

text \<open>
  A request for the bytes from \<open>start\<close> on when \<open>ready\<close> bytes are there; the stream may fail to open,
  which in \<^verbatim>\<open>Decompress\<close> happens before the block that takes the count back.
\<close>

definition open_request :: "int \<Rightarrow> int \<Rightarrow> bool \<Rightarrow> request \<Rightarrow> limiter \<Rightarrow> limit_answer \<times> limiter" where
  "open_request start ready opens r l =
     (let l = (if from_console r then add_instances 1 (instance_id r) l else l);
          seek = (ready + MaxSkipBufferSize < start)
      in if from_console r \<and> seek \<and> 1 < instances_of (instance_id r) l
         then (Too_many_requests, add_instances (- 1) (instance_id r) l)
         else if \<not> opens then (Open_failed, l)
         else (Accepted, l\<lparr>open_requests := open_requests l @ [r]\<rparr>))"

definition close_request :: "nat \<Rightarrow> limiter \<Rightarrow> limiter" where
  "close_request i l =
     (if length (open_requests l) \<le> i then l
      else
        let r = open_requests l ! i;
            l = l\<lparr>open_requests := take i (open_requests l) @ drop (Suc i) (open_requests l)\<rparr>
        in if from_console r then add_instances (- 1) (instance_id r) l else l)"

definition console_requests :: "string \<Rightarrow> limiter \<Rightarrow> nat" where
  "console_requests i l = length (filter (\<lambda>r. from_console r \<and> instance_id r = i) (open_requests l))"

inductive limiter_reachable :: "limiter \<Rightarrow> bool" where
  start: "limiter_reachable \<lparr>Instances = Map.empty, open_requests = []\<rparr>"
| opened: "limiter_reachable l \<Longrightarrow> limiter_reachable (snd (open_request s n True r l))"
| closed: "limiter_reachable l \<Longrightarrow> limiter_reachable (close_request i l)"

lemma instances_add [simp]: "instances_of j (add_instances d i l) = instances_of j l + (if i = j then d else 0)"
  by (simp add: instances_of_def add_instances_def)

lemma open_add [simp]: "open_requests (add_instances d i l) = open_requests l"
  by (simp add: add_instances_def)

text \<open>While streams open, the counts are the console's open requests.\<close>

lemma instances_counted: "limiter_reachable l \<Longrightarrow> instances_of i l = int (console_requests i l)"
proof (induction rule: limiter_reachable.induct)
  case start
  show ?case by (simp add: instances_of_def console_requests_def)
next
  case (opened l s n r)
  then show ?case
    by (auto simp: open_request_def console_requests_def instances_of_def add_instances_def Let_def)
next
  case (closed l k)
  show ?case
  proof (cases "k < length (open_requests l)")
    case True
    have "console_requests i l = length (filter (\<lambda>r. from_console r \<and> instance_id r = i)
        (take k (open_requests l) @ drop (Suc k) (open_requests l)))
      + (if from_console (open_requests l ! k) \<and> instance_id (open_requests l ! k) = i then 1 else 0)"
      unfolding console_requests_def by (rule filter_remove [OF True])
    then show ?thesis
      using True closed.IH by (auto simp: close_request_def console_requests_def instances_of_def add_instances_def Let_def)
  next
    case False
    then show ?thesis using closed.IH by (simp add: close_request_def)
  qed
qed

text \<open>Refused is exactly a far request of the console while another of its requests is open.\<close>

lemma refused_iff:
  assumes "limiter_reachable l"
  shows "fst (open_request s n opens r l) = Too_many_requests
    \<longleftrightarrow> from_console r \<and> n + MaxSkipBufferSize < s \<and> 0 < console_requests (instance_id r) l"
  using instances_counted [OF assms, of "instance_id r"] by (auto simp: open_request_def Let_def)

text \<open>A stream that fails to open leaves its count behind: from then on the console's only request is refused.\<close>

lemma failed_open_leaks:
  assumes "limiter_reachable l" "console_requests i l = 0"
  shows "fst (open_request (MaxSkipBufferSize + 1) 0 True \<lparr>instance_id = i, from_console = True\<rparr>
      (snd (open_request 0 0 False \<lparr>instance_id = i, from_console = True\<rparr> l))) = Too_many_requests"
  using instances_counted [OF assms(1), of i] assms(2)
  by (simp add: open_request_def MaxSkipBufferSize_def Let_def)

end
