(* ===== verification/Payload_Service.thy ===== *)
theory Payload_Service
  imports Host_Protocol "HOL-Library.Multiset"
begin

text \<open>
  Host/PayloadService.cs: the service that injects the payload, accepts its connections and sends a
  package over one of them. The state is the fields of the class, its sockets, and the payloads on
  the console, each of which connects, reads one message and closes the connection (\<^verbatim>\<open>get_pkg_info\<close>,
  Payload/info.c). Everything that may happen between two awaits is an action, taken in any order.
\<close>

section \<open>Sockets\<close>

text \<open>
  The bytes of a message are those of \<open>pkg_info_buffer\<close> and \<open>exit_buffer\<close>. A message for a peer that
  has closed the connection is accepted and lost, and the peer answers with a reset; only the send
  after that fails, and \<^verbatim>\<open>Connected\<close> is the state of the last operation.
\<close>

datatype message = Package pkg_msg | Exit_command

definition message_bytes :: "message \<Rightarrow> u8 list" where
  "message_bytes x = (case x of Package m \<Rightarrow> pkg_info_buffer m | Exit_command \<Rightarrow> exit_buffer)"

datatype peer_state = Peer_open | Peer_closed | Peer_reset

record sock =
  inbox :: "message list"
  peer_end :: peer_state
  Connected :: bool

definition new_sock :: sock where
  "new_sock = \<lparr>inbox = [], peer_end = Peer_open, Connected = True\<rparr>"

definition socket_send :: "message \<Rightarrow> sock \<Rightarrow> sock" where
  "socket_send x k =
     (case peer_end k of
        Peer_open \<Rightarrow> k\<lparr>inbox := inbox k @ [x]\<rparr>
      | Peer_closed \<Rightarrow> k\<lparr>peer_end := Peer_reset\<rparr>
      | Peer_reset \<Rightarrow> k\<lparr>Connected := False\<rparr>)"

section \<open>The service\<close>

text \<open>\<open>PayloadSocket\<close> is the connection to the console's loader, \<open>pending\<close> a package whose sender waits.\<close>

datatype payload_state = Connecting | Reading nat | Ended

record service =
  ServiceSocket :: bool
  PayloadSocket :: bool
  ClientRunning :: bool
  ServerRunning :: bool
  Queue :: "nat list"
  pending :: "pkg_msg option"
  sent :: "pkg_msg list"
  socks :: "nat \<Rightarrow> sock"
  next_sock :: nat
  backlog :: "nat list"
  payloads :: "payload_state list"
  received :: "pkg_msg list"

text \<open>Which ports of the console answer, at the first try and at the second, and the injection.\<close>

record injection =
  answers :: "bool \<Rightarrow> nat \<Rightarrow> bool"
  image :: "u8 list"
  host_ip :: "u8 list"
  local_port :: u16
  all_sent :: bool

definition TryConnectSocket :: "injection \<Rightarrow> bool" where
  "TryConnectSocket env =
     (list_ex (answers env True) [9090, 9021, 9020] \<or> list_ex (answers env False) [9090, 9021, 9020])"

definition EnsureServer :: "injection \<Rightarrow> service \<Rightarrow> bool \<times> service" where
  "EnsureServer env s =
     (let s = (if ServerRunning s then s else s\<lparr>ServiceSocket := True, ServerRunning := True\<rparr>)
      in if PayloadSocket s then (True, s)
         else if TryConnectSocket env then (True, s\<lparr>PayloadSocket := True\<rparr>)
         else (False, s))"

definition EnsureClient :: "injection \<Rightarrow> service \<Rightarrow> bool \<times> service" where
  "EnsureClient env s =
     (if ClientRunning s then (True, s)
      else if \<not> ServiceSocket s then (False, s)
      else if \<not> PayloadSocket s then (False, s)
      else case patch_payload (image env) (host_ip env) (local_port env) of
        None \<Rightarrow> (False, s)
      | Some img \<Rightarrow>
          if all_sent env then (True, s\<lparr>PayloadSocket := False, payloads := payloads s @ [Connecting]\<rparr>)
          else (False, s\<lparr>PayloadSocket := False\<rparr>))"

text \<open>\<^verbatim>\<open>SendPKGPayload\<close> up to its waiting loop, its end when a connection is there, and after ten seconds.\<close>

definition begin_send :: "injection \<Rightarrow> pkg_msg \<Rightarrow> service \<Rightarrow> service" where
  "begin_send env m s =
     (if pending s \<noteq> None then s
      else case EnsureServer env s of (ok, s) \<Rightarrow>
        if \<not> ok then s
        else case EnsureClient env s of (ok, s) \<Rightarrow> if ok then s\<lparr>pending := Some m\<rparr> else s)"

definition ReturnToQueue :: "nat \<Rightarrow> service \<Rightarrow> service" where
  "ReturnToQueue c s =
     (if Connected (socks s c) then s\<lparr>Queue := Queue s @ [c], ClientRunning := True\<rparr>
      else s\<lparr>ClientRunning := Queue s \<noteq> []\<rparr>)"

definition send_on :: "message \<Rightarrow> nat \<Rightarrow> service \<Rightarrow> service" where
  "send_on x c s = s\<lparr>socks := (socks s)(c := socket_send x (socks s c))\<rparr>"

definition finish_send :: "service \<Rightarrow> service" where
  "finish_send s =
     (case (pending s, Queue s) of
        (Some m, c # q) \<Rightarrow>
          let s = s\<lparr>Queue := q, ClientRunning := q \<noteq> []\<rparr>;
              s = ReturnToQueue c (send_on (Package m) c s)
          in s\<lparr>pending := None, sent := sent s @ [m]\<rparr>
      | _ \<Rightarrow> s)"

definition give_up :: "service \<Rightarrow> service" where
  "give_up s =
     (if pending s \<noteq> None \<and> Queue s = []
      then s\<lparr>ServiceSocket := False, ServerRunning := False, pending := None, backlog := []\<rparr> else s)"

text \<open>A round of \<^verbatim>\<open>ServerLoop\<close>; without a connection it times out.\<close>

definition accept_connection :: "service \<Rightarrow> service" where
  "accept_connection s =
     (if \<not> ServerRunning s then s
      else case backlog s of
        [] \<Rightarrow> s\<lparr>ClientRunning := Queue s \<noteq> []\<rparr>
      | c # b \<Rightarrow> s\<lparr>backlog := b, Queue := Queue s @ [c], ClientRunning := True\<rparr>)"

text \<open>\<^verbatim>\<open>StopServer\<close>, which no package waits for: the loop ends, and every connection gets the exit command.\<close>

definition StopServer :: "service \<Rightarrow> service" where
  "StopServer s =
     (if \<not> ServerRunning s \<or> pending s \<noteq> None then s
      else (fold (send_on Exit_command) (Queue s)
              (s\<lparr>ServerRunning := False, ServiceSocket := False, backlog := []\<rparr>))
             \<lparr>Queue := [], ClientRunning := False\<rparr>)"

section \<open>The payloads\<close>

text \<open>
  A payload connects when the service listens and ends when it does not. It reads one message and
  closes the connection, which resets it when more has arrived; then it connects again, unless the
  message was the exit command or registering the package failed.
\<close>

definition payload_connects :: "nat \<Rightarrow> service \<Rightarrow> service" where
  "payload_connects i s =
     (if i < length (payloads s) \<and> payloads s ! i = Connecting then
        (if ServiceSocket s
         then s\<lparr>socks := (socks s)(next_sock s := new_sock), next_sock := Suc (next_sock s),
                backlog := backlog s @ [next_sock s], payloads := (payloads s)[i := Reading (next_sock s)]\<rparr>
         else s\<lparr>payloads := (payloads s)[i := Ended]\<rparr>)
      else s)"

definition payload_close :: "sock \<Rightarrow> sock" where
  "payload_close k = k\<lparr>inbox := [], peer_end := if tl (inbox k) = [] then Peer_closed else Peer_reset\<rparr>"

definition payload_reads :: "nat \<Rightarrow> bool \<Rightarrow> service \<Rightarrow> service" where
  "payload_reads i goes_on s =
     (if length (payloads s) \<le> i then s
      else case payloads s ! i of
        Reading c \<Rightarrow>
          (case inbox (socks s c) of
             [] \<Rightarrow> s
           | Exit_command # _ \<Rightarrow>
               s\<lparr>socks := (socks s)(c := payload_close (socks s c)), payloads := (payloads s)[i := Ended]\<rparr>
           | Package m # _ \<Rightarrow>
               s\<lparr>socks := (socks s)(c := payload_close (socks s c)), received := received s @ [m],
                 payloads := (payloads s)[i := if goes_on then Connecting else Ended]\<rparr>)
      | _ \<Rightarrow> s)"

text \<open>
  This is what \<open>get_pkg_info\<close> does on a connection that brings one message: it returns 0 with the
  package, or 1, and the connection is closed.
\<close>

lemma message_read:
  assumes "0 \<le> socket_ret n" "0 \<le> connect_ret n" "open_ok n" "wr_ok n" and "rx n = [Data (message_bytes x)]"
  shows "x = Package m \<Longrightarrow> msg_fits m \<Longrightarrow> \<exists>fr n'. get_pkg_info C params n = Some (0, filled_params params (m_size m), fr, n')
      \<and> url fr = padded 0x800 (m_url m) \<and> \<not> sock_open n'"
    and "x = Exit_command \<Longrightarrow> \<exists>fr n'. get_pkg_info C params n = Some (1, params, fr, n') \<and> \<not> sock_open n'"
proof -
  assume x: "x = Package m" "msg_fits m"
  then have "rx n = Data (pkg_info_header m @ m_icon m) # []" "m_icon m = m_icon m @ rx_bytes []" "rx_clean []"
    using assms(5) by (simp_all add: message_bytes_def pkg_info_buffer_def)
  from get_pkg_info_receives [OF assms(1-4) x(2) this(1,3,2)]
  show "\<exists>fr n'. get_pkg_info C params n = Some (0, filled_params params (m_size m), fr, n')
      \<and> url fr = padded 0x800 (m_url m) \<and> \<not> sock_open n'"
    by blast
next
  assume "x = Exit_command"
  then have "rx n = Data exit_buffer # []" using assms(5) by (simp add: message_bytes_def)
  from get_pkg_info_exits [OF assms(1,2) this, of C params]
  show "\<exists>fr n'. get_pkg_info C params n = Some (1, params, fr, n') \<and> \<not> sock_open n'" by blast
qed

datatype service_action =
    Begin_send injection pkg_msg
  | Finish_send
  | Give_up
  | Accept_connection
  | Stop_server
  | Payload_connects nat
  | Payload_reads nat bool

fun service_step :: "service_action \<Rightarrow> service \<Rightarrow> service" where
  "service_step (Begin_send env m) s = begin_send env m s"
| "service_step Finish_send s = finish_send s"
| "service_step Give_up s = give_up s"
| "service_step Accept_connection s = accept_connection s"
| "service_step Stop_server s = StopServer s"
| "service_step (Payload_connects i) s = payload_connects i s"
| "service_step (Payload_reads i goes_on) s = payload_reads i goes_on s"

definition idle_service :: service where
  "idle_service = \<lparr>ServiceSocket = False, PayloadSocket = False, ClientRunning = False, ServerRunning = False,
     Queue = [], pending = None, sent = [], socks = \<lambda>_. new_sock, next_sock = 0, backlog = [], payloads = [],
     received = []\<rparr>"

definition service_run :: "service_action list \<Rightarrow> service" where
  "service_run as = fold service_step as idle_service"

section \<open>Nothing is invented\<close>

fun packages_in :: "message list \<Rightarrow> pkg_msg list" where
  "packages_in [] = []"
| "packages_in (Package m # xs) = m # packages_in xs"
| "packages_in (Exit_command # xs) = packages_in xs"

lemma packages_in_append [simp]: "packages_in (xs @ ys) = packages_in xs @ packages_in ys"
  by (induction xs rule: packages_in.induct) simp_all

definition in_flight :: "service \<Rightarrow> pkg_msg multiset" where
  "in_flight s = (\<Sum>c<next_sock s. mset (packages_in (inbox (socks s c))))"

text \<open>
  What was received or is on its way was sent; the queues hold sockets that exist, none of them
  twice; and a payload reads a socket that exists.
\<close>

definition service_inv :: "service \<Rightarrow> bool" where
  "service_inv s \<longleftrightarrow>
     mset (received s) + in_flight s \<subseteq># mset (sent s)
     \<and> distinct (Queue s @ backlog s) \<and> (\<forall>c \<in> set (Queue s @ backlog s). c < next_sock s)
     \<and> (\<forall>c. Reading c \<in> set (payloads s) \<longrightarrow> c < next_sock s)"

lemma sum_update:
  fixes f :: "'a \<Rightarrow> 'b::comm_monoid_add" and c n :: nat
  assumes "c < n"
  shows "(\<Sum>d<n. f ((g(c := k)) d)) + f (g c) = (\<Sum>d<n. f (g d)) + f k"
  using assms
proof (induction n)
  case (Suc n)
  show ?case
  proof (cases "c = n")
    case True
    then have "(\<Sum>d<n. f ((g(c := k)) d)) = (\<Sum>d<n. f (g d))" by (intro sum.cong) auto
    then show ?thesis using True by (simp add: ac_simps)
  next
    case False
    then have "(\<Sum>d<n. f ((g(c := k)) d)) + f (g c) = (\<Sum>d<n. f (g d)) + f k" using Suc by simp
    then have "(\<Sum>d<n. f ((g(c := k)) d)) + f (g c) + f (g n) = (\<Sum>d<n. f (g d)) + f k + f (g n)"
      by (rule arg_cong)
    then show ?thesis using False by (simp add: ac_simps)
  qed
qed simp

lemma in_flight_update:
  assumes "c < next_sock s"
  shows "in_flight (s\<lparr>socks := (socks s)(c := k)\<rparr>) + mset (packages_in (inbox (socks s c)))
    = in_flight s + mset (packages_in (inbox k))"
  using sum_update [OF assms, of "\<lambda>k. mset (packages_in (inbox k))"] by (simp add: in_flight_def)

lemma in_flight_same [simp]:
  "in_flight (s\<lparr>Queue := q\<rparr>) = in_flight s" "in_flight (s\<lparr>ClientRunning := b\<rparr>) = in_flight s"
  "in_flight (s\<lparr>ServerRunning := b\<rparr>) = in_flight s" "in_flight (s\<lparr>ServiceSocket := b\<rparr>) = in_flight s"
  "in_flight (s\<lparr>PayloadSocket := b\<rparr>) = in_flight s" "in_flight (s\<lparr>pending := p\<rparr>) = in_flight s"
  "in_flight (s\<lparr>sent := ms\<rparr>) = in_flight s" "in_flight (s\<lparr>received := ms\<rparr>) = in_flight s"
  "in_flight (s\<lparr>backlog := q\<rparr>) = in_flight s" "in_flight (s\<lparr>payloads := ps\<rparr>) = in_flight s"
  by (simp_all add: in_flight_def)

lemma in_flight_send:
  assumes "c < next_sock s"
  shows "in_flight (send_on (Package m) c s) \<subseteq># in_flight s + {#m#}"
    and "in_flight (send_on Exit_command c s) = in_flight s"
proof -
  have "in_flight (send_on (Package m) c s) + mset (packages_in (inbox (socks s c)))
      \<subseteq># in_flight s + {#m#} + mset (packages_in (inbox (socks s c)))"
    unfolding send_on_def in_flight_update [OF assms]
    by (simp add: socket_send_def split: peer_state.split)
  then show "in_flight (send_on (Package m) c s) \<subseteq># in_flight s + {#m#}"
    by (rule subset_mset.add_le_imp_le_right)
  have "in_flight (send_on Exit_command c s) + mset (packages_in (inbox (socks s c)))
      = in_flight s + mset (packages_in (inbox (socks s c)))"
    unfolding send_on_def in_flight_update [OF assms]
    by (simp add: socket_send_def split: peer_state.split)
  then show "in_flight (send_on Exit_command c s) = in_flight s" by simp
qed

lemma send_on_fields [simp]:
  "Queue (send_on x c s) = Queue s" "backlog (send_on x c s) = backlog s" "next_sock (send_on x c s) = next_sock s"
  "payloads (send_on x c s) = payloads s" "ServiceSocket (send_on x c s) = ServiceSocket s" "received (send_on x c s) = received s" "sent (send_on x c s) = sent s"
  by (simp_all add: send_on_def)

lemma fold_send_fields [simp]:
  "Queue (fold (send_on x) q s) = Queue s" "backlog (fold (send_on x) q s) = backlog s"
  "next_sock (fold (send_on x) q s) = next_sock s" "payloads (fold (send_on x) q s) = payloads s"
  "ServiceSocket (fold (send_on x) q s) = ServiceSocket s"
  "received (fold (send_on x) q s) = received s" "sent (fold (send_on x) q s) = sent s"
  by (induction q arbitrary: s) simp_all

lemma in_flight_fold:
  "\<forall>c \<in> set q. c < next_sock s \<Longrightarrow> in_flight (fold (send_on Exit_command) q s) = in_flight s"
  by (induction q arbitrary: s) (simp_all add: in_flight_send)

lemma EnsureServer_inv: "service_inv s \<Longrightarrow> service_inv (snd (EnsureServer env s))"
  by (auto simp: EnsureServer_def service_inv_def Let_def)

lemma EnsureClient_inv: "service_inv s \<Longrightarrow> service_inv (snd (EnsureClient env s))"
  by (auto simp: EnsureClient_def service_inv_def split: option.split)

lemma begin_send_inv: "service_inv s \<Longrightarrow> service_inv (begin_send env m s)"
  using EnsureServer_inv [of s env] EnsureClient_inv [of "snd (EnsureServer env s)" env]
  by (auto simp: begin_send_def service_inv_def split: prod.splits)

lemma finish_send_inv:
  assumes "service_inv s"
  shows "service_inv (finish_send s)"
proof (cases "pending s = None \<or> Queue s = []")
  case True
  then show ?thesis using assms by (auto simp: finish_send_def split: list.split option.split)
next
  case False
  then obtain m c q where mq: "pending s = Some m" "Queue s = c # q" by (auto simp: neq_Nil_conv)
  define t where "t = send_on (Package m) c (s\<lparr>Queue := q, ClientRunning := q \<noteq> []\<rparr>)"
  have f: "finish_send s = (ReturnToQueue c t)\<lparr>pending := None, sent := sent s @ [m]\<rparr>"
    using mq by (simp add: finish_send_def t_def ReturnToQueue_def)
  have c: "c < next_sock s" using assms mq(2) by (simp add: service_inv_def)
  have "in_flight t \<subseteq># in_flight s + {#m#}"
    unfolding t_def using in_flight_send(1) [of c "s\<lparr>Queue := q, ClientRunning := q \<noteq> []\<rparr>" m] c by simp
  then have "mset (received s) + in_flight t \<subseteq># mset (received s) + in_flight s + {#m#}"
    by (simp add: add.assoc)
  also have "\<dots> \<subseteq># mset (sent s) + {#m#}" using assms by (simp add: service_inv_def)
  finally have "mset (received s) + in_flight t \<subseteq># mset (sent s @ [m])" by simp
  moreover have "in_flight (finish_send s) = in_flight t" by (simp add: f ReturnToQueue_def)
  ultimately show ?thesis
    using assms mq(2) by (auto simp: service_inv_def f ReturnToQueue_def t_def)
qed

lemma payload_connects_inv: "service_inv s \<Longrightarrow> service_inv (payload_connects i s)"
proof -
  assume s: "service_inv s"
  have "in_flight (s\<lparr>socks := (socks s)(next_sock s := new_sock), next_sock := Suc (next_sock s)\<rparr>) = in_flight s"
  proof -
    have "(\<Sum>c<next_sock s. mset (packages_in (inbox (((socks s)(next_sock s := new_sock)) c)))) = in_flight s"
      unfolding in_flight_def by (intro sum.cong) auto
    then show ?thesis by (simp add: in_flight_def new_sock_def)
  qed
  then show ?thesis
    using s by (fastforce simp: service_inv_def payload_connects_def less_Suc_eq
        dest: set_update_subset_insert [THEN subsetD])
qed

lemma payload_reads_inv:
  assumes "service_inv s"
  shows "service_inv (payload_reads i goes_on s)"
proof (cases "\<exists>c x xs. i < length (payloads s) \<and> payloads s ! i = Reading c \<and> inbox (socks s c) = x # xs")
  case False
  then have "payload_reads i goes_on s = s"
    by (auto simp: payload_reads_def split: payload_state.split list.split)
  then show ?thesis using assms by simp
next
  case True
  then obtain c x xs where c: "i < length (payloads s)" "payloads s ! i = Reading c" "inbox (socks s c) = x # xs" by blast
  define t where "t = s\<lparr>socks := (socks s)(c := payload_close (socks s c))\<rparr>"
  have "c < next_sock s" using assms c(1,2) by (metis nth_mem service_inv_def)
  from in_flight_update [OF this, of "payload_close (socks s c)"]
  have t: "in_flight t + mset (packages_in (x # xs)) = in_flight s" by (simp add: t_def payload_close_def c(3))
  have sub: "Reading d \<in> set ((payloads s)[i := p]) \<Longrightarrow> p \<noteq> Reading d \<Longrightarrow> Reading d \<in> set (payloads s)" for d p
    by (metis insertE set_update_subset_insert subsetD)
  have le: "mset (received s) + in_flight s \<subseteq># mset (sent s)" using assms by (simp add: service_inv_def)
  show ?thesis
  proof (cases x)
    case (Package m)
    then have r: "payload_reads i goes_on s = t\<lparr>received := received s @ [m],
        payloads := (payloads s)[i := if goes_on then Connecting else Ended]\<rparr>"
      using c by (simp add: payload_reads_def t_def)
    have "mset (received s @ [m]) + in_flight t \<subseteq># mset (received s) + in_flight s"
      by (simp add: t [symmetric] Package)
    then have "mset (received s @ [m]) + in_flight t \<subseteq># mset (sent s)" using le by (rule subset_mset.trans)
    then show ?thesis using assms sub by (auto simp: service_inv_def r t_def split: if_splits)
  next
    case Exit_command
    then have r: "payload_reads i goes_on s = t\<lparr>payloads := (payloads s)[i := Ended]\<rparr>"
      using c by (simp add: payload_reads_def t_def)
    have "mset (received s) + in_flight t \<subseteq># mset (received s) + in_flight s"
      using t by (metis mset_subset_eq_add_left subset_mset.add_left_mono)
    then have "mset (received s) + in_flight t \<subseteq># mset (sent s)" using le by (rule subset_mset.trans)
    then show ?thesis using assms sub by (auto simp: service_inv_def r t_def)
  qed
qed

lemma give_up_inv: "service_inv s \<Longrightarrow> service_inv (give_up s)"
  by (auto simp: service_inv_def give_up_def)

lemma accept_connection_inv: "service_inv s \<Longrightarrow> service_inv (accept_connection s)"
  by (auto simp: service_inv_def accept_connection_def split: list.split)

lemma service_step_inv: "service_inv s \<Longrightarrow> service_inv (service_step a s)"
proof (cases a)
  case Stop_server
  assume s: "service_inv s"
  define t where "t = s\<lparr>ServerRunning := False, ServiceSocket := False, backlog := []\<rparr>"
  have "in_flight (fold (send_on Exit_command) (Queue s) t) = in_flight s"
    using in_flight_fold [of "Queue s" t] s by (simp add: service_inv_def t_def)
  then show ?thesis using s by (auto simp: Stop_server StopServer_def service_inv_def t_def)
qed (simp_all add: begin_send_inv finish_send_inv payload_connects_inv payload_reads_inv give_up_inv accept_connection_inv)

lemma service_run_inv: "service_inv (service_run as)"
proof -
  have "service_inv s \<Longrightarrow> service_inv (fold service_step as s)" for s
    by (induction as arbitrary: s) (simp_all add: service_step_inv)
  moreover have "service_inv idle_service" by (simp add: service_inv_def idle_service_def in_flight_def new_sock_def)
  ultimately show ?thesis by (simp add: service_run_def)
qed


section \<open>Stopping\<close>

lemma socks_fold_send:
  "distinct q \<Longrightarrow> socks (fold (send_on x) q s) c = (if c \<in> set q then socket_send x (socks s c) else socks s c)"
  by (induction q arbitrary: s) (auto simp: send_on_def)

text \<open>Stopping the service ends a payload that waits on an accepted connection.\<close>

lemma stop_ends_payload:
  assumes "service_inv s" "ServerRunning s" "pending s = None"
    and "i < length (payloads s)" "payloads s ! i = Reading c" "c \<in> set (Queue s)"
    and "inbox (socks s c) = []" "peer_end (socks s c) = Peer_open"
  shows "payloads (payload_reads i goes_on (StopServer s)) ! i = Ended" and "Queue (StopServer s) = []"
proof -
  have "distinct (Queue s)" using assms(1) by (simp add: service_inv_def)
  then have "inbox (socks (StopServer s) c) = [Exit_command]"
    using assms(2,3,6-8) by (simp add: StopServer_def socks_fold_send socket_send_def)
  moreover have "payloads (StopServer s) = payloads s" using assms(2,3) by (simp add: StopServer_def)
  ultimately show "payloads (payload_reads i goes_on (StopServer s)) ! i = Ended"
    using assms(4,5) by (simp add: payload_reads_def)
  show "Queue (StopServer s) = []" using assms(2,3) by (simp add: StopServer_def)
qed

text \<open>A connection that still holds a package is closed behind it: the exit command is lost, and the payload
  finds no service when it connects again.\<close>

lemma stop_behind_package:
  assumes "service_inv s" "ServerRunning s" "pending s = None"
    and "i < length (payloads s)" "payloads s ! i = Reading c" "c \<in> set (Queue s)"
    and "inbox (socks s c) = [Package m]" "peer_end (socks s c) = Peer_open"
  shows "payloads (payload_reads i True (StopServer s)) ! i = Connecting"
    and "payloads (payload_connects i (payload_reads i True (StopServer s))) ! i = Ended"
proof -
  have "distinct (Queue s)" using assms(1) by (simp add: service_inv_def)
  then have "inbox (socks (StopServer s) c) = [Package m, Exit_command]"
    using assms(2,3,6-8) by (simp add: StopServer_def socks_fold_send socket_send_def)
  moreover have "payloads (StopServer s) = payloads s" "\<not> ServiceSocket (StopServer s)"
    using assms(2,3) by (simp_all add: StopServer_def)
  ultimately show "payloads (payload_reads i True (StopServer s)) ! i = Connecting"
    "payloads (payload_connects i (payload_reads i True (StopServer s))) ! i = Ended"
    using assms(4,5) by (simp_all add: payload_reads_def payload_connects_def)
qed

section \<open>One package after the other\<close>

text \<open>A package as the program sends it: the payload connects and is accepted while the sender waits, and reads.\<close>

definition package_round :: "injection \<Rightarrow> pkg_msg \<Rightarrow> service_action list" where
  "package_round env m = [Begin_send env m, Payload_connects 0, Accept_connection, Finish_send, Payload_reads 0 True]"

definition injects :: "injection \<Rightarrow> bool" where
  "injects env \<longleftrightarrow> TryConnectSocket env \<and> patch_payload (image env) (host_ip env) (local_port env) \<noteq> None \<and> all_sent env"

abbreviation after_package :: "injection \<Rightarrow> service \<Rightarrow> pkg_msg \<Rightarrow> service" where
  "after_package env s m \<equiv> fold service_step (package_round env m) s"

text \<open>
  From the third package on, two connections are in the queue that the payload has closed, the first
  of them reset by an earlier send.
\<close>

definition two_stale :: "service \<Rightarrow> bool" where
  "two_stale s \<longleftrightarrow>
     (\<exists>a b. Queue s = [a, b] \<and> a \<noteq> b \<and> a < next_sock s \<and> b < next_sock s
        \<and> socks s a = \<lparr>inbox = [], peer_end = Peer_reset, Connected = True\<rparr>
        \<and> socks s b = \<lparr>inbox = [], peer_end = Peer_closed, Connected = True\<rparr>)
     \<and> payloads s = [Connecting] \<and> ServiceSocket s \<and> ServerRunning s \<and> ClientRunning s \<and> PayloadSocket s
     \<and> backlog s = [] \<and> pending s = None"

lemmas round_defs = package_round_def begin_send_def EnsureServer_def EnsureClient_def payload_connects_def
  accept_connection_def finish_send_def send_on_def socket_send_def ReturnToQueue_def payload_reads_def
  payload_close_def new_sock_def

lemma three_rounds:
  assumes "two_stale s"
  shows "sent (after_package env s x) = sent s @ [x]" "received (after_package env s x) = received s"
    and "sent (after_package env (after_package env s x) y) = sent s @ [x, y]"
    and "received (after_package env (after_package env s x) y) = received s"
    and "sent (after_package env (after_package env (after_package env s x) y) z) = sent s @ [x, y, z]"
    and "received (after_package env (after_package env (after_package env s x) y) z) = received s @ [z]"
    and "two_stale (after_package env (after_package env (after_package env s x) y) z)"
proof -
  obtain a b where ab: "Queue s = [a, b]" "a \<noteq> b" "a < next_sock s" "b < next_sock s"
    "socks s a = \<lparr>inbox = [], peer_end = Peer_reset, Connected = True\<rparr>"
    "socks s b = \<lparr>inbox = [], peer_end = Peer_closed, Connected = True\<rparr>"
    using assms unfolding two_stale_def by blast
  have r: "payloads s = [Connecting]" "ServiceSocket s" "ServerRunning s" "ClientRunning s" "PayloadSocket s"
    "backlog s = []" "pending s = None"
    using assms by (simp_all add: two_stale_def)
  define n where "n = next_sock s"
  have ne: "a \<noteq> n" "b \<noteq> n" "n \<noteq> a" "n \<noteq> b" using ab(3,4) by (auto simp: n_def)
  define s1 where "s1 = s\<lparr>Queue := [b, n], sent := sent s @ [x], next_sock := Suc n, payloads := [Reading n],
     socks := (socks s)(n := new_sock, a := \<lparr>inbox = [], peer_end = Peer_reset, Connected = False\<rparr>)\<rparr>"
  have 1: "after_package env s x = s1"
    using ab r ne by (simp add: round_defs s1_def n_def [symmetric])
  define s2 where "s2 = s1\<lparr>Queue := [n, b], sent := sent s @ [x, y],
     socks := (socks s1)(b := \<lparr>inbox = [], peer_end = Peer_reset, Connected = True\<rparr>)\<rparr>"
  have 2: "after_package env s1 y = s2"
    using ab r ne by (simp add: round_defs s1_def s2_def)
  define s3 where "s3 = s2\<lparr>Queue := [b, n], sent := sent s @ [x, y, z], received := received s @ [z],
     payloads := [Connecting],
     socks := (socks s2)(n := \<lparr>inbox = [], peer_end = Peer_closed, Connected = True\<rparr>)\<rparr>"
  have 3: "after_package env s2 z = s3"
    using ab r ne by (simp add: round_defs s1_def s2_def s3_def)
  show "sent (after_package env s x) = sent s @ [x]" "received (after_package env s x) = received s"
    "sent (after_package env (after_package env s x) y) = sent s @ [x, y]"
    "received (after_package env (after_package env s x) y) = received s"
    "sent (after_package env (after_package env (after_package env s x) y) z) = sent s @ [x, y, z]"
    "received (after_package env (after_package env (after_package env s x) y) z) = received s @ [z]"
    unfolding 1 2 3 by (simp_all add: s1_def s2_def s3_def)
  show "two_stale (after_package env (after_package env (after_package env s x) y) z)"
    unfolding 1 2 3 using ab r ne
    by (auto simp: two_stale_def s1_def s2_def s3_def n_def intro!: exI [of _ b])
qed

fun every_third :: "'a list \<Rightarrow> 'a list" where
  "every_third [] = []"
| "every_third [x] = []"
| "every_third [x, y] = []"
| "every_third (x # y # z # ms) = z # every_third ms"

lemma stale_rounds:
  "two_stale s \<Longrightarrow>
     sent (fold (\<lambda>m s. after_package env s m) ms s) = sent s @ ms
     \<and> received (fold (\<lambda>m s. after_package env s m) ms s) = received s @ every_third ms"
proof (induction ms arbitrary: s rule: every_third.induct)
  case (4 x y z ms)
  note r = three_rounds(5-7) [OF 4(2), where env = env and x = x and y = y and z = z]
  show ?case using 4(1) [OF r(3)] r(1,2) by simp
next
  case (2 x)
  then show ?case using three_rounds(1,2) [where s = s and env = env and x = x] by simp
next
  case (3 x y)
  then show ?case using three_rounds(3,4) [where s = s and env = env and x = x and y = y] by simp
qed simp

lemma first_rounds:
  assumes "injects env"
  shows "sent (after_package env idle_service x) = [x]" "received (after_package env idle_service x) = [x]"
    and "sent (after_package env (after_package env idle_service x) y) = [x, y]"
    and "received (after_package env (after_package env idle_service x) y) = [x]"
    and "sent (after_package env (after_package env (after_package env idle_service x) y) z) = [x, y, z]"
    and "received (after_package env (after_package env (after_package env idle_service x) y) z) = [x, z]"
    and "two_stale (after_package env (after_package env (after_package env idle_service x) y) z)"
proof -
  obtain img where e: "TryConnectSocket env" "all_sent env"
    "patch_payload (image env) (host_ip env) (local_port env) = Some img"
    using assms by (auto simp: injects_def)
  define s1 where "s1 = idle_service\<lparr>ServiceSocket := True, ServerRunning := True, ClientRunning := True, Queue := [0],
     sent := [x], received := [x], next_sock := 1, payloads := [Connecting],
     socks := (\<lambda>_. new_sock)(0 := \<lparr>inbox = [], peer_end = Peer_closed, Connected = True\<rparr>)\<rparr>"
  have 1: "after_package env idle_service x = s1"
    using e by (simp add: round_defs s1_def idle_service_def)
  define s2 where "s2 = s1\<lparr>PayloadSocket := True, Queue := [1, 0], sent := [x, y], next_sock := 2,
     payloads := [Reading 1],
     socks := (socks s1)(1 := new_sock, 0 := \<lparr>inbox = [], peer_end = Peer_reset, Connected = True\<rparr>)\<rparr>"
  have 2: "after_package env s1 y = s2"
    using e by (simp add: round_defs s1_def s2_def idle_service_def)
  define s3 where "s3 = s2\<lparr>Queue := [0, 1], sent := [x, y, z], received := [x, z], payloads := [Connecting],
     socks := (socks s2)(1 := \<lparr>inbox = [], peer_end = Peer_closed, Connected = True\<rparr>)\<rparr>"
  have 3: "after_package env s2 z = s3"
    using e by (simp add: round_defs s1_def s2_def s3_def idle_service_def)
  show "sent (after_package env idle_service x) = [x]" "received (after_package env idle_service x) = [x]"
    "sent (after_package env (after_package env idle_service x) y) = [x, y]"
    "received (after_package env (after_package env idle_service x) y) = [x]"
    "sent (after_package env (after_package env (after_package env idle_service x) y) z) = [x, y, z]"
    "received (after_package env (after_package env (after_package env idle_service x) y) z) = [x, z]"
    "two_stale (after_package env (after_package env (after_package env idle_service x) y) z)"
    unfolding 1 2 3 by (simp_all add: s1_def s2_def s3_def two_stale_def idle_service_def)
qed

definition sample_injection :: injection where
  "sample_injection = \<lparr>answers = \<lambda>_ p. p = 9021, image = placeholder @ replicate 7 0, host_ip = [10, 0, 0, 1],
     local_port = 9898, all_sent = True\<rparr>"

definition numbered_pkg :: "nat \<Rightarrow> pkg_msg" where
  "numbered_pkg n = \<lparr>m_url = [of_nat n], m_name = [], m_id = [], m_type = [], m_size = 0, m_icon = []\<rparr>"

text \<open>C4. Of the packages sent to one payload one after the other, the first, the third and from then on
  every third one arrive, and the others are lost, though all of them count as sent: a connection goes
  back into the queue after the send, while the payload closes it after every package.\<close>

theorem two_of_three_lost:
  assumes "injects env"
  shows "let s = service_run (concat (map (package_round env) ms))
    in sent s = ms \<and> received s = take 1 ms @ every_third ms"
proof -
  have run: "service_run (concat (map (package_round env) ms)) = fold (\<lambda>m s. after_package env s m) ms idle_service"
    for ms
  proof -
    have "fold service_step (concat (map (package_round env) ms)) s = fold (\<lambda>m s. after_package env s m) ms s" for s
      by (induction ms arbitrary: s) simp_all
    then show ?thesis by (simp add: service_run_def)
  qed
  note f = first_rounds [OF assms]
  have "sent (fold (\<lambda>m s. after_package env s m) ms idle_service) = ms
      \<and> received (fold (\<lambda>m s. after_package env s m) ms idle_service) = take 1 ms @ every_third ms"
  proof (cases ms rule: every_third.cases)
    case (4 x y z rest)
    note g = f(5-7) [where x = x and y = y and z = z]
    show ?thesis using stale_rounds [OF g(3), of env rest] g(1,2) by (simp add: 4)
  qed (use f(1-4) in \<open>simp_all add: idle_service_def\<close>)
  then show ?thesis unfolding run Let_def .
qed

theorem two_of_three_lost_witness:
  "received (service_run (concat (map (package_round sample_injection) (map numbered_pkg [1, 2, 3, 4, 5, 6]))))
     = map numbered_pkg [1, 3, 6]"
proof -
  have "TryConnectSocket sample_injection" "all_sent sample_injection"
    by (simp_all add: TryConnectSocket_def sample_injection_def)
  moreover have "patch_payload (image sample_injection) (host_ip sample_injection) (local_port sample_injection) \<noteq> None"
    by code_simp
  ultimately have "injects sample_injection" by (simp add: injects_def)
  from two_of_three_lost [OF this, of "map numbered_pkg [1, 2, 3, 4, 5, 6]"]
  have "received (service_run (concat (map (package_round sample_injection) (map numbered_pkg [1, 2, 3, 4, 5, 6]))))
      = take 1 (map numbered_pkg [1, 2, 3, 4, 5, 6]) @ every_third (map numbered_pkg [1, 2, 3, 4, 5, 6])"
    unfolding Let_def by blast
  also have "\<dots> = map numbered_pkg [1, 3, 6]" by simp
  finally show ?thesis .
qed

text \<open>A payload that has ended leaves its connection in the queue: the next package is sent to it, and none is injected.\<close>

lemma dead_payload_reported:
  assumes "ClientRunning s" "ServerRunning s" "PayloadSocket s" "pending s = None"
    and "Queue s = c # q" "peer_end (socks s c) = Peer_closed" "payloads s = [Ended]"
  shows "sent (finish_send (begin_send env m s)) = sent s @ [m]"
    and "payloads (finish_send (begin_send env m s)) = [Ended]"
    and "received (finish_send (begin_send env m s)) = received s"
  using assms by (simp_all add: begin_send_def EnsureServer_def EnsureClient_def finish_send_def ReturnToQueue_def send_on_def Let_def)

text \<open>A payload that waits for a package gets none while the loader does not answer.\<close>

lemma running_payload_unused:
  assumes "ClientRunning s" "ServerRunning s" "\<not> PayloadSocket s" "pending s = None" "\<not> TryConnectSocket env"
  shows "begin_send env m s = s"
  using assms by (simp add: begin_send_def EnsureServer_def)

end
